(* ===== verification/Prelude.thy ===== *)
theory Prelude
  imports Complex_Main "HOL-Library.Multiset"
begin

text \<open>
  Shared vocabulary of the development: the types of times, byte strings and JSON values, results
  with errors, the fault plan of the database, the list operations that stand for the SQL
  statements embedded in the Go code, and the generic lemmas the components share.

  Times and durations are integers counting nanoseconds (Go's \<^verbatim>\<open>time.Duration\<close> unit). A Go
  string is a byte sequence, so \<^typ>\<open>string\<close> serves for both strings and byte slices.
\<close>

named_theorems row_simps \<open>unfolding of the list operations that stand for SQL statements\<close>
named_theorems inv_intros \<open>every operation keeps the invariants of the tables it writes\<close>

type_synonym time = int
type_synonym bytes = string

abbreviation second :: int where "second \<equiv> 1000000000"
abbreviation minute :: int where "minute \<equiv> 60000000000"
abbreviation hour :: int where "hour \<equiv> 3600000000000"
abbreviation day :: int where "day \<equiv> 86400000000000"

datatype json =
    JNull
  | JBool bool
  | JNum rat
  | JStr string
  | JArr "json list"
  | JObj "(string \<times> json) list"

section \<open>Results and the database fault plan\<close>

text \<open>
  A Go function returning \<^verbatim>\<open>(T, error)\<close> is a sum: \<^const>\<open>Inl\<close> the error, \<^const>\<open>Inr\<close> the value.
  A database round trip can fail at any statement; which ones do is a parameter of every
  operation, the fault plan, a predicate on the names of the statements.
\<close>

type_synonym faults = "string \<Rightarrow> bool"

abbreviation no_faults :: faults where "no_faults \<equiv> (\<lambda>_. False)"

definition and_then :: "'e + 'a \<Rightarrow> ('a \<Rightarrow> 'e + 'b) \<Rightarrow> 'e + 'b" where
  "and_then m f = (case m of Inl e \<Rightarrow> Inl e | Inr x \<Rightarrow> f x)"

definition ensure :: "bool \<Rightarrow> 'e \<Rightarrow> 'e + unit" where
  "ensure b e = (if b then Inr () else Inl e)"

lemma and_then_simps [simp]:
  "and_then (Inl e) f = Inl e" "and_then (Inr x) f = f x"
  by (simp_all add: and_then_def)

lemma and_then_Inr_iff: "and_then m f = Inr y \<longleftrightarrow> (\<exists>x. m = Inr x \<and> f x = Inr y)"
  by (cases m) auto

lemma ensure_Inr_iff [simp]: "ensure b e = Inr u \<longleftrightarrow> b"
  by (simp add: ensure_def)

lemma ensure_simps [simp]: "ensure True e = Inr ()" "ensure False e = Inl e"
  by (simp_all add: ensure_def)

fun is_ok :: "'e + 'a \<Rightarrow> bool" where
  "is_ok (Inl e) = False"
| "is_ok (Inr x) = True"

section \<open>SQL statements on tables kept as lists of rows\<close>

definition update_where :: "('r \<Rightarrow> bool) \<Rightarrow> ('r \<Rightarrow> 'r) \<Rightarrow> 'r list \<Rightarrow> 'r list" where
  "update_where P f rs = map (\<lambda>r. if P r then f r else r) rs"

definition lookup_by :: "('r \<Rightarrow> 'k) \<Rightarrow> 'k \<Rightarrow> 'r list \<Rightarrow> 'r option" where
  "lookup_by key k rs = find (\<lambda>r. key r = k) rs"

definition count_where :: "('r \<Rightarrow> bool) \<Rightarrow> 'r list \<Rightarrow> nat" where
  "count_where P rs = length (filter P rs)"

definition obj_set :: "'k \<Rightarrow> 'v \<Rightarrow> ('k \<times> 'v) list \<Rightarrow> ('k \<times> 'v) list" where
  "obj_set k v ob = (k, v) # filter (\<lambda>p. fst p \<noteq> k) ob"

definition obj_del :: "'k \<Rightarrow> ('k \<times> 'v) list \<Rightarrow> ('k \<times> 'v) list" where
  "obj_del k ob = filter (\<lambda>p. fst p \<noteq> k) ob"

text \<open>
  \<^verbatim>\<open>select k, count(*) ... group by 1\<close> scanned into a Go map; the order of the keys of a JSON object
  carries no meaning.
\<close>

definition count_groups :: "string list \<Rightarrow> (string \<times> json) list" where
  "count_groups ks = map (\<lambda>k. (k, JNum (of_nat (count_where (\<lambda>x. x = k) ks)))) (remdups ks)"

text \<open>A null \<open>published_at\<close> would sort first and not scan into the summary.\<close>

lemma map_of_obj_set [simp]: "map_of (obj_set k v ob) = (map_of ob)(k \<mapsto> v)"
proof -
  have "map_of (filter (\<lambda>p. fst p \<noteq> k) ob) = (map_of ob)(k := None)"
    by (induction ob) (auto simp: fun_eq_iff)
  then show ?thesis by (simp add: obj_set_def)
qed

lemma map_of_obj_del [simp]: "map_of (obj_del k ob) = (map_of ob)(k := None)"
  by (induction ob) (auto simp: obj_del_def fun_eq_iff)

lemma set_update_where: "set (update_where P f rs) = (\<lambda>r. if P r then f r else r) ` set rs"
  by (simp add: update_where_def)

lemma length_update_where [simp]: "length (update_where P f rs) = length rs"
  by (simp add: update_where_def)

lemma update_where_Nil [simp]: "update_where P f [] = []"
  and update_where_Cons [simp]:
    "update_where P f (r # rs) = (if P r then f r else r) # update_where P f rs"
  and update_where_append [simp]:
    "update_where P f (rs @ ss) = update_where P f rs @ update_where P f ss"
  by (simp_all add: update_where_def)

lemma update_where_nth [simp]:
  "i < length rs \<Longrightarrow> update_where P f rs ! i = (if P (rs ! i) then f (rs ! i) else rs ! i)"
  by (simp add: update_where_def)

lemma update_where_none: "(\<And>r. r \<in> set rs \<Longrightarrow> \<not> P r) \<Longrightarrow> update_where P f rs = rs"
  by (induction rs) auto

lemma update_where_proj: "(\<And>r. g (f r) = g r) \<Longrightarrow> map g (update_where P f rs) = map g rs"
  by (induction rs) auto

lemma in_update_where:
  "r' \<in> set (update_where P f rs) \<longleftrightarrow> (\<exists>r \<in> set rs. r' = (if P r then f r else r))"
  by (auto simp: update_where_def)

lemma ball_update_where:
  "(\<forall>r' \<in> set (update_where P f rs). Q r') \<longleftrightarrow> (\<forall>r \<in> set rs. Q (if P r then f r else r))"
  by (induction rs) auto

lemma filter_update_where:
  "filter Q (update_where P f rs) =
     map (\<lambda>r. if P r then f r else r) (filter (\<lambda>r. Q (if P r then f r else r)) rs)"
  by (induction rs) auto

lemma lookup_by_Nil [simp]: "lookup_by key k [] = None"
  and lookup_by_Cons [simp]:
    "lookup_by key k (r # rs) = (if key r = k then Some r else lookup_by key k rs)"
  by (simp_all add: lookup_by_def)

lemma lookup_by_append:
  "lookup_by key k (rs @ ss) =
     (case lookup_by key k rs of None \<Rightarrow> lookup_by key k ss | Some r \<Rightarrow> Some r)"
  by (induction rs) auto

lemma lookup_by_SomeD: "lookup_by key k rs = Some r \<Longrightarrow> r \<in> set rs \<and> key r = k"
  by (induction rs) (auto split: if_splits)

lemma lookup_by_None_iff: "lookup_by key k rs = None \<longleftrightarrow> k \<notin> key ` set rs"
  by (induction rs) auto

lemma lookup_by_unique:
  "distinct (map key rs) \<Longrightarrow> r \<in> set rs \<Longrightarrow> lookup_by key (key r) rs = Some r"
  by (induction rs) auto

lemma count_where_append [simp]: "count_where P (rs @ ss) = count_where P rs + count_where P ss"
  by (simp add: count_where_def)

lemma count_where_simps [simp]:
  "count_where P [] = 0"
  "count_where P (r # rs) = (if P r then Suc (count_where P rs) else count_where P rs)"
  by (simp_all add: count_where_def)

lemma count_where_mono: "(\<And>r. r \<in> set rs \<Longrightarrow> P r \<Longrightarrow> Q r) \<Longrightarrow> count_where P rs \<le> count_where Q rs"
  by (induction rs) (auto simp: le_SucI)

lemma count_where_zero_iff: "count_where P rs = 0 \<longleftrightarrow> (\<forall>r \<in> set rs. \<not> P r)"
  by (induction rs) auto

lemma count_where_map: "count_where P (map f rs) = count_where (P \<circ> f) rs"
  by (induction rs) auto

text \<open>
  An UPDATE that leaves a column alone leaves the whole projection to that column alone; for a
  primary-key column that keeps the key unique and every lookup in place. Each component
  interprets this interface once for every UPDATE it runs.
\<close>

locale row_update =
  fixes key :: "'r \<Rightarrow> 'k" and f :: "'r \<Rightarrow> 'r"
  assumes key_kept: "key (f r) = key r"
begin

lemma keys_kept: "map key (update_where P f rs) = map key rs"
  by (rule update_where_proj) (rule key_kept)

lemma key_set_kept: "key ` set (update_where P f rs) = key ` set rs"
  using keys_kept [of P rs] by (metis set_map)

lemma distinct_kept: "distinct (map key rs) \<Longrightarrow> distinct (map key (update_where P f rs))"
  by (simp add: keys_kept)

lemma lookup_kept:
  "lookup_by key k (update_where P f rs) = map_option (\<lambda>r. if P r then f r else r) (lookup_by key k rs)"
  by (induction rs) (auto simp: key_kept)

end

lemma split_at_separator:
  "x \<notin> set xs \<Longrightarrow> x \<notin> set xs' \<Longrightarrow> xs @ x # ys = xs' @ x # ys' \<longleftrightarrow> xs = xs' \<and> ys = ys'"
proof (induction xs arbitrary: xs')
  case Nil
  then show ?case by (cases xs') auto
next
  case (Cons a xs)
  then show ?case by (cases xs') auto
qed

section \<open>Sorting\<close>

lemma insort_key_snoc: "f y \<le> f x \<Longrightarrow> insort_key f y (zs @ [x]) = insort_key f y zs @ [x]"
  by (induction zs) auto

lemma sort_key_snoc: "(\<And>y. y \<in> set xs \<Longrightarrow> f y \<le> f x) \<Longrightarrow> sort_key f (xs @ [x]) = sort_key f xs @ [x]"
  by (induction xs) (auto simp: insort_key_snoc)

section \<open>Decimal text\<close>

text \<open>Decimal text of a natural number, as Go's \<^verbatim>\<open>%d\<close> and PostgreSQL's concatenation print it.\<close>

fun nat_text :: "nat \<Rightarrow> string" where
  "nat_text n = (if n < 10 then [char_of (48 + n)] else nat_text (n div 10) @ [char_of (48 + n mod 10)])"

declare nat_text.simps [simp del]

definition int_text :: "int \<Rightarrow> string" where
  "int_text i = (if i < 0 then CHR ''-'' # nat_text (nat (- i)) else nat_text (nat i))"

lemma nat_text_not_Nil [simp]: "nat_text n \<noteq> []"
  by (simp add: nat_text.simps)

lemma nat_text_digits: "c \<in> set (nat_text n) \<Longrightarrow> 48 \<le> (of_char c :: nat) \<and> (of_char c :: nat) \<le> 57"
  by (induction n rule: nat_text.induct) (subst (asm) (2) nat_text.simps, auto split: if_split_asm)

section \<open>Cryptographic primitives\<close>

text \<open>
  SHA-256 and Ed25519 are parameters: the fields of a record that the operations take. What a
  property relies on is a named hypothesis on the record: a signature made with a private key
  verifies under its public key (\<open>sig_complete\<close>), and does not verify under another public key
  (\<open>sig_key_bound\<close>).
\<close>

record crypto =
  sha256 :: "bytes \<Rightarrow> bytes"
  ed_public :: "bytes \<Rightarrow> bytes"
  ed_sign :: "bytes \<Rightarrow> bytes \<Rightarrow> bytes"
  ed_verify :: "bytes \<Rightarrow> bytes \<Rightarrow> bytes \<Rightarrow> bool"

definition sig_complete :: "crypto \<Rightarrow> bool" where
  "sig_complete C \<longleftrightarrow> (\<forall>k m. ed_verify C (ed_public C k) m (ed_sign C k m))"

definition sig_key_bound :: "crypto \<Rightarrow> bool" where
  "sig_key_bound C \<longleftrightarrow>
     (\<forall>k p m. p \<noteq> ed_public C k \<longrightarrow> \<not> ed_verify C p m (ed_sign C k m))"

abbreviation public_key_size :: nat where "public_key_size \<equiv> 32"
abbreviation sha256_size :: nat where "sha256_size \<equiv> 32"

section \<open>State machines\<close>

text \<open>
  The interface between a step relation and its invariant: what holds at the start and is kept by
  every step holds in every reachable state.
\<close>

locale invariant_system =
  fixes step :: "'s \<Rightarrow> 's \<Rightarrow> bool" and inv :: "'s \<Rightarrow> bool"
  assumes step_keeps: "inv s \<Longrightarrow> step s t \<Longrightarrow> inv t"
begin

lemma reachable_inv: "step\<^sup>*\<^sup>* s t \<Longrightarrow> inv s \<Longrightarrow> inv t"
  by (induction rule: rtranclp_induct) (auto intro: step_keeps)

end

end
