(* ===== verification/Schema.thy ===== *)
theory Schema
  imports Prelude
begin

text \<open>
  The PostgreSQL schemas of \<^verbatim>\<open>migrations/\<close>: one record per table, one record per schema, and the
  database the services share. A table is the list of its rows in insertion order; an identity
  column draws from the counter kept beside the table. Columns are named as in the migrations,
  with the initial letter of the table in front because record fields are global. Identifiers
  (uuids) are compared as their canonical text.
\<close>

section \<open>registry\<close>

record worker_row =
  w_id :: string
  w_operator_id :: string
  w_name :: string
  w_state :: string
  w_state_reason :: "string option"
  w_software_version :: "string option"
  w_source_asn :: "int option"
  w_enrolled_at :: time
  w_approved_at :: "time option"
  w_retired_at :: "time option"
  w_last_heartbeat_at :: "time option"
  w_config :: "(string \<times> json) list"

record key_row =
  k_id :: nat
  k_worker_id :: string
  k_public_key :: bytes
  k_valid_from :: time
  k_valid_until :: "time option"
  k_revoked_at :: "time option"
  k_revoke_reason :: "string option"

record token_row =
  t_token_hash :: bytes
  t_worker_id :: string
  t_expires_at :: time
  t_used_at :: "time option"

record trust_components =
  availability :: rat
  tenure :: rat
  agreement :: rat
  penalty :: rat

record score_row =
  s_worker_id :: string
  s_score :: rat
  s_components :: trust_components
  s_computed_at :: time

record event_row =
  e_id :: nat
  e_worker_id :: string
  e_event_type :: string
  e_detail :: "(string \<times> json) list"
  e_actor :: string
  e_created_at :: time

record nonce_row =
  n_worker_id :: string
  n_nonce :: bytes
  n_seen_at :: time

record registry_schema =
  workers :: "worker_row list"
  worker_keys :: "key_row list"
  enrollment_tokens :: "token_row list"
  trust_scores :: "score_row list"
  trust_events :: "event_row list"
  replay_nonces :: "nonce_row list"
  key_seq :: nat
  event_seq :: nat

section \<open>routing\<close>

record snapshot_row =
  sn_id :: nat
  sn_version :: string
  sn_source_uri :: string
  sn_source_timestamp :: time
  sn_status :: string
  sn_created_at :: time
  sn_asn_count :: nat
  sn_prefix_count_v4 :: nat
  sn_prefix_count_v6 :: nat
  sn_artifact :: "(string \<times> int \<times> string) option"
  sn_built_at :: "time option"
  sn_published_at :: "time option"

record provider_row =
  p_provider_id :: string
  p_name :: string
  p_monitoring_enabled :: bool
  p_priority :: int
  p_synced_at :: time
  p_delisted_at :: "time option"

record asn_row =
  as_asn :: int
  as_provider_id :: string
  as_registry_name :: "string option"
  as_registry_country :: "string option"
  as_synced_at :: time

record prefix_row =
  px_id :: nat
  px_snapshot_id :: nat
  px_prefix :: string
  px_origin_asn :: int
  px_geo_country :: "string option"
  px_geo_city :: "string option"
  px_geo_lat :: "rat option"
  px_geo_lon :: "rat option"
  px_flags :: "(string \<times> json) list"

record target_row =
  tg_id :: nat
  tg_snapshot_id :: nat
  tg_provider_id :: string
  tg_prefix_id :: nat
  tg_address :: string
  tg_rationale :: string
  tg_active :: bool
  tg_geo_country :: "string option"
  tg_geo_city :: "string option"

record geo_row =
  gr_snapshot_id :: nat
  gr_provider_id :: string
  gr_country_code :: string
  gr_country_name :: "string option"
  gr_continent_code :: "string option"
  gr_continent_name :: "string option"
  gr_ipv4_addresses :: int
  gr_ipv6_net64s :: int
  gr_ipv4_share :: rat
  gr_prefix_count_v4 :: nat
  gr_prefix_count_v6 :: nat
  gr_target_count :: nat

record routing_schema =
  snapshots :: "snapshot_row list"
  providers :: "provider_row list"
  asns :: "asn_row list"
  prefixes :: "prefix_row list"
  probe_targets :: "target_row list"
  provider_geo :: "geo_row list"
  snapshot_seq :: nat
  prefix_seq :: nat
  target_seq :: nat

section \<open>scheduling\<close>

record assignment_row =
  a_id :: nat
  a_target_id :: nat
  a_provider_id :: string
  a_probe_type :: string
  a_interval_seconds :: int
  a_redundancy_group :: string
  a_status :: string
  a_closed_at :: "time option"

record lease_row =
  l_id :: nat
  l_assignment_id :: nat
  l_worker_id :: string
  l_leased_at :: time
  l_expires_at :: time
  l_released_at :: "time option"
  l_release_reason :: "string option"

record scheduling_schema =
  assignments :: "assignment_row list"
  leases :: "lease_row list"
  assignment_seq :: nat
  lease_seq :: nat

section \<open>measurements\<close>

record observation_row =
  o_worker_id :: string
  o_assignment_id :: int
  o_provider_id :: string
  o_target :: string
  o_probe_type :: string
  o_measured_at :: time
  o_ok :: bool
  o_rtt_ms :: "rat option"
  o_packets_sent :: int
  o_packets_lost :: int
  o_metrics :: "(string \<times> json) list"
  o_signature :: bytes

record batch_row =
  b_batch_id :: string
  b_worker_id :: string
  b_received_at :: time
  b_observation_count :: nat

record measurements_schema =
  observations :: "observation_row list"
  upload_batches :: "batch_row list"

section \<open>aggregation\<close>

record window_row =
  cw_provider_id :: string
  cw_region :: string
  cw_probe_type :: string
  cw_window_start :: time
  cw_window_seconds :: int
  cw_verdict :: string
  cw_confidence :: rat
  cw_worker_count :: nat
  cw_dissent_ratio :: rat
  cw_loss_rate :: "rat option"
  cw_rtt_p50 :: "rat option"
  cw_rtt_p95 :: "rat option"
  cw_rtt_p99 :: "rat option"
  cw_measured_targets :: nat
  cw_up_targets :: nat

record agreement_row =
  ag_worker_id :: string
  ag_window_start :: time
  ag_agreement :: rat
  ag_targets :: nat

record status_row =
  ps_provider_id :: string
  ps_region :: string
  ps_verdict :: string
  ps_confidence :: rat
  ps_since :: time
  ps_metrics :: json
  ps_updated_at :: time

record target_status_row =
  ts_provider_id :: string
  ts_target :: string
  ts_region :: string
  ts_prefix :: "string option"
  ts_origin_asn :: "int option"
  ts_city :: "string option"
  ts_verdict :: string
  ts_availability :: rat
  ts_loss_rate :: rat
  ts_rtt_p50 :: "rat option"
  ts_rtt_p95 :: "rat option"
  ts_worker_count :: nat
  ts_last_measured_at :: time
  ts_updated_at :: time

record anomaly_row =
  an_provider_id :: string
  an_kind :: string
  an_region :: string
  an_severity :: string
  an_opened_at :: time
  an_resolved_at :: "time option"
  an_evidence :: "(string \<times> json) list"

record outbox_row =
  ob_id :: nat
  ob_kind :: string
  ob_payload :: json
  ob_created_at :: time
  ob_attempts :: nat
  ob_next_attempt_at :: time
  ob_acked_at :: "time option"

record aggregation_schema =
  consensus_windows :: "window_row list"
  worker_agreements :: "agreement_row list"
  provider_statuses :: "status_row list"
  target_statuses :: "target_status_row list"
  anomalies :: "anomaly_row list"
  publication_outbox :: "outbox_row list"
  outbox_seq :: nat

section \<open>audit and the whole database\<close>

record audit_row =
  au_category :: string
  au_actor :: string
  au_action :: string
  au_subject :: string
  au_detail :: "(string \<times> json) list"
  au_created_at :: time

record db =
  registry_of :: registry_schema
  routing_of :: routing_schema
  scheduling_of :: scheduling_schema
  measurements_of :: measurements_schema
  aggregation_of :: aggregation_schema
  audit_of :: "audit_row list"

end
