(* ===== verification/Registry.thy ===== *)
theory Registry
  imports Schema Encoding
begin

text \<open>
  The worker registry of \<^verbatim>\<open>internal/registry/registry.go\<close>: enrollment tokens, keys, the lifecycle
  state machine, heartbeats, replay nonces. Every operation takes the fault plan and the current
  time. A transactional operation that fails returns \<^const>\<open>Inl\<close> and no new state: the deferred
  rollback leaves the tables as they were. Beside the operations: the invariant of the tables,
  the step relation \<open>reg_step\<close> of all writers, and what holds along every run of it.
\<close>

section \<open>Operations\<close>

datatype reg_error =
    ErrBadToken
  | ErrUnknownWorker
  | ErrBadTransition string string
  | ErrTokenHash
  | ErrRand
  | ErrDB

definition DevOperatorID :: string where
  "DevOperatorID = ''00000000-0000-0000-0000-000000000001''"

definition has_worker :: "registry_schema \<Rightarrow> string \<Rightarrow> bool" where
  "has_worker db wid \<longleftrightarrow> wid \<in> set (map w_id (workers db))"

text \<open>The partial unique index \<open>one_current_key\<close> of the key table.\<close>

definition current_key :: "key_row \<Rightarrow> bool" where
  "current_key k \<longleftrightarrow> k_valid_until k = None \<and> k_revoked_at k = None"

definition insert_worker :: "time \<Rightarrow> string \<Rightarrow> string \<Rightarrow> string \<Rightarrow> registry_schema \<Rightarrow> registry_schema" where
  "insert_worker now wid operator name db = db\<lparr>workers := workers db @
     [\<lparr>w_id = wid, w_operator_id = operator, w_name = name, w_state = ''pending'',
       w_state_reason = None, w_software_version = None, w_source_asn = None,
       w_enrolled_at = now, w_approved_at = None, w_retired_at = None,
       w_last_heartbeat_at = None, w_config = []\<rparr>]\<rparr>"

definition insert_token :: "bytes \<Rightarrow> string \<Rightarrow> time \<Rightarrow> registry_schema \<Rightarrow> registry_schema" where
  "insert_token hash wid expires db = db\<lparr>enrollment_tokens := enrollment_tokens db @
     [\<lparr>t_token_hash = hash, t_worker_id = wid, t_expires_at = expires, t_used_at = None\<rparr>]\<rparr>"

definition insert_key :: "bool \<Rightarrow> time \<Rightarrow> string \<Rightarrow> bytes \<Rightarrow> registry_schema \<Rightarrow> reg_error + registry_schema" where
  "insert_key fault now wid pub db =
     (if fault \<or> \<not> has_worker db wid \<or>
         (\<exists>k \<in> set (worker_keys db). k_worker_id k = wid \<and> current_key k)
      then Inl ErrDB
      else Inr (db\<lparr>worker_keys := worker_keys db @
             [\<lparr>k_id = key_seq db, k_worker_id = wid, k_public_key = pub, k_valid_from = now,
               k_valid_until = None, k_revoked_at = None, k_revoke_reason = None\<rparr>],
             key_seq := Suc (key_seq db)\<rparr>))"

definition insert_event ::
  "bool \<Rightarrow> time \<Rightarrow> string \<Rightarrow> string \<Rightarrow> (string \<times> json) list \<Rightarrow> string \<Rightarrow> registry_schema \<Rightarrow>
     reg_error + registry_schema" where
  "insert_event fault now wid ty detail actor db =
     (if fault \<or> \<not> has_worker db wid then Inl ErrDB
      else Inr (db\<lparr>trust_events := trust_events db @
             [\<lparr>e_id = event_seq db, e_worker_id = wid, e_event_type = ty, e_detail = detail,
               e_actor = actor, e_created_at = now\<rparr>],
             event_seq := Suc (event_seq db)\<rparr>))"

text \<open>
  \<open>raw\<close> is what \<^verbatim>\<open>rand.Read\<close> produced (\<^const>\<open>None\<close> when it failed) and \<open>uid\<close> the fresh uuid.
\<close>

definition CreateWorker ::
  "faults \<Rightarrow> ('a) crypto_scheme \<Rightarrow> time \<Rightarrow> bytes option \<Rightarrow> string \<Rightarrow> string \<Rightarrow> string \<Rightarrow> int \<Rightarrow> registry_schema \<Rightarrow>
     reg_error + (string \<times> string \<times> registry_schema)" where
  "CreateWorker F C now raw uid operatorID name tokenTTL db =
     (case raw of
        None \<Rightarrow> Inl ErrRand
      | Some r \<Rightarrow>
          (let token = hex_encode r; hash = sha256 C token in
           if F ''CreateWorker.begin'' then Inl ErrDB
           else if F ''CreateWorker.worker'' \<or> has_worker db uid then Inl ErrDB
           else if F ''CreateWorker.token'' \<or> hash \<in> set (map t_token_hash (enrollment_tokens db))
             then Inl ErrDB
           else if F ''CreateWorker.commit'' then Inl ErrDB
           else Inr (uid, token,
                  insert_token hash uid (now + tokenTTL) (insert_worker now uid operatorID name db))))"

definition redeemable :: "time \<Rightarrow> bytes \<Rightarrow> token_row \<Rightarrow> bool" where
  "redeemable now hash t \<longleftrightarrow> t_token_hash t = hash \<and> t_used_at t = None \<and> t_expires_at t > now"

definition set_version :: "string \<Rightarrow> string \<Rightarrow> registry_schema \<Rightarrow> registry_schema" where
  "set_version wid ver db = db\<lparr>workers :=
     update_where (\<lambda>w. w_id w = wid) (\<lambda>w. w\<lparr>w_software_version := Some ver\<rparr>) (workers db)\<rparr>"

definition Register ::
  "faults \<Rightarrow> ('a) crypto_scheme \<Rightarrow> time \<Rightarrow> string \<Rightarrow> bytes \<Rightarrow> string \<Rightarrow> registry_schema \<Rightarrow>
     reg_error + (string \<times> string \<times> registry_schema)" where
  "Register F C now token pub softwareVersion db =
     (let hash = sha256 C token in
      if F ''Register.begin'' \<or> F ''Register.token'' then Inl ErrDB
      else case find (redeemable now hash) (enrollment_tokens db) of
        None \<Rightarrow> Inl ErrBadToken
      | Some t \<Rightarrow>
          (let workerID = t_worker_id t;
               db1 = db\<lparr>enrollment_tokens := update_where (redeemable now hash)
                          (\<lambda>t. t\<lparr>t_used_at := Some now\<rparr>) (enrollment_tokens db)\<rparr> in
           and_then (insert_key (F ''Register.key'') now workerID pub db1) (\<lambda>db2.
           if F ''Register.version'' then Inl ErrDB
           else case lookup_by w_id workerID (workers db2) of
             None \<Rightarrow> Inl ErrDB
           | Some w \<Rightarrow>
               and_then (insert_event (F ''Register.event'') now workerID ''registered'' [] ''system''
                           (set_version workerID softwareVersion db2)) (\<lambda>db3.
               if F ''Register.commit'' then Inl ErrDB else Inr (workerID, w_state w, db3)))))"

definition transitions :: "string \<Rightarrow> string list" where
  "transitions s =
     (if s = ''pending'' then [''active'', ''suspended'', ''retired'']
      else if s = ''active'' then [''suspended'', ''quarantined'', ''retired'']
      else if s = ''suspended'' then [''active'', ''retired'']
      else if s = ''quarantined'' then [''active'', ''suspended'', ''retired'']
      else [])"

definition apply_state :: "time \<Rightarrow> string \<Rightarrow> string \<Rightarrow> string \<Rightarrow> worker_row \<Rightarrow> worker_row" where
  "apply_state now current newState reason w =
     (let w' = w\<lparr>w_state := newState, w_state_reason := Some reason\<rparr> in
      if newState = ''active'' then
        (if current = ''pending'' then w'\<lparr>w_approved_at := Some now\<rparr> else w')
      else if newState = ''retired'' then w'\<lparr>w_retired_at := Some now\<rparr>
      else w')"

definition revoke_keys :: "time \<Rightarrow> string \<Rightarrow> registry_schema \<Rightarrow> registry_schema" where
  "revoke_keys now wid db = db\<lparr>worker_keys :=
     update_where (\<lambda>k. k_worker_id k = wid \<and> k_revoked_at k = None)
       (\<lambda>k. k\<lparr>k_revoked_at := Some now, k_revoke_reason := Some ''worker retired''\<rparr>) (worker_keys db)\<rparr>"

text \<open>
  The event detail is JSON text put together with Go's \<^verbatim>\<open>%q\<close>, which escapes BEL, VT, DEL and the
  other control characters in ways JSON does not know; the database then refuses the row. Bytes
  above 127 are taken to be printable.
\<close>

primrec quoted_is_json :: "string \<Rightarrow> bool" where
  "quoted_is_json [] \<longleftrightarrow> True"
| "quoted_is_json (c # cs) \<longleftrightarrow>
     (let n = of_char c :: nat in n \<in> {8, 9, 10, 12, 13} \<or> 32 \<le> n \<and> n \<noteq> 127) \<and> quoted_is_json cs"

definition SetState ::
  "faults \<Rightarrow> time \<Rightarrow> string \<Rightarrow> string \<Rightarrow> string \<Rightarrow> string \<Rightarrow> registry_schema \<Rightarrow> reg_error + registry_schema" where
  "SetState F now workerID newState reason actor db =
     (if F ''SetState.begin'' \<or> F ''SetState.select'' then Inl ErrDB
      else case lookup_by w_id workerID (workers db) of
        None \<Rightarrow> Inl ErrUnknownWorker
      | Some w \<Rightarrow>
          (let current = w_state w in
           if newState \<notin> set (transitions current) then Inl (ErrBadTransition current newState)
           else if F ''SetState.update'' then Inl ErrDB
           else
             (let db1 = db\<lparr>workers := update_where (\<lambda>w. w_id w = workerID)
                             (apply_state now current newState reason) (workers db)\<rparr> in
              if newState = ''retired'' \<and> F ''SetState.revoke'' then Inl ErrDB
              else
                (let db2 = (if newState = ''retired'' then revoke_keys now workerID db1 else db1) in
                 and_then (insert_event (F ''SetState.event'' \<or> \<not> quoted_is_json reason) now workerID (''state:'' @ newState)
                             [(''from'', JStr current), (''reason'', JStr reason)] actor db2) (\<lambda>db3.
                 if F ''SetState.commit'' then Inl ErrDB else Inr db3)))))"

definition Heartbeat ::
  "faults \<Rightarrow> time \<Rightarrow> string \<Rightarrow> string \<Rightarrow> registry_schema \<Rightarrow> reg_error + (worker_row \<times> registry_schema)" where
  "Heartbeat F now workerID softwareVersion db =
     (if F ''Heartbeat'' then Inl ErrDB
      else
        (let beat = (\<lambda>w. w\<lparr>w_last_heartbeat_at := Some now, w_software_version := Some softwareVersion\<rparr>);
             db' = db\<lparr>workers := update_where (\<lambda>w. w_id w = workerID) beat (workers db)\<rparr> in
         case lookup_by w_id workerID (workers db') of
           None \<Rightarrow> Inl ErrUnknownWorker
         | Some w \<Rightarrow> Inr (w, db')))"

definition key_active :: "time \<Rightarrow> key_row \<Rightarrow> bool" where
  "key_active now k \<longleftrightarrow> k_revoked_at k = None \<and> k_valid_from k \<le> now \<and>
     (case k_valid_until k of None \<Rightarrow> True | Some u \<Rightarrow> u > now)"

definition ActiveKeys ::
  "faults \<Rightarrow> time \<Rightarrow> string \<Rightarrow> registry_schema \<Rightarrow> reg_error + (bytes list \<times> string)" where
  "ActiveKeys F now workerID db =
     (if F ''ActiveKeys'' then Inl ErrDB
      else case lookup_by w_id workerID (workers db) of
        None \<Rightarrow> Inl ErrUnknownWorker
      | Some w \<Rightarrow>
          (let rows = rev (sort_key k_id
                 (filter (\<lambda>k. k_worker_id k = workerID \<and> key_active now k) (worker_keys db)));
               keys = filter (\<lambda>p. length p = public_key_size) (map k_public_key rows) in
           if keys = [] then Inl ErrUnknownWorker else Inr (keys, w_state w)))"

definition RotateKey ::
  "faults \<Rightarrow> time \<Rightarrow> string \<Rightarrow> bytes \<Rightarrow> int \<Rightarrow> registry_schema \<Rightarrow> reg_error + registry_schema" where
  "RotateKey F now workerID nextPub overlap db =
     (if F ''RotateKey.begin'' \<or> F ''RotateKey.expire'' then Inl ErrDB
      else
        (let db1 = db\<lparr>worker_keys :=
               update_where (\<lambda>k. k_worker_id k = workerID \<and> current_key k)
                 (\<lambda>k. k\<lparr>k_valid_until := Some (now + overlap)\<rparr>) (worker_keys db)\<rparr> in
         and_then (insert_key (F ''RotateKey.key'') now workerID nextPub db1) (\<lambda>db2.
         if F ''RotateKey.config'' then Inl ErrDB
         else
           (let db3 = db2\<lparr>workers := update_where (\<lambda>w. w_id w = workerID)
                  (\<lambda>w. w\<lparr>w_config := obj_del ''rotate_requested'' (w_config w)\<rparr>) (workers db2)\<rparr> in
            and_then (insert_event (F ''RotateKey.event'') now workerID ''key_rotated'' [] ''worker'' db3) (\<lambda>db4.
            if F ''RotateKey.commit'' then Inl ErrDB else Inr db4)))))"

definition RequestRotation :: "faults \<Rightarrow> string \<Rightarrow> registry_schema \<Rightarrow> reg_error + registry_schema" where
  "RequestRotation F workerID db =
     (if F ''RequestRotation'' then Inl ErrDB
      else if \<not> has_worker db workerID then Inl ErrUnknownWorker
      else Inr (db\<lparr>workers := update_where (\<lambda>w. w_id w = workerID)
             (\<lambda>w. w\<lparr>w_config := obj_set ''rotate_requested'' (JBool True) (w_config w)\<rparr>) (workers db)\<rparr>))"

definition SeenNonce ::
  "faults \<Rightarrow> time \<Rightarrow> string \<Rightarrow> bytes \<Rightarrow> registry_schema \<Rightarrow> reg_error + (bool \<times> registry_schema)" where
  "SeenNonce F now workerID nonce db =
     (if F ''SeenNonce'' \<or> \<not> has_worker db workerID then Inl ErrDB
      else if (workerID, nonce) \<in> set (map (\<lambda>n. (n_worker_id n, n_nonce n)) (replay_nonces db))
        then Inr (True, db)
      else Inr (False, db\<lparr>replay_nonces := replay_nonces db @
             [\<lparr>n_worker_id = workerID, n_nonce = nonce, n_seen_at = now\<rparr>]\<rparr>))"

definition PruneNonces :: "faults \<Rightarrow> time \<Rightarrow> int \<Rightarrow> registry_schema \<Rightarrow> reg_error + (nat \<times> registry_schema)" where
  "PruneNonces F now window db =
     (if F ''PruneNonces'' then Inl ErrDB
      else
        (let stale = (\<lambda>n. n_seen_at n < now - window) in
         Inr (count_where stale (replay_nonces db),
              db\<lparr>replay_nonces := filter (\<lambda>n. \<not> stale n) (replay_nonces db)\<rparr>)))"

definition IngestEnrollment ::
  "faults \<Rightarrow> time \<Rightarrow> string \<Rightarrow> string \<Rightarrow> string \<Rightarrow> string \<Rightarrow> time \<Rightarrow> registry_schema \<Rightarrow>
     reg_error + (bool \<times> registry_schema)" where
  "IngestEnrollment F now workerID operatorID name tokenHashHex expiresAt db =
     (case hex_decode tokenHashHex of
        None \<Rightarrow> Inl ErrTokenHash
      | Some hash \<Rightarrow>
          if length hash \<noteq> sha256_size then Inl ErrTokenHash
          else if F ''IngestEnrollment.begin'' \<or> F ''IngestEnrollment.worker'' \<or>
                  F ''IngestEnrollment.token'' \<or> F ''IngestEnrollment.commit'' then Inl ErrDB
          else
            (let created = (\<not> has_worker db workerID);
                 db1 = (if created then insert_worker now workerID operatorID name db else db);
                 db2 = (if hash \<in> set (map t_token_hash (enrollment_tokens db1)) then db1
                        else insert_token hash workerID expiresAt db1) in
             Inr (created, db2)))"

definition ApplyDecision ::
  "faults \<Rightarrow> time \<Rightarrow> string \<Rightarrow> string \<Rightarrow> string \<Rightarrow> registry_schema \<Rightarrow> reg_error + registry_schema" where
  "ApplyDecision F now workerID state reason db =
     (if F ''ApplyDecision'' then Inl ErrUnknownWorker
      else case lookup_by w_id workerID (workers db) of
        None \<Rightarrow> Inl ErrUnknownWorker
      | Some w \<Rightarrow> if w_state w = state then Inr db
                  else SetState F now workerID state reason ''advisor-admin'' db)"

definition RecordTrustEvent ::
  "faults \<Rightarrow> time \<Rightarrow> string \<Rightarrow> string \<Rightarrow> string \<Rightarrow> registry_schema \<Rightarrow> registry_schema" where
  "RecordTrustEvent F now workerID eventType actor db =
     (case insert_event (F ''RecordTrustEvent'') now workerID eventType [] actor db of
        Inl e \<Rightarrow> db
      | Inr db' \<Rightarrow> db')"

text \<open>
  The UPDATE of \<^verbatim>\<open>recordSourceASN\<close> in the coordinator, which writes the worker row directly; its error
  is ignored.
\<close>

definition SetSourceASN :: "faults \<Rightarrow> string \<Rightarrow> int \<Rightarrow> registry_schema \<Rightarrow> registry_schema" where
  "SetSourceASN F workerID asn db =
     (if F ''SetSourceASN'' then db
      else db\<lparr>workers := update_where (\<lambda>w. w_id w = workerID)
             (\<lambda>w. w\<lparr>w_source_asn := Some asn\<rparr>) (workers db)\<rparr>)"

definition List_workers :: "faults \<Rightarrow> registry_schema \<Rightarrow> reg_error + worker_row list" where
  "List_workers F db =
     (if F ''List'' then Inl ErrDB else Inr (sort_key (\<lambda>w. - w_enrolled_at w) (workers db)))"


section \<open>The updates keep the keys of the tables\<close>

interpretation upd_version: row_update w_id "\<lambda>w. w\<lparr>w_software_version := v\<rparr>" for v
  by unfold_locales simp

interpretation upd_state: row_update w_id "apply_state now current newState reason"
  for now current newState reason
  by unfold_locales (simp add: apply_state_def Let_def)

interpretation upd_beat: row_update w_id
  "\<lambda>w. w\<lparr>w_last_heartbeat_at := h, w_software_version := v\<rparr>" for h v
  by unfold_locales simp

interpretation upd_config: row_update w_id "\<lambda>w. w\<lparr>w_config := g (w_config w)\<rparr>" for g
  by unfold_locales simp

interpretation upd_revoked: row_update "\<lambda>k. (k_id k, k_worker_id k)"
  "\<lambda>k. k\<lparr>k_revoked_at := r, k_revoke_reason := s\<rparr>" for r s
  by unfold_locales simp

interpretation upd_expiry: row_update "\<lambda>k. (k_id k, k_worker_id k)" "\<lambda>k. k\<lparr>k_valid_until := u\<rparr>" for u
  by unfold_locales simp

interpretation upd_used: row_update "\<lambda>t. (t_token_hash t, t_worker_id t)" "\<lambda>t. t\<lparr>t_used_at := u\<rparr>" for u
  by unfold_locales simp

lemmas worker_keys_kept = upd_version.keys_kept upd_state.keys_kept upd_beat.keys_kept upd_config.keys_kept
lemmas worker_lookup_kept =
  upd_version.lookup_kept upd_state.lookup_kept upd_beat.lookup_kept upd_config.lookup_kept

lemma key_pairs_kept:
  "map k_id (update_where P (\<lambda>k. k\<lparr>k_revoked_at := r, k_revoke_reason := s\<rparr>) ks) = map k_id ks"
  "map k_id (update_where P (\<lambda>k. k\<lparr>k_valid_until := u\<rparr>) ks) = map k_id ks"
  "map k_worker_id (update_where P (\<lambda>k. k\<lparr>k_revoked_at := r, k_revoke_reason := s\<rparr>) ks) = map k_worker_id ks"
  "map k_worker_id (update_where P (\<lambda>k. k\<lparr>k_valid_until := u\<rparr>) ks) = map k_worker_id ks"
  by (simp_all add: update_where_proj)

lemma token_columns_kept:
  "map t_token_hash (update_where P (\<lambda>t. t\<lparr>t_used_at := u\<rparr>) ts) = map t_token_hash ts"
  "map t_worker_id (update_where P (\<lambda>t. t\<lparr>t_used_at := u\<rparr>) ts) = map t_worker_id ts"
  by (simp_all add: update_where_proj)

lemmas reg_ops_defs = insert_worker_def insert_token_def set_version_def revoke_keys_def

lemma has_worker_simps [simp]:
  "has_worker (insert_worker now wid operator name db) v \<longleftrightarrow> v = wid \<or> has_worker db v"
  "has_worker (insert_token hash wid ex db) v = has_worker db v"
  "has_worker (set_version wid ver db) v = has_worker db v"
  "has_worker (revoke_keys now wid db) v = has_worker db v"
  by (auto simp: has_worker_def reg_ops_defs worker_keys_kept simp del: set_map)

lemma insert_keyE:
  assumes "insert_key fault now wid pub db = Inr db'"
  obtains "has_worker db wid" "\<And>k. k \<in> set (worker_keys db) \<Longrightarrow> k_worker_id k = wid \<Longrightarrow> \<not> current_key k"
    "db' = db\<lparr>worker_keys := worker_keys db @
             [\<lparr>k_id = key_seq db, k_worker_id = wid, k_public_key = pub, k_valid_from = now,
               k_valid_until = None, k_revoked_at = None, k_revoke_reason = None\<rparr>],
             key_seq := Suc (key_seq db)\<rparr>"
  using assms by (auto simp: insert_key_def split: if_splits)

lemma insert_eventE:
  assumes "insert_event fault now wid ty detail actor db = Inr db'"
  obtains "has_worker db wid"
    "db' = db\<lparr>trust_events := trust_events db @
             [\<lparr>e_id = event_seq db, e_worker_id = wid, e_event_type = ty, e_detail = detail,
               e_actor = actor, e_created_at = now\<rparr>], event_seq := Suc (event_seq db)\<rparr>"
  using assms by (auto simp: insert_event_def split: if_splits)

section \<open>The invariant of the registry tables\<close>

definition lifecycle_states :: "string list" where
  "lifecycle_states = [''pending'', ''active'', ''suspended'', ''quarantined'', ''retired'']"

definition worker_ok :: "worker_row \<Rightarrow> bool" where
  "worker_ok w \<longleftrightarrow> w_state w \<in> set lifecycle_states \<and>
     (w_state w = ''retired'' \<longleftrightarrow> w_retired_at w \<noteq> None)"

definition worker_inv :: "worker_row list \<Rightarrow> bool" where
  "worker_inv ws \<longleftrightarrow> distinct (map w_id ws) \<and> (\<forall>w \<in> set ws. worker_ok w)"

definition key_inv :: "nat \<Rightarrow> key_row list \<Rightarrow> bool" where
  "key_inv next ks \<longleftrightarrow> distinct (map k_id ks) \<and> (\<forall>k \<in> set ks. k_id k < next) \<and>
     distinct (map k_worker_id (filter current_key ks))"

definition nonce_inv :: "nonce_row list \<Rightarrow> bool" where
  "nonce_inv ns \<longleftrightarrow> distinct (map (\<lambda>n. (n_worker_id n, n_nonce n)) ns)"

text \<open>
  Primary keys are unique, a state is one of the five lifecycle states and \<open>retired_at\<close> is set
  exactly for retired workers, no worker has two current keys, keys, tokens and nonces refer to
  existing workers.
\<close>

definition reg_inv :: "registry_schema \<Rightarrow> bool" where
  "reg_inv db \<longleftrightarrow> worker_inv (workers db) \<and> key_inv (key_seq db) (worker_keys db) \<and>
     distinct (map t_token_hash (enrollment_tokens db)) \<and> nonce_inv (replay_nonces db) \<and>
     (\<forall>k \<in> set (worker_keys db). has_worker db (k_worker_id k)) \<and>
     (\<forall>t \<in> set (enrollment_tokens db). has_worker db (t_worker_id t)) \<and>
     (\<forall>n \<in> set (replay_nonces db). has_worker db (n_worker_id n))"

definition empty_registry :: registry_schema where
  "empty_registry = \<lparr>workers = [], worker_keys = [], enrollment_tokens = [], trust_scores = [],
     trust_events = [], replay_nonces = [], key_seq = 0, event_seq = 0\<rparr>"

lemma reg_inv_empty: "reg_inv empty_registry"
  by (simp add: reg_inv_def empty_registry_def worker_inv_def key_inv_def nonce_inv_def)

lemma transitions_states: "s' \<in> set (transitions s) \<Longrightarrow> s' \<in> set lifecycle_states \<and> s \<noteq> ''retired''"
  by (auto simp: transitions_def lifecycle_states_def split: if_splits)

lemma apply_state_fields:
  "w_id (apply_state now current newState reason w) = w_id w"
  "w_state (apply_state now current newState reason w) = newState"
  "w_retired_at (apply_state now current newState reason w) =
     (if newState = ''retired'' then Some now else w_retired_at w)"
  "w_approved_at (apply_state now current newState reason w) =
     (if newState = ''active'' \<and> current = ''pending'' then Some now else w_approved_at w)"
  by (simp_all add: apply_state_def Let_def)

lemma reg_inv_workers:
  assumes inv: "reg_inv db" and key: "\<And>w. w_id (f w) = w_id w"
    and ok: "\<And>w. w \<in> set (workers db) \<Longrightarrow> P w \<Longrightarrow> worker_ok w \<Longrightarrow> worker_ok (f w)"
  shows "reg_inv (db\<lparr>workers := update_where P f (workers db)\<rparr>)"
proof -
  have "map w_id (update_where P f (workers db)) = map w_id (workers db)"
    by (rule update_where_proj) (rule key)
  then show ?thesis
    using inv ok by (auto simp: reg_inv_def worker_inv_def has_worker_def in_update_where simp del: set_map)
qed

lemma key_inv_expire:
  assumes "key_inv n ks" and "\<And>k. k_id (f k) = k_id k" and "\<And>k. k_worker_id (f k) = k_worker_id k"
    and "\<And>k. P k \<Longrightarrow> \<not> current_key (f k)"
  shows "key_inv n (update_where P f ks)"
proof -
  have ids: "map k_id (update_where P f ks) = map k_id ks"
    by (rule update_where_proj) (rule assms(2))
  have "filter current_key (update_where P f ks) = filter (\<lambda>k. current_key k \<and> \<not> P k) ks"
    using assms(4) by (induction ks) auto
  moreover have "distinct (map k_worker_id (filter (\<lambda>k. \<not> P k) (filter current_key ks)))"
    using assms(1) by (simp only: key_inv_def distinct_map_filter)
  ultimately have "distinct (map k_worker_id (filter current_key (update_where P f ks)))"
    by (simp add: conj_commute)
  then show ?thesis
    using assms(1,2) ids by (auto simp: key_inv_def in_update_where)
qed

lemma reg_inv_event:
  "insert_event fault now wid ty detail actor db = Inr db' \<Longrightarrow> reg_inv db' = reg_inv db"
  by (erule insert_eventE) (simp add: reg_inv_def has_worker_def)

lemma reg_inv_insert_key:
  assumes "insert_key fault now wid pub db = Inr db'" and "reg_inv db"
  shows "reg_inv db'"
  using assms(1)
proof (rule insert_keyE)
  assume "has_worker db wid"
    and "\<And>k. k \<in> set (worker_keys db) \<Longrightarrow> k_worker_id k = wid \<Longrightarrow> \<not> current_key k"
    and "db' = db\<lparr>worker_keys := worker_keys db @
             [\<lparr>k_id = key_seq db, k_worker_id = wid, k_public_key = pub, k_valid_from = now,
               k_valid_until = None, k_revoked_at = None, k_revoke_reason = None\<rparr>],
             key_seq := Suc (key_seq db)\<rparr>"
  then show ?thesis
    using assms(2) by (auto simp: reg_inv_def key_inv_def has_worker_def less_SucI)
qed


lemma reg_inv_CreateWorker [inv_intros]:
  "CreateWorker F C now raw uid operator name ttl db = Inr (wid, token, db') \<Longrightarrow> reg_inv db \<Longrightarrow> reg_inv db'"
  by (auto simp: CreateWorker_def Let_def reg_inv_def worker_inv_def worker_ok_def has_worker_def reg_ops_defs
      lifecycle_states_def split: option.splits if_splits)

lemma reg_inv_used:
  "reg_inv db \<Longrightarrow> reg_inv (db\<lparr>enrollment_tokens :=
     update_where P (\<lambda>t. t\<lparr>t_used_at := u\<rparr>) (enrollment_tokens db)\<rparr>)"
  by (auto simp: reg_inv_def token_columns_kept has_worker_def in_update_where)

lemma reg_inv_version: "reg_inv db \<Longrightarrow> reg_inv (set_version wid ver db)"
  unfolding set_version_def by (rule reg_inv_workers) (simp_all add: worker_ok_def)

lemma reg_inv_keys:
  assumes "reg_inv db" and "\<And>k. k_id (f k) = k_id k" and "\<And>k. k_worker_id (f k) = k_worker_id k"
    and "\<And>k. P k \<Longrightarrow> \<not> current_key (f k)"
  shows "reg_inv (db\<lparr>worker_keys := update_where P f (worker_keys db)\<rparr>)"
  using assms key_inv_expire [of _ "worker_keys db" f P]
  by (auto simp: reg_inv_def has_worker_def in_update_where)

lemma reg_inv_Register [inv_intros]:
  "Register F C now token pub ver db = Inr (wid, st, db') \<Longrightarrow> reg_inv db \<Longrightarrow> reg_inv db'"
  by (auto simp: Register_def Let_def and_then_Inr_iff reg_inv_event
      split: option.splits if_splits intro!: reg_inv_version reg_inv_used elim!: reg_inv_insert_key)

lemma reg_inv_SetState [inv_intros]:
  assumes "SetState F now wid newState reason actor db = Inr db'" and "reg_inv db"
  shows "reg_inv db'"
proof -
  obtain w where w: "lookup_by w_id wid (workers db) = Some w" "newState \<in> set (transitions (w_state w))"
    using assms(1) by (auto simp: SetState_def Let_def split: option.splits if_splits)
  let ?db1 = "db\<lparr>workers := update_where (\<lambda>w. w_id w = wid) (apply_state now (w_state w) newState reason)
                  (workers db)\<rparr>"
  have ok: "worker_ok (apply_state now (w_state w) newState reason v)"
    if "v \<in> set (workers db)" "w_id v = wid" "worker_ok v" for v
  proof -
    have "w = v"
      using w(1) that(1,2) assms(2) lookup_by_unique [of w_id "workers db" v]
      by (simp add: reg_inv_def worker_inv_def)
    then show ?thesis
      using transitions_states [OF w(2)] that(3) by (auto simp: worker_ok_def apply_state_fields)
  qed
  have "reg_inv ?db1"
    by (rule reg_inv_workers [OF assms(2)]) (simp_all add: apply_state_fields ok)
  moreover have "reg_inv (revoke_keys now wid ?db1)"
    unfolding revoke_keys_def by (rule reg_inv_keys [OF \<open>reg_inv ?db1\<close>]) (simp_all add: current_key_def)
  ultimately show ?thesis
    using assms(1) w
    by (auto simp: SetState_def Let_def and_then_Inr_iff reg_inv_event split: if_splits)
qed

lemma reg_inv_Heartbeat [inv_intros]:
  "Heartbeat F now wid ver db = Inr (w, db') \<Longrightarrow> reg_inv db \<Longrightarrow> reg_inv db'"
  by (auto simp: Heartbeat_def Let_def worker_ok_def split: if_splits option.splits intro!: reg_inv_workers)

lemma reg_inv_RotateKey [inv_intros]:
  "RotateKey F now wid pub overlap db = Inr db' \<Longrightarrow> reg_inv db \<Longrightarrow> reg_inv db'"
  by (auto simp: RotateKey_def Let_def and_then_Inr_iff reg_inv_event worker_ok_def current_key_def
      split: if_splits intro!: reg_inv_workers reg_inv_keys elim!: reg_inv_insert_key)

lemma reg_inv_RequestRotation [inv_intros]:
  "RequestRotation F wid db = Inr db' \<Longrightarrow> reg_inv db \<Longrightarrow> reg_inv db'"
  by (auto simp: RequestRotation_def worker_ok_def split: if_splits intro!: reg_inv_workers)

lemma reg_inv_SeenNonce [inv_intros]:
  "SeenNonce F now wid nonce db = Inr (r, db') \<Longrightarrow> reg_inv db \<Longrightarrow> reg_inv db'"
  by (auto simp: SeenNonce_def reg_inv_def nonce_inv_def has_worker_def split: if_splits)

lemma reg_inv_PruneNonces [inv_intros]:
  "PruneNonces F now window db = Inr (n, db') \<Longrightarrow> reg_inv db \<Longrightarrow> reg_inv db'"
  by (auto simp: PruneNonces_def Let_def reg_inv_def nonce_inv_def has_worker_def distinct_map_filter
      split: if_splits)

lemma reg_inv_IngestEnrollment [inv_intros]:
  "IngestEnrollment F now wid op name hex ex db = Inr (c, db') \<Longrightarrow> reg_inv db \<Longrightarrow> reg_inv db'"
  by (auto simp: IngestEnrollment_def Let_def reg_inv_def worker_inv_def worker_ok_def has_worker_def
      reg_ops_defs lifecycle_states_def split: option.splits if_splits)

lemma reg_inv_ApplyDecision [inv_intros]:
  "ApplyDecision F now wid st reason db = Inr db' \<Longrightarrow> reg_inv db \<Longrightarrow> reg_inv db'"
  by (auto simp: ApplyDecision_def split: option.splits if_splits intro: reg_inv_SetState)

lemma reg_inv_RecordTrustEvent [inv_intros]:
  "reg_inv (RecordTrustEvent F now wid ty actor db) = reg_inv db"
  by (auto simp: RecordTrustEvent_def reg_inv_event split: sum.splits)


section \<open>All writers of the registry\<close>

text \<open>
  One step of the registry is one successful call of one of its operations, by the coordinator's
  handlers, the admin surface, the advisor sync or the maintenance ticker, at any time and with
  any fault plan. (A failed call changes nothing.)
\<close>

lemma reg_inv_SetSourceASN: "reg_inv db \<Longrightarrow> reg_inv (SetSourceASN F wid asn db)"
  by (auto simp: SetSourceASN_def worker_ok_def intro!: reg_inv_workers)

lemma reg_inv_scores: "reg_inv (db\<lparr>trust_scores := ts\<rparr>) = reg_inv db"
  by (simp add: reg_inv_def has_worker_def)

inductive reg_step :: "('a) crypto_scheme \<Rightarrow> registry_schema \<Rightarrow> registry_schema \<Rightarrow> bool" for C where
  create: "CreateWorker F C now raw uid operator name ttl db = Inr (wid, token, db') \<Longrightarrow> reg_step C db db'"
| register: "Register F C now token pub ver db = Inr (wid, st, db') \<Longrightarrow> reg_step C db db'"
| set_state: "SetState F now wid st reason actor db = Inr db' \<Longrightarrow> reg_step C db db'"
| heartbeat: "Heartbeat F now wid ver db = Inr (w, db') \<Longrightarrow> reg_step C db db'"
| rotate: "RotateKey F now wid pub overlap db = Inr db' \<Longrightarrow> reg_step C db db'"
| request: "RequestRotation F wid db = Inr db' \<Longrightarrow> reg_step C db db'"
| nonce: "SeenNonce F now wid nonce db = Inr (seen, db') \<Longrightarrow> reg_step C db db'"
| prune: "PruneNonces F now window db = Inr (n, db') \<Longrightarrow> reg_step C db db'"
| ingest: "IngestEnrollment F now wid operator name hex ex db = Inr (created, db') \<Longrightarrow> reg_step C db db'"
| decide: "ApplyDecision F now wid st reason db = Inr db' \<Longrightarrow> reg_step C db db'"
| event: "reg_step C db (RecordTrustEvent F now wid ty actor db)"
| source: "reg_step C db (SetSourceASN F wid asn db)"
| scores: "reg_step C db (db\<lparr>trust_scores := ts\<rparr>)"

interpretation registry: invariant_system "reg_step C" reg_inv for C
proof unfold_locales
  fix s t
  assume "reg_inv s" and "reg_step C s t"
  from this(2,1) show "reg_inv t"
    by (cases rule: reg_step.cases) (auto intro: inv_intros simp: reg_inv_RecordTrustEvent reg_inv_SetSourceASN reg_inv_scores)
qed

text \<open>What each operation does to the worker table and to the token table.\<close>

definition worker_state :: "registry_schema \<Rightarrow> string \<Rightarrow> string option" where
  "worker_state db wid = map_option w_state (lookup_by w_id wid (workers db))"

definition token_spent :: "registry_schema \<Rightarrow> bytes \<Rightarrow> bool" where
  "token_spent db hash \<longleftrightarrow> (\<exists>t \<in> set (enrollment_tokens db). t_token_hash t = hash \<and> t_used_at t \<noteq> None)"

lemma worker_state_simps [simp]:
  "worker_state (insert_token hash wid ex db) v = worker_state db v"
  "worker_state (set_version wid ver db) v = worker_state db v"
  "worker_state (revoke_keys now wid db) v = worker_state db v"
  "worker_state (db\<lparr>enrollment_tokens := ts\<rparr>) v = worker_state db v"
  "worker_state (db\<lparr>worker_keys := ks\<rparr>) v = worker_state db v"
  by (simp_all add: worker_state_def reg_ops_defs worker_lookup_kept option.map_comp comp_def if_distrib
      cong: if_cong)

lemma worker_state_has: "worker_state db wid \<noteq> None \<longleftrightarrow> has_worker db wid"
  by (simp add: worker_state_def has_worker_def lookup_by_None_iff)

lemma worker_state_insert_worker:
  "worker_state db wid = Some st \<Longrightarrow> worker_state (insert_worker now v operator name db) wid = Some st"
  by (auto simp: worker_state_def insert_worker_def lookup_by_append split: option.splits)

lemma insert_key_frame:
  "insert_key fault now wid pub db = Inr db' \<Longrightarrow>
     workers db' = workers db \<and> enrollment_tokens db' = enrollment_tokens db"
  by (erule insert_keyE) simp

lemma insert_event_frame:
  "insert_event fault now wid ty detail actor db = Inr db' \<Longrightarrow>
     workers db' = workers db \<and> enrollment_tokens db' = enrollment_tokens db \<and> worker_keys db' = worker_keys db
     \<and> replay_nonces db' = replay_nonces db"
  by (erule insert_eventE) simp

text \<open>The functional behaviour of a lifecycle transition on its success branch.\<close>

lemma SetState_ok:
  assumes "SetState F now wid newState reason actor db = Inr db'"
  obtains w where "lookup_by w_id wid (workers db) = Some w" "newState \<in> set (transitions (w_state w))"
    "workers db' = update_where (\<lambda>v. w_id v = wid) (apply_state now (w_state w) newState reason) (workers db)"
    "worker_keys db' = (if newState = ''retired'' then worker_keys (revoke_keys now wid db) else worker_keys db)"
    "enrollment_tokens db' = enrollment_tokens db" "replay_nonces db' = replay_nonces db"
  using assms
  by (auto simp: SetState_def Let_def and_then_Inr_iff revoke_keys_def split: option.splits if_splits
      dest!: insert_event_frame)

lemma worker_state_SetState:
  assumes "SetState F now wid newState reason actor db = Inr db'"
  shows "worker_state db' v = (if v = wid then Some newState else worker_state db v)"
  using assms
proof (rule SetState_ok)
  fix w
  assume "lookup_by w_id wid (workers db) = Some w"
    and "workers db' = update_where (\<lambda>v. w_id v = wid) (apply_state now (w_state w) newState reason) (workers db)"
  then show ?thesis
    by (auto simp: worker_state_def upd_state.lookup_kept apply_state_fields option.map_comp comp_def
        dest: lookup_by_SomeD split: option.splits intro!: option.map_cong0)
qed


lemma Register_ok:
  assumes "Register F C now token pub ver db = Inr (wid, st, db')"
  obtains t w where "find (redeemable now (sha256 C token)) (enrollment_tokens db) = Some t"
    "wid = t_worker_id t" "lookup_by w_id wid (workers db) = Some w" "st = w_state w"
    "workers db' = update_where (\<lambda>w. w_id w = wid) (\<lambda>w. w\<lparr>w_software_version := Some ver\<rparr>) (workers db)"
    "enrollment_tokens db' = update_where (redeemable now (sha256 C token))
       (\<lambda>t. t\<lparr>t_used_at := Some now\<rparr>) (enrollment_tokens db)"
proof -
  obtain t where t: "find (redeemable now (sha256 C token)) (enrollment_tokens db) = Some t"
    using assms by (auto simp: Register_def Let_def split: option.split_asm if_split_asm)
  let ?db1 = "db\<lparr>enrollment_tokens := update_where (redeemable now (sha256 C token))
                (\<lambda>t. t\<lparr>t_used_at := Some now\<rparr>) (enrollment_tokens db)\<rparr>"
  obtain db2 w where 1: "insert_key (F ''Register.key'') now (t_worker_id t) pub ?db1 = Inr db2"
    "lookup_by w_id (t_worker_id t) (workers db2) = Some w" "st = w_state w" "wid = t_worker_id t"
    "insert_event (F ''Register.event'') now wid ''registered'' [] ''system'' (set_version wid ver db2) = Inr db'"
    using assms t
    by (auto simp: Register_def Let_def and_then_Inr_iff split: option.split_asm if_split_asm)
  then show ?thesis
    using that [of t w] t insert_key_frame [OF 1(1)] insert_event_frame [OF 1(5)]
    by (simp add: set_version_def)
qed

text \<open>Along a step a worker's state stays, follows an edge of the table, or appears as pending.\<close>

definition state_edge :: "string option \<Rightarrow> string option \<Rightarrow> bool" where
  "state_edge a b \<longleftrightarrow>
     (case a of None \<Rightarrow> b = None \<or> b = Some ''pending''
      | Some s \<Rightarrow> b = Some s \<or> (\<exists>s' \<in> set (transitions s). b = Some s'))"

lemma state_edge_refl [simp]: "state_edge a a"
  by (auto simp: state_edge_def split: option.splits)

definition row_edge :: "worker_row option \<Rightarrow> worker_row option \<Rightarrow> bool" where
  "row_edge a b \<longleftrightarrow>
     (case a of None \<Rightarrow> (case b of None \<Rightarrow> True | Some w \<Rightarrow> w_state w = ''pending'' \<and> w_approved_at w = None)
      | Some w \<Rightarrow> (\<exists>w'. b = Some w' \<and>
          (w_state w' = w_state w \<and> w_approved_at w' = w_approved_at w \<or>
           (\<exists>now s reason. s \<in> set (transitions (w_state w)) \<and> w' = apply_state now (w_state w) s reason w))))"

abbreviation worker_row_of :: "registry_schema \<Rightarrow> string \<Rightarrow> worker_row option" where
  "worker_row_of db wid \<equiv> lookup_by w_id wid (workers db)"

lemma row_edge_refl [simp]: "row_edge a a"
  by (auto simp: row_edge_def split: option.splits)

lemma row_edge_insert_worker:
  "\<not> has_worker db v \<Longrightarrow> row_edge (worker_row_of db wid) (worker_row_of (insert_worker now v operator name db) wid)"
  by (cases "lookup_by w_id wid (workers db)") (auto simp: row_edge_def insert_worker_def lookup_by_append)

lemma row_edge_SetState:
  assumes "SetState F now v newState reason actor db = Inr db'"
  shows "row_edge (worker_row_of db wid) (worker_row_of db' wid)"
  using assms
proof (rule SetState_ok)
  fix w
  assume w: "lookup_by w_id v (workers db) = Some w" "newState \<in> set (transitions (w_state w))"
    and u: "workers db' = update_where (\<lambda>x. w_id x = v) (apply_state now (w_state w) newState reason) (workers db)"
  show ?thesis
  proof (cases "wid = v")
    case True
    then have "worker_row_of db' wid = Some (apply_state now (w_state w) newState reason w)"
      using w(1) lookup_by_SomeD [OF w(1)] by (simp add: u upd_state.lookup_kept)
    then show ?thesis using w True unfolding row_edge_def by auto
  next
    case False
    then have "worker_row_of db' wid = worker_row_of db wid"
      by (cases "worker_row_of db wid") (auto simp: u upd_state.lookup_kept dest: lookup_by_SomeD)
    then show ?thesis by simp
  qed
qed

lemma row_edge_update:
  assumes "\<And>w. w_id (f w) = w_id w" "\<And>w. w_state (f w) = w_state w" "\<And>w. w_approved_at (f w) = w_approved_at w"
  shows "row_edge (lookup_by w_id wid ws) (lookup_by w_id wid (update_where P f ws))"
proof -
  have "lookup_by w_id wid (update_where P f ws) = map_option (\<lambda>w. if P w then f w else w) (lookup_by w_id wid ws)"
    using assms(1) by (induction ws) auto
  then show ?thesis using assms(2,3) by (cases "lookup_by w_id wid ws") (auto simp: row_edge_def)
qed

lemma row_edge_step: "reg_step C db db' \<Longrightarrow> row_edge (worker_row_of db wid) (worker_row_of db' wid)"
proof (induction rule: reg_step.induct)
  case (create F now raw uid operator name ttl db v token db')
  then show ?case
    using row_edge_insert_worker [of db uid wid]
    by (auto simp: CreateWorker_def Let_def insert_token_def split: option.split_asm if_split_asm)
next
  case (register F now token pub ver db v st db')
  then show ?case by (elim Register_ok) (simp add: row_edge_update)
next
  case (ingest F now v operator name hex ex db created db')
  then show ?case
    using row_edge_insert_worker [of db v wid]
    by (auto simp: IngestEnrollment_def Let_def insert_token_def split: option.split_asm if_split_asm)
next
  case (decide F now v st reason db db')
  then show ?case
    by (auto simp: ApplyDecision_def split: option.split_asm if_split_asm intro: row_edge_SetState)
next
  case (rotate F now v pub overlap db db')
  then show ?case
    by (auto simp: RotateKey_def Let_def and_then_Inr_iff split: if_split_asm
        dest!: insert_key_frame insert_event_frame intro!: row_edge_update)
next
  case (heartbeat F now v ver db w db')
  then show ?case
    by (auto simp: Heartbeat_def Let_def split: option.split_asm if_split_asm intro!: row_edge_update)
next
  case (request F v db db')
  then show ?case by (auto simp: RequestRotation_def split: if_split_asm intro!: row_edge_update)
next
  case (nonce F now v nonce db seen db')
  then show ?case by (auto simp: SeenNonce_def split: if_split_asm)
next
  case (prune F now window db n db')
  then show ?case by (auto simp: PruneNonces_def Let_def split: if_split_asm)
next
  case (event db F now v ty actor)
  then show ?case by (auto simp: RecordTrustEvent_def split: sum.split dest!: insert_event_frame)
next
  case (source db F v asn)
  then show ?case by (auto simp: SetSourceASN_def intro!: row_edge_update)
next
  case (scores db ts)
  then show ?case by simp
qed (rule row_edge_SetState)

lemma state_edge_step: "reg_step C db db' \<Longrightarrow> state_edge (worker_state db wid) (worker_state db' wid)"
  using row_edge_step [of C db db' wid]
  by (auto simp: row_edge_def state_edge_def worker_state_def apply_state_fields split: option.split_asm)

interpretation retired: invariant_system "reg_step C" "\<lambda>db. worker_state db wid = Some ''retired''" for C wid
proof unfold_locales
  fix s t
  assume "worker_state s wid = Some ''retired''" and "reg_step C s t"
  with state_edge_step [of C s t wid] show "worker_state t wid = Some ''retired''"
    by (simp add: state_edge_def transitions_def)
qed

text \<open>A worker that left pending without being approved has no approval time, and never gets one.\<close>

definition unapproved :: "registry_schema \<Rightarrow> string \<Rightarrow> bool" where
  "unapproved db wid \<longleftrightarrow>
     (\<exists>w. lookup_by w_id wid (workers db) = Some w \<and> w_state w \<noteq> ''pending'' \<and> w_approved_at w = None)"

lemma pending_not_reached [simp]: "''pending'' \<notin> set (transitions s)"
  by (simp add: transitions_def)

interpretation unapproved: invariant_system "reg_step C" "\<lambda>db. unapproved db wid" for C wid
proof unfold_locales
  fix s t
  assume "unapproved s wid" and "reg_step C s t"
  with row_edge_step [of C s t wid] show "unapproved t wid"
    by (auto simp: unapproved_def row_edge_def apply_state_fields)
qed

text \<open>A spent token stays spent.\<close>

lemma token_spent_used:
  assumes "token_spent db h"
  shows "token_spent (db\<lparr>enrollment_tokens :=
     update_where P (\<lambda>t. t\<lparr>t_used_at := Some now\<rparr>) (enrollment_tokens db)\<rparr>) h"
proof -
  obtain t where t: "t \<in> set (enrollment_tokens db)" "t_token_hash t = h" "t_used_at t \<noteq> None"
    using assms by (auto simp: token_spent_def)
  let ?t = "if P t then t\<lparr>t_used_at := Some now\<rparr> else t"
  have "?t \<in> set (update_where P (\<lambda>t. t\<lparr>t_used_at := Some now\<rparr>) (enrollment_tokens db))"
    using t(1) by (auto simp: in_update_where)
  then show ?thesis using t(2,3) by (auto simp: token_spent_def intro!: bexI [of _ ?t])
qed

lemma token_spent_step: "reg_step C db db' \<Longrightarrow> token_spent db h \<Longrightarrow> token_spent db' h"
proof (induction rule: reg_step.induct)
  case (create F now raw uid operator name ttl db v token db')
  then show ?case
    by (auto simp: CreateWorker_def Let_def reg_ops_defs token_spent_def split: option.splits if_splits)
next
  case (register F now token pub ver db v st db')
  then show ?case
    using token_spent_used [of db h "redeemable now (sha256 C token)" now]
    by (elim Register_ok) (simp add: token_spent_def)
next
  case (set_state F now v st reason actor db db')
  then show ?case by (elim SetState_ok) (simp add: token_spent_def)
next
  case (decide F now v st reason db db')
  then show ?case
    by (auto simp: ApplyDecision_def split: option.splits if_splits elim!: SetState_ok simp: token_spent_def)
next
  case (rotate F now v pub overlap db db')
  then show ?case
    by (auto simp: RotateKey_def Let_def and_then_Inr_iff token_spent_def split: if_splits
        dest!: insert_key_frame insert_event_frame)
next
  case (ingest F now v operator name hex ex db created db')
  then show ?case
    by (auto simp: IngestEnrollment_def Let_def reg_ops_defs token_spent_def split: option.splits if_splits)
next
  case (event db F now v ty actor)
  then show ?case
    by (auto simp: RecordTrustEvent_def token_spent_def split: sum.splits dest!: insert_event_frame)
next
  case (heartbeat F now v ver db w db')
  then show ?case
    by (auto simp: Heartbeat_def Let_def token_spent_def split: option.split_asm if_split_asm)
next
  case (request F v db db')
  then show ?case by (auto simp: RequestRotation_def token_spent_def split: if_split_asm)
next
  case (nonce F now v nonce db seen db')
  then show ?case by (auto simp: SeenNonce_def token_spent_def split: if_split_asm)
next
  case (prune F now window db n db')
  then show ?case by (auto simp: PruneNonces_def Let_def token_spent_def split: if_split_asm)
next
  case (source db F v asn)
  then show ?case by (simp add: SetSourceASN_def token_spent_def)
next
  case (scores db ts)
  then show ?case by (simp add: token_spent_def)
qed

interpretation spent: invariant_system "reg_step C" "\<lambda>db. token_spent db h" for C h
  by unfold_locales (rule token_spent_step)

lemma spent_not_redeemable:
  assumes "reg_inv db" and "token_spent db (sha256 C token)"
  shows "find (redeemable now (sha256 C token)) (enrollment_tokens db) = None"
proof -
  obtain t where t: "t \<in> set (enrollment_tokens db)" "t_token_hash t = sha256 C token" "t_used_at t \<noteq> None"
    using assms(2) by (auto simp: token_spent_def)
  have "\<not> redeemable now (sha256 C token) t'" if "t' \<in> set (enrollment_tokens db)" for t'
  proof
    assume r: "redeemable now (sha256 C token) t'"
    then have "t' = t"
      using assms(1) t(1,2) that inj_on_eq_iff [of t_token_hash "set (enrollment_tokens db)" t' t]
      by (simp add: reg_inv_def distinct_map redeemable_def)
    then show False using r t(3) by (simp add: redeemable_def)
  qed
  then show ?thesis by (simp add: find_None_iff)
qed


lemma Register_spends:
  assumes "Register F C now token pub ver db = Inr (wid, st, db')"
  shows "token_spent db' (sha256 C token)"
  using assms
proof (rule Register_ok)
  fix t
  assume f: "find (redeemable now (sha256 C token)) (enrollment_tokens db) = Some t"
    and e: "enrollment_tokens db' = update_where (redeemable now (sha256 C token))
       (\<lambda>t. t\<lparr>t_used_at := Some now\<rparr>) (enrollment_tokens db)"
  from f have t: "t \<in> set (enrollment_tokens db)" "redeemable now (sha256 C token) t"
    by (auto simp: find_Some_iff)
  then have "t\<lparr>t_used_at := Some now\<rparr> \<in> set (enrollment_tokens db')"
    by (auto simp: e in_update_where)
  then show ?thesis using t(2)
    by (auto simp: token_spent_def redeemable_def intro!: bexI [of _ "t\<lparr>t_used_at := Some now\<rparr>"])
qed

section \<open>Properties\<close>

text \<open>A small registry used by the witnesses: one worker with one unspent token.\<close>

definition demo_crypto :: crypto where
  "demo_crypto = \<lparr>sha256 = (\<lambda>b. take 32 (b @ replicate 32 (CHR 0x00))), ed_public = (\<lambda>k. k),
     ed_sign = (\<lambda>k m. k @ m), ed_verify = (\<lambda>p m s. s = p @ m)\<rparr>"

definition demo_registry :: registry_schema where
  "demo_registry = insert_token (sha256 demo_crypto ''tok'') ''w1'' (24 * hour)
     (insert_worker 0 ''w1'' DevOperatorID ''probe'' empty_registry)"

lemma demo_registry_reachable: "(reg_step demo_crypto)\<^sup>*\<^sup>* empty_registry demo_registry"
proof -
  have "IngestEnrollment no_faults 0 ''w1'' DevOperatorID ''probe''
      (hex_encode (sha256 demo_crypto ''tok'')) (24 * hour) empty_registry = Inr (True, demo_registry)"
    by (simp add: IngestEnrollment_def Let_def demo_registry_def has_worker_def empty_registry_def
        insert_worker_def demo_crypto_def)
  then show ?thesis by (blast intro: reg_step.ingest)
qed

lemma demo_registry_inv: "reg_inv demo_registry"
  using registry.reachable_inv [OF demo_registry_reachable reg_inv_empty] .

text \<open>
  C11. Every state the registry can reach from the empty database satisfies its invariant: unique
  primary keys, lifecycle states only, \<open>retired_at\<close> set exactly on retired workers, at most one
  current key per worker (the index \<open>one_current_key\<close>), and no dangling key, token or nonce.
\<close>

theorem registry_invariant:
  assumes "(reg_step C)\<^sup>*\<^sup>* empty_registry db"
  shows "reg_inv db"
  using assms reg_inv_empty by (rule registry.reachable_inv)

theorem registry_invariant_witness:
  "(reg_step demo_crypto)\<^sup>*\<^sup>* empty_registry demo_registry \<and> reg_inv demo_registry"
  using demo_registry_reachable registry_invariant [OF demo_registry_reachable] by blast

text \<open>
  Retirement is terminal: once a worker is retired, no sequence of registry operations, by any
  actor and under any pattern of database failures, gives it another state.
\<close>

theorem retired_is_terminal:
  assumes "worker_state db wid = Some ''retired''" and "(reg_step C)\<^sup>*\<^sup>* db db'"
  shows "worker_state db' wid = Some ''retired''"
  using assms(2,1) by (rule retired.reachable_inv)

definition demo_retired :: registry_schema where
  "demo_retired = projr (SetState no_faults 5 ''w1'' ''retired'' ''done'' ''admin'' demo_registry)"

lemmas demo_defs = demo_retired_def demo_registry_def insert_token_def insert_worker_def empty_registry_def
  DevOperatorID_def

lemma demo_retired_ok:
  "SetState no_faults 5 ''w1'' ''retired'' ''done'' ''admin'' demo_registry = Inr demo_retired"
  by (simp add: demo_defs SetState_def Let_def transitions_def insert_event_def has_worker_def
      revoke_keys_def apply_state_def)

lemma demo_beat:
  "is_ok (Heartbeat no_faults 9 ''w1'' ''v2'' demo_retired)"
  by (simp add: demo_defs SetState_def Let_def transitions_def insert_event_def has_worker_def
      revoke_keys_def apply_state_def Heartbeat_def)

theorem retired_is_terminal_witness:
  "\<exists>db'. reg_step demo_crypto demo_retired db' \<and> db' \<noteq> demo_retired \<and>
     worker_state db' ''w1'' = Some ''retired''"
proof -
  obtain w db' where h: "Heartbeat no_faults 9 ''w1'' ''v2'' demo_retired = Inr (w, db')"
    using demo_beat by (cases "Heartbeat no_faults 9 ''w1'' ''v2'' demo_retired") auto
  then have s: "reg_step demo_crypto demo_retired db'" by (rule reg_step.heartbeat)
  have r: "worker_state demo_retired ''w1'' = Some ''retired''"
    using worker_state_SetState [OF demo_retired_ok] by simp
  have "db' \<noteq> demo_retired"
    using h by (auto simp: demo_defs SetState_def Let_def transitions_def insert_event_def has_worker_def
        revoke_keys_def apply_state_def Heartbeat_def)
  then show ?thesis using s retired_is_terminal [OF r, of demo_crypto db'] by blast
qed

text \<open>
  Lifecycle changes follow the transition table: in any step of the registry a worker keeps
  its state or moves along an edge of \<^const>\<open>transitions\<close>, and a worker that was not there before
  appears as pending.
\<close>

theorem lifecycle_edges:
  assumes "reg_step C db db'"
  shows "case worker_state db wid of
           None \<Rightarrow> worker_state db' wid = None \<or> worker_state db' wid = Some ''pending''
         | Some s \<Rightarrow> worker_state db' wid = Some s \<or>
             (\<exists>s' \<in> set (transitions s). worker_state db' wid = Some s')"
  using state_edge_step [OF assms, of wid] by (simp add: state_edge_def)

theorem lifecycle_edges_witness:
  "reg_step demo_crypto demo_registry demo_retired \<and>
   worker_state demo_registry ''w1'' = Some ''pending'' \<and>
   (worker_state demo_retired ''w1'' = Some ''pending'' \<or>
     (\<exists>s' \<in> set (transitions ''pending''). worker_state demo_retired ''w1'' = Some s'))"
proof -
  have s: "reg_step demo_crypto demo_registry demo_retired"
    using demo_retired_ok by (rule reg_step.set_state)
  have p: "worker_state demo_registry ''w1'' = Some ''pending''"
    by (simp add: worker_state_def demo_defs)
  show ?thesis using s p lifecycle_edges [OF s, of "''w1''"] by simp
qed

text \<open>
  C14. An enrollment token can be redeemed once: after a successful registration with it, and
  whatever the registry does in between, every later registration with the same token fails, and
  without a database failure the error is \<^const>\<open>ErrBadToken\<close>.
\<close>

theorem token_single_use:
  assumes "reg_inv db" and "Register F C now token pub ver db = Inr (wid, st, db1)"
    and "(reg_step C)\<^sup>*\<^sup>* db1 db2"
  shows "\<not> is_ok (Register F' C now' token pub' ver' db2) \<and>
    Register no_faults C now' token pub' ver' db2 = Inl ErrBadToken"
proof -
  have "reg_inv db2" using assms by (blast intro: registry.reachable_inv reg_inv_Register)
  moreover have "token_spent db2 (sha256 C token)"
    using spent.reachable_inv [OF assms(3) Register_spends [OF assms(2)]] .
  ultimately have "find (redeemable now' (sha256 C token)) (enrollment_tokens db2) = None"
    by (rule spent_not_redeemable)
  then show ?thesis by (simp add: Register_def Let_def)
qed

lemma demo_register:
  "is_ok (Register no_faults demo_crypto 7 ''tok'' (replicate 32 (CHR 0x07)) ''v1'' demo_registry)"
  by (simp add: demo_defs demo_crypto_def Register_def Let_def redeemable_def insert_key_def has_worker_def
      set_version_def insert_event_def)

theorem token_single_use_witness:
  "\<exists>wid st db1. Register no_faults demo_crypto 7 ''tok'' (replicate 32 (CHR 0x07)) ''v1'' demo_registry =
       Inr (wid, st, db1) \<and>
     Register no_faults demo_crypto 8 ''tok'' (replicate 32 (CHR 0x08)) ''v1'' db1 = Inl ErrBadToken"
proof -
  obtain wid st db1 where r:
    "Register no_faults demo_crypto 7 ''tok'' (replicate 32 (CHR 0x07)) ''v1'' demo_registry = Inr (wid, st, db1)"
    using demo_register
    by (cases "Register no_faults demo_crypto 7 ''tok'' (replicate 32 (CHR 0x07)) ''v1'' demo_registry") auto
  then show ?thesis
    using token_single_use [OF demo_registry_inv r rtranclp.rtrancl_refl] by blast
qed


text \<open>
  C27. Retiring a worker revokes its keys in the same transaction: right after the transition, and
  at any later moment of the same state, no key of that worker verifies requests any more.
\<close>

theorem retire_revokes_keys:
  assumes "SetState F now wid ''retired'' reason actor db = Inr db'"
  shows "ActiveKeys no_faults now' wid db' = Inl ErrUnknownWorker"
  using assms
proof (rule SetState_ok)
  assume "worker_keys db' = (if ''retired'' = ''retired'' then worker_keys (revoke_keys now wid db) else worker_keys db)"
  then have "worker_keys db' = worker_keys (revoke_keys now wid db)" by simp
  then have "filter (\<lambda>k. k_worker_id k = wid \<and> key_active now' k) (worker_keys db') = []"
    by (simp add: revoke_keys_def filter_update_where filter_empty_conv key_active_def)
  then show ?thesis by (simp add: ActiveKeys_def split: option.split)
qed

theorem retire_revokes_keys_witness:
  "is_ok (ActiveKeys no_faults 8 ''w1''
     (snd (snd (projr (Register no_faults demo_crypto 7 ''tok'' (replicate 32 (CHR 0x07)) ''v1'' demo_registry))))) \<and>
   (\<exists>db'. SetState no_faults 9 ''w1'' ''retired'' ''bye'' ''worker''
       (snd (snd (projr (Register no_faults demo_crypto 7 ''tok'' (replicate 32 (CHR 0x07)) ''v1'' demo_registry)))) =
         Inr db' \<and>
     ActiveKeys no_faults 10 ''w1'' db' = Inl ErrUnknownWorker)"
proof -
  let ?db = "snd (snd (projr (Register no_faults demo_crypto 7 ''tok'' (replicate 32 (CHR 0x07)) ''v1'' demo_registry)))"
  have a: "is_ok (ActiveKeys no_faults 8 ''w1'' ?db)"
    by (simp add: demo_defs demo_crypto_def Register_def Let_def redeemable_def insert_key_def has_worker_def
        set_version_def insert_event_def ActiveKeys_def key_active_def)
  have "is_ok (SetState no_faults 9 ''w1'' ''retired'' ''bye'' ''worker'' ?db)"
    by (simp add: demo_defs demo_crypto_def Register_def Let_def redeemable_def insert_key_def has_worker_def
        set_version_def insert_event_def SetState_def transitions_def revoke_keys_def apply_state_def)
  then obtain db' where s: "SetState no_faults 9 ''w1'' ''retired'' ''bye'' ''worker'' ?db = Inr db'"
    by (cases "SetState no_faults 9 ''w1'' ''retired'' ''bye'' ''worker'' ?db") auto
  show ?thesis using a s retire_revokes_keys [OF s, of 10] by blast
qed

lemma RotateKey_ok:
  assumes "RotateKey F now wid pub overlap db = Inr db'"
  obtains "has_worker db wid"
    "worker_keys db' = update_where (\<lambda>k. k_worker_id k = wid \<and> current_key k)
        (\<lambda>k. k\<lparr>k_valid_until := Some (now + overlap)\<rparr>) (worker_keys db) @
      [\<lparr>k_id = key_seq db, k_worker_id = wid, k_public_key = pub, k_valid_from = now,
        k_valid_until = None, k_revoked_at = None, k_revoke_reason = None\<rparr>]"
    "map w_id (workers db') = map w_id (workers db)"
  using assms
  by (auto simp: RotateKey_def Let_def and_then_Inr_iff has_worker_def upd_config.keys_kept
      split: if_split_asm dest!: insert_event_frame elim!: insert_keyE)

text \<open>
  Key rotation installs the new key and keeps the old one alive for exactly the overlap: from
  the rotation on, the new key is the first one offered for verification; the key that was current
  before is still offered strictly before \<open>now + overlap\<close>, and from that moment on it is not, unless
  the worker registered the same key bytes under another row.
\<close>

theorem rotation_overlap:
  assumes inv: "reg_inv db" and rot: "RotateKey F now wid pub overlap db = Inr db'"
    and len: "length pub = public_key_size" and later: "now \<le> now'"
    and old: "old \<in> set (worker_keys db)" "k_worker_id old = wid" "current_key old"
      "k_valid_from old \<le> now" "length (k_public_key old) = public_key_size"
  shows "\<exists>keys st. ActiveKeys no_faults now' wid db' = Inr (pub # keys, st) \<and>
     (now' < now + overlap \<longrightarrow> k_public_key old \<in> set keys) \<and>
     (now + overlap \<le> now' \<longrightarrow>
        (\<forall>k \<in> set (worker_keys db). k_public_key k = k_public_key old \<longrightarrow> k = old) \<longrightarrow>
        k_public_key old \<notin> set keys)"
  using rot
proof (rule RotateKey_ok)
  let ?new = "\<lparr>k_id = key_seq db, k_worker_id = wid, k_public_key = pub, k_valid_from = now,
        k_valid_until = None, k_revoked_at = None, k_revoke_reason = None\<rparr>"
  let ?f = "\<lambda>k. k\<lparr>k_valid_until := Some (now + overlap)\<rparr>"
  let ?P = "\<lambda>k. k_worker_id k = wid \<and> current_key k"
  let ?A = "\<lambda>k. k_worker_id k = wid \<and> key_active now' k"
  let ?ks = "update_where ?P ?f (worker_keys db)"
  assume hw: "has_worker db wid" and ks: "worker_keys db' = ?ks @ [?new]"
    and ws: "map w_id (workers db') = map w_id (workers db)"
  have "lookup_by w_id wid (workers db') \<noteq> None"
    using hw ws by (simp add: lookup_by_None_iff has_worker_def) (metis image_set)
  then obtain w where w: "lookup_by w_id wid (workers db') = Some w" by blast
  have ids: "k_id k \<le> k_id ?new" if "k \<in> set (filter ?A ?ks)" for k
    using inv that by (auto simp: reg_inv_def key_inv_def in_update_where less_imp_le)
  define rest where "rest = filter (\<lambda>p. length p = public_key_size) (map k_public_key (rev (sort_key k_id (filter ?A ?ks))))"
  have "filter ?A (worker_keys db') = filter ?A ?ks @ [?new]"
    using later by (simp add: ks key_active_def)
  then have "rev (sort_key k_id (filter ?A (worker_keys db'))) = ?new # rev (sort_key k_id (filter ?A ?ks))"
    using sort_key_snoc [of "filter ?A ?ks" k_id ?new] ids by simp
  then have keys: "ActiveKeys no_faults now' wid db' = Inr (pub # rest, w_state w)"
    using w len by (simp add: ActiveKeys_def rest_def)
  have mem: "p \<in> set rest \<longleftrightarrow> length p = public_key_size \<and> (\<exists>k \<in> set (worker_keys db). k_public_key k = p \<and>
      ?A (if ?P k then ?f k else k))" for p
  proof -
    have "set rest = {p \<in> k_public_key ` {k \<in> (\<lambda>k. if ?P k then ?f k else k) ` set (worker_keys db). ?A k}.
        length p = public_key_size}"
      unfolding rest_def by (simp only: set_filter set_map set_rev set_sort set_update_where)
    also have "\<dots> = {p. length p = public_key_size \<and> (\<exists>k \<in> set (worker_keys db).
        k_public_key (if ?P k then ?f k else k) = p \<and> ?A (if ?P k then ?f k else k))}"
      by blast
    also have "\<dots> = {p. length p = public_key_size \<and> (\<exists>k \<in> set (worker_keys db). k_public_key k = p \<and>
        ?A (if ?P k then ?f k else k))}"
      by (simp add: if_distrib [of k_public_key] cong: if_cong)
    finally show ?thesis by blast
  qed
  have "k_public_key old \<in> set rest" if "now' < now + overlap"
    using that old later unfolding mem by (intro conjI bexI [of _ old]) (auto simp: key_active_def current_key_def)
  moreover have "k_public_key old \<notin> set rest"
    if "now + overlap \<le> now'" "\<forall>k \<in> set (worker_keys db). k_public_key k = k_public_key old \<longrightarrow> k = old"
    using that old unfolding mem by (auto simp: key_active_def current_key_def)
  ultimately show ?thesis using keys by blast
qed

lemmas demo_eval = demo_defs demo_crypto_def Register_def Let_def redeemable_def insert_key_def has_worker_def
  set_version_def insert_event_def current_key_def

definition demo_registered :: registry_schema where
  "demo_registered = snd (snd (projr
     (Register no_faults demo_crypto 7 ''tok'' (replicate 32 (CHR 0x07)) ''v1'' demo_registry)))"

lemma demo_registered_keys:
  "worker_keys demo_registered =
     [\<lparr>k_id = 0, k_worker_id = ''w1'', k_public_key = replicate 32 (CHR 0x07), k_valid_from = 7,
       k_valid_until = None, k_revoked_at = None, k_revoke_reason = None\<rparr>]"
  by (simp add: demo_registered_def demo_eval)

lemma demo_registered_reachable: "(reg_step demo_crypto)\<^sup>*\<^sup>* demo_registry demo_registered"
proof -
  obtain wid st db' where
    "Register no_faults demo_crypto 7 ''tok'' (replicate 32 (CHR 0x07)) ''v1'' demo_registry = Inr (wid, st, db')"
    using demo_register
    by (cases "Register no_faults demo_crypto 7 ''tok'' (replicate 32 (CHR 0x07)) ''v1'' demo_registry") auto
  then show ?thesis by (auto simp: demo_registered_def intro: reg_step.register)
qed

theorem rotation_overlap_witness:
  "\<exists>db'. RotateKey no_faults 100 ''w1'' (replicate 32 (CHR 0x09)) 50 demo_registered = Inr db' \<and>
     (\<exists>keys st. ActiveKeys no_faults 120 ''w1'' db' = Inr (replicate 32 (CHR 0x09) # keys, st) \<and>
        replicate 32 (CHR 0x07) \<in> set keys) \<and>
     (\<exists>keys st. ActiveKeys no_faults 150 ''w1'' db' = Inr (replicate 32 (CHR 0x09) # keys, st) \<and>
        replicate 32 (CHR 0x07) \<notin> set keys)"
proof -
  have inv: "reg_inv demo_registered"
    using registry.reachable_inv [OF demo_registered_reachable demo_registry_inv] .
  have "is_ok (RotateKey no_faults 100 ''w1'' (replicate 32 (CHR 0x09)) 50 demo_registered)"
    by (simp add: demo_registered_def demo_eval RotateKey_def)
  then obtain db' where r: "RotateKey no_faults 100 ''w1'' (replicate 32 (CHR 0x09)) 50 demo_registered = Inr db'"
    by (cases "RotateKey no_faults 100 ''w1'' (replicate 32 (CHR 0x09)) 50 demo_registered") auto
  let ?old = "hd (worker_keys demo_registered)"
  have old: "?old \<in> set (worker_keys demo_registered)" "k_worker_id ?old = ''w1''" "current_key ?old"
    "k_valid_from ?old \<le> 100" "length (k_public_key ?old) = public_key_size"
    "k_public_key ?old = replicate 32 (CHR 0x07)"
    by (simp_all add: demo_registered_keys current_key_def)
  have uniq: "\<forall>k \<in> set (worker_keys demo_registered). k_public_key k = k_public_key ?old \<longrightarrow> k = ?old"
    by (simp add: demo_registered_keys)
  have len: "length (replicate 32 (CHR 0x09)) = public_key_size" by simp
  note use = rotation_overlap [OF inv r len _ old(1-5)]
  show ?thesis using r use [of 120] use [of 150] uniq by (simp add: old(6))
qed

text \<open>
  A worker that was suspended before it was approved never gets an approval time: the lifecycle
  stamps \<open>approved_at\<close> only on the edge from pending to active, so a later activation leaves it
  empty, whatever the registry does afterwards.
\<close>

theorem suspended_pending_never_approved:
  assumes "worker_state db wid = Some ''pending''" and "w_approved_at (the (worker_row_of db wid)) = None"
    and "SetState F now wid ''suspended'' reason actor db = Inr db1" and "(reg_step C)\<^sup>*\<^sup>* db1 db2"
  shows "\<exists>w. worker_row_of db2 wid = Some w \<and> w_approved_at w = None"
proof -
  have "unapproved db1 wid"
    using assms(3)
  proof (rule SetState_ok)
    fix w
    assume "lookup_by w_id wid (workers db) = Some w"
      and "workers db1 = update_where (\<lambda>v. w_id v = wid) (apply_state now (w_state w) ''suspended'' reason) (workers db)"
    then show ?thesis
      using assms(2) by (auto simp: unapproved_def upd_state.lookup_kept apply_state_fields dest: lookup_by_SomeD)
  qed
  from unapproved.reachable_inv [OF assms(4) this] show ?thesis by (auto simp: unapproved_def)
qed

lemma demo_suspend_resume:
  "is_ok (SetState no_faults 5 ''w1'' ''suspended'' ''hold'' ''admin'' demo_registry)"
  "is_ok (SetState no_faults 6 ''w1'' ''active'' ''go'' ''admin''
     (projr (SetState no_faults 5 ''w1'' ''suspended'' ''hold'' ''admin'' demo_registry)))"
  by (simp_all add: demo_eval SetState_def transitions_def apply_state_def)

theorem suspended_pending_never_approved_witness:
  "\<exists>db1 db2. SetState no_faults 5 ''w1'' ''suspended'' ''hold'' ''admin'' demo_registry = Inr db1 \<and>
     SetState no_faults 6 ''w1'' ''active'' ''go'' ''admin'' db1 = Inr db2 \<and>
     worker_state db2 ''w1'' = Some ''active'' \<and>
     (\<exists>w. worker_row_of db2 ''w1'' = Some w \<and> w_approved_at w = None)"
proof -
  obtain db1 where 1: "SetState no_faults 5 ''w1'' ''suspended'' ''hold'' ''admin'' demo_registry = Inr db1"
    using demo_suspend_resume(1)
    by (cases "SetState no_faults 5 ''w1'' ''suspended'' ''hold'' ''admin'' demo_registry") auto
  obtain db2 where 2: "SetState no_faults 6 ''w1'' ''active'' ''go'' ''admin'' db1 = Inr db2"
    using demo_suspend_resume(2) 1
    by (cases "SetState no_faults 6 ''w1'' ''active'' ''go'' ''admin'' db1") auto
  have p: "worker_state demo_registry ''w1'' = Some ''pending''"
    "w_approved_at (the (worker_row_of demo_registry ''w1'')) = None"
    by (simp_all add: worker_state_def demo_defs)
  show ?thesis
    using 1 2 worker_state_SetState [OF 2]
      suspended_pending_never_approved [OF p 1 r_into_rtranclp [of "reg_step demo_crypto", OF reg_step.set_state [OF 2]]]
    by auto
qed

end
