(* ===== verification/Http.thy ===== *)
theory Http
  imports Schema
begin

text \<open>
  What the HTTP handlers share: requests with their headers, responses (the \<open>problem\<close> and
  \<open>writeJSON\<close> helpers of \<^verbatim>\<open>internal/coordinator/server.go\<close>), and the audit log of
  \<^verbatim>\<open>internal/platform/audit/audit.go\<close>. Header names are compared in canonical form.
\<close>

record request =
  req_method :: string
  req_path :: string
  req_query :: "(string \<times> string) list"
  req_header :: "(string \<times> string) list"
  req_body :: "bytes option"
  req_remote :: string

definition header_get :: "(string \<times> string) list \<Rightarrow> string \<Rightarrow> string" where
  "header_get h k = (case map_of h k of None \<Rightarrow> '''' | Some v \<Rightarrow> v)"

definition header_set :: "string \<Rightarrow> string \<Rightarrow> (string \<times> string) list \<Rightarrow> (string \<times> string) list" where
  "header_set k v h = obj_set k v h"

lemma header_get_set [simp]: "header_get (header_set k v h) k' = (if k' = k then v else header_get h k')"
  by (simp add: header_get_def header_set_def)

datatype response =
    Problem nat string
  | JsonBody nat json
  | Empty nat
  | Stream string int bytes

fun status_of :: "response \<Rightarrow> nat" where
  "status_of (Problem n d) = n"
| "status_of (JsonBody n j) = n"
| "status_of (Empty n) = n"
| "status_of (Stream ty n b) = 200"

definition problem :: "nat \<Rightarrow> string \<Rightarrow> response" where
  "problem status detail = Problem status detail"

definition writeJSON :: "nat \<Rightarrow> json \<Rightarrow> response" where
  "writeJSON status v = JsonBody status v"

lemmas response_defs = problem_def writeJSON_def

lemma status_of_simps [simp]: "status_of (problem n d) = n" "status_of (writeJSON n j) = n"
  by (simp_all add: response_defs)

text \<open>
  A missing logger (\<open>present = False\<close>, the nil receiver) discards the event; a failing insert is
  logged and otherwise ignored.
\<close>

definition audit_Event ::
  "bool \<Rightarrow> faults \<Rightarrow> time \<Rightarrow> string \<Rightarrow> string \<Rightarrow> string \<Rightarrow> string \<Rightarrow> (string \<times> json) list \<Rightarrow> db \<Rightarrow> db" where
  "audit_Event present F now category actor action subject detail D =
     (if \<not> present \<or> F ''audit'' then D
      else D\<lparr>audit_of := audit_of D @
         [\<lparr>au_category = category, au_actor = actor, au_action = action, au_subject = subject,
           au_detail = detail, au_created_at = now\<rparr>]\<rparr>)"

lemma audit_Event_frame [simp]:
  "registry_of (audit_Event b F now c a x s d D) = registry_of D"
  "routing_of (audit_Event b F now c a x s d D) = routing_of D"
  "scheduling_of (audit_Event b F now c a x s d D) = scheduling_of D"
  "measurements_of (audit_Event b F now c a x s d D) = measurements_of D"
  "aggregation_of (audit_Event b F now c a x s d D) = aggregation_of D"
  by (simp_all add: audit_Event_def)

end
