(* ===== verification/WireAuth.thy ===== *)
theory WireAuth
  imports Http Encoding
begin

text \<open>
  Request signing (\<^verbatim>\<open>internal/wireauth/wireauth.go\<close>) and observation signing
  (\<^verbatim>\<open>internal/observation/observation.go\<close>). The RFC 3339 codec of \<^verbatim>\<open>time\<close> and the JSON encoding of
  an observation are parameters beside the cryptographic primitives.
\<close>

record wire_env = crypto +
  rfc3339_format :: "time \<Rightarrow> string"
  rfc3339_parse :: "string \<Rightarrow> time option"

text \<open>
  What the codec documents: formatting keeps whole seconds and is parsed back; a parsable text
  contains no bar.
\<close>

definition rfc3339_ok :: "('a) wire_env_scheme \<Rightarrow> bool" where
  "rfc3339_ok E \<longleftrightarrow> (\<forall>t. rfc3339_parse E (rfc3339_format E t) = Some (t - t mod second)) \<and>
     (\<forall>s t. rfc3339_parse E s = Some t \<longrightarrow> s \<noteq> '''' \<and> CHR ''|'' \<notin> set s)"

text \<open>An Ed25519 signature verifies under its own public key and has 64 bytes.\<close>

definition ed25519_ok :: "('a) crypto_scheme \<Rightarrow> bool" where
  "ed25519_ok C \<longleftrightarrow> (\<forall>k m. ed_verify C (ed_public C k) m (ed_sign C k m) \<and> length (ed_sign C k m) = 64)"

section \<open>wireauth\<close>

abbreviation "HeaderWorkerID \<equiv> ''X-Worker-Id''"
abbreviation "HeaderTimestamp \<equiv> ''X-Timestamp''"
abbreviation "HeaderNonce \<equiv> ''X-Nonce''"
abbreviation "HeaderSignature \<equiv> ''X-Signature''"

definition MaxSkew :: int where
  "MaxSkew = 2 * minute"

definition canonical :: "('a) crypto_scheme \<Rightarrow> string \<Rightarrow> string \<Rightarrow> string \<Rightarrow> string \<Rightarrow> bytes \<Rightarrow> bytes" where
  "canonical C method path timestamp nonce body =
     method @ ''|'' @ path @ ''|'' @ timestamp @ ''|'' @ nonce @ ''|'' @ hex_encode (sha256 C body)"

text \<open>\<open>nonceRaw\<close> is what \<^verbatim>\<open>rand.Read\<close> returned, \<^const>\<open>None\<close> on failure.\<close>

definition Sign ::
  "('a) wire_env_scheme \<Rightarrow> time \<Rightarrow> bytes option \<Rightarrow> string \<Rightarrow> bytes \<Rightarrow> bytes \<Rightarrow> request \<Rightarrow> request option" where
  "Sign E now nonceRaw workerID key body req =
     (case nonceRaw of
        None \<Rightarrow> None
      | Some raw \<Rightarrow>
          (let ts = rfc3339_format E now;
               nonce = hex_encode raw;
               sig = ed_sign E key (canonical E (req_method req) (req_path req) ts nonce body) in
           Some (req\<lparr>req_header :=
             header_set HeaderSignature (b64_encode sig)
               (header_set HeaderNonce nonce
                 (header_set HeaderTimestamp ts
                   (header_set HeaderWorkerID workerID (req_header req))))\<rparr>)))"

datatype auth_error = MissingHeaders | BadTimestamp | OutsideWindow | BadEncoding | BadSignature

definition Verify ::
  "('a) wire_env_scheme \<Rightarrow> string \<Rightarrow> string \<Rightarrow> (string \<times> string) list \<Rightarrow> bytes \<Rightarrow> bytes \<Rightarrow> time \<Rightarrow> auth_error + string" where
  "Verify E method path header body pub now =
     (let ts = header_get header HeaderTimestamp;
          nonce = header_get header HeaderNonce;
          sigB64 = header_get header HeaderSignature in
      if ts = '''' \<or> nonce = '''' \<or> sigB64 = '''' then Inl MissingHeaders
      else case rfc3339_parse E ts of
        None \<Rightarrow> Inl BadTimestamp
      | Some t \<Rightarrow>
          (let skew = (if now - t < 0 then - (now - t) else now - t) in
           if skew > MaxSkew then Inl OutsideWindow
           else case b64_decode sigB64 of
             None \<Rightarrow> Inl BadEncoding
           | Some sig \<Rightarrow>
               if \<not> ed_verify E pub (canonical E method path ts nonce body) sig then Inl BadSignature
               else Inr nonce))"

section \<open>observations\<close>

record Observation =
  AssignmentID :: int
  Target :: string
  ProbeType :: string
  MeasuredAt :: time
  OK :: bool
  RTTMillis :: "rat option"
  PacketsSent :: int
  PacketsLost :: int
  Metrics :: "(string \<times> json) list"
  Signature :: string

type_synonym marshal = "Observation \<Rightarrow> bytes option"

definition payload :: "marshal \<Rightarrow> Observation \<Rightarrow> bytes option" where
  "payload mj o1 = mj (o1\<lparr>Signature := ''''\<rparr>)"

definition obs_Sign :: "('a) crypto_scheme \<Rightarrow> marshal \<Rightarrow> bytes \<Rightarrow> Observation \<Rightarrow> Observation option" where
  "obs_Sign C mj key o1 =
     (case payload mj o1 of
        None \<Rightarrow> None
      | Some p \<Rightarrow> Some (o1\<lparr>Signature := b64_encode (ed_sign C key p)\<rparr>))"

definition obs_Verify :: "('a) crypto_scheme \<Rightarrow> marshal \<Rightarrow> bytes \<Rightarrow> Observation \<Rightarrow> bool" where
  "obs_Verify C mj pub o1 =
     (if Signature o1 = '''' then False
      else case b64_decode (Signature o1) of
        None \<Rightarrow> False
      | Some sig \<Rightarrow>
          (case payload mj o1 of
             None \<Rightarrow> False
           | Some p \<Rightarrow> ed_verify C pub p sig))"

section \<open>Properties\<close>

lemma hex_encode_inj: "hex_encode a = hex_encode b \<longleftrightarrow> a = b"
  by (metis hex_roundtrip option.inject)

definition sha256_ok :: "('a) crypto_scheme \<Rightarrow> bool" where
  "sha256_ok C \<longleftrightarrow> (\<forall>b. length (sha256 C b) = sha256_size)"

text \<open>
  The signed text determines what it was made of: for methods and paths without a bar (all the
  routes) and timestamps that parse, two requests with the same canonical text have the same
  method, path, timestamp, nonce and body digest. A captured signature can therefore not be
  presented under another nonce or timestamp.
\<close>

theorem canonical_injective:
  assumes "canonical E m p ts n b = canonical E m' p' ts' n' b'" and "rfc3339_ok E" and "sha256_ok E"
    and "CHR ''|'' \<notin> set m \<union> set p" and "CHR ''|'' \<notin> set m' \<union> set p'"
    and "rfc3339_parse E ts = Some t" and "rfc3339_parse E ts' = Some t'"
  shows "m = m' \<and> p = p' \<and> ts = ts' \<and> n = n' \<and> sha256 E b = sha256 E b'"
proof -
  have ts: "CHR ''|'' \<notin> set ts" "CHR ''|'' \<notin> set ts'"
    using assms(2,6,7) by (auto simp: rfc3339_ok_def)
  have 1: "m = m' \<and> p @ ''|'' @ ts @ ''|'' @ n @ ''|'' @ hex_encode (sha256 E b) =
      p' @ ''|'' @ ts' @ ''|'' @ n' @ ''|'' @ hex_encode (sha256 E b')"
    using assms(1,4,5) by (simp add: canonical_def split_at_separator)
  then have 2: "p = p' \<and> ts @ ''|'' @ n @ ''|'' @ hex_encode (sha256 E b) =
      ts' @ ''|'' @ n' @ ''|'' @ hex_encode (sha256 E b')"
    using assms(4,5) by (simp add: split_at_separator)
  then have 3: "ts = ts' \<and> n @ ''|'' @ hex_encode (sha256 E b) = n' @ ''|'' @ hex_encode (sha256 E b')"
    using ts by (simp add: split_at_separator)
  moreover have "length (''|'' @ hex_encode (sha256 E b)) = length (''|'' @ hex_encode (sha256 E b'))"
    using assms(3) by (simp add: sha256_ok_def)
  ultimately have "n = n' \<and> ''|'' @ hex_encode (sha256 E b) = ''|'' @ hex_encode (sha256 E b')"
    using append_eq_append_conv [of n n'] by blast
  then show ?thesis using 1 2 3 by (simp add: hex_encode_inj)
qed

text \<open>
  A codec and primitives for the witnesses: times as a unary count of seconds with a sign letter, a
  digest of 32 bytes, signatures of 64 bytes.
\<close>

definition pad :: "nat \<Rightarrow> bytes \<Rightarrow> bytes" where
  "pad n b = take n (b @ replicate n (CHR 0x00))"

fun unary :: "string \<Rightarrow> int option" where
  "unary [] = None"
| "unary (c # cs) = (if c = CHR ''p'' \<and> set cs \<subseteq> {CHR ''s''} then Some (int (length cs) * second)
     else if c = CHR ''m'' \<and> set cs \<subseteq> {CHR ''s''} then Some (- int (length cs) * second) else None)"

definition demo_env :: wire_env where
  "demo_env = \<lparr>sha256 = pad 32, ed_public = (\<lambda>k. k), ed_sign = (\<lambda>k m. pad 64 (k @ m)),
     ed_verify = (\<lambda>p m s. s = pad 64 (p @ m)),
     rfc3339_format = (\<lambda>t. if 0 \<le> t div second then CHR ''p'' # replicate (nat (t div second)) (CHR ''s'')
        else CHR ''m'' # replicate (nat (- (t div second))) (CHR ''s'')),
     rfc3339_parse = unary\<rparr>"

lemma length_pad [simp]: "length (pad n b) = n"
  by (simp add: pad_def)

lemma unary_no_bar: "unary s = Some t \<Longrightarrow> s \<noteq> [] \<and> CHR ''|'' \<notin> set s"
  by (cases s) (auto split: if_split_asm)

lemma div_second: "(t div second) * second = t - t mod second"
  by (simp add: minus_mod_eq_div_mult)

lemma demo_env_ok: "rfc3339_ok demo_env" "sha256_ok demo_env" "ed25519_ok demo_env"
proof -
  have "unary (rfc3339_format demo_env t) = Some (t - t mod second)" for t
    unfolding div_second [symmetric] by (auto simp: demo_env_def)
  then have "rfc3339_parse demo_env (rfc3339_format demo_env t) = Some (t - t mod second)" for t
    by (simp add: demo_env_def)
  moreover have "s \<noteq> [] \<and> CHR ''|'' \<notin> set s" if "rfc3339_parse demo_env s = Some t" for s t
    using that unary_no_bar [of s t] by (simp add: demo_env_def)
  ultimately show "rfc3339_ok demo_env" by (simp add: rfc3339_ok_def)
qed (simp_all add: sha256_ok_def ed25519_ok_def demo_env_def)

theorem canonical_injective_witness:
  "canonical demo_env ''POST'' ''/a'' ''pss'' ''n'' ''x'' = canonical demo_env ''POST'' ''/a'' ''pss'' ''n'' (''x'' @ [CHR 0x00]) \<and>
   sha256 demo_env ''x'' = sha256 demo_env (''x'' @ [CHR 0x00])"
proof -
  have p: "rfc3339_parse demo_env ''pss'' = Some (2 * second)" by (simp add: demo_env_def)
  have c: "canonical demo_env ''POST'' ''/a'' ''pss'' ''n'' ''x'' =
      canonical demo_env ''POST'' ''/a'' ''pss'' ''n'' (''x'' @ [CHR 0x00])"
    by (simp add: canonical_def demo_env_def pad_def numeral_eq_Suc)
  show ?thesis
    using canonical_injective [OF c demo_env_ok(1,2) _ _ p p] c by simp
qed

text \<open>
  Signing and verifying fit together: a request signed at time \<open>t\<close> is accepted under the
  signer's public key, with its nonce, by a server whose clock is within the window of the
  timestamp (the whole seconds of \<open>t\<close>), and rejected as outside the window by any other clock.
\<close>

theorem sign_verify:
  assumes "ed25519_ok E" and "rfc3339_ok E" and "raw \<noteq> []"
    and "Sign E t (Some raw) wid key body req = Some req'"
  shows "Verify E (req_method req') (req_path req') (req_header req') body (ed_public E key) now =
    (if \<bar>now - (t - t mod second)\<bar> \<le> MaxSkew then Inr (hex_encode raw) else Inl OutsideWindow)"
proof -
  let ?m = "canonical E (req_method req) (req_path req) (rfc3339_format E t) (hex_encode raw) body"
  have parse: "rfc3339_parse E (rfc3339_format E t) = Some (t - t mod second)" "rfc3339_format E t \<noteq> []"
    using assms(2) by (auto simp: rfc3339_ok_def)
  have "hex_encode raw \<noteq> []" using assms(3) by (metis hex_roundtrip hex_decode.simps(1) option.inject)
  moreover have "length (ed_sign E key ?m) = 64" "ed_verify E (ed_public E key) ?m (ed_sign E key ?m)"
    using assms(1) by (simp_all add: ed25519_ok_def)
  moreover from this(1) have "ed_sign E key ?m \<noteq> []" by auto
  moreover have "(if now - u < 0 then - (now - u) else now - u) = \<bar>now - u\<bar>" for u :: int by simp
  ultimately show ?thesis
    using assms(4) parse by (auto simp: Sign_def Verify_def Let_def)
qed

theorem sign_verify_witness:
  "\<exists>req'. Sign demo_env (5 * second + 1) (Some ''ab'') ''w1'' ''k'' ''body''
       \<lparr>req_method = ''POST'', req_path = ''/x'', req_query = [], req_header = [], req_body = Some ''body'', req_remote = []\<rparr> = Some req' \<and>
     Verify demo_env (req_method req') (req_path req') (req_header req') ''body'' (ed_public demo_env ''k'') (6 * second) =
       Inr (hex_encode ''ab'') \<and>
     Verify demo_env (req_method req') (req_path req') (req_header req') ''body'' (ed_public demo_env ''k'') (200 * second) =
       Inl OutsideWindow"
proof -
  let ?r = "\<lparr>req_method = ''POST'', req_path = ''/x'', req_query = [], req_header = [], req_body = Some ''body'', req_remote = []\<rparr>"
  obtain req' where s: "Sign demo_env (5 * second + 1) (Some ''ab'') ''w1'' ''k'' ''body'' ?r = Some req'"
    by (simp add: Sign_def Let_def)
  show ?thesis
    using s sign_verify [OF demo_env_ok(3,1) _ s, of "6 * second"] sign_verify [OF demo_env_ok(3,1) _ s, of "200 * second"]
    by (simp add: MaxSkew_def)
qed

text \<open>
  An observation that was signed verifies under the signer's public key, and what was measured
  is unchanged by signing.
\<close>

theorem observation_sign_verify:
  assumes "ed25519_ok C" and "obs_Sign C mj key o1 = Some o2"
  shows "obs_Verify C mj (ed_public C key) o2 \<and> o2\<lparr>Signature := []\<rparr> = o1\<lparr>Signature := []\<rparr>"
proof -
  obtain p where p: "payload mj o1 = Some p" "o2 = o1\<lparr>Signature := b64_encode (ed_sign C key p)\<rparr>"
    using assms(2) by (auto simp: obs_Sign_def split: option.split_asm)
  have len: "length (ed_sign C key p) = 64" and v: "ed_verify C (ed_public C key) p (ed_sign C key p)"
    using assms(1) by (simp_all add: ed25519_ok_def)
  from len have "ed_sign C key p \<noteq> []" by auto
  moreover have "payload mj o2 = Some p" using p by (simp add: payload_def)
  ultimately show ?thesis using v by (simp add: obs_Verify_def p(2) payload_def)
qed

definition demo_observation :: Observation where
  "demo_observation = \<lparr>AssignmentID = 0, Target = ''192.0.2.1'', ProbeType = ''icmp'', MeasuredAt = 7, OK = True,
     RTTMillis = Some 12, PacketsSent = 3, PacketsLost = 0, Metrics = [], Signature = []\<rparr>"

definition demo_marshal :: marshal where
  "demo_marshal o1 = Some (Target o1 @ (if OK o1 then ''1'' else ''0''))"

theorem observation_sign_verify_witness:
  "\<exists>o2. obs_Sign demo_env demo_marshal ''k'' demo_observation = Some o2 \<and>
     obs_Verify demo_env demo_marshal (ed_public demo_env ''k'') o2"
proof -
  obtain o2 where s: "obs_Sign demo_env demo_marshal ''k'' demo_observation = Some o2"
    by (simp add: obs_Sign_def payload_def demo_marshal_def)
  show ?thesis using s observation_sign_verify [OF demo_env_ok(3) s] by blast
qed

end
