(* ===== verification/Scheduling.thy ===== *)
theory Scheduling
  imports Schema
begin

text \<open>
  The scheduler of \<^verbatim>\<open>internal/scheduler/scheduler.go\<close>: one reconciliation pass drains the
  assignments whose target or provider is no longer eligible, releases their leases, closes them,
  and creates the missing replicas of every eligible target. A pass is four separate statements,
  not a transaction: a failing one leaves the effect of those before it. The theory also holds the
  invariant of the scheduling tables, which the lease endpoint keeps too.
\<close>

section \<open>Configuration\<close>

record sched_config =
  Redundancy :: int
  FastInterval :: int
  MidInterval :: int
  SlowInterval :: int
  MinInterval :: int

definition sched_withDefaults :: "sched_config \<Rightarrow> sched_config" where
  "sched_withDefaults c = \<lparr>
     Redundancy = (if Redundancy c \<le> 0 then 3 else Redundancy c),
     FastInterval = (if FastInterval c \<le> 0 then 30 else FastInterval c),
     MidInterval = (if MidInterval c \<le> 0 then 60 else MidInterval c),
     SlowInterval = (if SlowInterval c \<le> 0 then 120 else SlowInterval c),
     MinInterval = (if MinInterval c \<le> 0 then 15 else MinInterval c)\<rparr>"

lemma sched_withDefaults_min: "0 < MinInterval (sched_withDefaults c)"
  by (simp add: sched_withDefaults_def)

section \<open>The statements of a pass\<close>

definition live :: "lease_row \<Rightarrow> bool" where
  "live l \<longleftrightarrow> l_released_at l = None"

text \<open>The joins of the eligibility subqueries: target, published snapshot, monitored provider.\<close>

definition published_of :: "routing_schema \<Rightarrow> target_row \<Rightarrow> snapshot_row list" where
  "published_of R t = filter (\<lambda>sn. sn_id sn = tg_snapshot_id t \<and> sn_status sn = ''published'') (snapshots R)"

definition monitored_of :: "routing_schema \<Rightarrow> target_row \<Rightarrow> provider_row list" where
  "monitored_of R t = filter (\<lambda>p. p_provider_id p = tg_provider_id t \<and> p_monitoring_enabled p \<and> p_delisted_at p = None)
     (providers R)"

definition eligible_rows :: "routing_schema \<Rightarrow> (target_row \<times> provider_row) list" where
  "eligible_rows R = concat (map (\<lambda>t.
     if tg_active t then [(t, p). sn \<leftarrow> published_of R t, p \<leftarrow> monitored_of R t] else []) (probe_targets R))"

definition eligible_target :: "routing_schema \<Rightarrow> nat \<Rightarrow> bool" where
  "eligible_target R tid \<longleftrightarrow> tid \<in> set (map (\<lambda>(t, p). tg_id t) (eligible_rows R))"

definition in_pool :: "assignment_row \<Rightarrow> bool" where
  "in_pool a \<longleftrightarrow> a_status a \<in> {''open'', ''leased''}"

definition drain_stmt :: "routing_schema \<Rightarrow> scheduling_schema \<Rightarrow> scheduling_schema" where
  "drain_stmt R S = S\<lparr>assignments :=
     update_where (\<lambda>a. in_pool a \<and> \<not> eligible_target R (a_target_id a))
       (\<lambda>a. a\<lparr>a_status := ''draining''\<rparr>) (assignments S)\<rparr>"

definition undrained_stmt :: "time \<Rightarrow> scheduling_schema \<Rightarrow> scheduling_schema" where
  "undrained_stmt now S = S\<lparr>leases :=
     update_where (\<lambda>l. live l \<and> l_assignment_id l \<in> a_id ` {a \<in> set (assignments S). a_status a = ''draining''})
       (\<lambda>l. l\<lparr>l_released_at := Some now, l_release_reason := Some ''drained''\<rparr>) (leases S)\<rparr>"

definition close_stmt :: "time \<Rightarrow> scheduling_schema \<Rightarrow> scheduling_schema" where
  "close_stmt now S = S\<lparr>assignments :=
     update_where (\<lambda>a. a_status a = ''draining'')
       (\<lambda>a. a\<lparr>a_status := ''closed'', a_closed_at := Some now\<rparr>) (assignments S)\<rparr>"

definition interval_for :: "sched_config \<Rightarrow> int \<Rightarrow> int" where
  "interval_for c priority = max (MinInterval c)
     (if priority \<le> 10 then FastInterval c else if priority \<le> 50 then MidInterval c else SlowInterval c)"

definition pool_count :: "scheduling_schema \<Rightarrow> nat \<Rightarrow> nat" where
  "pool_count S tid = count_where (\<lambda>a. in_pool a \<and> a_target_id a = tid) (assignments S)"


text \<open>
  The rows of the INSERT: for every eligible target one per slot above the number of replicas it
  has. \<open>md5\<close> is PostgreSQL's digest cast to a uuid.
\<close>

definition new_replica :: "(string \<Rightarrow> string) \<Rightarrow> sched_config \<Rightarrow> target_row \<Rightarrow> provider_row \<Rightarrow> assignment_row" where
  "new_replica md5 c t p =
     \<lparr>a_id = 0, a_target_id = tg_id t, a_provider_id = tg_provider_id t, a_probe_type = ''icmp'',
      a_interval_seconds = interval_for c (p_priority p),
      a_redundancy_group = md5 (''vapn-group-'' @ nat_text (tg_id t)),
      a_status = ''open'', a_closed_at = None\<rparr>"

definition missing_slots ::
  "(string \<Rightarrow> string) \<Rightarrow> sched_config \<Rightarrow> scheduling_schema \<Rightarrow> target_row \<times> provider_row \<Rightarrow> assignment_row list" where
  "missing_slots md5 c S tp = (case tp of (t, p) \<Rightarrow>
     map (\<lambda>slot. new_replica md5 c t p)
       (filter (\<lambda>slot. pool_count S (tg_id t) < slot) [1 ..< Suc (nat (Redundancy c))]))"

definition number_rows :: "nat \<Rightarrow> assignment_row list \<Rightarrow> assignment_row list" where
  "number_rows n rows = map (\<lambda>(i, a). a\<lparr>a_id := i\<rparr>) (enumerate n rows)"

definition generate_stmt ::
  "(string \<Rightarrow> string) \<Rightarrow> sched_config \<Rightarrow> routing_schema \<Rightarrow> scheduling_schema \<Rightarrow> scheduling_schema" where
  "generate_stmt md5 c R S =
     (let rows = concat (map (missing_slots md5 c S) (eligible_rows R)) in
      S\<lparr>assignments := assignments S @ number_rows (assignment_seq S) rows,
        assignment_seq := assignment_seq S + length rows\<rparr>)"

text \<open>\<open>Reconcile\<close> returns whether it failed, and the tables as it leaves them.\<close>

definition Reconcile ::
  "faults \<Rightarrow> (string \<Rightarrow> string) \<Rightarrow> sched_config \<Rightarrow> time \<Rightarrow> routing_schema \<Rightarrow> scheduling_schema \<Rightarrow>
     bool \<times> scheduling_schema" where
  "Reconcile F md5 cfg now R S =
     (let c = sched_withDefaults cfg in
      if F ''Reconcile.drain'' then (False, S)
      else let S1 = drain_stmt R S in
      if F ''Reconcile.release'' then (False, S1)
      else let S2 = undrained_stmt now S1 in
      if F ''Reconcile.close'' then (False, S2)
      else let S3 = close_stmt now S2 in
      if F ''Reconcile.generate'' then (False, S3)
      else (True, generate_stmt md5 c R S3))"

text \<open>
  \<open>Run\<close>: a pass at every tick, errors only logged. The world between two ticks is the list of
  fault plans, clocks and routing tables the passes see, and of what the other users of the tables
  did to them before the pass.
\<close>

fun scheduler_Run ::
  "(string \<Rightarrow> string) \<Rightarrow> sched_config \<Rightarrow>
     (faults \<times> time \<times> routing_schema \<times> (scheduling_schema \<Rightarrow> scheduling_schema)) list \<Rightarrow>
     scheduling_schema \<Rightarrow> scheduling_schema" where
  "scheduler_Run md5 cfg [] S = S"
| "scheduler_Run md5 cfg ((F, now, R, others) # ticks) S =
     scheduler_Run md5 cfg ticks (snd (Reconcile F md5 cfg now R (others S)))"

section \<open>The invariant of the scheduling tables\<close>

definition live_ids :: "scheduling_schema \<Rightarrow> nat list" where
  "live_ids S = map l_assignment_id (filter live (leases S))"

definition status_ok :: "nat set \<Rightarrow> assignment_row \<Rightarrow> bool" where
  "status_ok L a \<longleftrightarrow> a_status a \<in> {''open'', ''leased'', ''draining'', ''closed''} \<and>
     (a_status a = ''leased'' \<longrightarrow> a_id a \<in> L) \<and>
     (a_status a \<in> {''open'', ''closed''} \<longrightarrow> a_id a \<notin> L) \<and>
     (a_status a = ''closed'' \<longleftrightarrow> a_closed_at a \<noteq> None)"

text \<open>
  Assignment ids are unique and below the identity counter, an assignment has at most one live
  lease, every lease refers to an assignment, leased assignments have a live lease, and open and
  closed ones have none.
\<close>

definition sched_inv :: "scheduling_schema \<Rightarrow> bool" where
  "sched_inv S \<longleftrightarrow> distinct (map a_id (assignments S)) \<and>
     (\<forall>a \<in> set (assignments S). a_id a < assignment_seq S) \<and>
     distinct (live_ids S) \<and>
     (\<forall>l \<in> set (leases S). l_assignment_id l \<in> a_id ` set (assignments S)) \<and>
     (\<forall>a \<in> set (assignments S). status_ok (set (live_ids S)) a)"

definition group_of :: "scheduling_schema \<Rightarrow> nat \<Rightarrow> string option" where
  "group_of S i = map_option a_redundancy_group (lookup_by a_id i (assignments S))"

text \<open>No worker holds live leases on two replicas of one redundancy group.\<close>

definition diverse :: "scheduling_schema \<Rightarrow> bool" where
  "diverse S \<longleftrightarrow>
     distinct (map (\<lambda>l. (l_worker_id l, group_of S (l_assignment_id l))) (filter live (leases S)))"

definition empty_scheduling :: scheduling_schema where
  "empty_scheduling = \<lparr>assignments = [], leases = [], assignment_seq = 0, lease_seq = 0\<rparr>"

interpretation upd_status: row_update a_id "\<lambda>a. a\<lparr>a_status := s\<rparr>" for s
  by unfold_locales simp

interpretation upd_closed: row_update a_id "\<lambda>a. a\<lparr>a_status := s, a_closed_at := c\<rparr>" for s c
  by unfold_locales simp

interpretation upd_released: row_update "\<lambda>l. (l_assignment_id l, l_worker_id l)"
  "\<lambda>l. l\<lparr>l_released_at := r, l_release_reason := s\<rparr>" for r s
  by unfold_locales simp

interpretation upd_group: row_update "\<lambda>a. (a_id a, a_redundancy_group a)" "\<lambda>a. a\<lparr>a_status := s\<rparr>" for s
  by unfold_locales simp

lemma live_after_release:
  "filter live (update_where (\<lambda>l. live l \<and> P l) (\<lambda>l. l\<lparr>l_released_at := Some now, l_release_reason := r\<rparr>) ls) =
     filter (\<lambda>l. live l \<and> \<not> P l) ls"
  by (induction ls) (auto simp: live_def)

lemma released_ids:
  "map l_assignment_id (update_where P (\<lambda>l. l\<lparr>l_released_at := r, l_release_reason := s\<rparr>) ls) =
     map l_assignment_id ls"
  by (simp add: update_where_proj)

lemma group_of_status [simp]:
  "group_of (S\<lparr>assignments := update_where P (\<lambda>a. a\<lparr>a_status := s\<rparr>) (assignments S)\<rparr>) i = group_of S i"
  "group_of (S\<lparr>assignments := update_where P (\<lambda>a. a\<lparr>a_status := s, a_closed_at := c\<rparr>) (assignments S)\<rparr>) i =
     group_of S i"
  "group_of (S\<lparr>leases := ls\<rparr>) i = group_of S i"
  "group_of (S\<lparr>lease_seq := n\<rparr>) i = group_of S i"
  by (simp_all add: group_of_def upd_status.lookup_kept upd_closed.lookup_kept option.map_comp comp_def if_distrib
      cong: if_cong)

lemma group_of_update:
  "assignments S' = update_where P (\<lambda>a. a\<lparr>a_status := s\<rparr>) (assignments S) \<Longrightarrow> group_of S' i = group_of S i"
  by (simp add: group_of_def upd_status.lookup_kept option.map_comp comp_def if_distrib cong: if_cong)

lemma distinct_filter_conj: "distinct (map f (filter P xs)) \<Longrightarrow> distinct (map f (filter (\<lambda>x. P x \<and> Q x) xs))"
  by (metis distinct_map_filter filter_filter)

lemma diverse_drop:
  assumes "diverse S" and "\<And>i. group_of S' i = group_of S i"
    and "filter live (leases S') = filter (\<lambda>l. live l \<and> Q l) (leases S)"
  shows "diverse S'"
  using assms distinct_filter_conj [of _ live "leases S" Q] by (simp add: diverse_def)

lemma live_ids_unique:
  assumes "distinct (live_ids S)" and "l \<in> set (leases S)" "live l" and "l' \<in> set (leases S)" "live l'"
    and "l_assignment_id l = l_assignment_id l'"
  shows "l = l'"
  using assms inj_on_eq_iff [of l_assignment_id "{l \<in> set (leases S). live l}" l l']
  by (simp add: live_ids_def distinct_map)

text \<open>The frame of every statement that only updates rows of the two tables.\<close>

lemma sched_inv_update:
  assumes "sched_inv S"
    and "assignments S' = update_where P f (assignments S)" "assignment_seq S' = assignment_seq S"
    and id: "\<And>a. a_id (f a) = a_id a"
    and "distinct (live_ids S')" "l_assignment_id ` set (leases S') \<subseteq> a_id ` set (assignments S)"
    and "\<And>a. a \<in> set (assignments S) \<Longrightarrow> status_ok (set (live_ids S)) a \<Longrightarrow>
           status_ok (set (live_ids S')) (if P a then f a else a)"
  shows "sched_inv S'"
proof -
  have ids: "map a_id (assignments S') = map a_id (assignments S)"
    unfolding assms(2) by (rule update_where_proj) (rule id)
  then have "a_id ` set (assignments S') = a_id ` set (assignments S)" by (metis set_map)
  then show ?thesis
    using assms(1,3,5-7) ids unfolding sched_inv_def assms(2) ball_update_where
    by (auto simp: id)
qed

lemma sched_inv_leases:
  "sched_inv S \<Longrightarrow> distinct (live_ids S) \<and> l_assignment_id ` set (leases S) \<subseteq> a_id ` set (assignments S)"
  by (auto simp: sched_inv_def)

lemma assignment_unique:
  "sched_inv S \<Longrightarrow> a \<in> set (assignments S) \<Longrightarrow> b \<in> set (assignments S) \<Longrightarrow> a_id a = a_id b \<Longrightarrow> a = b"
  by (auto simp: sched_inv_def distinct_map dest: inj_onD)

lemma live_ids_assignments [simp]: "live_ids (S\<lparr>assignments := as\<rparr>) = live_ids S"
  by (simp add: live_ids_def)

lemma sched_inv_drain [inv_intros]:
  assumes "sched_inv S"
  shows "sched_inv (drain_stmt R S)"
  by (rule sched_inv_update [OF assms, where S' = "drain_stmt R S" and f = "\<lambda>a. a\<lparr>a_status := ''draining''\<rparr>" and
        P = "\<lambda>a. in_pool a \<and> \<not> eligible_target R (a_target_id a)"])
    (use sched_inv_leases [OF assms] in \<open>auto simp: drain_stmt_def in_pool_def status_ok_def\<close>)

lemma diverse_drain [inv_intros]: "diverse S \<Longrightarrow> diverse (drain_stmt R S)"
  by (simp add: diverse_def drain_stmt_def)

definition draining_ids :: "scheduling_schema \<Rightarrow> nat set" where
  "draining_ids S = a_id ` {a \<in> set (assignments S). a_status a = ''draining''}"

lemma live_undrained:
  "filter live (leases (undrained_stmt now S)) = filter (\<lambda>l. live l \<and> l_assignment_id l \<notin> draining_ids S) (leases S)"
  by (simp add: undrained_stmt_def live_after_release draining_ids_def)

lemma live_ids_undrained:
  "set (live_ids (undrained_stmt now S)) = set (live_ids S) - draining_ids S"
  by (auto simp: live_ids_def live_undrained)

lemma draining_status:
  "sched_inv S \<Longrightarrow> a \<in> set (assignments S) \<Longrightarrow> a_id a \<in> draining_ids S \<longleftrightarrow> a_status a = ''draining''"
  by (auto simp: draining_ids_def dest: assignment_unique)

lemma sched_inv_undrained [inv_intros]:
  assumes "sched_inv S"
  shows "sched_inv (undrained_stmt now S)"
proof (rule sched_inv_update [OF assms, where S' = "undrained_stmt now S"])
  show "assignments (undrained_stmt now S) = update_where (\<lambda>_. False) (\<lambda>a. a) (assignments S)"
    by (simp add: undrained_stmt_def update_where_none)
  show "distinct (live_ids (undrained_stmt now S))"
    using sched_inv_leases [OF assms] by (simp add: live_ids_def live_undrained distinct_filter_conj)
  have "map l_assignment_id (leases (undrained_stmt now S)) = map l_assignment_id (leases S)"
    by (simp add: undrained_stmt_def released_ids)
  then show "l_assignment_id ` set (leases (undrained_stmt now S)) \<subseteq> a_id ` set (assignments S)"
    using sched_inv_leases [OF assms] by (metis set_map)
  show "status_ok (set (live_ids (undrained_stmt now S))) (if False then a else a)"
    if "a \<in> set (assignments S)" "status_ok (set (live_ids S)) a" for a
    using that by (auto simp: live_ids_undrained draining_status [OF assms] status_ok_def)
qed (simp_all add: undrained_stmt_def)

lemma diverse_undrained [inv_intros]: "diverse S \<Longrightarrow> diverse (undrained_stmt now S)"
  by (erule diverse_drop [OF _ _ live_undrained]) (simp add: undrained_stmt_def)

text \<open>
  Closing is sound after the leases of the draining assignments were released; no other statement
  gives a draining assignment a lease, so this also holds when other requests run in between.
\<close>

definition drained :: "scheduling_schema \<Rightarrow> bool" where
  "drained S \<longleftrightarrow> draining_ids S \<inter> set (live_ids S) = {}"

lemma drained_undrained: "drained (undrained_stmt now S)"
  by (auto simp: drained_def live_ids_undrained) (auto simp: undrained_stmt_def draining_ids_def)

lemma sched_inv_close [inv_intros]:
  assumes "sched_inv S" and "drained S"
  shows "sched_inv (close_stmt now S)"
  by (rule sched_inv_update [OF assms(1), where S' = "close_stmt now S" and P = "\<lambda>a. a_status a = ''draining''" and
        f = "\<lambda>a. a\<lparr>a_status := ''closed'', a_closed_at := Some now\<rparr>"])
    (use sched_inv_leases [OF assms(1)] assms(2) draining_status [OF assms(1)] in
      \<open>auto simp: close_stmt_def status_ok_def drained_def\<close>)

lemma diverse_close [inv_intros]: "diverse S \<Longrightarrow> diverse (close_stmt now S)"
  by (simp add: diverse_def close_stmt_def)

section \<open>Generation\<close>

lemma number_rows_ids: "map a_id (number_rows n rows) = [n ..< n + length rows]"
  unfolding number_rows_def by (rule nth_equalityI) (simp_all add: nth_enumerate_eq)

lemma number_rows_in:
  "a \<in> set (number_rows n rows) \<Longrightarrow> \<exists>r \<in> set rows. a = r\<lparr>a_id := a_id a\<rparr> \<and> n \<le> a_id a \<and> a_id a < n + length rows"
  by (force simp: number_rows_def in_set_enumerate_eq)

lemma number_rows_Nil [simp]: "number_rows n [] = []"
  by (simp add: number_rows_def)

lemma count_number_rows:
  "(\<And>a i. P (a\<lparr>a_id := i\<rparr>) = P a) \<Longrightarrow> count_where P (number_rows n rows) = count_where P rows"
  by (induction rows arbitrary: n) (auto simp: number_rows_def)

lemma missing_slots_in:
  "r \<in> set (missing_slots md5 c S tp) \<Longrightarrow> a_target_id r = tg_id (fst tp) \<and> a_status r = ''open'' \<and> a_closed_at r = None \<and>
     a_interval_seconds r = interval_for c (p_priority (snd tp)) \<and> a_provider_id r = tg_provider_id (fst tp) \<and>
     a_redundancy_group r = md5 (''vapn-group-'' @ nat_text (tg_id (fst tp)))"
  by (auto simp: missing_slots_def new_replica_def)

lemma length_missing_slots:
  "length (missing_slots md5 c S (t, p)) = nat (Redundancy c) - pool_count S (tg_id t)"
proof -
  have "length (filter (\<lambda>s. k < s) [1 ..< Suc n]) = n - k" for k n :: nat
    by (induction n) auto
  then show ?thesis by (simp add: missing_slots_def)
qed

lemma count_where_all: "(\<And>x. x \<in> set xs \<Longrightarrow> P x) \<Longrightarrow> count_where P xs = length xs"
  and count_where_none: "(\<And>x. x \<in> set xs \<Longrightarrow> \<not> P x) \<Longrightarrow> count_where P xs = 0"
  by (induction xs) auto

lemma in_pool_target_missing:
  "r \<in> set (missing_slots md5 c S (t, p)) \<Longrightarrow> in_pool r \<and> a_target_id r = tg_id t"
  using missing_slots_in [of r md5 c S "(t, p)"] by (simp add: in_pool_def)

lemma count_generated:
  assumes "distinct (map (\<lambda>(t, p). tg_id t) rows)"
  shows "count_where (\<lambda>a. in_pool a \<and> a_target_id a = tid) (concat (map (missing_slots md5 c S) rows)) =
    (if tid \<in> set (map (\<lambda>(t, p). tg_id t) rows) then nat (Redundancy c) - pool_count S tid else 0)"
  using assms
proof (induction rows)
  case (Cons tp rows)
  obtain t p where tp: "tp = (t, p)" by (cases tp)
  have "count_where (\<lambda>a. in_pool a \<and> a_target_id a = tid) (missing_slots md5 c S tp) =
    (if tid = tg_id t then nat (Redundancy c) - pool_count S tid else 0)"
  proof (cases "tid = tg_id t")
    case True
    then show ?thesis
      using count_where_all [of "missing_slots md5 c S tp" "\<lambda>a. in_pool a \<and> a_target_id a = tid"]
      by (simp add: tp in_pool_target_missing length_missing_slots)
  next
    case False
    then show ?thesis
      using count_where_none [of "missing_slots md5 c S tp" "\<lambda>a. in_pool a \<and> a_target_id a = tid"]
      by (simp add: tp in_pool_target_missing)
  qed
  then show ?case using Cons by (auto simp: tp)
qed simp

lemma sched_inv_generate [inv_intros]:
  assumes "sched_inv S"
  shows "sched_inv (generate_stmt md5 c R S)"
proof -
  let ?rows = "concat (map (missing_slots md5 c S) (eligible_rows R))"
  let ?new = "number_rows (assignment_seq S) ?rows"
  have as: "assignments (generate_stmt md5 c R S) = assignments S @ ?new"
    "leases (generate_stmt md5 c R S) = leases S" "live_ids (generate_stmt md5 c R S) = live_ids S"
    "assignment_seq (generate_stmt md5 c R S) = assignment_seq S + length ?rows"
    by (simp_all add: generate_stmt_def Let_def live_ids_def)
  have new: "assignment_seq S \<le> a_id a \<and> a_id a < assignment_seq S + length ?rows \<and> a_status a = ''open'' \<and>
    a_closed_at a = None" if a: "a \<in> set ?new" for a
  proof -
    obtain r where r: "r \<in> set ?rows" "a = r\<lparr>a_id := a_id a\<rparr>" "assignment_seq S \<le> a_id a"
      "a_id a < assignment_seq S + length ?rows"
      using number_rows_in [OF a] by blast
    obtain tp where "r \<in> set (missing_slots md5 c S tp)" using r(1) by auto
    from missing_slots_in [OF this] have "a_status r = ''open''" "a_closed_at r = None" by simp_all
    then have "a_status (r\<lparr>a_id := a_id a\<rparr>) = ''open''" "a_closed_at (r\<lparr>a_id := a_id a\<rparr>) = None" by simp_all
    then show ?thesis using r(2-4) by metis
  qed
  have fresh: "i < assignment_seq S" if "i \<in> set (live_ids S)" for i
    using that assms by (fastforce simp: sched_inv_def live_ids_def)
  have "set (map a_id ?new) = {assignment_seq S ..< assignment_seq S + length ?rows}"
    unfolding number_rows_ids by simp
  then have "distinct (map a_id (assignments S @ ?new))"
    using assms number_rows_ids [of "assignment_seq S" ?rows] by (fastforce simp: sched_inv_def)
  moreover have "status_ok (set (live_ids S)) a" if "a \<in> set ?new" for a
    using new [OF that] fresh [of "a_id a"] by (auto simp: status_ok_def)
  ultimately show ?thesis
    using assms new unfolding sched_inv_def as by (fastforce simp: less_le_trans)
qed

lemma diverse_generate [inv_intros]:
  assumes "sched_inv S" and "diverse S"
  shows "diverse (generate_stmt md5 c R S)"
proof -
  have "group_of (generate_stmt md5 c R S) (l_assignment_id l) = group_of S (l_assignment_id l)"
    if "l \<in> set (leases S)" for l
  proof -
    have "lookup_by a_id (l_assignment_id l) (assignments S) \<noteq> None"
      using that assms(1) by (simp add: lookup_by_None_iff sched_inv_def)
    then show ?thesis by (auto simp: group_of_def generate_stmt_def Let_def lookup_by_append)
  qed
  then have "map (\<lambda>l. (l_worker_id l, group_of (generate_stmt md5 c R S) (l_assignment_id l))) (filter live (leases S)) =
     map (\<lambda>l. (l_worker_id l, group_of S (l_assignment_id l))) (filter live (leases S))"
    by simp
  moreover have "leases (generate_stmt md5 c R S) = leases S" by (simp add: generate_stmt_def Let_def)
  ultimately show ?thesis using assms(2) unfolding diverse_def by metis
qed

section \<open>What a pass establishes\<close>

definition routing_keys :: "routing_schema \<Rightarrow> bool" where
  "routing_keys R \<longleftrightarrow> distinct (map sn_id (snapshots R)) \<and> distinct (map p_provider_id (providers R)) \<and>
     distinct (map tg_id (probe_targets R))"

lemma filter_key_le1: "distinct (map key xs) \<Longrightarrow> length (filter (\<lambda>x. key x = k \<and> Q x) xs) \<le> 1"
proof (induction xs)
  case (Cons x xs)
  have "filter (\<lambda>y. key y = k \<and> Q y) xs = []" if "key x = k"
    using Cons.prems that by (auto simp: filter_empty_conv image_iff)
  then show ?case using Cons by auto
qed simp

lemma distinct_concat_key:
  assumes "\<And>t. length (g t) \<le> 1" and "\<And>t x. x \<in> set (g t) \<Longrightarrow> key x = k t" and "distinct (map k ts)"
  shows "distinct (map key (concat (map g ts)))"
  using assms(3)
proof (induction ts)
  case (Cons t ts)
  have "distinct (map key (g t))" using assms(1) [of t] by (cases "g t") auto
  moreover have "k t \<notin> key ` set (concat (map g ts))" using Cons.prems assms(2) by fastforce
  ultimately show ?case using Cons assms(2) by auto
qed simp

lemma eligible_distinct:
  assumes "routing_keys R"
  shows "distinct (map (\<lambda>(t, p). tg_id t) (eligible_rows R))"
  unfolding eligible_rows_def
proof (rule distinct_concat_key [where k = tg_id])
  fix t
  have "length (published_of R t) \<le> 1"
    unfolding published_of_def by (rule filter_key_le1) (use assms in \<open>simp add: routing_keys_def\<close>)
  moreover have "length (monitored_of R t) \<le> 1"
    unfolding monitored_of_def by (rule filter_key_le1) (use assms in \<open>simp add: routing_keys_def\<close>)
  ultimately show "length (if tg_active t then [(t, p). sn \<leftarrow> published_of R t, p \<leftarrow> monitored_of R t] else []) \<le> 1"
    by (cases "published_of R t"; cases "monitored_of R t") auto
qed (use assms in \<open>auto simp: routing_keys_def split: if_split_asm\<close>)

lemma count_update_where: "count_where P (update_where Q f xs) = count_where (\<lambda>x. P (if Q x then f x else x)) xs"
  by (induction xs) auto

lemma count_where_cong: "(\<And>x. x \<in> set xs \<Longrightarrow> P x = Q x) \<Longrightarrow> count_where P xs = count_where Q xs"
  by (induction xs) auto

lemma pool_count_kept:
  "eligible_target R tid \<Longrightarrow> pool_count (drain_stmt R S) tid = pool_count S tid"
  "pool_count (undrained_stmt now S) tid = pool_count S tid"
  "pool_count (close_stmt now S) tid = pool_count S tid"
  by (auto simp: pool_count_def drain_stmt_def undrained_stmt_def close_stmt_def count_update_where in_pool_def
      intro!: count_where_cong)

lemma pool_count_generate:
  assumes "routing_keys R" and "eligible_target R tid"
  shows "pool_count (generate_stmt md5 c R S) tid = max (pool_count S tid) (nat (Redundancy c))"
proof -
  have "count_where (\<lambda>a. in_pool a \<and> a_target_id a = tid)
      (number_rows (assignment_seq S) (concat (map (missing_slots md5 c S) (eligible_rows R)))) =
    nat (Redundancy c) - pool_count S tid"
    using count_generated [OF eligible_distinct [OF assms(1)], of tid md5 c S] assms(2)
    by (subst count_number_rows) (simp_all add: in_pool_def eligible_target_def)
  then show ?thesis by (simp add: pool_count_def generate_stmt_def Let_def)
qed

definition pool_eligible :: "routing_schema \<Rightarrow> scheduling_schema \<Rightarrow> bool" where
  "pool_eligible R S \<longleftrightarrow> (\<forall>a \<in> set (assignments S). in_pool a \<longrightarrow> eligible_target R (a_target_id a))"

lemma pool_eligible_stmts:
  "pool_eligible R (drain_stmt R S)"
  "pool_eligible R S \<Longrightarrow> pool_eligible R (undrained_stmt now S)"
  "pool_eligible R S \<Longrightarrow> pool_eligible R (close_stmt now S)"
  by (auto simp: pool_eligible_def drain_stmt_def undrained_stmt_def close_stmt_def ball_update_where in_pool_def)

lemma pool_eligible_generate:
  assumes "pool_eligible R S"
  shows "pool_eligible R (generate_stmt md5 c R S)"
proof -
  have "eligible_target R (a_target_id a)"
    if a: "a \<in> set (number_rows n (concat (map (missing_slots md5 c S) (eligible_rows R))))" for a n
  proof -
    obtain r tp where r: "a = r\<lparr>a_id := a_id a\<rparr>" "tp \<in> set (eligible_rows R)" "r \<in> set (missing_slots md5 c S tp)"
      using number_rows_in [OF a] by auto
    from missing_slots_in [OF r(3)] have "a_target_id (r\<lparr>a_id := a_id a\<rparr>) = tg_id (fst tp)" by simp
    then have "a_target_id a = tg_id (fst tp)" using r(1) by metis
    then show ?thesis using r(2) by (auto simp: eligible_target_def image_iff split: prod.splits intro!: bexI [of _ tp])
  qed
  then show ?thesis using assms by (auto simp: pool_eligible_def generate_stmt_def Let_def)
qed

lemma no_draining_generate:
  "draining_ids S = {} \<Longrightarrow> draining_ids (generate_stmt md5 c R S) = {}"
proof -
  have "a_status a = ''open''"
    if a: "a \<in> set (number_rows n (concat (map (missing_slots md5 c S) (eligible_rows R))))" for a n
  proof -
    obtain r tp where r: "a = r\<lparr>a_id := a_id a\<rparr>" "r \<in> set (missing_slots md5 c S tp)"
      using number_rows_in [OF a] by auto
    from missing_slots_in [OF r(2)] have "a_status (r\<lparr>a_id := a_id a\<rparr>) = ''open''" by simp
    then show ?thesis using r(1) by metis
  qed
  then show "draining_ids S = {} \<Longrightarrow> draining_ids (generate_stmt md5 c R S) = {}"
    by (fastforce simp: draining_ids_def generate_stmt_def Let_def)
qed

lemma no_draining_close: "draining_ids (close_stmt now S) = {}"
  by (auto simp: draining_ids_def close_stmt_def in_update_where split: if_split_asm)

abbreviation pass :: "(string \<Rightarrow> string) \<Rightarrow> sched_config \<Rightarrow> time \<Rightarrow> routing_schema \<Rightarrow> scheduling_schema \<Rightarrow> scheduling_schema" where
  "pass md5 cfg now R S \<equiv>
     generate_stmt md5 (sched_withDefaults cfg) R (close_stmt now (undrained_stmt now (drain_stmt R S)))"

lemma Reconcile_no_faults: "Reconcile no_faults md5 cfg now R S = (True, pass md5 cfg now R S)"
  by (simp add: Reconcile_def Let_def)

lemma pass_idle:
  assumes "pool_eligible R S" and "draining_ids S = {}"
    and "\<And>tid. eligible_target R tid \<Longrightarrow> nat (Redundancy (sched_withDefaults cfg)) \<le> pool_count S tid"
  shows "pass md5 cfg now R S = S"
proof -
  have 1: "drain_stmt R S = S"
    using assms(1) by (simp add: drain_stmt_def update_where_none pool_eligible_def)
  have 2: "undrained_stmt now S = S"
    by (simp only: undrained_stmt_def draining_ids_def [symmetric] assms(2)) (simp add: update_where_none)
  have 3: "close_stmt now S = S"
    using assms(2) by (simp add: close_stmt_def update_where_none draining_ids_def)
  have "missing_slots md5 (sched_withDefaults cfg) S tp = []" if "tp \<in> set (eligible_rows R)" for tp
  proof -
    have "eligible_target R (tg_id (fst tp))"
      using that by (auto simp: eligible_target_def image_iff split: prod.splits intro!: bexI [of _ tp])
    then have "length (missing_slots md5 (sched_withDefaults cfg) S (fst tp, snd tp)) = 0"
      unfolding length_missing_slots using assms(3) by simp
    then show ?thesis by simp
  qed
  then have "concat (map (missing_slots md5 (sched_withDefaults cfg) S) (eligible_rows R)) = []" by simp
  then show ?thesis unfolding 1 2 3 by (simp only: generate_stmt_def Let_def) simp
qed

lemma sched_inv_Reconcile [inv_intros]:
  "sched_inv S \<Longrightarrow> sched_inv (snd (Reconcile F md5 cfg now R S))"
  by (simp add: Reconcile_def Let_def inv_intros drained_undrained)

lemma diverse_Reconcile [inv_intros]:
  "sched_inv S \<Longrightarrow> diverse S \<Longrightarrow> diverse (snd (Reconcile F md5 cfg now R S))"
  by (simp add: Reconcile_def Let_def inv_intros drained_undrained)

section \<open>Properties\<close>


text \<open>A published snapshot with one monitored target, and a target of a superseded snapshot.\<close>

definition demo_routing :: routing_schema where
  "demo_routing = \<lparr>
     snapshots = [\<lparr>sn_id = 0, sn_version = ''v1'', sn_source_uri = ''bview'', sn_source_timestamp = 0, sn_status = ''superseded'', sn_created_at = 0, sn_asn_count = 1,
        sn_prefix_count_v4 = 1, sn_prefix_count_v6 = 0, sn_artifact = None, sn_built_at = None, sn_published_at = Some 1\<rparr>,
       \<lparr>sn_id = 1, sn_version = ''v2'', sn_source_uri = ''bview'', sn_source_timestamp = 0, sn_status = ''published'', sn_created_at = 2, sn_asn_count = 1,
        sn_prefix_count_v4 = 1, sn_prefix_count_v6 = 0, sn_artifact = None, sn_built_at = None, sn_published_at = Some 3\<rparr>],
     providers = [\<lparr>p_provider_id = ''p1'', p_name = ''P'', p_monitoring_enabled = True, p_priority = 5,
        p_synced_at = 0, p_delisted_at = None\<rparr>],
     asns = [\<lparr>as_asn = 64500, as_provider_id = ''p1'', as_registry_name = None, as_registry_country = None,
        as_synced_at = 0\<rparr>],
     prefixes = [],
     probe_targets = [\<lparr>tg_id = 1, tg_snapshot_id = 0, tg_provider_id = ''p1'', tg_prefix_id = 0,
        tg_address = ''192.0.2.1'', tg_rationale = [], tg_active = True, tg_geo_country = None, tg_geo_city = None\<rparr>,
       \<lparr>tg_id = 2, tg_snapshot_id = 1, tg_provider_id = ''p1'', tg_prefix_id = 1,
        tg_address = ''192.0.2.1'', tg_rationale = [], tg_active = True, tg_geo_country = Some ''DE'', tg_geo_city = None\<rparr>],
     provider_geo = [], snapshot_seq = 2, prefix_seq = 2, target_seq = 3\<rparr>"

definition demo_sched_config :: sched_config where
  "demo_sched_config = \<lparr>Redundancy = 0, FastInterval = 5, MidInterval = 0, SlowInterval = 0, MinInterval = 0\<rparr>"

text \<open>An assignment of the superseded target with a live lease.\<close>

definition demo_scheduling :: scheduling_schema where
  "demo_scheduling = \<lparr>
     assignments = [\<lparr>a_id = 0, a_target_id = 1, a_provider_id = ''p1'', a_probe_type = ''icmp'',
        a_interval_seconds = 30, a_redundancy_group = ''g1'', a_status = ''leased'', a_closed_at = None\<rparr>],
     leases = [\<lparr>l_id = 0, l_assignment_id = 0, l_worker_id = ''w1'', l_leased_at = 0, l_expires_at = 100,
        l_released_at = None, l_release_reason = None\<rparr>],
     assignment_seq = 1, lease_seq = 1\<rparr>"

lemma demo_routing_keys: "routing_keys demo_routing"
  by (simp add: routing_keys_def demo_routing_def)

lemma demo_scheduling_inv: "sched_inv demo_scheduling" "diverse demo_scheduling"
  by (simp_all add: sched_inv_def diverse_def demo_scheduling_def live_ids_def live_def status_ok_def)

lemma demo_eligible: "eligible_target demo_routing 2" "\<not> eligible_target demo_routing 1"
  by (simp_all add: eligible_target_def eligible_rows_def published_of_def monitored_of_def demo_routing_def)


text \<open>
  A pass is idempotent: a second pass over the same routing tables, at any later time, changes
  nothing.
\<close>

theorem reconcile_idempotent:
  assumes "routing_keys R" and "Reconcile no_faults md5 cfg now R S = (True, S')"
  shows "Reconcile no_faults md5 cfg now' R S' = (True, S')"
proof -
  have S': "S' = pass md5 cfg now R S" using assms(2) by (simp add: Reconcile_no_faults)
  have "pass md5 cfg now' R S' = S'"
    unfolding S'
    by (rule pass_idle)
      (auto simp: pool_count_generate [OF assms(1)]
        intro!: pool_eligible_generate pool_eligible_stmts no_draining_generate no_draining_close)
  then show ?thesis by (simp add: Reconcile_no_faults)
qed

theorem reconcile_idempotent_witness:
  "\<exists>S'. Reconcile no_faults id demo_sched_config 9 demo_routing demo_scheduling = (True, S') \<and>
     S' \<noteq> demo_scheduling \<and> Reconcile no_faults id demo_sched_config 77 demo_routing S' = (True, S')"
proof -
  obtain S' where r: "Reconcile no_faults id demo_sched_config 9 demo_routing demo_scheduling = (True, S')"
    by (simp add: Reconcile_no_faults)
  have "pool_eligible demo_routing S'"
    using r by (auto simp: Reconcile_no_faults intro!: pool_eligible_generate pool_eligible_stmts)
  moreover have "\<not> pool_eligible demo_routing demo_scheduling"
    using demo_eligible(2) by (simp add: pool_eligible_def demo_scheduling_def in_pool_def)
  ultimately have "S' \<noteq> demo_scheduling" by blast
  then show ?thesis using r reconcile_idempotent [OF demo_routing_keys r, of 77] by blast
qed

text \<open>
  Probing never goes below the configured floor: every assignment a pass creates has an
  interval of at least the effective \<open>MinInterval\<close>, which is positive, so the row always passes
  the table's check; and its redundancy group is a function of its target alone.
\<close>

theorem reconcile_interval_floor:
  "\<forall>a \<in> set (assignments (snd (Reconcile F md5 cfg now R S))).
     a_id a \<in> a_id ` set (assignments S) \<or>
     0 < MinInterval (sched_withDefaults cfg) \<and> MinInterval (sched_withDefaults cfg) \<le> a_interval_seconds a \<and>
     a_redundancy_group a = md5 (''vapn-group-'' @ nat_text (a_target_id a))"
proof -
  let ?S3 = "close_stmt now (undrained_stmt now (drain_stmt R S))"
  let ?c = "sched_withDefaults cfg"
  have ids: "map a_id (assignments (close_stmt now S')) = map a_id (assignments S')"
    "map a_id (assignments (undrained_stmt now S')) = map a_id (assignments S')"
    "map a_id (assignments (drain_stmt R S')) = map a_id (assignments S')" for S'
    by (simp_all add: close_stmt_def undrained_stmt_def drain_stmt_def update_where_proj)
  have old: "a_id a \<in> a_id ` set (assignments S)" if "a \<in> set (assignments S')" "map a_id (assignments S') = map a_id (assignments S)"
    for a S' using that by (metis image_eqI set_map)
  have new: "0 < MinInterval ?c \<and> MinInterval ?c \<le> a_interval_seconds a \<and>
      a_redundancy_group a = md5 (''vapn-group-'' @ nat_text (a_target_id a))"
    if a: "a \<in> set (number_rows n (concat (map (missing_slots md5 ?c S') (eligible_rows R))))" for a n S'
  proof -
    obtain r tp where r: "a = r\<lparr>a_id := a_id a\<rparr>" "r \<in> set (missing_slots md5 ?c S' tp)"
      using number_rows_in [OF a] by auto
    have "a_interval_seconds (r\<lparr>a_id := a_id a\<rparr>) = interval_for ?c (p_priority (snd tp))"
      "a_redundancy_group (r\<lparr>a_id := a_id a\<rparr>) = md5 (''vapn-group-'' @ nat_text (a_target_id (r\<lparr>a_id := a_id a\<rparr>)))"
      using missing_slots_in [OF r(2)] by simp_all
    then show ?thesis using r(1) by (metis interval_for_def max.cobounded1 sched_withDefaults_min)
  qed
  consider (kept) "map a_id (assignments (snd (Reconcile F md5 cfg now R S))) = map a_id (assignments S)"
    | (all) "snd (Reconcile F md5 cfg now R S) = generate_stmt md5 ?c R ?S3"
    by (cases "F ''Reconcile.drain''"; cases "F ''Reconcile.release''"; cases "F ''Reconcile.close''";
        cases "F ''Reconcile.generate''") (simp_all add: Reconcile_def Let_def ids)
  then show ?thesis
  proof cases
    case kept
    then show ?thesis using old by blast
  next
    case all
    have "map a_id (assignments ?S3) = map a_id (assignments S)" by (simp add: ids)
    then show ?thesis
      unfolding all generate_stmt_def Let_def using new [of _ "assignment_seq ?S3" ?S3] old [of _ ?S3]
      by (auto simp del: append.simps)
  qed
qed

lemma demo_pass_rows:
  "map (\<lambda>a. (a_id a, a_target_id a, a_status a))
     (assignments (snd (Reconcile no_faults id demo_sched_config 9 demo_routing demo_scheduling))) =
   [(0, 1, ''closed''), (1, 2, ''open''), (2, 2, ''open''), (3, 2, ''open'')]"
  by (simp add: Reconcile_no_faults drain_stmt_def undrained_stmt_def close_stmt_def generate_stmt_def
      demo_scheduling_def in_pool_def eligible_target_def eligible_rows_def published_of_def monitored_of_def
      demo_routing_def missing_slots_def pool_count_def sched_withDefaults_def demo_sched_config_def
      number_rows_def new_replica_def upt_rec)

theorem reconcile_interval_floor_witness:
  "\<exists>a \<in> set (assignments (snd (Reconcile no_faults id demo_sched_config 9 demo_routing demo_scheduling))).
     a_id a = 1 \<and> 15 \<le> a_interval_seconds a"
proof -
  let ?as = "assignments (snd (Reconcile no_faults id demo_sched_config 9 demo_routing demo_scheduling))"
  have "(1, 2, ''open'') \<in> (\<lambda>a. (a_id a, a_target_id a, a_status a)) ` set ?as"
    unfolding set_map [symmetric] demo_pass_rows by simp
  then obtain a where a: "a \<in> set ?as" "a_id a = 1" by auto
  have "MinInterval (sched_withDefaults demo_sched_config) = 15"
    by (simp add: sched_withDefaults_def demo_sched_config_def)
  moreover have "1 \<notin> a_id ` set (assignments demo_scheduling)" by (simp add: demo_scheduling_def)
  ultimately show ?thesis
    using a reconcile_interval_floor [of no_faults id demo_sched_config 9 demo_routing demo_scheduling] by force
qed

end
