(* ===== verification/Leasing.thy ===== *)
theory Leasing
  imports Scheduling Http
begin

text \<open>
  The lease and release endpoints of \<^verbatim>\<open>internal/coordinator/measurement.go\<close>. A lease call is one
  transaction: renew the caller's live leases, reap the expired ones of the whole fleet, claim open
  assignments up to the capacity, list what the worker now holds. The claim respects the replicas
  the worker already has and its own network; rows locked by concurrent claimants are skipped, the
  parameter \<open>locked\<close> says which.
\<close>

section \<open>Statements\<close>

definition renew_stmt :: "time \<Rightarrow> int \<Rightarrow> string \<Rightarrow> scheduling_schema \<Rightarrow> scheduling_schema" where
  "renew_stmt now ttl wid S = S\<lparr>leases :=
     update_where (\<lambda>l. l_worker_id l = wid \<and> live l) (\<lambda>l. l\<lparr>l_expires_at := now + ttl\<rparr>) (leases S)\<rparr>"

text \<open>
  The shape of the reap and of the release statement: release the matching live leases, reopen
  their assignments if those are leased.
\<close>

definition release_where :: "time \<Rightarrow> string \<Rightarrow> (lease_row \<Rightarrow> bool) \<Rightarrow> scheduling_schema \<Rightarrow> scheduling_schema" where
  "release_where now reason P S =
     (let ids = l_assignment_id ` {l \<in> set (leases S). live l \<and> P l} in
      S\<lparr>leases := update_where (\<lambda>l. live l \<and> P l)
            (\<lambda>l. l\<lparr>l_released_at := Some now, l_release_reason := Some reason\<rparr>) (leases S),
        assignments := update_where (\<lambda>a. a_id a \<in> ids \<and> a_status a = ''leased'')
            (\<lambda>a. a\<lparr>a_status := ''open''\<rparr>) (assignments S)\<rparr>)"

definition reap_stmt :: "time \<Rightarrow> scheduling_schema \<Rightarrow> scheduling_schema" where
  "reap_stmt now S = release_where now ''expired'' (\<lambda>l. l_expires_at l < now) S"

definition held_count :: "string \<Rightarrow> scheduling_schema \<Rightarrow> nat" where
  "held_count wid S = count_where (\<lambda>l. l_worker_id l = wid \<and> live l) (leases S)"

definition mine :: "scheduling_schema \<Rightarrow> string \<Rightarrow> string list" where
  "mine S wid = [a_redundancy_group a. l \<leftarrow> filter (\<lambda>l. l_worker_id l = wid \<and> live l) (leases S),
     a \<leftarrow> filter (\<lambda>a. a_id a = l_assignment_id l) (assignments S)]"

definition own_network :: "routing_schema \<Rightarrow> worker_row \<Rightarrow> string \<Rightarrow> bool" where
  "own_network R me provider \<longleftrightarrow>
     (\<exists>ra \<in> set (asns R). as_provider_id ra = provider \<and> w_source_asn me = Some (as_asn ra))"

definition claimable :: "routing_schema \<Rightarrow> worker_row \<Rightarrow> scheduling_schema \<Rightarrow> assignment_row list" where
  "claimable R me S = filter (\<lambda>a. a_status a = ''open'' \<and> a_redundancy_group a \<notin> set (mine S (w_id me)) \<and>
     \<not> own_network R me (a_provider_id a)) (assignments S)"

text \<open>\<open>distinct on (redundancy_group) ... order by redundancy_group, id\<close>: the least id of each group.\<close>

definition candidates :: "routing_schema \<Rightarrow> worker_row \<Rightarrow> scheduling_schema \<Rightarrow> assignment_row list" where
  "candidates R me S = filter (\<lambda>a. \<forall>b \<in> set (claimable R me S).
      a_redundancy_group b = a_redundancy_group a \<longrightarrow> a_id a \<le> a_id b) (claimable R me S)"

definition claimed :: "(nat \<Rightarrow> bool) \<Rightarrow> routing_schema \<Rightarrow> worker_row list \<Rightarrow> string \<Rightarrow> nat \<Rightarrow> scheduling_schema \<Rightarrow> nat list" where
  "claimed locked R ws wid want S =
     (case lookup_by w_id wid ws of
        None \<Rightarrow> []
      | Some me \<Rightarrow> take want (map a_id (sort_key a_id (filter (\<lambda>a. \<not> locked (a_id a)) (candidates R me S)))))"

definition new_leases :: "time \<Rightarrow> int \<Rightarrow> string \<Rightarrow> nat \<Rightarrow> nat list \<Rightarrow> lease_row list" where
  "new_leases now ttl wid seq ids =
     map (\<lambda>(n, i). \<lparr>l_id = n, l_assignment_id = i, l_worker_id = wid, l_leased_at = now,
        l_expires_at = now + ttl, l_released_at = None, l_release_reason = None\<rparr>) (enumerate seq ids)"

text \<open>The insert fails on the unique index \<open>one_live_lease\<close>.\<close>

definition claim_stmt ::
  "bool \<Rightarrow> time \<Rightarrow> int \<Rightarrow> string \<Rightarrow> nat list \<Rightarrow> scheduling_schema \<Rightarrow> unit + scheduling_schema" where
  "claim_stmt fault now ttl wid ids S =
     (if fault \<or> (\<exists>l \<in> set (leases S). live l \<and> l_worker_id l = wid \<and> l_assignment_id l \<in> set ids) then Inl ()
      else Inr (S\<lparr>assignments := update_where (\<lambda>a. a_id a \<in> set ids)
                   (\<lambda>a. a\<lparr>a_status := ''leased''\<rparr>) (assignments S),
                 leases := leases S @ new_leases now ttl wid (lease_seq S) ids,
                 lease_seq := lease_seq S + length ids\<rparr>))"

record leasedAssignment =
  la_id :: nat
  la_target :: string
  la_probe_type :: string
  la_interval :: int

definition leased_rows :: "routing_schema \<Rightarrow> string \<Rightarrow> scheduling_schema \<Rightarrow> leasedAssignment list" where
  "leased_rows R wid S =
     [\<lparr>la_id = a_id a, la_target = tg_address t, la_probe_type = a_probe_type a, la_interval = a_interval_seconds a\<rparr>.
      l \<leftarrow> filter (\<lambda>l. l_worker_id l = wid \<and> live l) (leases S),
      a \<leftarrow> filter (\<lambda>a. a_id a = l_assignment_id l \<and> a_status a = ''leased'') (assignments S),
      t \<leftarrow> filter (\<lambda>t. tg_id t = a_target_id a) (probe_targets R)]"

definition lease_tx ::
  "faults \<Rightarrow> (nat \<Rightarrow> bool) \<Rightarrow> time \<Rightarrow> int \<Rightarrow> routing_schema \<Rightarrow> worker_row list \<Rightarrow> string \<Rightarrow> int \<Rightarrow>
     scheduling_schema \<Rightarrow> unit + (leasedAssignment list \<times> scheduling_schema)" where
  "lease_tx F locked now ttl R ws wid capacity S =
     (if F ''lease.begin'' \<or> F ''lease.renew'' \<or> F ''lease.reap'' \<or> F ''lease.held'' then Inl ()
      else
        (let S2 = reap_stmt now (renew_stmt now ttl wid S);
             want = capacity - int (held_count wid S2) in
         and_then (if want > 0
                   then claim_stmt (F ''lease.claim'') now ttl wid (claimed locked R ws wid (nat want) S2) S2
                   else Inr S2) (\<lambda>S3.
         if F ''lease.rows'' \<or> F ''lease.commit'' then Inl () else Inr (leased_rows R wid S3, S3))))"

section \<open>Handlers\<close>

definition assignment_json :: "leasedAssignment \<Rightarrow> json" where
  "assignment_json a = JObj [(''assignment_id'', JNum (of_nat (la_id a))), (''target'', JStr (la_target a)),
     (''probe_type'', JStr (la_probe_type a)), (''interval_seconds'', JNum (of_int (la_interval a))),
     (''params'', JObj [])]"

definition leaseTTL :: "int \<Rightarrow> int" where
  "leaseTTL configured = (if configured > 0 then configured else 5 * minute)"

definition clamp_capacity :: "int \<Rightarrow> int \<Rightarrow> int" where
  "clamp_capacity mx capacity = (if mx > 0 \<and> capacity > mx then mx else capacity)"

text \<open>\<open>capacity\<close> is the decoded request, \<^const>\<open>None\<close> when the body is not valid JSON for it.\<close>

definition leaseAssignments ::
  "faults \<Rightarrow> (nat \<Rightarrow> bool) \<Rightarrow> time \<Rightarrow> int \<Rightarrow> int \<Rightarrow> bool \<Rightarrow> string \<Rightarrow> int option \<Rightarrow> db \<Rightarrow> response \<times> db" where
  "leaseAssignments F locked now configuredTTL maxPerWorker paused wid capacity D =
     (case capacity of
        None \<Rightarrow> (problem 400 ''capacity must be a positive integer'', D)
      | Some c \<Rightarrow>
          if c \<le> 0 then (problem 400 ''capacity must be a positive integer'', D)
          else if paused then (writeJSON 200 (JObj [(''assignments'', JArr []), (''paused'', JBool True)]), D)
          else case lease_tx F locked now (leaseTTL configuredTTL) (routing_of D) (workers (registry_of D)) wid
                      (clamp_capacity maxPerWorker c) (scheduling_of D) of
                 Inl _ \<Rightarrow> (problem 500 ''lease failed'', D)
               | Inr (out, S) \<Rightarrow> (writeJSON 200 (JObj [(''assignments'', JArr (map assignment_json out))]),
                                  D\<lparr>scheduling_of := S\<rparr>))"

definition release_stmt :: "time \<Rightarrow> string \<Rightarrow> int list \<Rightarrow> scheduling_schema \<Rightarrow> scheduling_schema" where
  "release_stmt now wid ids S = release_where now ''released by worker''
     (\<lambda>l. l_worker_id l = wid \<and> int (l_assignment_id l) \<in> set ids) S"

definition releaseAssignments ::
  "faults \<Rightarrow> time \<Rightarrow> string \<Rightarrow> int list option \<Rightarrow> db \<Rightarrow> response \<times> db" where
  "releaseAssignments F now wid ids D =
     (case ids of
        None \<Rightarrow> (problem 400 ''invalid JSON body'', D)
      | Some is \<Rightarrow>
          if F ''release'' then (problem 500 ''release failed'', D)
          else (Empty 204, D\<lparr>scheduling_of := release_stmt now wid is (scheduling_of D)\<rparr>))"

section \<open>Release and renewal keep the invariants\<close>

interpretation upd_renew: row_update "\<lambda>l. (l_assignment_id l, l_worker_id l, l_released_at l)"
  "\<lambda>l. l\<lparr>l_expires_at := e\<rparr>" for e
  by unfold_locales simp

lemma renew_live:
  "(\<And>l e. g (l\<lparr>l_expires_at := e\<rparr>) = g l) \<Longrightarrow>
     map g (filter live (leases (renew_stmt now ttl wid S))) = map g (filter live (leases S))"
proof -
  have "map g (filter live (update_where P (\<lambda>l. l\<lparr>l_expires_at := e\<rparr>) ls)) = map g (filter live ls)"
    if "\<And>l e. g (l\<lparr>l_expires_at := e\<rparr>) = g l" for P e ls
    using that by (induction ls) (auto simp: live_def)
  then show "(\<And>l e. g (l\<lparr>l_expires_at := e\<rparr>) = g l) \<Longrightarrow> ?thesis" by (simp add: renew_stmt_def)
qed

lemma renew_frame [simp]:
  "assignments (renew_stmt now ttl wid S) = assignments S"
  "assignment_seq (renew_stmt now ttl wid S) = assignment_seq S"
  "lease_seq (renew_stmt now ttl wid S) = lease_seq S"
  "group_of (renew_stmt now ttl wid S) i = group_of S i"
  by (simp_all add: renew_stmt_def)

lemma live_ids_renew [simp]: "live_ids (renew_stmt now ttl wid S) = live_ids S"
  by (simp add: live_ids_def renew_live)

lemma live_ids_release:
  assumes "distinct (live_ids S)"
  shows "set (live_ids (release_where now reason P S)) =
    set (live_ids S) - l_assignment_id ` {l \<in> set (leases S). live l \<and> P l}"
  using live_ids_unique [OF assms]
  by (auto simp: live_ids_def release_where_def Let_def live_after_release)

lemma sched_inv_release [inv_intros]:
  assumes "sched_inv S"
  shows "sched_inv (release_where now reason P S)"
proof (rule sched_inv_update [OF assms, where S' = "release_where now reason P S"
      and f = "\<lambda>a. a\<lparr>a_status := ''open''\<rparr>"
      and P = "\<lambda>a. a_id a \<in> l_assignment_id ` {l \<in> set (leases S). live l \<and> P l} \<and> a_status a = ''leased''"])
  show "distinct (live_ids (release_where now reason P S))"
    using sched_inv_leases [OF assms]
    by (simp add: live_ids_def release_where_def Let_def live_after_release distinct_filter_conj)
  have "map l_assignment_id (leases (release_where now reason P S)) = map l_assignment_id (leases S)"
    by (simp add: release_where_def Let_def released_ids)
  then show "l_assignment_id ` set (leases (release_where now reason P S)) \<subseteq> a_id ` set (assignments S)"
    using sched_inv_leases [OF assms] by (metis set_map)
  show "status_ok (set (live_ids (release_where now reason P S)))
      (if a_id a \<in> l_assignment_id ` {l \<in> set (leases S). live l \<and> P l} \<and> a_status a = ''leased''
       then a\<lparr>a_status := ''open''\<rparr> else a)"
    if "a \<in> set (assignments S)" "status_ok (set (live_ids S)) a" for a
    using that sched_inv_leases [OF assms] by (auto simp: live_ids_release status_ok_def)
qed (simp_all add: release_where_def Let_def)

lemma diverse_release [inv_intros]: "diverse S \<Longrightarrow> diverse (release_where now reason P S)"
  by (erule diverse_drop [where Q = "\<lambda>l. \<not> P l"])
    (simp_all add: release_where_def Let_def live_after_release group_of_update [where S = S])

lemma sched_inv_renew [inv_intros]:
  assumes "sched_inv S"
  shows "sched_inv (renew_stmt now ttl wid S)"
proof (rule sched_inv_update [OF assms, where S' = "renew_stmt now ttl wid S" and P = "\<lambda>_. False" and f = id])
  have "map l_assignment_id (leases (renew_stmt now ttl wid S)) = map l_assignment_id (leases S)"
    by (simp add: renew_stmt_def update_where_proj)
  then show "l_assignment_id ` set (leases (renew_stmt now ttl wid S)) \<subseteq> a_id ` set (assignments S)"
    using sched_inv_leases [OF assms] by (metis set_map)
qed (use sched_inv_leases [OF assms] in \<open>auto simp: update_where_none\<close>)

lemma diverse_renew [inv_intros]: "diverse S \<Longrightarrow> diverse (renew_stmt now ttl wid S)"
  by (simp add: diverse_def renew_live)

section \<open>The claim keeps the invariants\<close>

lemma new_leases_facts:
  "map l_assignment_id (new_leases now ttl wid seq ids) = ids"
  "l \<in> set (new_leases now ttl wid seq ids) \<Longrightarrow> live l \<and> l_worker_id l = wid \<and> l_assignment_id l \<in> set ids"
  "filter live (new_leases now ttl wid seq ids) = new_leases now ttl wid seq ids"
proof -
  show 1: "map l_assignment_id (new_leases now ttl wid seq ids) = ids"
    unfolding new_leases_def by (rule nth_equalityI) (simp_all add: nth_enumerate_eq)
  show 2: "live l \<and> l_worker_id l = wid \<and> l_assignment_id l \<in> set ids"
    if "l \<in> set (new_leases now ttl wid seq ids)" for l
    using that by (auto simp: new_leases_def live_def in_set_enumerate_eq)
  show "filter live (new_leases now ttl wid seq ids) = new_leases now ttl wid seq ids"
    using 2 by (simp add: filter_id_conv)
qed

lemma claim_stmt_ok:
  assumes "claim_stmt fault now ttl wid ids S = Inr S'"
  obtains "assignments S' = update_where (\<lambda>a. a_id a \<in> set ids) (\<lambda>a. a\<lparr>a_status := ''leased''\<rparr>) (assignments S)"
    "leases S' = leases S @ new_leases now ttl wid (lease_seq S) ids"
    "live_ids S' = live_ids S @ ids" "assignment_seq S' = assignment_seq S"
  using assms by (auto simp: claim_stmt_def live_ids_def new_leases_facts split: if_split_asm)

definition open_ids :: "scheduling_schema \<Rightarrow> nat set" where
  "open_ids S = a_id ` {a \<in> set (assignments S). a_status a = ''open''}"

lemma open_status:
  "sched_inv S \<Longrightarrow> a \<in> set (assignments S) \<Longrightarrow> a_id a \<in> open_ids S \<longleftrightarrow> a_status a = ''open''"
  by (auto simp: open_ids_def dest: assignment_unique)

lemma sched_inv_claim [inv_intros]:
  assumes inv: "sched_inv S" and ok: "claim_stmt fault now ttl wid ids S = Inr S'"
    and ids: "distinct ids" "set ids \<subseteq> open_ids S"
  shows "sched_inv S'"
  using ok
proof (rule claim_stmt_ok)
  assume as: "assignments S' = update_where (\<lambda>a. a_id a \<in> set ids) (\<lambda>a. a\<lparr>a_status := ''leased''\<rparr>) (assignments S)"
    and ls: "leases S' = leases S @ new_leases now ttl wid (lease_seq S) ids"
    and li: "live_ids S' = live_ids S @ ids" and seq: "assignment_seq S' = assignment_seq S"
  have "set ids \<inter> set (live_ids S) = {}"
    using ids(2) inv by (auto simp: open_ids_def sched_inv_def status_ok_def)
  moreover have "a_status a = ''open''" if "a \<in> set (assignments S)" "a_id a \<in> set ids" for a
    using that ids(2) open_status [OF inv that(1)] by blast
  ultimately have st: "status_ok (set (live_ids S')) (if a_id a \<in> set ids then a\<lparr>a_status := ''leased''\<rparr> else a)"
    if "a \<in> set (assignments S)" "status_ok (set (live_ids S)) a" for a
    using that by (auto simp: li status_ok_def)
  have "distinct (live_ids S')"
    using sched_inv_leases [OF inv] ids(1) \<open>set ids \<inter> set (live_ids S) = {}\<close> by (auto simp: li)
  moreover have "l_assignment_id ` set (leases S') \<subseteq> a_id ` set (assignments S)"
  proof -
    have "l_assignment_id ` set (new_leases now ttl wid (lease_seq S) ids) = set ids"
      by (metis new_leases_facts(1) set_map)
    then show ?thesis using sched_inv_leases [OF inv] ids(2) by (auto simp: ls image_Un open_ids_def)
  qed
  ultimately show ?thesis using st by (intro sched_inv_update [OF inv as seq]) simp_all
qed

lemma group_of_row: "sched_inv S \<Longrightarrow> a \<in> set (assignments S) \<Longrightarrow> group_of S (a_id a) = Some (a_redundancy_group a)"
  by (simp add: group_of_def lookup_by_unique sched_inv_def)

lemma group_in_mine:
  assumes "l \<in> set (leases S)" "live l" "l_worker_id l = wid" and "group_of S (l_assignment_id l) = Some g"
  shows "g \<in> set (mine S wid)"
proof -
  obtain a where "lookup_by a_id (l_assignment_id l) (assignments S) = Some a" "a_redundancy_group a = g"
    using assms(4) by (auto simp: group_of_def)
  with lookup_by_SomeD [OF this(1)] show ?thesis using assms(1-3) by (fastforce simp: mine_def)
qed

lemma diverse_claim [inv_intros]:
  assumes div: "diverse S" and ok: "claim_stmt fault now ttl wid ids S = Inr S'"
    and ids: "inj_on (group_of S) (set ids)" "distinct ids"
    and fresh: "\<And>i. i \<in> set ids \<Longrightarrow> \<exists>g. group_of S i = Some g \<and> g \<notin> set (mine S wid)"
  shows "diverse S'"
  using ok
proof (rule claim_stmt_ok)
  assume as: "assignments S' = update_where (\<lambda>a. a_id a \<in> set ids) (\<lambda>a. a\<lparr>a_status := ''leased''\<rparr>) (assignments S)"
    and ls: "leases S' = leases S @ new_leases now ttl wid (lease_seq S) ids"
  let ?new = "new_leases now ttl wid (lease_seq S) ids"
  let ?pair = "\<lambda>l. (l_worker_id l, group_of S (l_assignment_id l))"
  have "map ?pair ?new = map (\<lambda>i. (wid, group_of S i)) (map l_assignment_id ?new)"
    using new_leases_facts(2) by fastforce
  then have new: "map ?pair ?new = map (\<lambda>i. (wid, group_of S i)) ids" by (simp only: new_leases_facts(1))
  have "distinct (map (\<lambda>i. (wid, group_of S i)) ids)"
    using ids by (simp add: distinct_map inj_on_def)
  moreover have "?pair l \<noteq> (wid, group_of S i)" if "l \<in> set (leases S)" "live l" "i \<in> set ids" for l i
    using fresh [OF that(3)] group_in_mine [OF that(1,2), of wid] by auto
  ultimately have "distinct (map ?pair (filter live (leases S)) @ map (\<lambda>i. (wid, group_of S i)) ids)"
    using div by (auto simp: diverse_def)
  then show ?thesis
    by (simp add: diverse_def ls new_leases_facts(3) group_of_update [OF as] new)
qed

lemma candidates_in:
  assumes "a \<in> set (candidates R me S)"
  shows "a \<in> set (assignments S)" "a_status a = ''open''" "a_redundancy_group a \<notin> set (mine S (w_id me))"
    "\<not> own_network R me (a_provider_id a)"
    "\<And>b. b \<in> set (candidates R me S) \<Longrightarrow> a_redundancy_group b = a_redundancy_group a \<Longrightarrow> a_id b = a_id a"
  using assms by (auto simp: candidates_def claimable_def intro: order.antisym)

lemma claimed_in:
  assumes "i \<in> set (claimed locked R ws wid want S)"
  obtains me a where "lookup_by w_id wid ws = Some me" "w_id me = wid" "a \<in> set (candidates R me S)" "a_id a = i"
    "\<not> locked i"
proof -
  obtain me where me: "lookup_by w_id wid ws = Some me"
    using assms by (cases "lookup_by w_id wid ws") (simp_all add: claimed_def)
  then have "i \<in> a_id ` set (filter (\<lambda>a. \<not> locked (a_id a)) (candidates R me S))"
    using assms by (auto simp: claimed_def dest!: in_set_takeD)
  then show ?thesis using that me lookup_by_SomeD [OF me] by auto
qed

lemma length_claimed: "length (claimed locked R ws wid want S) \<le> want"
  by (simp add: claimed_def split: option.split)

lemma distinct_claimed:
  assumes "sched_inv S"
  shows "distinct (claimed locked R ws wid want S)"
proof -
  have "distinct (map a_id (filter P (filter Q (filter Q' (assignments S)))))" for P Q Q'
    using assms unfolding sched_inv_def filter_filter by (intro distinct_map_filter) simp
  then have "distinct (map a_id (filter (\<lambda>a. \<not> locked (a_id a)) (candidates R me S)))" for me
    unfolding candidates_def claimable_def .
  then show ?thesis by (auto simp: claimed_def distinct_map split: option.split)
qed

lemma claimed_open: "set (claimed locked R ws wid want S) \<subseteq> open_ids S"
  using candidates_in(1,2) by (fastforce simp: open_ids_def elim!: claimed_in)

lemma claimed_groups:
  assumes inv: "sched_inv S"
  shows "inj_on (group_of S) (set (claimed locked R ws wid want S))"
    "\<And>i. i \<in> set (claimed locked R ws wid want S) \<Longrightarrow> \<exists>g. group_of S i = Some g \<and> g \<notin> set (mine S wid)"
proof -
  show "inj_on (group_of S) (set (claimed locked R ws wid want S))"
  proof (rule inj_onI)
    fix i j
    assume ij: "i \<in> set (claimed locked R ws wid want S)" "j \<in> set (claimed locked R ws wid want S)"
      "group_of S i = group_of S j"
    obtain me a where a: "lookup_by w_id wid ws = Some me" "a \<in> set (candidates R me S)" "a_id a = i"
      using ij(1) by (auto elim: claimed_in)
    obtain b where b: "b \<in> set (candidates R me S)" "a_id b = j"
      using ij(2) a(1) by (auto elim: claimed_in)
    have "a_redundancy_group a = a_redundancy_group b"
      using ij(3) group_of_row [OF inv candidates_in(1) [OF a(2)]] group_of_row [OF inv candidates_in(1) [OF b(1)]]
        a(3) b(2) by simp
    then show "i = j" using candidates_in(5) [OF b(1) a(2)] a(3) b(2) by simp
  qed
  show "\<exists>g. group_of S i = Some g \<and> g \<notin> set (mine S wid)" if "i \<in> set (claimed locked R ws wid want S)" for i
    using that
  proof (rule claimed_in)
    fix me a
    assume a: "w_id me = wid" "a \<in> set (candidates R me S)" "a_id a = i"
    then show ?thesis
      using group_of_row [OF inv candidates_in(1) [OF a(2)]] candidates_in(3) [OF a(2)] by simp
  qed
qed

section \<open>A lease call\<close>

definition after_reap :: "time \<Rightarrow> int \<Rightarrow> string \<Rightarrow> scheduling_schema \<Rightarrow> scheduling_schema" where
  "after_reap now ttl wid S = reap_stmt now (renew_stmt now ttl wid S)"

lemma lease_tx_cases [consumes 1, case_names full claim]:
  assumes "lease_tx F locked now ttl R ws wid capacity S = Inr (out, S')"
  obtains "S' = after_reap now ttl wid S" "out = leased_rows R wid S'"
      "capacity \<le> int (held_count wid (after_reap now ttl wid S))"
  | ids where "ids = claimed locked R ws wid (nat (capacity - int (held_count wid (after_reap now ttl wid S))))
          (after_reap now ttl wid S)"
      "claim_stmt (F ''lease.claim'') now ttl wid ids (after_reap now ttl wid S) = Inr S'"
      "out = leased_rows R wid S'" "int (held_count wid (after_reap now ttl wid S)) < capacity"
proof -
  let ?S2 = "after_reap now ttl wid S"
  let ?claim = "claim_stmt (F ''lease.claim'') now ttl wid
        (claimed locked R ws wid (nat (capacity - int (held_count wid ?S2))) ?S2) ?S2"
  have "and_then (if capacity - int (held_count wid ?S2) > 0 then ?claim else Inr ?S2)
      (\<lambda>S3. if F ''lease.rows'' \<or> F ''lease.commit'' then Inl () else Inr (leased_rows R wid S3, S3)) = Inr (out, S')"
    using assms unfolding lease_tx_def Let_def after_reap_def [symmetric]
    by (cases "F ''lease.begin'' \<or> F ''lease.renew'' \<or> F ''lease.reap'' \<or> F ''lease.held''") (simp_all only: if_True if_False sum.distinct)
  then obtain S3 where S3: "(if capacity - int (held_count wid ?S2) > 0 then ?claim else Inr ?S2) = Inr S3"
    "(if F ''lease.rows'' \<or> F ''lease.commit'' then Inl () else Inr (leased_rows R wid S3, S3)) = Inr (out, S')"
    unfolding and_then_Inr_iff by blast
  have out: "out = leased_rows R wid S'" "S3 = S'" using S3(2) by (auto split: if_split_asm)
  show ?thesis
  proof (cases "capacity - int (held_count wid ?S2) > 0")
    case True
    then show ?thesis using that(2) S3(1) out by auto
  next
    case False
    then show ?thesis using that(1) S3(1) out by auto
  qed
qed

lemma after_reap_inv [inv_intros]:
  "sched_inv S \<Longrightarrow> sched_inv (after_reap now ttl wid S)" "diverse S \<Longrightarrow> diverse (after_reap now ttl wid S)"
  unfolding after_reap_def reap_stmt_def by (simp_all add: inv_intros)

lemma lease_tx_inv [inv_intros]:
  assumes "lease_tx F locked now ttl R ws wid capacity S = Inr (out, S')" and "sched_inv S"
  shows "sched_inv S'"
  using assms(1)
proof (cases rule: lease_tx_cases)
  case full
  then show ?thesis using assms(2) by (simp add: inv_intros)
next
  case (claim ids)
  have inv2: "sched_inv (after_reap now ttl wid S)" using assms(2) by (rule inv_intros)
  show ?thesis
    unfolding claim(1) by (rule sched_inv_claim [OF inv2 claim(2) [unfolded claim(1)] distinct_claimed [OF inv2] claimed_open])
qed

lemma lease_tx_diverse [inv_intros]:
  assumes "lease_tx F locked now ttl R ws wid capacity S = Inr (out, S')" and "sched_inv S" "diverse S"
  shows "diverse S'"
  using assms(1)
proof (cases rule: lease_tx_cases)
  case full
  then show ?thesis using assms(3) by (simp add: inv_intros)
next
  case (claim ids)
  have inv2: "sched_inv (after_reap now ttl wid S)" "diverse (after_reap now ttl wid S)"
    using assms(2,3) by (simp_all add: inv_intros)
  show ?thesis
    by (rule diverse_claim [OF inv2(2) claim(2) [unfolded claim(1)] claimed_groups(1) [OF inv2(1)]
          distinct_claimed [OF inv2(1)] claimed_groups(2) [OF inv2(1)]])
qed

lemma held_release: "held_count wid (release_where now reason P S) \<le> held_count wid S"
  unfolding held_count_def release_where_def Let_def
  by (simp add: count_update_where) (rule count_where_mono, auto simp: live_def split: if_split_asm)

lemma held_renew: "held_count v (renew_stmt now ttl wid S) = held_count v S"
  unfolding held_count_def renew_stmt_def
  by (simp add: count_update_where) (rule count_where_cong, auto simp: live_def)

lemma held_after_reap: "held_count wid (after_reap now ttl wid S) \<le> held_count wid S"
  unfolding after_reap_def reap_stmt_def by (metis held_release held_renew)

lemma held_claim:
  assumes "claim_stmt fault now ttl wid ids S = Inr S'"
  shows "held_count wid S' = held_count wid S + length ids"
  using assms
proof (rule claim_stmt_ok)
  assume ls: "leases S' = leases S @ new_leases now ttl wid (lease_seq S) ids"
  have "count_where (\<lambda>l. l_worker_id l = wid \<and> live l) (new_leases now ttl wid (lease_seq S) ids) =
      length (new_leases now ttl wid (lease_seq S) ids)"
    by (rule count_where_all) (simp add: new_leases_facts(2))
  also have "\<dots> = length ids" by (simp add: new_leases_def)
  finally show ?thesis by (simp add: held_count_def ls)
qed

text \<open>The worker's own leases were just renewed, so the reaping leaves them alone.\<close>

lemma own_lease_survives:
  assumes "0 \<le> ttl" and "l \<in> set (leases S)" "live l" "l_worker_id l = wid"
  shows "l\<lparr>l_expires_at := now + ttl\<rparr> \<in> set (leases (after_reap now ttl wid S))"
proof -
  let ?l = "l\<lparr>l_expires_at := now + ttl\<rparr>"
  have "?l \<in> set (leases (renew_stmt now ttl wid S))"
    using assms(2-4) by (auto simp: renew_stmt_def in_update_where intro!: bexI [of _ l])
  then show ?thesis
    using assms(1) unfolding after_reap_def reap_stmt_def release_where_def Let_def
    by (auto simp: in_update_where intro!: bexI [of _ ?l])
qed

lemma claim_guard:
  assumes "sched_inv S" and "set ids \<subseteq> open_ids S"
  shows "is_ok (claim_stmt False now ttl wid ids S)"
proof -
  have "l_assignment_id l \<notin> set ids" if "l \<in> set (leases S)" "live l" for l
  proof
    assume i: "l_assignment_id l \<in> set ids"
    then obtain a where "a \<in> set (assignments S)" "a_id a = l_assignment_id l" "a_status a = ''open''"
      using assms(2) by (auto simp: open_ids_def subset_iff image_iff)
    moreover have "l_assignment_id l \<in> set (live_ids S)" using that by (auto simp: live_ids_def)
    ultimately show False using assms(1) by (auto simp: sched_inv_def status_ok_def)
  qed
  then show ?thesis by (auto simp: claim_stmt_def)
qed

section \<open>Interleaving with the scheduler\<close>

text \<open>
  The scheduler's four statements commit one by one, so requests run between them. The state is
  the position of the scheduler inside its pass and the tables; the routing tables and the worker
  table may be different ones at every step, and a pass may stop anywhere.
\<close>

datatype phase = Idle | Draining | Released | Closed

inductive pool_step :: "(string \<Rightarrow> string) \<Rightarrow> sched_config \<Rightarrow> phase \<times> scheduling_schema \<Rightarrow> phase \<times> scheduling_schema \<Rightarrow> bool"
  for md5 cfg where
  drain: "pool_step md5 cfg (Idle, S) (Draining, drain_stmt R S)"
| undrain: "pool_step md5 cfg (Draining, S) (Released, undrained_stmt now S)"
| close: "pool_step md5 cfg (Released, S) (Closed, close_stmt now S)"
| generate: "pool_step md5 cfg (Closed, S) (Idle, generate_stmt md5 (sched_withDefaults cfg) R S)"
| abort: "pool_step md5 cfg (ph, S) (Idle, S)"
| lease: "lease_tx F locked now ttl R ws wid capacity S = Inr (out, S') \<Longrightarrow> pool_step md5 cfg (ph, S) (ph, S')"
| release: "pool_step md5 cfg (ph, S) (ph, release_stmt now wid ids S)"

inductive_cases pool_stepE: "pool_step md5 cfg (ph, S) (ph', S')"

definition pool_inv :: "phase \<times> scheduling_schema \<Rightarrow> bool" where
  "pool_inv ps \<longleftrightarrow> sched_inv (snd ps) \<and> diverse (snd ps) \<and> (fst ps = Released \<longrightarrow> drained (snd ps))"

lemma draining_release [simp]: "draining_ids (release_where now reason P S) = draining_ids S"
proof -
  have "filter (\<lambda>a. a_status a = ''draining'') (update_where (\<lambda>a. Q a \<and> a_status a = ''leased'')
      (\<lambda>a. a\<lparr>a_status := ''open''\<rparr>) as) = filter (\<lambda>a. a_status a = ''draining'') as" for Q as
    by (induction as) auto
  then have "filter (\<lambda>a. a_status a = ''draining'') (assignments (release_where now reason P S)) =
      filter (\<lambda>a. a_status a = ''draining'') (assignments S)"
    by (simp add: release_where_def Let_def)
  then show ?thesis unfolding draining_ids_def by (metis set_filter)
qed

lemma drained_release:
  assumes "sched_inv S" and "drained S"
  shows "drained (release_where now reason P S)"
  using assms sched_inv_leases [OF assms(1)] by (auto simp: drained_def live_ids_release)

lemma drained_renew: "drained S \<Longrightarrow> drained (renew_stmt now ttl wid S)"
  by (simp add: drained_def draining_ids_def)

lemma drained_claim:
  assumes inv: "sched_inv S" and "drained S" and ok: "claim_stmt fault now ttl wid ids S = Inr S'"
    and ids: "set ids \<subseteq> open_ids S"
  shows "drained S'"
  using ok
proof (rule claim_stmt_ok)
  assume as: "assignments S' = update_where (\<lambda>a. a_id a \<in> set ids) (\<lambda>a. a\<lparr>a_status := ''leased''\<rparr>) (assignments S)"
    and li: "live_ids S' = live_ids S @ ids"
  have d: "draining_ids S' \<subseteq> draining_ids S"
    by (auto simp: draining_ids_def as in_update_where split: if_split_asm)
  moreover have "draining_ids S \<inter> set ids = {}"
    using ids by (auto simp: draining_ids_def dest: open_status [OF inv])
  ultimately show ?thesis using assms(2) by (auto simp: drained_def li)
qed

lemma drained_lease:
  assumes "lease_tx F locked now ttl R ws wid capacity S = Inr (out, S')" and "sched_inv S" "drained S"
  shows "drained S'"
proof -
  have d: "drained (after_reap now ttl wid S)"
    unfolding after_reap_def reap_stmt_def
    by (rule drained_release [OF sched_inv_renew [OF assms(2)] drained_renew [OF assms(3)]])
  have inv: "sched_inv (after_reap now ttl wid S)" using assms(2) by (rule inv_intros)
  from assms(1) show ?thesis
  proof (cases rule: lease_tx_cases)
    case (claim ids)
    then show ?thesis by (intro drained_claim [OF inv d claim(2)]) (simp add: claimed_open)
  qed (use d in simp)
qed

interpretation pool: invariant_system "pool_step md5 cfg" pool_inv for md5 cfg
proof unfold_locales
  fix s t
  assume inv: "pool_inv s" and step: "pool_step md5 cfg s t"
  from step inv show "pool_inv t"
    by (cases rule: pool_step.cases)
      (auto simp: pool_inv_def release_stmt_def drained_undrained intro: inv_intros drained_lease drained_release)
qed

lemma pool_inv_empty: "pool_inv (Idle, empty_scheduling)"
  by (simp add: pool_inv_def sched_inv_def diverse_def empty_scheduling_def live_ids_def)

text \<open>A whole pass is a run of the machine, also one that stops at a database error.\<close>

lemma Reconcile_runs: "(pool_step md5 cfg)\<^sup>*\<^sup>* (Idle, S) (Idle, snd (Reconcile F md5 cfg now R S))"
proof -
  let ?s = "pool_step md5 cfg"
  let ?S1 = "drain_stmt R S" and ?S2 = "undrained_stmt now (drain_stmt R S)"
  let ?S3 = "close_stmt now (undrained_stmt now (drain_stmt R S))"
  have 1: "?s\<^sup>*\<^sup>* (Idle, S) (Draining, ?S1)" by (intro r_into_rtranclp pool_step.drain)
  have 2: "?s\<^sup>*\<^sup>* (Idle, S) (Released, ?S2)" using 1 pool_step.undrain by (rule rtranclp.rtrancl_into_rtrancl)
  have 3: "?s\<^sup>*\<^sup>* (Idle, S) (Closed, ?S3)" using 2 pool_step.close by (rule rtranclp.rtrancl_into_rtrancl)
  have stop: "?s\<^sup>*\<^sup>* (Idle, S) (Idle, T)" if "?s\<^sup>*\<^sup>* (Idle, S) (ph, T)" for ph T
    using that pool_step.abort by (rule rtranclp.rtrancl_into_rtrancl)
  have 4: "?s\<^sup>*\<^sup>* (Idle, S) (Idle, generate_stmt md5 (sched_withDefaults cfg) R ?S3)"
    using 3 pool_step.generate by (rule rtranclp.rtrancl_into_rtrancl)
  show ?thesis
    using stop [OF 1] stop [OF 2] stop [OF 3] 4 by (simp add: Reconcile_def Let_def)
qed

section \<open>Properties\<close>

text \<open>
  C2. Whatever the order in which lease calls, releases and the four statements of scheduler
  passes commit, and wherever passes stop: an assignment never has two live leases, open and
  closed assignments have none, leased ones have one, and no worker ever holds live leases on two
  replicas of the same redundancy group.
\<close>

theorem pool_invariant:
  assumes "(pool_step md5 cfg)\<^sup>*\<^sup>* (Idle, empty_scheduling) (ph, S)"
  shows "sched_inv S \<and> diverse S"
  using pool.reachable_inv [OF assms pool_inv_empty] by (simp add: pool_inv_def)

definition demo_worker :: worker_row where
  "demo_worker = \<lparr>w_id = ''w1'', w_operator_id = ''o'', w_name = ''n'', w_state = ''active'', w_state_reason = None,
     w_software_version = None, w_source_asn = Some 64999, w_enrolled_at = 0, w_approved_at = Some 0,
     w_retired_at = None, w_last_heartbeat_at = None, w_config = []\<rparr>"

definition demo_pool :: scheduling_schema where
  "demo_pool = snd (Reconcile no_faults id demo_sched_config 9 demo_routing empty_scheduling)"

lemma demo_pool_reachable: "(pool_step id demo_sched_config)\<^sup>*\<^sup>* (Idle, empty_scheduling) (Idle, demo_pool)"
  unfolding demo_pool_def by (rule Reconcile_runs)

lemma demo_digit: "nat_text 2 = ''2''"
  by code_simp

lemma demo_pool_rows:
  "assignments demo_pool = map (\<lambda>i. \<lparr>a_id = i, a_target_id = 2, a_provider_id = ''p1'', a_probe_type = ''icmp'',
      a_interval_seconds = 15, a_redundancy_group = ''vapn-group-2'', a_status = ''open'', a_closed_at = None\<rparr>) [0, 1, 2]"
  "leases demo_pool = []" "lease_seq demo_pool = 0" "assignment_seq demo_pool = 3"
  by (simp_all add: demo_pool_def Reconcile_no_faults drain_stmt_def undrained_stmt_def close_stmt_def generate_stmt_def
      empty_scheduling_def eligible_rows_def published_of_def monitored_of_def
      demo_routing_def missing_slots_def pool_count_def sched_withDefaults_def demo_sched_config_def
      number_rows_def new_replica_def upt_rec interval_for_def demo_digit)

lemma demo_lease:
  "lease_tx no_faults (\<lambda>_. False) 10 300 demo_routing [demo_worker] ''w1'' 2 demo_pool =
     Inr ([\<lparr>la_id = 0, la_target = ''192.0.2.1'', la_probe_type = ''icmp'', la_interval = 15\<rparr>],
          demo_pool\<lparr>assignments := update_where (\<lambda>a. a_id a \<in> set [0]) (\<lambda>a. a\<lparr>a_status := ''leased''\<rparr>) (assignments demo_pool),
            leases := new_leases 10 300 ''w1'' 0 [0], lease_seq := 1\<rparr>)"
  by (simp add: lease_tx_def Let_def reap_stmt_def release_where_def renew_stmt_def demo_pool_rows held_count_def
      claimed_def candidates_def claimable_def mine_def own_network_def demo_worker_def demo_routing_def claim_stmt_def
      new_leases_def leased_rows_def live_def)

theorem pool_invariant_witness:
  "\<exists>S'. (pool_step id demo_sched_config)\<^sup>*\<^sup>* (Idle, empty_scheduling) (Idle, S') \<and> leases S' \<noteq> [] \<and>
     sched_inv S' \<and> diverse S'"
proof -
  obtain out S' where l: "lease_tx no_faults (\<lambda>_. False) 10 300 demo_routing [demo_worker] ''w1'' 2 demo_pool = Inr (out, S')"
    "leases S' \<noteq> []"
    using demo_lease by (auto simp: new_leases_def)
  have r: "(pool_step id demo_sched_config)\<^sup>*\<^sup>* (Idle, empty_scheduling) (Idle, S')"
    using demo_pool_reachable pool_step.lease [OF l(1)] by (rule rtranclp.rtrancl_into_rtrancl)
  show ?thesis using r l(2) pool_invariant [OF r] by blast
qed



text \<open>
  A worker is never given a target inside its own network, nor one a concurrent claimant has
  locked: for every live lease of the worker it did not hold before the call, the assignment's
  provider has no AS number equal to the worker's source AS.
\<close>

theorem lease_excludes_own_network:
  assumes "lease_tx F locked now ttl R ws wid capacity S = Inr (out, S')" and "sched_inv S"
    and "l \<in> set (leases S')" "live l" "l_worker_id l = wid"
    and "\<not> (\<exists>l0 \<in> set (leases S). live l0 \<and> l_worker_id l0 = wid \<and> l_assignment_id l0 = l_assignment_id l)"
  shows "\<exists>me a. lookup_by w_id wid ws = Some me \<and> a \<in> set (assignments S') \<and> a_id a = l_assignment_id l \<and>
     a_status a = ''leased'' \<and> \<not> own_network R me (a_provider_id a) \<and> \<not> locked (a_id a)"
proof -
  have old: "\<exists>l0 \<in> set (leases S). live l0 \<and> l_worker_id l0 = l_worker_id k \<and> l_assignment_id l0 = l_assignment_id k"
    if k: "k \<in> set (leases (after_reap now ttl wid S))" "live k" for k
  proof -
    let ?g = "\<lambda>l. (l_worker_id l, l_assignment_id l)"
    have "k \<in> set (filter live (leases (after_reap now ttl wid S)))" using k by simp
    then have "k \<in> set (filter live (leases (renew_stmt now ttl wid S)))"
      unfolding after_reap_def reap_stmt_def release_where_def Let_def by (simp add: live_after_release)
    then have "?g k \<in> set (map ?g (filter live (leases (renew_stmt now ttl wid S))))" by auto
    then have "?g k \<in> set (map ?g (filter live (leases S)))" by (subst (asm) renew_live) simp_all
    then obtain l0 where "?g k = ?g l0" "l0 \<in> set (filter live (leases S))" unfolding set_map by (rule imageE)
    then have "l0 \<in> set (leases S)" "live l0" "l_worker_id l0 = l_worker_id k" "l_assignment_id l0 = l_assignment_id k"
      by simp_all
    then show ?thesis by blast
  qed
  from assms(1) show ?thesis
  proof (cases rule: lease_tx_cases)
    case full
    then show ?thesis using old [of l] assms(3-6) by auto
  next
    case (claim ids)
    show ?thesis
      using claim(2)
    proof (rule claim_stmt_ok)
      assume as: "assignments S' = update_where (\<lambda>a. a_id a \<in> set ids) (\<lambda>a. a\<lparr>a_status := ''leased''\<rparr>)
          (assignments (after_reap now ttl wid S))"
        and ls: "leases S' = leases (after_reap now ttl wid S) @ new_leases now ttl wid (lease_seq (after_reap now ttl wid S)) ids"
      have "l \<notin> set (leases (after_reap now ttl wid S))" using assms(4-6) old [of l] by blast
      then have "l \<in> set (new_leases now ttl wid (lease_seq (after_reap now ttl wid S)) ids)"
        using assms(3) unfolding ls set_append by blast
      then have "l_assignment_id l \<in> set ids" using new_leases_facts(2) by blast
      then obtain me a where a: "lookup_by w_id wid ws = Some me" "a \<in> set (candidates R me (after_reap now ttl wid S))"
        "a_id a = l_assignment_id l" "\<not> locked (l_assignment_id l)"
        unfolding claim(1) by (rule claimed_in)
      have "a\<lparr>a_status := ''leased''\<rparr> \<in> set (assignments S')"
        using candidates_in(1) [OF a(2)] \<open>l_assignment_id l \<in> set ids\<close> a(3)
        by (auto simp: as in_update_where intro!: bexI [of _ a])
      then show ?thesis
        using a candidates_in(4) [OF a(2)] by (intro exI [of _ me] exI [of _ "a\<lparr>a_status := ''leased''\<rparr>"]) simp
    qed
  qed
qed

lemma demo_pool_inv: "sched_inv demo_pool"
  using pool.reachable_inv [OF demo_pool_reachable pool_inv_empty] by (simp add: pool_inv_def)

theorem lease_excludes_own_network_witness:
  "\<exists>out S' l. lease_tx no_faults (\<lambda>_. False) 10 300 demo_routing [demo_worker] ''w1'' 2 demo_pool = Inr (out, S') \<and>
     l \<in> set (leases S') \<and>
     (\<exists>me a. lookup_by w_id ''w1'' [demo_worker] = Some me \<and> a \<in> set (assignments S') \<and> a_id a = l_assignment_id l \<and>
        a_status a = ''leased'' \<and> \<not> own_network demo_routing me (a_provider_id a))"
proof -
  let ?l = "hd (new_leases 10 300 ''w1'' 0 [0])"
  have l: "?l \<in> set (new_leases 10 300 ''w1'' 0 [0])" "live ?l" "l_worker_id ?l = ''w1''"
    by (simp_all add: new_leases_def live_def)
  let ?S = "demo_pool\<lparr>assignments := update_where (\<lambda>a. a_id a \<in> set [0]) (\<lambda>a. a\<lparr>a_status := ''leased''\<rparr>) (assignments demo_pool),
            leases := new_leases 10 300 ''w1'' 0 [0], lease_seq := 1\<rparr>"
  have m: "?l \<in> set (leases ?S)" using l(1) by simp
  have n: "\<not> (\<exists>l0 \<in> set (leases demo_pool). live l0 \<and> l_worker_id l0 = ''w1'' \<and> l_assignment_id l0 = l_assignment_id ?l)"
    by (simp add: demo_pool_rows(2))
  show ?thesis using lease_excludes_own_network [OF demo_lease demo_pool_inv m l(2,3) n] demo_lease m by blast
qed



end
