(* ===== verification/Netip.thy ===== *)
theory Netip
  imports Prelude
begin

text \<open>
  Addresses and prefixes of Go's \<^verbatim>\<open>net/netip\<close>, as far as the program uses them: \<^verbatim>\<open>ParseAddr\<close>,
  \<^verbatim>\<open>ParsePrefix\<close>, \<^verbatim>\<open>Masked\<close>, \<^verbatim>\<open>Contains\<close>, \<^verbatim>\<open>Overlaps\<close>, \<^verbatim>\<open>Less\<close>, \<^verbatim>\<open>Is4\<close>, \<^verbatim>\<open>Is6\<close>. An address is its
  number; an IPv6 address carries its zone.
\<close>

datatype addr = V4 nat | V6 nat string

fun bit_len :: "addr \<Rightarrow> nat" where
  "bit_len (V4 n) = 32"
| "bit_len (V6 n z) = 128"

fun addr_num :: "addr \<Rightarrow> nat" where
  "addr_num (V4 n) = n"
| "addr_num (V6 n z) = n"

fun is4 :: "addr \<Rightarrow> bool" where
  "is4 (V4 n) = True"
| "is4 (V6 n z) = False"

definition is6 :: "addr \<Rightarrow> bool" where
  "is6 a \<longleftrightarrow> \<not> is4 a"

definition addr_ok :: "addr \<Rightarrow> bool" where
  "addr_ok a \<longleftrightarrow> addr_num a < 2 ^ bit_len a"

section \<open>Parsing addresses\<close>

definition is_digit :: "char \<Rightarrow> bool" where
  "is_digit c \<longleftrightarrow> 48 \<le> (of_char c :: nat) \<and> (of_char c :: nat) \<le> 57"

definition digit_val :: "char \<Rightarrow> nat" where
  "digit_val c = of_char c - 48"

fun v4_scan :: "nat list \<Rightarrow> nat \<Rightarrow> nat \<Rightarrow> string \<Rightarrow> nat list option" where
  "v4_scan fs val digLen [] = (if length fs < 3 then None else Some (fs @ [val]))"
| "v4_scan fs val digLen (c # cs) =
     (if is_digit c then
        (if digLen = 1 \<and> val = 0 then None
         else (let val' = val * 10 + digit_val c in if val' > 255 then None else v4_scan fs val' (digLen + 1) cs))
      else if c = CHR ''.'' then
        (if digLen = 0 \<or> cs = [] then None
         else if length fs = 3 then None
         else v4_scan (fs @ [val]) 0 0 cs)
      else None)"

definition number :: "nat \<Rightarrow> nat list \<Rightarrow> nat" where
  "number base ds = foldl (\<lambda>n d. n * base + d) 0 ds"

definition parse_v4 :: "string \<Rightarrow> addr option" where
  "parse_v4 s = map_option (\<lambda>fs. V4 (number 256 fs)) (v4_scan [] 0 0 s)"

definition hex_digit :: "char \<Rightarrow> nat option" where
  "hex_digit c = (let n = of_char c :: nat in
     if 48 \<le> n \<and> n \<le> 57 then Some (n - 48)
     else if 97 \<le> n \<and> n \<le> 102 then Some (n - 87)
     else if 65 \<le> n \<and> n \<le> 70 then Some (n - 55)
     else None)"

text \<open>
  The fields of an IPv6 text. \<open>room\<close> is the number of 16-bit fields still free, \<open>fs\<close> the fields read,
  \<open>ell\<close> the position of the double colon. The result is the fields, the position and the unread rest.
\<close>

fun v6_scan :: "nat \<Rightarrow> nat list \<Rightarrow> nat option \<Rightarrow> string \<Rightarrow> (nat list \<times> nat option \<times> string) option" where
  "v6_scan 0 fs ell s = Some (fs, ell, s)"
| "v6_scan (Suc room) fs ell s =
     (let ds = takeWhile (\<lambda>c. hex_digit c \<noteq> None) s; rest = dropWhile (\<lambda>c. hex_digit c \<noteq> None) s in
      if length ds > 4 \<or> ds = [] then None
      else case rest of
        [] \<Rightarrow> Some (fs @ [number 16 (map (the \<circ> hex_digit) ds)], ell, [])
      | c # cs \<Rightarrow>
          if c = CHR ''.'' then
            (if ell = None \<and> length fs \<noteq> 6 \<or> room = 0 then None
             else case v4_scan [] 0 0 s of
               Some [a, b, c, d] \<Rightarrow> Some (fs @ [a * 256 + b, c * 256 + d], ell, [])
             | _ \<Rightarrow> None)
          else if c \<noteq> CHR '':'' \<or> cs = [] then None
          else
            (let fs' = fs @ [number 16 (map (the \<circ> hex_digit) ds)] in
             if hd cs = CHR '':'' then
               (if ell \<noteq> None then None
                else if tl cs = [] then Some (fs', Some (length fs'), [])
                else v6_scan room fs' (Some (length fs')) (tl cs))
             else v6_scan room fs' ell cs))"

definition expand :: "nat list \<Rightarrow> nat option \<Rightarrow> nat list option" where
  "expand fs ell =
     (if length fs < 8 then
        (case ell of None \<Rightarrow> None | Some i \<Rightarrow> Some (take i fs @ replicate (8 - length fs) 0 @ drop i fs))
      else if ell \<noteq> None then None else Some fs)"

definition parse_v6 :: "string \<Rightarrow> addr option" where
  "parse_v6 s0 =
     (let s = takeWhile (\<lambda>c. c \<noteq> CHR ''%'') s0; zone = drop (Suc (length s)) s0 in
      if CHR ''%'' \<in> set s0 \<and> zone = [] then None
      else
        (let lead = (take 2 s = ''::''); body = (if lead then drop 2 s else s) in
         if lead \<and> body = [] then Some (V6 0 zone)
         else case v6_scan 8 [] (if lead then Some 0 else None) body of
           None \<Rightarrow> None
         | Some (fs, ell, rest) \<Rightarrow>
             if rest \<noteq> [] then None else map_option (\<lambda>gs. V6 (number 65536 gs) zone) (expand fs ell)))"

fun first_mark :: "string \<Rightarrow> char option" where
  "first_mark [] = None"
| "first_mark (c # cs) = (if c \<in> {CHR ''.'', CHR '':'', CHR ''%''} then Some c else first_mark cs)"

definition ParseAddr :: "string \<Rightarrow> addr option" where
  "ParseAddr s = (case first_mark s of
       Some c \<Rightarrow> if c = CHR ''.'' then parse_v4 s else if c = CHR '':'' then parse_v6 s else None
     | None \<Rightarrow> None)"

section \<open>Prefixes\<close>

record prefix =
  Addr :: addr
  Bits :: nat

text \<open>The number of addresses below the prefix length, and the masked address.\<close>

definition block :: "prefix \<Rightarrow> nat" where
  "block p = 2 ^ (bit_len (Addr p) - Bits p)"

fun with_num :: "addr \<Rightarrow> nat \<Rightarrow> addr" where
  "with_num (V4 n) m = V4 m"
| "with_num (V6 n z) m = V6 m z"

definition Masked :: "prefix \<Rightarrow> prefix" where
  "Masked p = p\<lparr>Addr := with_num (Addr p) (addr_num (Addr p) div block p * block p)\<rparr>"

text \<open>A prefix never has a zone and never contains an address with one.\<close>

definition Contains :: "prefix \<Rightarrow> addr \<Rightarrow> bool" where
  "Contains p a \<longleftrightarrow> is4 (Addr p) = is4 a \<and> (case a of V4 n \<Rightarrow> True | V6 n z \<Rightarrow> z = []) \<and>
     addr_num a div block p = addr_num (Addr p) div block p"

definition Overlaps :: "prefix \<Rightarrow> prefix \<Rightarrow> bool" where
  "Overlaps p q \<longleftrightarrow> p = q \<or>
     is4 (Addr p) = is4 (Addr q) \<and>
     (let m = 2 ^ (bit_len (Addr p) - min (Bits p) (Bits q)) in
      addr_num (Addr p) div m = addr_num (Addr q) div m)"

text \<open>The order of \<^verbatim>\<open>Addr.Less\<close>: by family, then by number, then by zone.\<close>

definition addr_less :: "addr \<Rightarrow> addr \<Rightarrow> bool" where
  "addr_less a b \<longleftrightarrow> bit_len a < bit_len b \<or> bit_len a = bit_len b \<and> addr_num a < addr_num b"

text \<open>The decimal length after the last slash: digits only, no leading zero, at most three.\<close>

definition parse_bits :: "string \<Rightarrow> nat option" where
  "parse_bits s = (if s = [] \<or> length s > 3 \<or> \<not> list_all is_digit s \<or> (length s > 1 \<and> hd s = CHR ''0'') then None
     else Some (number 10 (map digit_val s)))"

definition ParsePrefix :: "string \<Rightarrow> prefix option" where
  "ParsePrefix s =
     (if CHR ''/'' \<notin> set s then None
      else
        (let bits = rev (takeWhile (\<lambda>c. c \<noteq> CHR ''/'') (rev s)); ip = take (length s - length bits - 1) s in
         case (ParseAddr ip, parse_bits bits) of
           (Some a, Some n) \<Rightarrow>
             if (case a of V4 x \<Rightarrow> False | V6 x z \<Rightarrow> z \<noteq> []) \<or> n > bit_len a then None
             else Some \<lparr>Addr = a, Bits = n\<rparr>
         | _ \<Rightarrow> None))"

definition prefix_ok :: "prefix \<Rightarrow> bool" where
  "prefix_ok p \<longleftrightarrow> addr_ok (Addr p) \<and> Bits p \<le> bit_len (Addr p) \<and> (case Addr p of V4 n \<Rightarrow> True | V6 n z \<Rightarrow> z = [])"

section \<open>Printing\<close>

fun decimal :: "nat \<Rightarrow> string" where
  "decimal n = (if n < 10 then [char_of (48 + n)] else decimal (n div 10) @ [char_of (48 + n mod 10)])"

declare decimal.simps [simp del]

definition hex_lower :: "nat \<Rightarrow> char" where
  "hex_lower d = (if d < 10 then char_of (48 + d) else char_of (87 + d))"

fun hex_text :: "nat \<Rightarrow> string" where
  "hex_text n = (if n < 16 then [hex_lower n] else hex_text (n div 16) @ [hex_lower (n mod 16)])"

declare hex_text.simps [simp del]

fun joined :: "string \<Rightarrow> string list \<Rightarrow> string" where
  "joined sep [] = []"
| "joined sep [x] = x"
| "joined sep (x # y # xs) = x @ sep @ joined sep (y # xs)"

definition fields_of :: "nat \<Rightarrow> nat \<Rightarrow> nat \<Rightarrow> nat list" where
  "fields_of base k n = map (\<lambda>i. n div base ^ i mod base) (rev [0..<k])"

text \<open>The longest run of zero fields, the first of several; runs of one are not abbreviated.\<close>

definition zero_run :: "nat list \<Rightarrow> nat \<Rightarrow> nat" where
  "zero_run fs i = length (takeWhile (\<lambda>f. f = 0) (drop i fs))"

definition best_run :: "nat list \<Rightarrow> (nat \<times> nat) option" where
  "best_run fs =
     (let m = Max (set (map (zero_run fs) [0..<length fs])) in
      if m < 2 then None else map_option (\<lambda>i. (i, m)) (find (\<lambda>i. zero_run fs i = m) [0..<length fs]))"

definition v4_text :: "nat \<Rightarrow> string" where
  "v4_text n = joined ''.'' (map decimal (fields_of 256 4 n))"

definition v6_text :: "nat \<Rightarrow> string" where
  "v6_text n =
     (let fs = fields_of 65536 8 n in
      if n div 2 ^ 32 = 65535 then ''::ffff:'' @ v4_text (n mod 2 ^ 32)
      else case best_run fs of
        None \<Rightarrow> joined '':'' (map hex_text fs)
      | Some (i, m) \<Rightarrow> joined '':'' (map hex_text (take i fs)) @ ''::'' @ joined '':'' (map hex_text (drop (i + m) fs)))"

fun addr_String :: "addr \<Rightarrow> string" where
  "addr_String (V4 n) = v4_text n"
| "addr_String (V6 n z) = (if z = [] then v6_text n else v6_text n @ ''%'' @ z)"

definition prefix_String :: "prefix \<Rightarrow> string" where
  "prefix_String p = addr_String (Addr p) @ ''/'' @ decimal (Bits p)"

text \<open>Evaluation of the parsers on literals.\<close>

lemma replicate_numeral: "replicate (numeral k) x = x # replicate (pred_numeral k) x"
  by (simp add: numeral_eq_Suc)

lemmas v6_scan_numeral = v6_scan.simps(2) [where room = "pred_numeral k" for k, folded numeral_eq_Suc]

lemmas parse_eval = ParsePrefix_def ParseAddr_def parse_v4_def parse_v6_def parse_bits_def number_def is_digit_def digit_val_def
  hex_digit_def expand_def v6_scan_numeral replicate_numeral

section \<open>A prefix is a range of addresses\<close>

definition span :: "prefix \<Rightarrow> nat set" where
  "span p = {n. n div block p = addr_num (Addr p) div block p}"

lemma block_pos [simp]: "0 < block p"
  by (simp add: block_def)

lemma div_eq_interval: "0 < b \<Longrightarrow> n div b = k \<longleftrightarrow> k * b \<le> n \<and> n < k * b + b" for n b k :: nat
  using dividend_less_div_times [of b n] by (auto intro!: div_nat_eqI simp: mult.commute)

lemma span_interval:
  "span p = {addr_num (Addr p) div block p * block p ..< addr_num (Addr p) div block p * block p + block p}"
  by (auto simp: span_def div_eq_interval)

lemma Contains_span: "Contains p a \<Longrightarrow> addr_num a \<in> span p"
  by (simp add: Contains_def span_def)

lemma with_num_simps [simp]:
  "addr_num (with_num a m) = m" "bit_len (with_num a m) = bit_len a" "is4 (with_num a m) = is4 a"
  by (cases a; simp)+

lemma block_Masked [simp]: "block (Masked p) = block p"
  by (simp add: block_def Masked_def)

lemma span_Masked [simp]: "span (Masked p) = span p"
  by (simp add: span_def) (simp add: Masked_def)

lemma Masked_idem: "Masked (Masked p) = Masked p"
proof -
  have "with_num (with_num a m) k = with_num a k" for a m k by (cases a) simp_all
  then show ?thesis by (simp add: Masked_def block_def)
qed

text \<open>Two prefixes of one family are disjoint or nested.\<close>

lemma span_subset:
  assumes "bit_len (Addr p) = bit_len (Addr q)" "Bits p \<le> Bits q" "Bits q \<le> bit_len (Addr q)"
    and "n \<in> span p" "n \<in> span q"
  shows "span q \<subseteq> span p"
proof -
  have "block q dvd block p"
    using assms(1-3) by (simp add: block_def le_imp_power_dvd)
  then obtain k where k: "block p = block q * k" by blast
  have "m div block p = (m div block q) div k" for m by (simp add: k div_mult2_eq)
  then show ?thesis using assms(4,5) by (auto simp: span_def)
qed

lemma num_in_span [simp]: "addr_num (Addr p) \<in> span p"
  by (simp add: span_def)

lemma is4_bit_len: "is4 a = (bit_len a = 32)"
  by (cases a) simp_all

lemma nested_iff:
  assumes "bit_len (Addr p) = bit_len (Addr q)" "Bits p \<le> Bits q" "Bits q \<le> bit_len (Addr q)"
  shows "addr_num (Addr q) div block p = addr_num (Addr p) div block p \<longleftrightarrow> span p \<inter> span q \<noteq> {}"
proof
  assume "addr_num (Addr q) div block p = addr_num (Addr p) div block p"
  then have "addr_num (Addr q) \<in> span p \<inter> span q" by (simp add: span_def)
  then show "span p \<inter> span q \<noteq> {}" by blast
next
  assume "span p \<inter> span q \<noteq> {}"
  then obtain n where "n \<in> span p" "n \<in> span q" by blast
  from span_subset [OF assms this] have "addr_num (Addr q) \<in> span p" using num_in_span by blast
  then show "addr_num (Addr q) div block p = addr_num (Addr p) div block p" by (simp add: span_def)
qed

lemma Overlaps_iff:
  assumes "prefix_ok p" "prefix_ok q" "bit_len (Addr p) = bit_len (Addr q)"
  shows "Overlaps p q \<longleftrightarrow> span p \<inter> span q \<noteq> {}"
proof (cases "Bits p \<le> Bits q")
  case True
  then have "2 ^ (bit_len (Addr p) - min (Bits p) (Bits q)) = block p" by (simp add: block_def min_def)
  then show ?thesis
    using nested_iff [OF assms(3) True] assms by (auto simp: Overlaps_def is4_bit_len prefix_ok_def Let_def)
next
  case False
  then have "2 ^ (bit_len (Addr p) - min (Bits p) (Bits q)) = block q" using assms(3) by (simp add: block_def min_def)
  then show ?thesis
    using nested_iff [of q p] False assms by (auto simp: Overlaps_def is4_bit_len prefix_ok_def Let_def Int_commute)
qed

lemma prefix_ok_Masked: "prefix_ok p \<Longrightarrow> prefix_ok (Masked p)"
proof -
  assume p: "prefix_ok p"
  have "addr_num (Addr p) div block p * block p \<le> addr_num (Addr p)" by simp
  moreover have "addr_num (Addr p) < 2 ^ bit_len (Addr p)" using p by (simp add: prefix_ok_def addr_ok_def)
  ultimately have "addr_num (Addr p) div block p * block p < 2 ^ bit_len (Addr p)" by (rule le_less_trans)
  then show ?thesis using p by (cases "Addr p") (auto simp: prefix_ok_def addr_ok_def Masked_def)
qed

section \<open>Parsed prefixes are well formed\<close>

lemma number_append: "number b (xs @ [d]) = number b xs * b + d"
  by (simp add: number_def)

lemma number_below: "\<forall>d \<in> set ds. d < b \<Longrightarrow> number b ds < b ^ length ds"
proof (induction ds rule: rev_induct)
  case Nil
  then show ?case by (simp add: number_def)
next
  case (snoc d ds)
  then have "number b ds + 1 \<le> b ^ length ds" "d < b" by auto
  then have "(number b ds + 1) * b \<le> b ^ length ds * b" by (intro mult_right_mono) simp_all
  then show ?case using \<open>d < b\<close> by (simp add: number_append algebra_simps)
qed

lemma v4_scan_fields:
  "v4_scan fs val dl s = Some gs \<Longrightarrow> length fs \<le> 3 \<Longrightarrow> val \<le> 255 \<Longrightarrow> \<forall>f \<in> set fs. f \<le> 255 \<Longrightarrow>
   length gs = 4 \<and> (\<forall>g \<in> set gs. g \<le> 255)"
proof (induction fs val dl s rule: v4_scan.induct)
  case (2 fs val dl c cs)
  show ?case
  proof (cases "is_digit c")
    case True
    then show ?thesis using 2 by (simp add: Let_def split: if_split_asm)
  next
    case False
    then have "v4_scan (fs @ [val]) 0 0 cs = Some gs" "length fs \<noteq> 3" "c = CHR ''.''" "\<not> (dl = 0 \<or> cs = [])"
      using 2(3) by (simp_all split: if_split_asm)
    then show ?thesis using 2(2) False 2(4-6) by simp
  qed
qed (auto split: if_split_asm)

lemma parse_v4_ok:
  assumes "parse_v4 s = Some a"
  shows "addr_ok a \<and> (\<exists>n. a = V4 n)"
proof -
  obtain fs where fs: "v4_scan [] 0 0 s = Some fs" "a = V4 (number 256 fs)" using assms by (auto simp: parse_v4_def)
  then have "length fs = 4" "\<forall>f \<in> set fs. f < 256" using v4_scan_fields [OF fs(1)] by auto
  then show ?thesis using number_below [of fs 256] fs(2) by (simp add: addr_ok_def)
qed

lemma hex_digit_below: "hex_digit c = Some d \<Longrightarrow> d < 16"
  by (auto simp: hex_digit_def Let_def split: if_split_asm)

lemma hex_field_below:
  assumes "\<forall>c \<in> set ds. hex_digit c \<noteq> None" "length ds \<le> 4"
  shows "number 16 (map (the \<circ> hex_digit) ds) < 65536"
proof -
  have "\<forall>d \<in> set (map (the \<circ> hex_digit) ds). d < 16" using assms(1) hex_digit_below by fastforce
  then have "number 16 (map (the \<circ> hex_digit) ds) < 16 ^ length ds" using number_below by fastforce
  also have "\<dots> \<le> 16 ^ 4" using assms(2) by (intro power_increasing) auto
  finally show ?thesis by simp
qed

lemma v6_scan_fields:
  "v6_scan room fs ell s = Some (gs, ell', rest) \<Longrightarrow> \<forall>f \<in> set fs. f < 65536 \<Longrightarrow>
   length gs \<le> length fs + room \<and> (\<forall>g \<in> set gs. g < 65536)"
proof (induction room fs ell s rule: v6_scan.induct)
  case (2 room fs ell s)
  let ?ds = "takeWhile (\<lambda>c. hex_digit c \<noteq> None) s"
  have nil: "\<not> (length ?ds > 4 \<or> ?ds = [])" using 2(3) by (auto simp: Let_def simp del: not_None_eq split: if_split_asm)
  then have f: "number 16 (map (the \<circ> hex_digit) ?ds) < 65536"
    by (intro hex_field_below) (auto dest: set_takeWhileD)
  show ?case
  proof (cases "dropWhile (\<lambda>c. hex_digit c \<noteq> None) s")
    case Nil
    then show ?thesis using 2(3,4) nil f by (auto simp: Let_def simp del: not_None_eq dropWhile_eq_Nil_conv)
  next
    case (Cons c cs)
    note IH = 2(1,2) [OF refl refl nil Cons]
    show ?thesis
    proof (cases "c = CHR ''.''")
      case True
      then obtain w x y z where v: "v4_scan [] 0 0 s = Some [w, x, y, z]" "room \<noteq> 0" "gs = fs @ [w * 256 + x, y * 256 + z]"
        using 2(3) nil Cons by (auto simp: Let_def simp del: not_None_eq split: if_split_asm option.split_asm list.split_asm)
      then show ?thesis using v4_scan_fields [OF v(1)] 2(4) by auto
    next
      case False
      show ?thesis
        using 2(3,4) nil Cons False f IH [OF False] by (auto simp: Let_def simp del: not_None_eq split: if_split_asm)
    qed
  qed
qed simp

lemma expand_below:
  assumes "expand gs ell = Some hs" "length gs \<le> 8" "\<forall>g \<in> set gs. g < 65536"
  shows "number 65536 hs < 2 ^ 128"
proof -
  have "length hs = 8" "\<forall>g \<in> set hs. g < 65536"
    using assms by (auto simp: expand_def split: if_split_asm option.split_asm) (meson in_set_takeD in_set_dropD)+
  then show ?thesis using number_below [of hs 65536] by simp
qed

lemma parse_v6_ok:
  assumes "parse_v6 s = Some a"
  shows "addr_ok a \<and> (\<exists>n z. a = V6 n z)"
proof -
  from assms consider z where "a = V6 0 z"
    | lead body gs ell rest hs z where "v6_scan 8 [] lead body = Some (gs, ell, rest)" "expand gs ell = Some hs" "a = V6 (number 65536 hs) z"
    by (auto simp: parse_v6_def Let_def split: if_split_asm option.split_asm)
  then show ?thesis
    using v6_scan_fields [of 8 "[]"] expand_below by cases (fastforce simp: addr_ok_def)+
qed

lemma ParseAddr_ok: "ParseAddr s = Some a \<Longrightarrow> addr_ok a"
  using parse_v4_ok parse_v6_ok by (auto simp: ParseAddr_def split: option.split_asm if_split_asm)

lemma ParsePrefix_ok: "ParsePrefix s = Some p \<Longrightarrow> prefix_ok p"
  using ParseAddr_ok
  by (auto simp: ParsePrefix_def prefix_ok_def Let_def split: if_split_asm option.split_asm addr.split_asm addr.split)

end
