(* ===== verification/Upload.thy ===== *)
theory Upload
  imports Registry WireAuth Leasing Netip
begin

text \<open>
  The observation upload of \<^verbatim>\<open>internal/coordinator/measurement.go\<close>: one transaction that records the
  batch id, checks every observation (signature under an active key, parsable target, an
  assignment the worker holds) and stores the accepted ones with the provider of the assignment.
\<close>

section \<open>Operation\<close>

definition held_rows :: "string \<Rightarrow> scheduling_schema \<Rightarrow> (int \<times> string) list" where
  "held_rows wid S = [(int (l_assignment_id l), a_provider_id a).
     l \<leftarrow> filter (\<lambda>l. l_worker_id l = wid \<and> live l) (leases S),
     a \<leftarrow> filter (\<lambda>a. a_id a = l_assignment_id l) (assignments S)]"

text \<open>The Go map filled row by row: a later row overwrites an earlier one.\<close>

definition held_map :: "string \<Rightarrow> scheduling_schema \<Rightarrow> int \<rightharpoonup> string" where
  "held_map wid S = map_of (rev (held_rows wid S))"

definition verifyObs :: "('a) crypto_scheme \<Rightarrow> marshal \<Rightarrow> bytes list \<Rightarrow> Observation \<Rightarrow> bool" where
  "verifyObs C mj keys o1 \<longleftrightarrow> (\<exists>pub \<in> set keys. obs_Verify C mj pub o1)"

definition check_obs ::
  "('a) crypto_scheme \<Rightarrow> marshal \<Rightarrow> bytes list \<Rightarrow> (int \<rightharpoonup> string) \<Rightarrow> Observation \<Rightarrow> string option" where
  "check_obs C mj keys held o1 =
     (if \<not> verifyObs C mj keys o1 then None
      else if ParseAddr (Target o1) = None then None
      else held (AssignmentID o1))"

definition copy_row :: "string \<Rightarrow> Observation \<Rightarrow> string \<Rightarrow> observation_row" where
  "copy_row wid o1 provider =
     \<lparr>o_worker_id = wid, o_assignment_id = AssignmentID o1, o_provider_id = provider, o_target = Target o1,
      o_probe_type = ProbeType o1, o_measured_at = MeasuredAt o1, o_ok = OK o1, o_rtt_ms = RTTMillis o1,
      o_packets_sent = PacketsSent o1, o_packets_lost = PacketsLost o1, o_metrics = Metrics o1,
      o_signature = Signature o1\<rparr>"

definition accept ::
  "('a) crypto_scheme \<Rightarrow> marshal \<Rightarrow> bytes list \<Rightarrow> (int \<rightharpoonup> string) \<Rightarrow> string \<Rightarrow> Observation list \<Rightarrow> observation_row list" where
  "accept C mj keys held wid obs =
     concat (map (\<lambda>o1. case check_obs C mj keys held o1 of None \<Rightarrow> [] | Some p \<Rightarrow> [copy_row wid o1 p]) obs)"

definition batch_known :: "string \<Rightarrow> db \<Rightarrow> bool" where
  "batch_known batch D \<longleftrightarrow> batch \<in> set (map b_batch_id (upload_batches (measurements_of D)))"

definition upload_response :: "nat \<Rightarrow> nat \<Rightarrow> response" where
  "upload_response accepted rejected =
     writeJSON 202 (JObj [(''accepted'', JNum (of_nat accepted)), (''rejected'', JNum (of_nat rejected))])"

text \<open>\<open>req\<close> is the decoded body: the batch id and the observations.\<close>

definition uploadObservations ::
  "faults \<Rightarrow> ('a) crypto_scheme \<Rightarrow> marshal \<Rightarrow> time \<Rightarrow> string \<Rightarrow> (string \<times> Observation list) option \<Rightarrow> db \<Rightarrow>
     response \<times> db" where
  "uploadObservations F C mj now wid req D =
     (case req of
        None \<Rightarrow> (problem 400 ''invalid JSON body'', D)
      | Some (batch, obs) \<Rightarrow>
          if batch = [] \<or> obs = [] then (problem 422 ''batch_id and observations are required'', D)
          else case ActiveKeys F now wid (registry_of D) of
            Inl _ \<Rightarrow> (problem 401 ''no active key'', D)
          | Inr (keys, _) \<Rightarrow>
              if F ''upload.begin'' \<or> F ''upload.batch'' then (problem 500 ''upload failed'', D)
              else if batch_known batch D then
                (writeJSON 200 (JObj [(''accepted'', JNum 0), (''duplicate'', JBool True)]), D)
              else if F ''upload.held'' then (problem 500 ''upload failed'', D)
              else
                (let rows = accept C mj keys (held_map wid (scheduling_of D)) wid obs in
                 if rows \<noteq> [] \<and> F ''upload.copy'' \<or> F ''upload.commit'' then (problem 500 ''upload failed'', D)
                 else
                   (upload_response (length rows) (length obs - length rows),
                    D\<lparr>measurements_of := (measurements_of D)\<lparr>
                       observations := observations (measurements_of D) @ rows,
                       upload_batches := upload_batches (measurements_of D) @
                         [\<lparr>b_batch_id = batch, b_worker_id = wid, b_received_at = now,
                           b_observation_count = length obs\<rparr>]\<rparr>\<rparr>)))"

section \<open>Lemmas\<close>

lemma accept_simps:
  "accept C mj keys held wid [] = []"
  "accept C mj keys held wid (o1 # obs) =
     (case check_obs C mj keys held o1 of None \<Rightarrow> [] | Some p \<Rightarrow> [copy_row wid o1 p]) @
     accept C mj keys held wid obs"
  by (simp_all add: accept_def)

lemma accept_in:
  "r \<in> set (accept C mj keys held wid obs) \<longleftrightarrow>
     (\<exists>o1 \<in> set obs. \<exists>p. check_obs C mj keys held o1 = Some p \<and> r = copy_row wid o1 p)"
proof (induction obs)
  case (Cons o1 obs)
  then show ?case by (cases "check_obs C mj keys held o1") (auto simp: accept_simps)
qed (simp add: accept_simps)

lemma length_accept: "length (accept C mj keys held wid obs) = count_where (\<lambda>o1. check_obs C mj keys held o1 \<noteq> None) obs"
  by (induction obs) (auto simp: accept_simps split: option.split)

lemma held_map_Some:
  assumes "held_map wid S i = Some p"
  shows "\<exists>l \<in> set (leases S). \<exists>a \<in> set (assignments S). live l \<and> l_worker_id l = wid \<and> a_id a = l_assignment_id l \<and>
        i = int (a_id a) \<and> p = a_provider_id a"
proof -
  have "(i, p) \<in> set (held_rows wid S)"
    using map_of_SomeD [OF assms [unfolded held_map_def]] by simp
  then obtain l a where "l \<in> set (leases S)" "l_worker_id l = wid" "live l" "a \<in> set (assignments S)"
    "a_id a = l_assignment_id l" "i = int (l_assignment_id l)" "p = a_provider_id a"
    unfolding held_rows_def by auto
  then show ?thesis by metis
qed

lemma check_obs_Some:
  "check_obs C mj keys held o1 = Some p \<longleftrightarrow>
     verifyObs C mj keys o1 \<and> ParseAddr (Target o1) \<noteq> None \<and> held (AssignmentID o1) = Some p"
  by (simp add: check_obs_def)

text \<open>The two outcomes of an upload: nothing changes, or the batch is recorded with its accepted rows.\<close>

lemma upload_cases [consumes 1, case_names kept stored]:
  assumes "uploadObservations F C mj now wid req D = (resp, D')"
  obtains "D' = D" "status_of resp \<noteq> 202"
  | batch obs keys st where "req = Some (batch, obs)" "ActiveKeys F now wid (registry_of D) = Inr (keys, st)"
      "\<not> batch_known batch D" "status_of resp = 202"
      "resp = upload_response (length (accept C mj keys (held_map wid (scheduling_of D)) wid obs))
         (length obs - length (accept C mj keys (held_map wid (scheduling_of D)) wid obs))"
      "measurements_of D' = (measurements_of D)\<lparr>
         observations := observations (measurements_of D) @ accept C mj keys (held_map wid (scheduling_of D)) wid obs,
         upload_batches := upload_batches (measurements_of D) @
           [\<lparr>b_batch_id = batch, b_worker_id = wid, b_received_at = now, b_observation_count = length obs\<rparr>]\<rparr>"
      "registry_of D' = registry_of D" "scheduling_of D' = scheduling_of D"
proof (cases req)
  case None
  then show ?thesis using assms that(1) by (auto simp: uploadObservations_def)
next
  case (Some r)
  obtain batch obs where r: "r = (batch, obs)" by (cases r)
  show ?thesis
  proof (cases "ActiveKeys F now wid (registry_of D)")
    case (Inl e)
    then show ?thesis using assms that(1) Some r by (auto simp: uploadObservations_def split: if_split_asm)
  next
    case (Inr ks)
    obtain keys st where ks: "ks = (keys, st)" by (cases ks)
    let ?rows = "accept C mj keys (held_map wid (scheduling_of D)) wid obs"
    show ?thesis
    proof (cases "batch = [] \<or> obs = [] \<or> F ''upload.begin'' \<or> F ''upload.batch'' \<or> batch_known batch D \<or>
        F ''upload.held'' \<or> ?rows \<noteq> [] \<and> F ''upload.copy'' \<or> F ''upload.commit''")
      case True
      then have "snd (uploadObservations F C mj now wid req D) = D \<and>
          status_of (fst (uploadObservations F C mj now wid req D)) \<noteq> 202"
        by (simp add: uploadObservations_def Some r Inr ks Let_def) blast
      then show ?thesis using assms that(1) by simp
    next
      case False
      then have f: "batch \<noteq> []" "obs \<noteq> []" "\<not> F ''upload.begin''" "\<not> F ''upload.batch''" "\<not> batch_known batch D"
        "\<not> F ''upload.held''" "\<not> (?rows \<noteq> [] \<and> F ''upload.copy'')" "\<not> F ''upload.commit''" by auto
      have "uploadObservations F C mj now wid req D =
         (upload_response (length ?rows) (length obs - length ?rows),
          D\<lparr>measurements_of := (measurements_of D)\<lparr>
             observations := observations (measurements_of D) @ ?rows,
             upload_batches := upload_batches (measurements_of D) @
               [\<lparr>b_batch_id = batch, b_worker_id = wid, b_received_at = now, b_observation_count = length obs\<rparr>]\<rparr>\<rparr>)"
        using f by (simp add: uploadObservations_def Some r Inr ks Let_def) blast
      then have e: "resp = upload_response (length ?rows) (length obs - length ?rows)"
        "D' = D\<lparr>measurements_of := (measurements_of D)\<lparr>
             observations := observations (measurements_of D) @ ?rows,
             upload_batches := upload_batches (measurements_of D) @
               [\<lparr>b_batch_id = batch, b_worker_id = wid, b_received_at = now, b_observation_count = length obs\<rparr>]\<rparr>\<rparr>"
        using assms by simp_all
      show ?thesis
        by (rule that(2) [of batch obs keys st]) (use False Some r Inr ks in \<open>simp_all add: e upload_response_def\<close>)
    qed
  qed
qed

section \<open>Properties\<close>

text \<open>
  C3. Only checked measurements are stored: every row an upload adds is one of the submitted
  observations, unchanged, its signature verifies under a key of that worker active at that
  moment, its target is an address, and the worker holds a live lease on its assignment, whose
  provider is the one recorded.
\<close>

theorem upload_sound:
  assumes "uploadObservations F C mj now wid req D = (resp, D')"
    and "r \<in> set (observations (measurements_of D'))" "r \<notin> set (observations (measurements_of D))"
  shows "\<exists>batch obs keys st o1 l a. req = Some (batch, obs) \<and> ActiveKeys F now wid (registry_of D) = Inr (keys, st) \<and>
    o1 \<in> set obs \<and> (\<exists>pub \<in> set keys. obs_Verify C mj pub o1) \<and> ParseAddr (Target o1) \<noteq> None \<and>
    l \<in> set (leases (scheduling_of D)) \<and> live l \<and> l_worker_id l = wid \<and>
    a \<in> set (assignments (scheduling_of D)) \<and> a_id a = l_assignment_id l \<and> int (a_id a) = AssignmentID o1 \<and>
    r = copy_row wid o1 (a_provider_id a)"
  using assms(1)
proof (cases rule: upload_cases)
  case kept
  then show ?thesis using assms by simp
next
  case (stored batch obs keys st)
  have "r \<in> set (accept C mj keys (held_map wid (scheduling_of D)) wid obs)"
    using assms(2,3) by (simp add: stored(6))
  then obtain o1 p where o1: "o1 \<in> set obs" "verifyObs C mj keys o1" "ParseAddr (Target o1) \<noteq> None"
    "held_map wid (scheduling_of D) (AssignmentID o1) = Some p" "r = copy_row wid o1 p"
    unfolding accept_in check_obs_Some by blast
  from held_map_Some [OF o1(4)] obtain l a where la: "l \<in> set (leases (scheduling_of D))" "live l" "l_worker_id l = wid"
    "a \<in> set (assignments (scheduling_of D))" "a_id a = l_assignment_id l" "AssignmentID o1 = int (a_id a)"
    "p = a_provider_id a" by blast
  have "\<exists>pub \<in> set keys. obs_Verify C mj pub o1" using o1(2) by (simp add: verifyObs_def)
  then show ?thesis using stored(1,2) o1(1,3,5) la by metis
qed

text \<open>A database in which the demonstration worker is registered and holds one lease.\<close>

definition demo_scheduled :: scheduling_schema where
  "demo_scheduled = snd (projr (lease_tx no_faults (\<lambda>_. False) 10 300 demo_routing [demo_worker] ''w1'' 2 demo_pool))"

definition demo_db :: db where
  "demo_db = \<lparr>registry_of = demo_registered, routing_of = demo_routing, scheduling_of = demo_scheduled,
     measurements_of = \<lparr>observations = [], upload_batches = []\<rparr>,
     aggregation_of = \<lparr>consensus_windows = [], worker_agreements = [], provider_statuses = [], target_statuses = [],
        anomalies = [], publication_outbox = [], outbox_seq = 0\<rparr>,
     audit_of = []\<rparr>"

abbreviation demo_key :: bytes where "demo_key \<equiv> replicate 32 (CHR 0x07)"

definition demo_signed :: Observation where
  "demo_signed = the (obs_Sign demo_env demo_marshal demo_key demo_observation)"

lemma demo_active: "ActiveKeys no_faults now ''w1'' demo_registered = (if 7 \<le> now then Inr ([demo_key], ''pending'') else Inl ErrUnknownWorker)"
proof -
  have "lookup_by w_id ''w1'' (workers demo_registered) =
      Some \<lparr>w_id = ''w1'', w_operator_id = DevOperatorID, w_name = ''probe'', w_state = ''pending'',
       w_state_reason = None, w_software_version = Some ''v1'', w_source_asn = None,
       w_enrolled_at = 0, w_approved_at = None, w_retired_at = None,
       w_last_heartbeat_at = None, w_config = []\<rparr>"
    by (simp add: demo_registered_def demo_eval)
  then show ?thesis by (simp add: ActiveKeys_def demo_registered_keys key_active_def)
qed

lemma demo_held: "held_map ''w1'' demo_scheduled = [0 \<mapsto> ''p1'']"
  by (simp add: held_map_def held_rows_def demo_scheduled_def demo_lease new_leases_def live_def demo_pool_rows)

lemma demo_signed_ok: "obs_Verify demo_env demo_marshal demo_key demo_signed" "AssignmentID demo_signed = 0"
  "Target demo_signed = ''192.0.2.1''"
proof -
  obtain o2 where s: "obs_Sign demo_env demo_marshal demo_key demo_observation = Some o2"
    by (simp add: obs_Sign_def payload_def demo_marshal_def)
  have "ed25519_ok demo_env" by (rule demo_env_ok)
  then show "obs_Verify demo_env demo_marshal demo_key demo_signed"
    using s by (auto simp: demo_signed_def obs_Sign_def obs_Verify_def payload_def demo_marshal_def demo_env_def pad_def ed25519_ok_def)
  show "AssignmentID demo_signed = 0" "Target demo_signed = ''192.0.2.1''"
    by (simp_all add: demo_signed_def obs_Sign_def payload_def demo_marshal_def demo_observation_def)
qed

lemma demo_addr: "ParseAddr ''192.0.2.1'' \<noteq> None"
  by (simp add: ParseAddr_def parse_v4_def is_digit_def digit_val_def)

lemma demo_accept:
  "accept demo_env demo_marshal [demo_key] (held_map ''w1'' demo_scheduled) ''w1'' [demo_signed] =
     [copy_row ''w1'' demo_signed ''p1'']"
  using demo_addr by (simp add: accept_simps check_obs_def verifyObs_def demo_signed_ok demo_held)

definition demo_stored :: db where
  "demo_stored = snd (uploadObservations no_faults demo_env demo_marshal 20 ''w1'' (Some (''b1'', [demo_signed])) demo_db)"

lemma demo_upload:
  "uploadObservations no_faults demo_env demo_marshal 20 ''w1'' (Some (''b1'', [demo_signed])) demo_db =
     (upload_response 1 0, demo_stored)"
  "observations (measurements_of demo_stored) = [copy_row ''w1'' demo_signed ''p1'']"
  "registry_of demo_stored = demo_registered" "map b_batch_id (upload_batches (measurements_of demo_stored)) = [''b1'']"
  by (simp_all add: demo_stored_def uploadObservations_def demo_active demo_db_def demo_accept batch_known_def Let_def)

theorem upload_sound_witness:
  "\<exists>D' r. uploadObservations no_faults demo_env demo_marshal 20 ''w1'' (Some (''b1'', [demo_signed])) demo_db =
     (upload_response 1 0, D') \<and> r \<in> set (observations (measurements_of D')) \<and>
     (\<exists>o1 \<in> {demo_signed}. \<exists>l a. l \<in> set (leases demo_scheduled) \<and> l_worker_id l = ''w1'' \<and>
        a \<in> set (assignments demo_scheduled) \<and> a_id a = l_assignment_id l \<and> r = copy_row ''w1'' o1 (a_provider_id a))"
proof -
  let ?r = "copy_row ''w1'' demo_signed ''p1''"
  have m: "?r \<in> set (observations (measurements_of demo_stored))" "?r \<notin> set (observations (measurements_of demo_db))"
    by (simp_all add: demo_upload(2) demo_db_def)
  have "scheduling_of demo_db = demo_scheduled" by (simp add: demo_db_def)
  then show ?thesis using demo_upload(1) m(1) upload_sound [OF demo_upload(1) m] by fastforce
qed



text \<open>
  Nothing but the batch id protects against replay of measurements: if observations were
  accepted once, the very same signed observations are accepted and stored again under a fresh
  batch id at any later time, as long as the leases and keys are unchanged. Neither the age of
  \<open>measured_at\<close> nor an earlier copy of the observation is looked at.
\<close>

theorem upload_replays_observations:
  assumes "uploadObservations no_faults C mj now wid (Some (batch, obs)) D = (resp, D1)" and "status_of resp = 202"
    and "ActiveKeys no_faults now' wid (registry_of D1) = ActiveKeys no_faults now wid (registry_of D)"
    and "\<not> batch_known batch' D1" and "batch' \<noteq> []" and "obs \<noteq> []"
  shows "\<exists>D2 rows. uploadObservations no_faults C mj now' wid (Some (batch', obs)) D1 = (resp, D2) \<and>
    observations (measurements_of D1) = observations (measurements_of D) @ rows \<and>
    observations (measurements_of D2) = observations (measurements_of D) @ rows @ rows"
  using assms(1)
proof (cases rule: upload_cases)
  case (stored b obs1 keys st)
  let ?rows = "accept C mj keys (held_map wid (scheduling_of D)) wid obs"
  show ?thesis
    using stored assms(3-6)
    by (intro exI [of _ "snd (uploadObservations no_faults C mj now' wid (Some (batch', obs)) D1)"] exI [of _ ?rows])
      (simp add: uploadObservations_def Let_def)
qed (use assms(2) in simp)

theorem upload_replays_observations_witness:
  "\<exists>D1 D2. uploadObservations no_faults demo_env demo_marshal 20 ''w1'' (Some (''b1'', [demo_signed])) demo_db =
     (upload_response 1 0, D1) \<and>
     uploadObservations no_faults demo_env demo_marshal (20 + 30 * day) ''w1'' (Some (''b2'', [demo_signed])) D1 =
     (upload_response 1 0, D2) \<and>
     observations (measurements_of D2) = replicate 2 (copy_row ''w1'' demo_signed ''p1'')"
proof -
  have s: "status_of (upload_response 1 0) = 202" by (simp add: upload_response_def)
  have k: "ActiveKeys no_faults (20 + 30 * day) ''w1'' (registry_of demo_stored) = ActiveKeys no_faults 20 ''w1'' (registry_of demo_db)"
    by (simp add: demo_upload(3) demo_active) (simp add: demo_db_def demo_active)
  have b: "\<not> batch_known ''b2'' demo_stored" by (simp add: batch_known_def demo_upload(4))
  have o: "observations (measurements_of demo_db) = []" by (simp add: demo_db_def)
  obtain D2 rows where r: "uploadObservations no_faults demo_env demo_marshal (20 + 30 * day) ''w1'' (Some (''b2'', [demo_signed])) demo_stored =
      (upload_response 1 0, D2)" "observations (measurements_of demo_stored) = [] @ rows"
      "observations (measurements_of D2) = [] @ rows @ rows"
    using upload_replays_observations [OF demo_upload(1) s k b] unfolding o by blast
  have "observations (measurements_of D2) = replicate 2 (copy_row ''w1'' demo_signed ''p1'')"
    using r(2,3) demo_upload(2) by (simp add: numeral_2_eq_2)
  then show ?thesis using demo_upload(1) r(1) by blast
qed

end
