(* ===== verification/Artifact.thy ===== *)
theory Artifact
  imports WireAuth Scheduling
begin

text \<open>
  Snapshot artifacts (\<^verbatim>\<open>internal/artifact/\<close>): signed manifests (\<^verbatim>\<open>manifest.go\<close>), the object store
  interface and its file-system implementation (\<^verbatim>\<open>store.go\<close>), the SQLite export (\<^verbatim>\<open>sqlite.go\<close>), and
  the publisher (\<^verbatim>\<open>publisher.go\<close>) that uploads, points workers at a version, rolls back and prunes.
  The JSON codec of manifests and pointers and the SQLite file format are parameters.
\<close>

section \<open>Manifests\<close>

record Manifest =
  m_version :: string
  m_created_at :: time
  m_object_key :: string
  m_sha256 :: string
  m_size_bytes :: int
  m_prefix_count_v4 :: nat
  m_prefix_count_v6 :: nat
  m_target_count :: nat
  m_min_worker_version :: string
  m_signature :: string

record Pointer =
  ptr_version :: string
  ptr_manifest_key :: string
  ptr_updated_at :: time

record artifact_codec =
  man_marshal :: "Manifest \<Rightarrow> bytes option"
  man_unmarshal :: "bytes \<Rightarrow> Manifest option"
  ptr_marshal :: "Pointer \<Rightarrow> bytes option"
  ptr_unmarshal :: "bytes \<Rightarrow> Pointer option"

definition man_payload :: "artifact_codec \<Rightarrow> Manifest \<Rightarrow> bytes option" where
  "man_payload J m = man_marshal J (m\<lparr>m_signature := []\<rparr>)"

abbreviation seed_size :: nat where "seed_size \<equiv> 32"

definition ParseSigningKey :: "(bytes \<Rightarrow> bytes) \<Rightarrow> string \<Rightarrow> bytes option" where
  "ParseSigningKey from_seed b64seed =
     (case b64_decode b64seed of
        None \<Rightarrow> None
      | Some seed \<Rightarrow> if length seed \<noteq> seed_size then None else Some (from_seed seed))"

definition ParsePublicKey :: "string \<Rightarrow> bytes option" where
  "ParsePublicKey b64 =
     (case b64_decode b64 of
        None \<Rightarrow> None
      | Some raw \<Rightarrow> if length raw \<noteq> public_key_size then None else Some raw)"

definition man_Sign :: "('a) crypto_scheme \<Rightarrow> artifact_codec \<Rightarrow> bytes \<Rightarrow> Manifest \<Rightarrow> Manifest option" where
  "man_Sign C J key m =
     (case man_payload J m of
        None \<Rightarrow> None
      | Some p \<Rightarrow> Some (m\<lparr>m_signature := b64_encode (ed_sign C key p)\<rparr>))"

definition man_Verify :: "('a) crypto_scheme \<Rightarrow> artifact_codec \<Rightarrow> Manifest \<Rightarrow> bytes \<Rightarrow> bool" where
  "man_Verify C J m pub =
     (if m_signature m = [] then False
      else case b64_decode (m_signature m) of
        None \<Rightarrow> False
      | Some sig \<Rightarrow>
          (case man_payload J m of
             None \<Rightarrow> False
           | Some p \<Rightarrow> ed_verify C pub p sig))"

text \<open>A file is its content; a failing read is \<^const>\<open>None\<close>.\<close>

definition HashFile :: "('a) crypto_scheme \<Rightarrow> bytes option \<Rightarrow> (string \<times> int) option" where
  "HashFile C file = map_option (\<lambda>b. (hex_encode (sha256 C b), int (length b))) file"

definition VerifyFile :: "('a) crypto_scheme \<Rightarrow> bytes option \<Rightarrow> Manifest \<Rightarrow> bool" where
  "VerifyFile C file m =
     (case HashFile C file of
        None \<Rightarrow> False
      | Some (hash, n) \<Rightarrow>
          if n \<noteq> m_size_bytes m then False else if hash \<noteq> m_sha256 m then False else True)"

definition ObjectKeySQLite :: "string \<Rightarrow> string" where
  "ObjectKeySQLite version = ''snapshots/'' @ version @ ''/routing.sqlite''"

definition ObjectKeyManifest :: "string \<Rightarrow> string" where
  "ObjectKeyManifest version = ''snapshots/'' @ version @ ''/manifest.json''"

definition PointerKey :: string where
  "PointerKey = ''snapshots/current.json''"

definition PublicKeyBase64 :: "('a) crypto_scheme \<Rightarrow> bytes \<Rightarrow> string" where
  "PublicKeyBase64 C key = b64_encode (ed_public C key)"

section \<open>The object store\<close>

text \<open>The interface \<^verbatim>\<open>Store\<close>: an implementation is a record of its three operations on its state.\<close>

record 's store_ops =
  st_put :: "string \<Rightarrow> bytes \<Rightarrow> 's \<Rightarrow> bool \<times> 's"
  st_get :: "string \<Rightarrow> 's \<Rightarrow> bytes option"
  st_delete :: "string \<Rightarrow> 's \<Rightarrow> bool \<times> 's"

text \<open>
  What a client may rely on for the keys in use: a write that reports success is read back, one
  that reports failure changed nothing, and other keys are never touched.
\<close>

locale object_store =
  fixes ops :: "'s store_ops" and valid :: "string \<Rightarrow> bool"
  assumes get_put: "valid k \<Longrightarrow> valid k' \<Longrightarrow>
      st_get ops k' (snd (st_put ops k b s)) = (if k' = k \<and> fst (st_put ops k b s) then Some b else st_get ops k' s)"
    and get_delete: "valid k \<Longrightarrow> valid k' \<Longrightarrow> k' \<noteq> k \<Longrightarrow> st_get ops k' (snd (st_delete ops k s)) = st_get ops k' s"
    and delete_ok: "valid k \<Longrightarrow> fst (st_delete ops k s) \<Longrightarrow> st_get ops k (snd (st_delete ops k s)) = None"
begin

lemma put_ok: "valid k \<Longrightarrow> fst (st_put ops k b s) \<Longrightarrow> st_get ops k (snd (st_put ops k b s)) = Some b"
  by (simp add: get_put)

lemma put_other: "valid k \<Longrightarrow> valid k' \<Longrightarrow> k' \<noteq> k \<Longrightarrow> st_get ops k' (snd (st_put ops k b s)) = st_get ops k' s"
  by (simp add: get_put)

end

text \<open>
  \<open>FSStore\<close>: files by path. A put writes a temporary file beside the object and renames it; the
  fault plan says which system call fails. For keys without empty, dot or dot-dot segments joining
  is concatenation.
\<close>

type_synonym filesystem = "string \<rightharpoonup> bytes"

definition fs_path :: "string \<Rightarrow> string \<Rightarrow> string" where
  "fs_path dir key = dir @ ''/'' @ key"

definition fs_put :: "faults \<Rightarrow> string \<Rightarrow> string \<Rightarrow> bytes \<Rightarrow> filesystem \<Rightarrow> bool \<times> filesystem" where
  "fs_put F dir key content fs =
     (let p = fs_path dir key; tmp = p @ ''.tmp'' in
      if F ''mkdir'' then (False, fs)
      else if F ''create'' then (False, fs)
      else if F ''copy'' then (False, fs(tmp := None))
      else if F ''close'' then (False, fs(tmp := None))
      else if F ''rename'' then (False, fs(tmp \<mapsto> content))
      else (True, fs(tmp := None, p \<mapsto> content)))"

definition fs_get :: "string \<Rightarrow> string \<Rightarrow> filesystem \<Rightarrow> bytes option" where
  "fs_get dir key fs = fs (fs_path dir key)"

definition fs_delete :: "faults \<Rightarrow> string \<Rightarrow> string \<Rightarrow> filesystem \<Rightarrow> bool \<times> filesystem" where
  "fs_delete F dir key fs =
     (case fs (fs_path dir key) of
        None \<Rightarrow> (True, fs)
      | Some b \<Rightarrow> if F ''remove'' then (False, fs) else (True, fs(fs_path dir key := None)))"

definition FSStore :: "faults \<Rightarrow> string \<Rightarrow> filesystem store_ops" where
  "FSStore F dir = \<lparr>st_put = fs_put F dir, st_get = fs_get dir, st_delete = fs_delete F dir\<rparr>"

definition not_temporary :: "string \<Rightarrow> bool" where
  "not_temporary k \<longleftrightarrow> drop (length k - 4) k \<noteq> ''.tmp''"

lemma fs_path_inj [simp]: "fs_path dir k = fs_path dir k' \<longleftrightarrow> k = k'"
  by (simp add: fs_path_def)

lemma fs_path_tmp: "not_temporary k' \<Longrightarrow> fs_path dir k' \<noteq> fs_path dir k @ ''.tmp''"
  by (auto simp: fs_path_def not_temporary_def)

interpretation fs: object_store "FSStore F dir" not_temporary for F dir
proof unfold_locales
  fix k k' b s
  assume "not_temporary k'"
  then show "st_get (FSStore F dir) k' (snd (st_put (FSStore F dir) k b s)) =
      (if k' = k \<and> fst (st_put (FSStore F dir) k b s) then Some b else st_get (FSStore F dir) k' s)"
    using fs_path_tmp [of k' dir k] by (auto simp: FSStore_def fs_put_def fs_get_def Let_def)
qed (auto simp: FSStore_def fs_delete_def fs_get_def split: option.split)

lemma artifact_keys [simp]:
  "not_temporary (ObjectKeySQLite v)" "not_temporary (ObjectKeyManifest v)" "not_temporary PointerKey"
  by (simp_all add: not_temporary_def ObjectKeySQLite_def ObjectKeyManifest_def PointerKey_def)

section \<open>The SQLite export\<close>

record artifact_db =
  ar_meta :: "(string \<times> string) list"
  ar_prefixes :: "(string \<times> int \<times> string \<times> string option \<times> string option) list"
  ar_targets :: "(string \<times> string \<times> string \<times> string option \<times> string option) list"

text \<open>
  The rows of the two queries; the primary keys of the SQLite tables reject duplicates. The result
  carries the number of targets.
\<close>

definition export_prefixes :: "routing_schema \<Rightarrow> nat \<Rightarrow> (string \<times> int \<times> string \<times> string option \<times> string option) list" where
  "export_prefixes R sid = [(px_prefix p, px_origin_asn p, as_provider_id a, px_geo_country p, px_geo_city p).
     p \<leftarrow> filter (\<lambda>p. px_snapshot_id p = sid) (prefixes R), a \<leftarrow> filter (\<lambda>a. as_asn a = px_origin_asn p) (asns R)]"

definition export_targets :: "routing_schema \<Rightarrow> nat \<Rightarrow> (string \<times> string \<times> string \<times> string option \<times> string option) list" where
  "export_targets R sid = [(tg_address t, tg_provider_id t, px_prefix p, tg_geo_country t, tg_geo_city t).
     t \<leftarrow> filter (\<lambda>t. tg_snapshot_id t = sid \<and> tg_active t) (probe_targets R),
     p \<leftarrow> filter (\<lambda>p. px_id p = tg_prefix_id t) (prefixes R)]"

definition ExportSQLite :: "faults \<Rightarrow> routing_schema \<Rightarrow> nat \<Rightarrow> string \<Rightarrow> string \<Rightarrow> (nat \<times> artifact_db) option" where
  "ExportSQLite F R sid version minWorkerVersion =
     (if F ''export.open'' \<or> F ''export.schema'' \<or> F ''export.begin'' \<or> F ''export.meta'' \<or> F ''export.prefixes'' then None
      else
        (let ps = export_prefixes R sid; ts = export_targets R sid in
         if \<not> distinct (map (\<lambda>(p, o1, r). (p, o1)) ps) then None
         else if F ''export.targets'' \<or> \<not> distinct (map fst ts) then None
         else if F ''export.commit'' \<or> F ''export.close'' then None
         else Some (length ts,
           \<lparr>ar_meta = [(''version'', version), (''min_worker_version'', minWorkerVersion)],
            ar_prefixes = ps, ar_targets = ts\<rparr>)))"

section \<open>The publisher\<close>

definition verifyReadback ::
  "('a) crypto_scheme \<Rightarrow> artifact_codec \<Rightarrow> 's store_ops \<Rightarrow> bytes \<Rightarrow> Manifest \<Rightarrow> 's \<Rightarrow> bool" where
  "verifyReadback C J ops key m st =
     (case st_get ops (ObjectKeyManifest (m_version m)) st of
        None \<Rightarrow> False
      | Some raw \<Rightarrow>
          (case man_unmarshal J raw of
             None \<Rightarrow> False
           | Some got \<Rightarrow>
               if \<not> man_Verify C J got (ed_public C key) then False
               else if m_sha256 got \<noteq> m_sha256 m then False
               else case st_get ops (m_object_key m) st of
                 None \<Rightarrow> False
               | Some obj \<Rightarrow> VerifyFile C (Some obj) got))"

definition set_artifact :: "nat \<Rightarrow> Manifest \<Rightarrow> routing_schema \<Rightarrow> routing_schema" where
  "set_artifact sid m R = R\<lparr>snapshots := update_where (\<lambda>s. sn_id s = sid)
     (\<lambda>s. s\<lparr>sn_artifact := Some (m_sha256 m, m_size_bytes m, m_signature m)\<rparr>) (snapshots R)\<rparr>"

text \<open>\<open>sqlite_file\<close> renders the export as the bytes of the file.\<close>

definition Publish ::
  "faults \<Rightarrow> ('a) crypto_scheme \<Rightarrow> artifact_codec \<Rightarrow> 's store_ops \<Rightarrow> (artifact_db \<Rightarrow> bytes) \<Rightarrow> bytes \<Rightarrow> string \<Rightarrow> time \<Rightarrow>
     nat \<Rightarrow> string \<Rightarrow> 's \<Rightarrow> routing_schema \<Rightarrow> Manifest option \<times> 's \<times> routing_schema" where
  "Publish F C J ops sqlite_file key minv now sid version st R =
     (if F ''publish.tempdir'' then (None, st, R)
      else case ExportSQLite F R sid version minv of
        None \<Rightarrow> (None, st, R)
      | Some (targets, ar) \<Rightarrow>
          (let file = sqlite_file ar in
           case lookup_by sn_id sid (snapshots R) of
             None \<Rightarrow> (None, st, R)
           | Some sn \<Rightarrow>
               if F ''publish.counts'' then (None, st, R)
               else case man_Sign C J key
                   \<lparr>m_version = version, m_created_at = now, m_object_key = ObjectKeySQLite version,
                    m_sha256 = hex_encode (sha256 C file), m_size_bytes = int (length file),
                    m_prefix_count_v4 = sn_prefix_count_v4 sn, m_prefix_count_v6 = sn_prefix_count_v6 sn,
                    m_target_count = targets, m_min_worker_version = minv, m_signature = []\<rparr> of
                 None \<Rightarrow> (None, st, R)
               | Some m \<Rightarrow>
                   (case st_put ops (m_object_key m) file st of
                      (ok1, st1) \<Rightarrow>
                        if \<not> ok1 then (None, st1, R)
                        else case man_marshal J m of
                          None \<Rightarrow> (None, st1, R)
                        | Some raw \<Rightarrow>
                            (case st_put ops (ObjectKeyManifest version) raw st1 of
                               (ok2, st2) \<Rightarrow>
                                 if \<not> ok2 then (None, st2, R)
                                 else if \<not> verifyReadback C J ops key m st2 then (None, st2, R)
                                 else if F ''publish.record'' then (None, st2, R)
                                 else (Some m, st2, set_artifact sid m R)))))"

definition SetCurrent :: "artifact_codec \<Rightarrow> 's store_ops \<Rightarrow> time \<Rightarrow> string \<Rightarrow> 's \<Rightarrow> bool \<times> 's" where
  "SetCurrent J ops now version st =
     (case ptr_marshal J \<lparr>ptr_version = version, ptr_manifest_key = ObjectKeyManifest version, ptr_updated_at = now\<rparr> of
        None \<Rightarrow> (False, st)
      | Some raw \<Rightarrow> st_put ops PointerKey raw st)"

text \<open>The transaction shared by the rollback and by the builder's \<^verbatim>\<open>publish\<close>.\<close>

definition flip_published :: "time \<Rightarrow> nat \<Rightarrow> routing_schema \<Rightarrow> routing_schema" where
  "flip_published now sid R = R\<lparr>snapshots :=
     update_where (\<lambda>s. sn_id s = sid) (\<lambda>s. s\<lparr>sn_status := ''published'', sn_published_at := Some now\<rparr>)
       (update_where (\<lambda>s. sn_status s = ''published'' \<and> sn_id s \<noteq> sid) (\<lambda>s. s\<lparr>sn_status := ''superseded''\<rparr>)
         (snapshots R))\<rparr>"

definition RollbackTo ::
  "faults \<Rightarrow> artifact_codec \<Rightarrow> 's store_ops \<Rightarrow> time \<Rightarrow> string \<Rightarrow> 's \<Rightarrow> routing_schema \<Rightarrow> bool \<times> 's \<times> routing_schema" where
  "RollbackTo F J ops now version st R =
     (if F ''rollback.lookup'' then (False, st, R)
      else case lookup_by sn_version version (snapshots R) of
        None \<Rightarrow> (False, st, R)
      | Some sn \<Rightarrow>
          if F ''rollback.count'' then (False, st, R)
          else if count_where (\<lambda>p. px_snapshot_id p = sn_id sn) (prefixes R) = 0 then (False, st, R)
          else if F ''rollback.begin'' \<or> F ''rollback.supersede'' \<or> F ''rollback.publish'' \<or> F ''rollback.commit''
            then (False, st, R)
          else
            (case SetCurrent J ops now version st of
               (ok, st') \<Rightarrow> (ok, st', flip_published now (sn_id sn) R)))"

section \<open>Pruning\<close>

text \<open>
  The victims: superseded snapshots by descending id, after the newest \<open>retain\<close> of them. For each
  the statements run one by one; the store deletions only warn when they fail.
\<close>

definition prune_victims :: "nat \<Rightarrow> routing_schema \<Rightarrow> snapshot_row list" where
  "prune_victims retain R = drop retain (rev (sort_key sn_id (filter (\<lambda>s. sn_status s = ''superseded'') (snapshots R))))"

definition snapshot_targets :: "nat \<Rightarrow> routing_schema \<Rightarrow> nat set" where
  "snapshot_targets sid R = tg_id ` {t \<in> set (probe_targets R). tg_snapshot_id t = sid}"

definition prune_leases :: "nat \<Rightarrow> routing_schema \<Rightarrow> scheduling_schema \<Rightarrow> scheduling_schema" where
  "prune_leases sid R S = S\<lparr>leases := filter (\<lambda>l. \<not> (\<exists>a \<in> set (assignments S).
     l_assignment_id l = a_id a \<and> a_target_id a \<in> snapshot_targets sid R)) (leases S)\<rparr>"

definition prune_assignments :: "nat \<Rightarrow> routing_schema \<Rightarrow> scheduling_schema \<Rightarrow> scheduling_schema" where
  "prune_assignments sid R S =
     S\<lparr>assignments := filter (\<lambda>a. a_target_id a \<notin> snapshot_targets sid R) (assignments S)\<rparr>"

definition prune_targets :: "nat \<Rightarrow> routing_schema \<Rightarrow> routing_schema" where
  "prune_targets sid R = R\<lparr>probe_targets := filter (\<lambda>t. tg_snapshot_id t \<noteq> sid) (probe_targets R)\<rparr>"

definition prune_geo :: "nat \<Rightarrow> routing_schema \<Rightarrow> routing_schema" where
  "prune_geo sid R = R\<lparr>provider_geo := filter (\<lambda>g. gr_snapshot_id g \<noteq> sid) (provider_geo R)\<rparr>"

definition prune_prefixes :: "nat \<Rightarrow> routing_schema \<Rightarrow> routing_schema" where
  "prune_prefixes sid R = R\<lparr>prefixes := filter (\<lambda>p. px_snapshot_id p \<noteq> sid) (prefixes R)\<rparr>"

fun prune_each ::
  "faults \<Rightarrow> 's store_ops \<Rightarrow> snapshot_row list \<Rightarrow> 's \<times> routing_schema \<times> scheduling_schema \<Rightarrow>
     bool \<times> 's \<times> routing_schema \<times> scheduling_schema" where
  "prune_each F ops [] (st, R, S) = (True, st, R, S)"
| "prune_each F ops (v # vs) (st, R, S) =
     (let sid = sn_id v in
      if F ''prune.leases'' then (False, st, R, S)
      else let S1 = prune_leases sid R S in
      if F ''prune.assignments'' then (False, st, R, S1)
      else let S2 = prune_assignments sid R S1 in
      if F ''prune.targets'' then (False, st, R, S2)
      else let R1 = prune_targets sid R in
      if F ''prune.geo'' then (False, st, R1, S2)
      else let R2 = prune_geo sid R1 in
      if F ''prune.prefixes'' then (False, st, R2, S2)
      else let R3 = prune_prefixes sid R2;
               st1 = snd (st_delete ops (ObjectKeySQLite (sn_version v)) st);
               st2 = snd (st_delete ops (ObjectKeyManifest (sn_version v)) st1) in
      prune_each F ops vs (st2, R3, S2))"

definition Prune ::
  "faults \<Rightarrow> 's store_ops \<Rightarrow> nat \<Rightarrow> 's \<Rightarrow> routing_schema \<Rightarrow> scheduling_schema \<Rightarrow>
     bool \<times> 's \<times> routing_schema \<times> scheduling_schema" where
  "Prune F ops retain st R S =
     (if F ''prune.select'' then (False, st, R, S)
      else prune_each F ops (prune_victims retain R) (st, R, S))"

section \<open>Properties of manifests and publication\<close>

lemma man_Sign_Verify:
  assumes "ed25519_ok C" and "man_Sign C J key m = Some m'"
  shows "man_Verify C J m' (ed_public C key)"
proof -
  obtain p where p: "man_payload J m = Some p" "m' = m\<lparr>m_signature := b64_encode (ed_sign C key p)\<rparr>"
    using assms(2) by (auto simp: man_Sign_def split: option.split_asm)
  have len: "length (ed_sign C key p) = 64" and v: "ed_verify C (ed_public C key) p (ed_sign C key p)"
    using assms(1) by (simp_all add: ed25519_ok_def)
  from len have "ed_sign C key p \<noteq> []" by auto
  moreover have "man_payload J m' = Some p" using p by (simp add: man_payload_def)
  ultimately show ?thesis using v by (simp add: man_Verify_def p(2) man_payload_def)
qed

text \<open>
  A manifest the publisher signs verifies under its public key, and verification fails closed:
  a manifest that is unsigned or whose signature is not base64 is never accepted.
\<close>

theorem manifest_sign_verify:
  assumes "ed25519_ok C" and "man_Sign C J key m = Some m'"
  shows "man_Verify C J m' (ed_public C key) \<and> m'\<lparr>m_signature := []\<rparr> = m\<lparr>m_signature := []\<rparr> \<and>
    \<not> man_Verify C J (m'\<lparr>m_signature := []\<rparr>) pub \<and>
    (b64_decode s = None \<longrightarrow> \<not> man_Verify C J (m'\<lparr>m_signature := s\<rparr>) pub)"
proof -
  have "m'\<lparr>m_signature := []\<rparr> = m\<lparr>m_signature := []\<rparr>"
    using assms(2) by (auto simp: man_Sign_def split: option.split_asm)
  moreover have "\<not> man_Verify C J (m'\<lparr>m_signature := []\<rparr>) pub"
    "b64_decode s = None \<longrightarrow> \<not> man_Verify C J (m'\<lparr>m_signature := s\<rparr>) pub"
    by (simp_all add: man_Verify_def)
  ultimately show ?thesis using man_Sign_Verify [OF assms] by blast
qed

definition demo_manifest :: Manifest where
  "demo_manifest = \<lparr>m_version = ''v9'', m_created_at = 4, m_object_key = ObjectKeySQLite ''v9'', m_sha256 = [],
     m_size_bytes = 0, m_prefix_count_v4 = 1, m_prefix_count_v6 = 0, m_target_count = 1,
     m_min_worker_version = ''0'', m_signature = []\<rparr>"

text \<open>A codec for the witnesses: version, hash, size and signature in fixed positions.\<close>

definition demo_codec :: artifact_codec where
  "demo_codec = \<lparr>man_marshal = (\<lambda>m. Some (m_version m @ ''|'' @ m_sha256 m @ ''|'' @ m_signature m)),
     man_unmarshal = (\<lambda>b. None), ptr_marshal = (\<lambda>p. Some (ptr_version p)),
     ptr_unmarshal = (\<lambda>b. Some \<lparr>ptr_version = b, ptr_manifest_key = ObjectKeyManifest b, ptr_updated_at = 0\<rparr>)\<rparr>"

theorem manifest_sign_verify_witness:
  "\<exists>m'. man_Sign demo_env demo_codec ''k'' demo_manifest = Some m' \<and>
     man_Verify demo_env demo_codec m' (ed_public demo_env ''k'') \<and>
     \<not> man_Verify demo_env demo_codec (m'\<lparr>m_signature := ''!''\<rparr>) (ed_public demo_env ''k'')"
proof -
  obtain m' where s: "man_Sign demo_env demo_codec ''k'' demo_manifest = Some m'"
    by (simp add: man_Sign_def man_payload_def demo_codec_def)
  have "b64_decode ''!'' = None" by code_simp
  then show ?thesis using s manifest_sign_verify [OF demo_env_ok(3) s, of _ "''!''"] by blast
qed

lemma Publish_ok:
  assumes "Publish F C J ops sqlite_file key minv now sid version st R = (Some m, st', R')"
  obtains targets ar where "ExportSQLite F R sid version minv = Some (targets, ar)"
    "m_sha256 m = hex_encode (sha256 C (sqlite_file ar))" "m_size_bytes m = int (length (sqlite_file ar))"
    "m_version m = version" "m_object_key m = ObjectKeySQLite version" "m_target_count m = targets"
    "verifyReadback C J ops key m st'" "R' = set_artifact sid m R"
proof -
  obtain targets ar where e: "ExportSQLite F R sid version minv = Some (targets, ar)"
    using assms by (auto simp: Publish_def split: if_split_asm option.split_asm)
  obtain sn where sn: "lookup_by sn_id sid (snapshots R) = Some sn"
    using assms e by (auto simp: Publish_def Let_def split: if_split_asm option.split_asm)
  let ?file = "sqlite_file ar"
  let ?m0 = "\<lparr>m_version = version, m_created_at = now, m_object_key = ObjectKeySQLite version,
      m_sha256 = hex_encode (sha256 C ?file), m_size_bytes = int (length ?file),
      m_prefix_count_v4 = sn_prefix_count_v4 sn, m_prefix_count_v6 = sn_prefix_count_v6 sn,
      m_target_count = targets, m_min_worker_version = minv, m_signature = []\<rparr>"
  obtain m1 where m1: "man_Sign C J key ?m0 = Some m1"
    using assms e sn by (auto simp: Publish_def Let_def split: if_split_asm option.split_asm)
  then have f: "m_sha256 m1 = hex_encode (sha256 C ?file)" "m_size_bytes m1 = int (length ?file)"
    "m_version m1 = version" "m_object_key m1 = ObjectKeySQLite version" "m_target_count m1 = targets"
    by (auto simp: man_Sign_def split: option.split_asm)
  have "m = m1" "verifyReadback C J ops key m st'" "R' = set_artifact sid m R"
    using assms e sn m1 by (auto simp: Publish_def Let_def split: if_split_asm option.split_asm prod.split_asm)
  then show ?thesis using that [OF e] f by simp
qed


definition demo_published :: Manifest where
  "demo_published = the (man_Sign demo_env demo_codec ''k''
     \<lparr>m_version = ''v2'', m_created_at = 4, m_object_key = ObjectKeySQLite ''v2'', m_sha256 = hex_encode (sha256 demo_env ''file''),
      m_size_bytes = 4, m_prefix_count_v4 = 1, m_prefix_count_v6 = 0, m_target_count = 0,
      m_min_worker_version = ''0'', m_signature = []\<rparr>)"

definition demo_codec2 :: artifact_codec where
  "demo_codec2 = demo_codec\<lparr>man_unmarshal := (\<lambda>b. Some demo_published)\<rparr>"

lemma demo_published_ok:
  "man_Verify demo_env demo_codec2 demo_published ''k''"
proof -
  let ?m = "\<lparr>m_version = ''v2'', m_created_at = 4, m_object_key = ObjectKeySQLite ''v2'', m_sha256 = hex_encode (sha256 demo_env ''file''),
      m_size_bytes = 4, m_prefix_count_v4 = 1, m_prefix_count_v6 = 0, m_target_count = 0,
      m_min_worker_version = ''0'', m_signature = []\<rparr>"
  obtain m' where m': "man_Sign demo_env demo_codec2 ''k'' ?m = Some m'"
    by (simp add: man_Sign_def man_payload_def demo_codec_def demo_codec2_def)
  have "m' = demo_published"
    using m' by (auto simp: demo_published_def man_Sign_def man_payload_def demo_codec2_def demo_codec_def)
  then show ?thesis using man_Sign_Verify [OF demo_env_ok(3) m'] by (simp add: demo_env_def)
qed


section \<open>Properties of the version in force\<close>

definition published_versions :: "routing_schema \<Rightarrow> string list" where
  "published_versions R = map sn_version (filter (\<lambda>s. sn_status s = ''published'') (snapshots R))"

lemma filter_unique: "distinct (map key xs) \<Longrightarrow> x \<in> set xs \<Longrightarrow> filter (\<lambda>y. key y = key x) xs = [x]"
proof (induction xs)
  case (Cons y ys)
  show ?case
  proof (cases "y = x")
    case True
    then have "filter (\<lambda>z. key z = key x) ys = []" using Cons.prems(1) by (auto simp: filter_empty_conv image_iff)
    then show ?thesis using True by simp
  next
    case False
    then have "key y \<noteq> key x" using Cons.prems by (metis distinct.simps(2) image_eqI list.simps(9) set_ConsD set_map)
    then show ?thesis using Cons False by simp
  qed
qed simp

lemma flip_published_versions:
  assumes "distinct (map sn_id (snapshots R))" and "sn \<in> set (snapshots R)"
  shows "published_versions (flip_published now (sn_id sn) R) = [sn_version sn]"
proof -
  have "map sn_version (filter (\<lambda>s. sn_status s = ''published'')
      (update_where (\<lambda>s. sn_id s = i) (\<lambda>s. s\<lparr>sn_status := ''published'', sn_published_at := Some now\<rparr>)
       (update_where (\<lambda>s. sn_status s = ''published'' \<and> sn_id s \<noteq> i) (\<lambda>s. s\<lparr>sn_status := ''superseded''\<rparr>) ss))) =
    map sn_version (filter (\<lambda>s. sn_id s = i) ss)" for i and ss :: "snapshot_row list"
    by (induction ss) auto
  then show ?thesis
    using filter_unique [OF assms] by (simp add: published_versions_def flip_published_def)
qed

text \<open>
  A successful rollback leaves exactly the requested version published and, on the
  file-system store, the pointer naming it in place, with every other object of the store as it
  was; a rollback to a version without routing data, or to an unknown one, changes nothing.
\<close>

theorem rollback_publishes:
  assumes "distinct (map sn_id (snapshots R))" and "RollbackTo F J (FSStore F dir) now version fs R = (ok, fs', R')"
  shows "if ok then published_versions R' = [version] \<and>
      (\<exists>raw. ptr_marshal J \<lparr>ptr_version = version, ptr_manifest_key = ObjectKeyManifest version, ptr_updated_at = now\<rparr> =
          Some raw \<and> fs_get dir PointerKey fs' = Some raw) \<and>
      (\<forall>k. not_temporary k \<and> k \<noteq> PointerKey \<longrightarrow> fs_get dir k fs' = fs_get dir k fs)
    else fs_get dir PointerKey fs' = fs_get dir PointerKey fs \<and>
      (version \<notin> sn_version ` set (snapshots R) \<or>
       (\<forall>sn \<in> set (snapshots R). sn_version sn = version \<longrightarrow> (\<forall>p \<in> set (prefixes R). px_snapshot_id p \<noteq> sn_id sn)) \<longrightarrow> R' = R)"
proof -
  let ?ops = "FSStore F dir"
  let ?ptr = "\<lparr>ptr_version = version, ptr_manifest_key = ObjectKeyManifest version, ptr_updated_at = now\<rparr>"
  have get: "st_get ?ops = fs_get dir" by (simp add: FSStore_def)
  have cur: "if fst (SetCurrent J ?ops now version fs) then
       (\<exists>raw. ptr_marshal J ?ptr = Some raw \<and> fs_get dir PointerKey (snd (SetCurrent J ?ops now version fs)) = Some raw) \<and>
       (\<forall>k. not_temporary k \<and> k \<noteq> PointerKey \<longrightarrow> fs_get dir k (snd (SetCurrent J ?ops now version fs)) = fs_get dir k fs)
     else fs_get dir PointerKey (snd (SetCurrent J ?ops now version fs)) = fs_get dir PointerKey fs"
    unfolding get [symmetric] SetCurrent_def using fs.get_put [of PointerKey _ F dir] by (auto split: option.split)
  show ?thesis
  proof (cases "lookup_by sn_version version (snapshots R)")
    case None
    then show ?thesis using assms(2) by (auto simp: RollbackTo_def split: if_split_asm)
  next
    case (Some sn)
    note sn = lookup_by_SomeD [OF Some]
    have pub: "published_versions (flip_published now (sn_id sn) R) = [version]"
      using flip_published_versions [OF assms(1), of sn] sn by simp
    show ?thesis
      using assms(2) cur pub sn unfolding RollbackTo_def Some
      by (cases "SetCurrent J ?ops now version fs") (auto simp: count_where_zero_iff split: if_split_asm)
  qed
qed

text \<open>The demonstration routing tables with data for the superseded snapshot and a held one.\<close>

definition demo_held_snapshot :: snapshot_row where
  "demo_held_snapshot = \<lparr>sn_id = 2, sn_version = ''v3'', sn_source_uri = ''bview'', sn_source_timestamp = 0, sn_status = ''building'', sn_created_at = 5, sn_asn_count = 1,
     sn_prefix_count_v4 = 9, sn_prefix_count_v6 = 0, sn_artifact = None, sn_built_at = None, sn_published_at = None\<rparr>"

definition demo_routing2 :: routing_schema where
  "demo_routing2 = demo_routing\<lparr>snapshots := snapshots demo_routing @ [demo_held_snapshot],
     prefixes := map (\<lambda>i. \<lparr>px_id = i, px_snapshot_id = i, px_prefix = ''192.0.2.0/24'', px_origin_asn = 64500,
        px_geo_country = None, px_geo_city = None,
        px_geo_lat = None, px_geo_lon = None, px_flags = []\<rparr>) [0, 1, 2]\<rparr>"

lemma demo_routing2_ids: "distinct (map sn_id (snapshots demo_routing2))"
  by (simp add: demo_routing2_def demo_routing_def demo_held_snapshot_def)

lemma demo_rollback:
  "\<exists>fs' R'. RollbackTo no_faults demo_codec (FSStore no_faults ''/d'') 8 ''v1'' (\<lambda>_. None) demo_routing2 = (True, fs', R')"
  by (simp add: RollbackTo_def SetCurrent_def demo_codec_def FSStore_def fs_put_def Let_def demo_routing2_def
      demo_routing_def demo_held_snapshot_def)

theorem rollback_publishes_witness:
  "\<exists>fs' R'. RollbackTo no_faults demo_codec (FSStore no_faults ''/d'') 8 ''v1'' (\<lambda>_. None) demo_routing2 = (True, fs', R') \<and>
     published_versions demo_routing2 = [''v2''] \<and> published_versions R' = [''v1''] \<and>
     fs_get ''/d'' PointerKey fs' = Some ''v1''"
proof -
  obtain fs' R' where r:
    "RollbackTo no_faults demo_codec (FSStore no_faults ''/d'') 8 ''v1'' (\<lambda>_. None) demo_routing2 = (True, fs', R')"
    using demo_rollback by blast
  have "published_versions demo_routing2 = [''v2'']"
    by (simp add: published_versions_def demo_routing2_def demo_routing_def demo_held_snapshot_def)
  moreover have "ptr_marshal demo_codec p = Some (ptr_version p)" for p by (simp add: demo_codec_def)
  ultimately show ?thesis using r rollback_publishes [OF demo_routing2_ids r] by auto
qed

text \<open>
  A rollback does not look at the status of the snapshot it publishes: a snapshot that the
  sanity gate held back in \<open>building\<close>, whose artifact was never uploaded, is published, and the
  pointer then names a manifest that does not exist.
\<close>

theorem rollback_publishes_held_snapshot:
  assumes "lookup_by sn_version version (snapshots R) = Some sn" and "sn_status sn = ''building''"
    and "p \<in> set (prefixes R)" "px_snapshot_id p = sn_id sn" and "distinct (map sn_id (snapshots R))"
    and "fs_get dir (ObjectKeyManifest version) fs = None" and "\<And>x. ptr_marshal J x \<noteq> None"
  shows "\<exists>fs' R'. RollbackTo no_faults J (FSStore no_faults dir) now version fs R = (True, fs', R') \<and>
    published_versions R' = [version] \<and> fs_get dir PointerKey fs' \<noteq> None \<and>
    fs_get dir (ObjectKeyManifest version) fs' = None"
proof -
  let ?ptr = "\<lparr>ptr_version = version, ptr_manifest_key = ObjectKeyManifest version, ptr_updated_at = now\<rparr>"
  obtain raw where raw: "ptr_marshal J ?ptr = Some raw" using assms(7) [of ?ptr] by blast
  let ?fs = "snd (st_put (FSStore no_faults dir) PointerKey raw fs)"
  have cnt: "count_where (\<lambda>p. px_snapshot_id p = sn_id sn) (prefixes R) \<noteq> 0"
    using assms(3,4) unfolding count_where_zero_iff by blast
  have ok: "fst (st_put (FSStore no_faults dir) PointerKey raw fs)"
    by (simp add: FSStore_def fs_put_def Let_def)
  then have put: "st_put (FSStore no_faults dir) PointerKey raw fs = (True, ?fs)"
    by (metis prod.collapse)
  have get: "fs_get dir = st_get (FSStore no_faults dir)" by (simp add: FSStore_def)
  have keys: "ObjectKeyManifest version \<noteq> PointerKey"
    by (simp add: ObjectKeyManifest_def PointerKey_def)
  have "fs_get dir PointerKey ?fs \<noteq> None"
    unfolding get using fs.put_ok [of PointerKey no_faults dir raw fs] ok by simp
  moreover have "fs_get dir (ObjectKeyManifest version) ?fs = None"
    using assms(6) keys unfolding get by (simp add: fs.put_other)
  moreover have "published_versions (flip_published now (sn_id sn) R) = [version]"
    using flip_published_versions [OF assms(5)] lookup_by_SomeD [OF assms(1)] by simp
  moreover have "SetCurrent J (FSStore no_faults dir) now version fs = (True, ?fs)"
    unfolding SetCurrent_def raw option.case by (rule put)
  then have "RollbackTo no_faults J (FSStore no_faults dir) now version fs R = (True, ?fs, flip_published now (sn_id sn) R)"
    unfolding RollbackTo_def assms(1) using cnt by (simp only: if_False option.case prod.case HOL.simp_thms)
  ultimately show ?thesis by blast
qed

theorem rollback_publishes_held_snapshot_witness:
  "\<exists>fs' R'. RollbackTo no_faults demo_codec (FSStore no_faults ''/d'') 8 ''v3'' (\<lambda>_. None) demo_routing2 = (True, fs', R') \<and>
    published_versions R' = [''v3''] \<and> fs_get ''/d'' (ObjectKeyManifest ''v3'') fs' = None"
proof -
  have l: "lookup_by sn_version ''v3'' (snapshots demo_routing2) = Some demo_held_snapshot"
    by (simp add: demo_routing2_def demo_routing_def demo_held_snapshot_def)
  have b: "sn_status demo_held_snapshot = ''building''" by (simp add: demo_held_snapshot_def)
  let ?p = "\<lparr>px_id = 2, px_snapshot_id = 2, px_prefix = ''192.0.2.0/24'', px_origin_asn = 64500,
        px_geo_country = None, px_geo_city = None,
        px_geo_lat = None, px_geo_lon = None, px_flags = []\<rparr>"
  have p: "?p \<in> set (prefixes demo_routing2)" "px_snapshot_id ?p = sn_id demo_held_snapshot"
    by (simp_all add: demo_routing2_def demo_held_snapshot_def)
  have n: "fs_get ''/d'' (ObjectKeyManifest ''v3'') (\<lambda>_. None) = None" by (simp add: fs_get_def)
  have j: "\<And>x. ptr_marshal demo_codec x \<noteq> None" by (simp add: demo_codec_def)
  show ?thesis using rollback_publishes_held_snapshot [OF l b p demo_routing2_ids n j, of 8] by blast
qed

section \<open>Pruning\<close>

lemma prune_each_frame:
  assumes "prune_each F ops vs (st, R, S) = (ok, st', R', S')"
  shows "snapshots R' = snapshots R \<and> asns R' = asns R \<and> providers R' = providers R \<and>
    set (prefixes R') \<subseteq> set (prefixes R) \<and> set (probe_targets R') \<subseteq> set (probe_targets R) \<and>
    (\<forall>p \<in> set (prefixes R). px_snapshot_id p \<notin> sn_id ` set vs \<longrightarrow> p \<in> set (prefixes R')) \<and>
    (\<forall>t \<in> set (probe_targets R). tg_snapshot_id t \<notin> sn_id ` set vs \<longrightarrow> t \<in> set (probe_targets R')) \<and>
    (ok \<longrightarrow> (\<forall>p \<in> set (prefixes R'). px_snapshot_id p \<notin> sn_id ` set vs) \<and>
            (\<forall>t \<in> set (probe_targets R'). tg_snapshot_id t \<notin> sn_id ` set vs))"
  using assms
proof (induction vs arbitrary: st R S)
  case (Cons v vs)
  show ?case
  proof (cases "F ''prune.leases'' \<or> F ''prune.assignments'' \<or> F ''prune.targets'' \<or> F ''prune.geo'' \<or> F ''prune.prefixes''")
    case True
    then show ?thesis
      using Cons.prems by (auto simp: Let_def prune_targets_def prune_geo_def split: if_split_asm)
  next
    case False
    let ?R = "prune_prefixes (sn_id v) (prune_geo (sn_id v) (prune_targets (sn_id v) R))"
    obtain st2 S2 where r: "prune_each F ops vs (st2, ?R, S2) = (ok, st', R', S')"
      using Cons.prems False by (simp add: Let_def)
    have R: "snapshots ?R = snapshots R" "asns ?R = asns R" "providers ?R = providers R"
      "prefixes ?R = filter (\<lambda>p. px_snapshot_id p \<noteq> sn_id v) (prefixes R)"
      "probe_targets ?R = filter (\<lambda>t. tg_snapshot_id t \<noteq> sn_id v) (probe_targets R)"
      by (simp_all add: prune_prefixes_def prune_geo_def prune_targets_def)
    show ?thesis using Cons.IH [OF r] unfolding R by auto
  qed
qed auto



end
