(* ===== verification/Advisor.thy ===== *)
theory Advisor
  imports Schema Encoding
begin

text \<open>
  The VPS Advisor client (\<^verbatim>\<open>internal/advisor/\<close>): the JSON request helper, the cursor walk over a
  paginated feed, the feeds and pushes, and the provider sync that upserts the local catalog. The
  website is a parameter: a function from method, path and body to its answer.
\<close>

section \<open>Requests\<close>

datatype advisor_error = Transport | Redirect | Status nat | Decode | NoTermination | ClaimedTwice int string string | DBError

text \<open>The answer of the site: status and body (\<^const>\<open>None\<close> when it is not JSON); no answer at all is \<^const>\<open>None\<close>.\<close>

type_synonym site = "string \<Rightarrow> string \<Rightarrow> json option \<Rightarrow> (nat \<times> json option) option"

definition doJSON :: "site \<Rightarrow> string \<Rightarrow> string \<Rightarrow> json option \<Rightarrow> bool \<Rightarrow> advisor_error + json" where
  "doJSON site method path body want =
     (case site method path body of
        None \<Rightarrow> Inl Transport
      | Some (st, ans) \<Rightarrow>
          if 300 \<le> st \<and> st < 400 then Inl Redirect
          else if 400 \<le> st then Inl (Status st)
          else if want then (case ans of None \<Rightarrow> Inl Decode | Some j \<Rightarrow> Inr j)
          else Inr JNull)"

definition unreserved :: "char \<Rightarrow> bool" where
  "unreserved c = (let n = of_char c :: nat in
     48 \<le> n \<and> n \<le> 57 \<or> 65 \<le> n \<and> n \<le> 90 \<or> 97 \<le> n \<and> n \<le> 122 \<or> c \<in> set ''-_.~'')"

definition upper_hex :: "nat \<Rightarrow> char" where
  "upper_hex n = char_of (if n < 10 then n + 48 else n + 55)"

definition QueryEscape :: "string \<Rightarrow> string" where
  "QueryEscape s = concat (map (\<lambda>c. if unreserved c then [c] else if c = CHR '' '' then ''+''
     else [CHR ''%'', upper_hex (of_char c div 16), upper_hex (of_char c mod 16)]) s)"

definition withCursor :: "string \<Rightarrow> string \<Rightarrow> string" where
  "withCursor path cursor =
     path @ (if CHR ''?'' \<in> set path then ''&'' else ''?'') @ ''cursor='' @ QueryEscape cursor"

definition maxPages :: nat where
  "maxPages = 1000"

fun json_field :: "string \<Rightarrow> json \<Rightarrow> json option" where
  "json_field k (JObj fs) = map_of fs k"
| "json_field k j = None"

text \<open>Decoding into a string leaves it empty when the value is null or of another type.\<close>

fun json_string :: "json option \<Rightarrow> string" where
  "json_string (Some (JStr s)) = s"
| "json_string j = []"

text \<open>
  \<open>rows_of\<close> decodes the array of rows. The body must be an object (or null); the number of requests
  is bounded by \<open>maxPages\<close>, the first argument.
\<close>

fun fetch_loop ::
  "nat \<Rightarrow> site \<Rightarrow> string \<Rightarrow> string \<Rightarrow> (json \<Rightarrow> 'r list option) \<Rightarrow> string \<Rightarrow> 'r list \<Rightarrow> advisor_error + 'r list" where
  "fetch_loop 0 site path key rows_of cursor out = Inl NoTermination"
| "fetch_loop (Suc n) site path key rows_of cursor out =
     and_then (doJSON site ''GET'' (if cursor \<noteq> [] then withCursor path cursor else path) None True) (\<lambda>body.
     if \<not> (case body of JObj fs \<Rightarrow> True | JNull \<Rightarrow> True | _ \<Rightarrow> False) then Inl Decode
     else
       (case (case json_field key body of None \<Rightarrow> Some [] | Some raw \<Rightarrow> rows_of raw) of
          None \<Rightarrow> Inl Decode
        | Some rows \<Rightarrow>
            (let advance = json_string (json_field ''next_cursor'' body) in
             if advance = [] \<or> advance = cursor then Inr (out @ rows)
             else fetch_loop n site path key rows_of advance (out @ rows))))"

definition fetchPages :: "site \<Rightarrow> string \<Rightarrow> string \<Rightarrow> (json \<Rightarrow> 'r list option) \<Rightarrow> advisor_error + 'r list" where
  "fetchPages site path key rows_of = fetch_loop maxPages site path key rows_of [] []"

section \<open>Feeds and pushes\<close>

record Provider =
  pr_id :: string
  pr_name :: string
  pr_asns :: "int list"
  pr_enabled :: bool
  pr_priority :: int

record PendingEnrollment =
  en_id :: string
  en_worker :: string
  en_worker_name :: string
  en_operator :: string
  en_token_hash :: string
  en_expires :: time

record Decision =
  de_id :: string
  de_worker :: string
  de_state :: string
  de_reason :: string
  de_decided_at :: time

definition ListProviders :: "site \<Rightarrow> (json \<Rightarrow> Provider list option) \<Rightarrow> bool \<Rightarrow> advisor_error + Provider list" where
  "ListProviders site rows_of enabledOnly =
     fetchPages site (''/api/v1/monitoring/providers'' @ (if enabledOnly then ''?enabled=true'' else [])) ''providers'' rows_of"

definition ListPendingEnrollments ::
  "site \<Rightarrow> (json \<Rightarrow> PendingEnrollment list option) \<Rightarrow> advisor_error + PendingEnrollment list" where
  "ListPendingEnrollments site rows_of = fetchPages site ''/api/v1/monitoring/enrollments/pending'' ''enrollments'' rows_of"

definition MarkEnrollmentRegistered :: "site \<Rightarrow> string \<Rightarrow> advisor_error + json" where
  "MarkEnrollmentRegistered site eid =
     doJSON site ''POST'' (''/api/v1/monitoring/enrollments/'' @ eid @ ''/registered'') None False"

text \<open>The zero time asks for the whole feed; \<open>fmt\<close> renders a time as RFC 3339 with nanoseconds.\<close>

definition ListDecisions ::
  "site \<Rightarrow> (time \<Rightarrow> string) \<Rightarrow> (json \<Rightarrow> Decision list option) \<Rightarrow> time option \<Rightarrow> advisor_error + Decision list" where
  "ListDecisions site fmt rows_of since =
     fetchPages site (''/api/v1/monitoring/admin/decisions'' @
       (case since of None \<Rightarrow> [] | Some t \<Rightarrow> ''?since='' @ QueryEscape (fmt t))) ''decisions'' rows_of"

definition PutProviderStatus :: "site \<Rightarrow> string \<Rightarrow> json \<Rightarrow> advisor_error + json" where
  "PutProviderStatus site provider doc =
     doJSON site ''PUT'' (''/api/v1/monitoring/results/providers/'' @ provider) (Some doc) False"

definition PostAnomaly :: "site \<Rightarrow> json \<Rightarrow> advisor_error + json" where
  "PostAnomaly site doc = doJSON site ''POST'' ''/api/v1/monitoring/results/anomalies'' (Some doc) False"

definition PostFleetTelemetry :: "site \<Rightarrow> json \<Rightarrow> advisor_error + json" where
  "PostFleetTelemetry site doc = doJSON site ''POST'' ''/api/v1/monitoring/telemetry/fleet'' (Some doc) False"

section \<open>Provider sync\<close>

definition upsert_provider :: "time \<Rightarrow> Provider \<Rightarrow> routing_schema \<Rightarrow> routing_schema" where
  "upsert_provider now p R =
     (let row = \<lparr>p_provider_id = pr_id p, p_name = pr_name p, p_monitoring_enabled = pr_enabled p,
                 p_priority = pr_priority p, p_synced_at = now, p_delisted_at = None\<rparr> in
      R\<lparr>providers :=
         (if pr_id p \<in> p_provider_id ` set (providers R)
          then update_where (\<lambda>r. p_provider_id r = pr_id p) (\<lambda>_. row) (providers R)
          else providers R @ [row])\<rparr>)"

definition upsert_asn :: "time \<Rightarrow> int \<Rightarrow> string \<Rightarrow> routing_schema \<Rightarrow> routing_schema" where
  "upsert_asn now asn pid R =
     R\<lparr>asns :=
        (if asn \<in> as_asn ` set (asns R)
         then update_where (\<lambda>r. as_asn r = asn) (\<lambda>r. r\<lparr>as_provider_id := pid, as_synced_at := now\<rparr>) (asns R)
         else asns R @ [\<lparr>as_asn = asn, as_provider_id = pid, as_registry_name = None, as_registry_country = None,
                          as_synced_at = now\<rparr>])\<rparr>"

text \<open>The Go map from the 32-bit AS number to the provider, as a function.\<close>

fun sync_asns ::
  "faults \<Rightarrow> time \<Rightarrow> string \<Rightarrow> int list \<Rightarrow> (int \<rightharpoonup> string) \<times> routing_schema \<Rightarrow> advisor_error + (int \<rightharpoonup> string) \<times> routing_schema" where
  "sync_asns F now pid [] (m, R) = Inr (m, R)"
| "sync_asns F now pid (asn # rest) (m, R) =
     (let k = asn mod 2 ^ 32 in
      case m k of
        Some existing \<Rightarrow>
          if existing \<noteq> pid then Inl (ClaimedTwice asn existing pid)
          else if F ''sync.asn'' then Inl DBError
          else sync_asns F now pid rest (m(k \<mapsto> pid), upsert_asn now asn pid R)
      | None \<Rightarrow>
          if F ''sync.asn'' then Inl DBError
          else sync_asns F now pid rest (m(k \<mapsto> pid), upsert_asn now asn pid R))"

fun sync_each ::
  "faults \<Rightarrow> time \<Rightarrow> Provider list \<Rightarrow> (int \<rightharpoonup> string) \<times> routing_schema \<Rightarrow> advisor_error + (int \<rightharpoonup> string) \<times> routing_schema" where
  "sync_each F now [] mR = Inr mR"
| "sync_each F now (p # ps) (m, R) =
     (if F ''sync.provider'' then Inl DBError
      else and_then (sync_asns F now (pr_id p) (pr_asns p) (m, upsert_provider now p R)) (sync_each F now ps))"

definition delist_missing :: "time \<Rightarrow> string list \<Rightarrow> routing_schema \<Rightarrow> routing_schema" where
  "delist_missing now ids R = R\<lparr>providers :=
     update_where (\<lambda>r. p_delisted_at r = None \<and> p_provider_id r \<notin> set ids)
       (\<lambda>r. r\<lparr>p_delisted_at := Some now\<rparr>) (providers R)\<rparr>"

definition SyncProviders ::
  "faults \<Rightarrow> site \<Rightarrow> (json \<Rightarrow> Provider list option) \<Rightarrow> time \<Rightarrow> routing_schema \<Rightarrow>
     advisor_error + (int \<rightharpoonup> string) \<times> routing_schema" where
  "SyncProviders F site rows_of now R =
     and_then (ListProviders site rows_of True) (\<lambda>ps.
     if F ''sync.begin'' then Inl DBError
     else and_then (sync_each F now ps (\<lambda>_. None, R)) (\<lambda>(m, R').
     if F ''sync.delist'' \<or> F ''sync.commit'' then Inl DBError
     else Inr (m, delist_missing now (map pr_id ps) R')))"

section \<open>The cursor walk\<close>

text \<open>
  A feed as the contract describes it: page \<open>i\<close> is served under the cursor that page \<open>i - 1\<close>
  announced (the first under the bare path), announces the next cursor, and the last announces
  none.
\<close>

fun serves :: "site \<Rightarrow> string \<Rightarrow> string \<Rightarrow> (json \<Rightarrow> 'r list option) \<Rightarrow> string \<Rightarrow> ('r list \<times> string) list \<Rightarrow> bool" where
  "serves site path key rows_of cursor [] = False"
| "serves site path key rows_of cursor ((rows, next) # pages) =
     (\<exists>st fs raw. site ''GET'' (if cursor \<noteq> [] then withCursor path cursor else path) None = Some (st, Some (JObj fs)) \<and>
        st < 300 \<and> map_of fs key = Some raw \<and> rows_of raw = Some rows \<and>
        json_string (map_of fs ''next_cursor'') = next \<and>
        (if pages = [] then next = [] else next \<noteq> [] \<and> next \<noteq> cursor \<and> serves site path key rows_of next pages))"

lemma fetch_loop_serves:
  "serves site path key rows_of cursor pages \<Longrightarrow> length pages \<le> n \<Longrightarrow>
     fetch_loop n site path key rows_of cursor out = Inr (out @ concat (map fst pages))"
proof (induction pages arbitrary: cursor n out)
  case (Cons pg pages)
  obtain rows nxt where pg: "pg = (rows, nxt)" by (cases pg)
  obtain n' where n: "n = Suc n'" using Cons.prems(2) by (cases n) auto
  obtain st fs raw where s: "site ''GET'' (if cursor \<noteq> [] then withCursor path cursor else path) None = Some (st, Some (JObj fs))"
    "st < 300" "map_of fs key = Some raw" "rows_of raw = Some rows" "json_string (map_of fs ''next_cursor'') = nxt"
    "if pages = [] then nxt = [] else nxt \<noteq> [] \<and> nxt \<noteq> cursor \<and> serves site path key rows_of nxt pages"
    using Cons.prems(1) unfolding pg serves.simps by blast
  have "doJSON site ''GET'' (if cursor \<noteq> [] then withCursor path cursor else path) None True = Inr (JObj fs)"
    using s(1,2) by (simp add: doJSON_def)
  then show ?case
    using s(3-6) Cons.IH [of nxt n' "out @ rows"] Cons.prems(2) by (simp add: n pg Let_def split: if_split_asm)
qed simp

text \<open>
  The cursor walk reads the whole feed: if the site serves up to \<open>maxPages\<close> pages, each under
  the cursor the previous one announced, the client returns the rows of all of them in order.
\<close>

theorem fetch_pages_complete:
  assumes "serves site path key rows_of [] pages" and "length pages \<le> maxPages"
  shows "fetchPages site path key rows_of = Inr (concat (map fst pages))"
  using fetch_loop_serves [OF assms, of "[]"] by (simp add: fetchPages_def)

definition demo_site :: site where
  "demo_site method path body =
     (if path = ''/f'' then Some (200, Some (JObj [(''rows'', JArr [JNull]), (''next_cursor'', JStr ''c 1'')]))
      else if path = ''/f?cursor=c+1'' then Some (200, Some (JObj [(''rows'', JArr [JNull, JNull]), (''next_cursor'', JNull)]))
      else None)"

definition demo_rows :: "json \<Rightarrow> json list option" where
  "demo_rows j = (case j of JArr xs \<Rightarrow> Some xs | _ \<Rightarrow> None)"

theorem fetch_pages_complete_witness:
  "fetchPages demo_site ''/f'' ''rows'' demo_rows = Inr [JNull, JNull, JNull]"
proof -
  have c: "withCursor ''/f'' ''c 1'' = ''/f?cursor=c+1''" by code_simp
  have "serves demo_site ''/f'' ''rows'' demo_rows [] [([JNull], ''c 1''), ([JNull, JNull], [])]"
    by (simp add: c) (simp add: demo_site_def demo_rows_def)
  from fetch_pages_complete [OF this] show ?thesis by (simp add: maxPages_def)
qed

section \<open>What a provider sync establishes\<close>

lemma sync_asns_ok:
  assumes "sync_asns F now pid as (m, R) = Inr (m', R')"
  shows "providers R' = providers R \<and> m \<subseteq>\<^sub>m m' \<and> (\<forall>asn \<in> set as. m' (asn mod 2 ^ 32) = Some pid)"
  using assms
proof (induction as arbitrary: m R)
  case (Cons asn as)
  let ?k = "asn mod 2 ^ 32"
  have r: "m ?k = None \<or> m ?k = Some pid"
    "sync_asns F now pid as (m(?k \<mapsto> pid), upsert_asn now asn pid R) = Inr (m', R')"
    using Cons.prems by (auto simp: Let_def split: option.split_asm if_split_asm)
  have "m \<subseteq>\<^sub>m m(?k \<mapsto> pid)" using r(1) by (auto simp: map_le_def)
  moreover note ih = Cons.IH [OF r(2)]
  ultimately have "m \<subseteq>\<^sub>m m'" by (blast intro: map_le_trans)
  moreover have "m' ?k = Some pid"
    using ih unfolding map_le_def by (metis domI fun_upd_same)
  ultimately show ?case using ih by (auto simp: upsert_asn_def)
qed (simp add: map_le_refl)

lemma upsert_provider_ids:
  "distinct (map p_provider_id (providers R)) \<Longrightarrow> distinct (map p_provider_id (providers (upsert_provider now p R)))"
  "p_provider_id ` set (providers (upsert_provider now p R)) = insert (pr_id p) (p_provider_id ` set (providers R))"
proof -
  let ?row = "\<lparr>p_provider_id = pr_id p, p_name = pr_name p, p_monitoring_enabled = pr_enabled p,
                 p_priority = pr_priority p, p_synced_at = now, p_delisted_at = None\<rparr>"
  have ids: "map p_provider_id (update_where (\<lambda>r. p_provider_id r = pr_id p) (\<lambda>_. ?row) rs) = map p_provider_id rs" for rs
    by (induction rs) auto
  then have set_ids: "p_provider_id ` set (update_where (\<lambda>r. p_provider_id r = pr_id p) (\<lambda>_. ?row) rs) = p_provider_id ` set rs" for rs
    by (metis set_map)
  show "distinct (map p_provider_id (providers (upsert_provider now p R)))" if "distinct (map p_provider_id (providers R))"
    using that ids by (simp add: upsert_provider_def Let_def)
  show "p_provider_id ` set (providers (upsert_provider now p R)) = insert (pr_id p) (p_provider_id ` set (providers R))"
    using set_ids by (auto simp: upsert_provider_def Let_def)
qed

lemma upsert_provider_listed:
  assumes "\<And>r. r \<in> set (providers R) \<Longrightarrow> p_provider_id r \<in> I \<Longrightarrow> p_delisted_at r = None"
    and "r \<in> set (providers (upsert_provider now p R))" "p_provider_id r \<in> insert (pr_id p) I"
  shows "p_delisted_at r = None"
  using assms by (auto simp: upsert_provider_def Let_def in_update_where image_iff split: if_split_asm)

lemma sync_each_ok:
  assumes "sync_each F now ps (m, R) = Inr (m', R')"
    and "\<And>r. r \<in> set (providers R) \<Longrightarrow> p_provider_id r \<in> I \<Longrightarrow> p_delisted_at r = None"
    and "distinct (map p_provider_id (providers R))"
  shows "distinct (map p_provider_id (providers R')) \<and> m \<subseteq>\<^sub>m m' \<and>
    p_provider_id ` set (providers R') = pr_id ` set ps \<union> p_provider_id ` set (providers R) \<and>
    (\<forall>r \<in> set (providers R'). p_provider_id r \<in> I \<union> pr_id ` set ps \<longrightarrow> p_delisted_at r = None) \<and>
    (\<forall>p \<in> set ps. \<forall>asn \<in> set (pr_asns p). m' (asn mod 2 ^ 32) = Some (pr_id p))"
  using assms
proof (induction ps arbitrary: m R I)
  case (Cons p ps)
  obtain m1 R1 where 1: "sync_asns F now (pr_id p) (pr_asns p) (m, upsert_provider now p R) = Inr (m1, R1)"
    "sync_each F now ps (m1, R1) = Inr (m', R')"
    using Cons.prems(1) by (auto simp: and_then_Inr_iff split: if_split_asm)
  note a = sync_asns_ok [OF 1(1)]
  have l: "p_delisted_at r = None" if "r \<in> set (providers R1)" "p_provider_id r \<in> insert (pr_id p) I" for r
  proof (rule upsert_provider_listed [where R = R and I = I and p = p and now = now])
    show "p_delisted_at s = None" if "s \<in> set (providers R)" "p_provider_id s \<in> I" for s
      using Cons.prems(2) that .
  qed (use that a in simp_all)
  have "distinct (map p_provider_id (providers R1))"
    using a upsert_provider_ids(1) [OF Cons.prems(3)] by simp
  from Cons.IH [OF 1(2) _ this, of "insert (pr_id p) I"] l have ih: "distinct (map p_provider_id (providers R')) \<and> m1 \<subseteq>\<^sub>m m' \<and>
    p_provider_id ` set (providers R') = pr_id ` set ps \<union> p_provider_id ` set (providers R1) \<and>
    (\<forall>r \<in> set (providers R'). p_provider_id r \<in> insert (pr_id p) I \<union> pr_id ` set ps \<longrightarrow> p_delisted_at r = None) \<and>
    (\<forall>q \<in> set ps. \<forall>asn \<in> set (pr_asns q). m' (asn mod 2 ^ 32) = Some (pr_id q))"
    by simp
  have "m' (asn mod 2 ^ 32) = Some (pr_id p)" if "asn \<in> set (pr_asns p)" for asn
    using a ih that unfolding map_le_def by (metis domI)
  moreover have "m \<subseteq>\<^sub>m m'" using a ih by (blast intro: map_le_trans)
  ultimately show ?case using a ih by (auto simp: upsert_provider_ids(2))
qed (simp add: map_le_refl)


definition demo_catalog :: site where
  "demo_catalog method path body = Some (200, Some (JObj [(''providers'', JArr [])]))"

definition demo_provider :: Provider where
  "demo_provider = \<lparr>pr_id = ''p1'', pr_name = ''P'', pr_asns = [64500], pr_enabled = True, pr_priority = 5\<rparr>"


end
