(* ===== verification/Coordinator.thy ===== *)
theory Coordinator
  imports Upload Artifact Advisor
begin

text \<open>
  The coordinator (\<^verbatim>\<open>internal/coordinator/server.go\<close>, \<^verbatim>\<open>rotation.go\<close>, \<^verbatim>\<open>admin.go\<close>): the state of a
  server, the authentication middleware, every handler, the route table and the maintenance pass.
  Request bodies are decoded by \<^verbatim>\<open>encoding/json\<close>; the decoder of each request struct is a parameter.
  A request runs atomically at one instant, which both the process and the database read.
\<close>

section \<open>Configuration, parameters and state\<close>

record coord_config =
  cf_admin_token :: string
  cf_audit :: bool
  cf_dev_token :: string
  cf_poll_ttl :: int
  cf_lease_ttl :: int
  cf_resolve_asn :: "(addr \<Rightarrow> int option) option"
  cf_max_assignments :: int

record registerRequest =
  rr_token :: string
  rr_public_key :: string
  rr_name :: string
  rr_version :: string

record decoders =
  dec_register :: "bytes \<Rightarrow> registerRequest option"
  dec_heartbeat :: "bytes \<Rightarrow> string option"
  dec_lease :: "bytes \<Rightarrow> int option"
  dec_release :: "bytes \<Rightarrow> int list option"
  dec_upload :: "bytes \<Rightarrow> (string \<times> Observation list) option"
  dec_rotate :: "bytes \<Rightarrow> string option"
  dec_create :: "bytes \<Rightarrow> (string \<times> string) option"
  dec_state :: "bytes \<Rightarrow> (string \<times> string) option"

text \<open>What a deployment fixes: the primitives, the codecs, the object store and the configuration.\<close>

record 's deployment =
  dp_env :: wire_env
  dp_marshal :: marshal
  dp_codec :: artifact_codec
  dp_store :: "'s store_ops"
  dp_dec :: decoders
  dp_cfg :: coord_config
  dp_time_json :: "time \<Rightarrow> json"
  dp_error_text :: "reg_error \<Rightarrow> string"

text \<open>What one request meets: the failing statements, the instant, the random bytes and the uuid the database draws.\<close>

record tick =
  tk_faults :: faults
  tk_now :: time
  tk_rand :: "bytes option"
  tk_uuid :: string
  tk_locked :: "nat \<Rightarrow> bool"

record feedHealth =
  fh_last_attempt :: time
  fh_last_success :: "time option"
  fh_last_error :: "advisor_error option"
  fh_failures :: nat

record 's server =
  sv_db :: db
  sv_store :: 's
  sv_paused :: bool
  sv_advisor :: "(string \<times> feedHealth) list"
  sv_cached :: "Manifest option"
  sv_fetched :: time

type_synonym 's handler = "'s server \<Rightarrow> response \<times> 's server"

definition upd_registry :: "registry_schema \<Rightarrow> 's server \<Rightarrow> 's server" where
  "upd_registry r sv = sv\<lparr>sv_db := (sv_db sv)\<lparr>registry_of := r\<rparr>\<rparr>"

definition upd_db :: "db \<Rightarrow> 's server \<Rightarrow> 's server" where
  "upd_db D sv = sv\<lparr>sv_db := D\<rparr>"

abbreviation reg :: "'s server \<Rightarrow> registry_schema" where
  "reg sv \<equiv> registry_of (sv_db sv)"

definition server_audit ::
  "'s deployment \<Rightarrow> tick \<Rightarrow> string \<Rightarrow> string \<Rightarrow> string \<Rightarrow> string \<Rightarrow> (string \<times> json) list \<Rightarrow> 's server \<Rightarrow> 's server" where
  "server_audit dp tk category actor action subject detail sv =
     upd_db (audit_Event (cf_audit (dp_cfg dp)) (tk_faults tk) (tk_now tk) category actor action subject detail (sv_db sv)) sv"

definition limited :: "nat \<Rightarrow> request \<Rightarrow> bytes option" where
  "limited n req = map_option (take n) (req_body req)"

abbreviation max_body :: nat where "max_body \<equiv> 8 * 1024 * 1024"
abbreviation max_small :: nat where "max_small \<equiv> 1024 * 1024"

section \<open>Authentication\<close>

fun verify_any ::
  "('a) wire_env_scheme \<Rightarrow> string \<Rightarrow> string \<Rightarrow> (string \<times> string) list \<Rightarrow> bytes \<Rightarrow> time \<Rightarrow> bytes list \<Rightarrow> string option" where
  "verify_any E method path header body now [] = None"
| "verify_any E method path header body now (pub # keys) =
     (case Verify E method path header body pub now of
        Inr nonce \<Rightarrow> Some nonce
      | Inl _ \<Rightarrow> verify_any E method path header body now keys)"

text \<open>The checks of \<open>signed\<close>: a refusal, or the identity, state and body the handler gets.\<close>

definition authenticate ::
  "'s deployment \<Rightarrow> tick \<Rightarrow> request \<Rightarrow> 's server \<Rightarrow> (response + string \<times> string \<times> bytes) \<times> 's server" where
  "authenticate dp tk req sv =
     (let F = tk_faults tk; now = tk_now tk; wid = header_get (req_header req) HeaderWorkerID in
      if wid = [] then (Inl (problem 401 ''missing worker identity''), sv)
      else case limited max_body req of
        None \<Rightarrow> (Inl (problem 400 ''unreadable body''), sv)
      | Some body \<Rightarrow>
      (case ActiveKeys F now wid (reg sv) of
        Inl _ \<Rightarrow> (Inl (problem 401 ''unknown worker or no active key''), sv)
      | Inr (keys, st) \<Rightarrow>
      (case verify_any (dp_env dp) (req_method req) (req_path req) (req_header req) body now keys of
        None \<Rightarrow> (Inl (problem 401 ''signature verification failed''),
                 upd_registry (RecordTrustEvent F now wid ''bad_signature'' ''system'' (reg sv)) sv)
      | Some nonce \<Rightarrow>
      (case SeenNonce F now wid nonce (reg sv) of
        Inl _ \<Rightarrow> (Inl (problem 500 ''auth check failed''), sv)
      | Inr (True, R) \<Rightarrow> (Inl (problem 409 ''nonce replay detected''),
                 upd_registry (RecordTrustEvent F now wid ''replay'' ''system'' R) sv)
      | Inr (False, R) \<Rightarrow>
          if st = ''suspended'' \<or> st = ''retired'' then (Inl (problem 403 (''worker is '' @ st)), upd_registry R sv)
          else (Inr (wid, st, body), upd_registry R sv)))))"

definition signed ::
  "'s deployment \<Rightarrow> (tick \<Rightarrow> string \<Rightarrow> string \<Rightarrow> bytes \<Rightarrow> 's handler) \<Rightarrow> tick \<Rightarrow> request \<Rightarrow> 's handler" where
  "signed dp next tk req sv =
     (case authenticate dp tk req sv of
        (Inl resp, sv') \<Rightarrow> (resp, sv')
      | (Inr (wid, st, body), sv') \<Rightarrow> next tk wid st body sv')"

definition admin :: "'s deployment \<Rightarrow> (tick \<Rightarrow> request \<Rightarrow> 's handler) \<Rightarrow> tick \<Rightarrow> request \<Rightarrow> 's handler" where
  "admin dp next tk req sv =
     (if cf_admin_token (dp_cfg dp) = [] \<or>
         header_get (req_header req) ''Authorization'' \<noteq> ''Bearer '' @ cf_admin_token (dp_cfg dp)
      then (problem 401 ''invalid admin credential'', sv)
      else next tk req sv)"

section \<open>The manifest cache\<close>

definition invalidateManifestCache :: "'s server \<Rightarrow> 's server" where
  "invalidateManifestCache sv = sv\<lparr>sv_cached := None\<rparr>"

definition poll_ttl :: "coord_config \<Rightarrow> int" where
  "poll_ttl c = (if cf_poll_ttl c = 0 then 30 * second else cf_poll_ttl c)"

definition fetch_manifest :: "artifact_codec \<Rightarrow> 's store_ops \<Rightarrow> 's \<Rightarrow> Manifest option" where
  "fetch_manifest J ops st =
     Option.bind (st_get ops PointerKey st) (\<lambda>raw.
     Option.bind (ptr_unmarshal J raw) (\<lambda>ptr.
     Option.bind (st_get ops (ptr_manifest_key ptr) st) (man_unmarshal J)))"

definition currentManifestCached :: "'s deployment \<Rightarrow> time \<Rightarrow> 's server \<Rightarrow> Manifest option \<times> 's server" where
  "currentManifestCached dp now sv =
     (if sv_cached sv \<noteq> None \<and> now - sv_fetched sv < poll_ttl (dp_cfg dp) then (sv_cached sv, sv)
      else case fetch_manifest (dp_codec dp) (dp_store dp) (sv_store sv) of
        None \<Rightarrow> (sv_cached sv, sv)
      | Some m \<Rightarrow> (Some m, sv\<lparr>sv_cached := Some m, sv_fetched := now\<rparr>))"

definition manifest_json :: "(time \<Rightarrow> json) \<Rightarrow> Manifest \<Rightarrow> json" where
  "manifest_json tj m = JObj
     ([(''version'', JStr (m_version m)), (''created_at'', tj (m_created_at m)), (''object_key'', JStr (m_object_key m)),
      (''sha256'', JStr (m_sha256 m)), (''size_bytes'', JNum (of_int (m_size_bytes m))),
      (''prefix_count_v4'', JNum (of_nat (m_prefix_count_v4 m))), (''prefix_count_v6'', JNum (of_nat (m_prefix_count_v6 m))),
      (''target_count'', JNum (of_nat (m_target_count m))), (''min_worker_version'', JStr (m_min_worker_version m))] @
      (if m_signature m = [] then [] else [(''signature'', JStr (m_signature m))]))"

section \<open>Worker endpoints\<close>

text \<open>\<^verbatim>\<open>net.SplitHostPort\<close>: the host before the last colon; brackets enclose an IPv6 host.\<close>

definition split_last_colon :: "string \<Rightarrow> (string \<times> string) option" where
  "split_last_colon s =
     (if CHR '':'' \<notin> set s then None
      else let rport = takeWhile (\<lambda>c. c \<noteq> CHR '':'') (rev s) in
           Some (take (length s - length rport - 1) s, rev rport))"

definition SplitHost :: "string \<Rightarrow> string option" where
  "SplitHost s =
     (case split_last_colon s of
        None \<Rightarrow> None
      | Some (host, port) \<Rightarrow>
          (if s \<noteq> [] \<and> hd s = CHR ''['' then
             (let inner = takeWhile (\<lambda>c. c \<noteq> CHR '']'') (tl s) in
              if host = ''['' @ inner @ '']'' \<and> CHR ''['' \<notin> set (tl s) \<and> CHR '']'' \<notin> set port then Some inner else None)
           else if CHR '':'' \<in> set host \<or> CHR ''['' \<in> set s \<or> CHR '']'' \<in> set s then None
           else Some host))"

definition recordSourceASN :: "'s deployment \<Rightarrow> tick \<Rightarrow> request \<Rightarrow> string \<Rightarrow> 's server \<Rightarrow> 's server" where
  "recordSourceASN dp tk req wid sv =
     (case cf_resolve_asn (dp_cfg dp) of
        None \<Rightarrow> sv
      | Some resolve \<Rightarrow>
          (case ParseAddr (case SplitHost (req_remote req) of None \<Rightarrow> req_remote req | Some host \<Rightarrow> host) of
             None \<Rightarrow> sv
           | Some addr \<Rightarrow>
               (case resolve addr of
                  None \<Rightarrow> sv
                | Some asn \<Rightarrow> upd_registry (SetSourceASN (tk_faults tk) wid asn (reg sv)) sv)))"

definition registered_json :: "string \<Rightarrow> string \<Rightarrow> json" where
  "registered_json wid st = JObj [(''worker_id'', JStr wid), (''state'', JStr st)]"

definition devRegister :: "'s deployment \<Rightarrow> tick \<Rightarrow> request \<Rightarrow> registerRequest \<Rightarrow> bytes \<Rightarrow> 's handler" where
  "devRegister dp tk req rr pub sv =
     (let F = tk_faults tk; now = tk_now tk; fail = problem 500 ''registration failed'';
          name = (if rr_name rr = [] then ''dev-worker'' else rr_name rr) in
      case CreateWorker F (dp_env dp) now (tk_rand tk) (tk_uuid tk) DevOperatorID name minute (reg sv) of
        Inl _ \<Rightarrow> (fail, sv)
      | Inr (wid, token, R1) \<Rightarrow>
      (case Register F (dp_env dp) now token pub (rr_version rr) R1 of
        Inl _ \<Rightarrow> (fail, upd_registry R1 sv)
      | Inr (_, _, R2) \<Rightarrow>
      (case SetState F now wid ''active'' ''dev auto-enrollment'' ''system:dev'' R2 of
        Inl _ \<Rightarrow> (fail, upd_registry R2 sv)
      | Inr R3 \<Rightarrow> (writeJSON 201 (registered_json wid ''active''), recordSourceASN dp tk req wid (upd_registry R3 sv)))))"

definition register :: "'s deployment \<Rightarrow> tick \<Rightarrow> request \<Rightarrow> 's handler" where
  "register dp tk req sv =
     (case Option.bind (limited max_small req) (dec_register (dp_dec dp)) of
        None \<Rightarrow> (problem 400 ''invalid JSON body'', sv)
      | Some rr \<Rightarrow>
      (case b64_decode (rr_public_key rr) of
        None \<Rightarrow> (problem 422 ''public_key must be base64 of 32 bytes'', sv)
      | Some pub \<Rightarrow>
          if length pub \<noteq> public_key_size then (problem 422 ''public_key must be base64 of 32 bytes'', sv)
          else if cf_dev_token (dp_cfg dp) \<noteq> [] \<and> rr_token rr = cf_dev_token (dp_cfg dp)
            then devRegister dp tk req rr pub sv
          else
            (case Register (tk_faults tk) (dp_env dp) (tk_now tk) (rr_token rr) pub (rr_version rr) (reg sv) of
               Inl ErrBadToken \<Rightarrow> (problem 401 ''enrollment token invalid, used, or expired'', sv)
             | Inl _ \<Rightarrow> (problem 500 ''registration failed'', sv)
             | Inr (wid, st, R) \<Rightarrow>
                 (writeJSON 201 (registered_json wid st),
                  server_audit dp tk ''auth'' (''worker:'' @ wid) ''registered'' wid []
                    (recordSourceASN dp tk req wid (upd_registry R sv))))))"

definition heartbeat :: "'s deployment \<Rightarrow> tick \<Rightarrow> string \<Rightarrow> string \<Rightarrow> bytes \<Rightarrow> 's handler" where
  "heartbeat dp tk wid st body sv =
     (case dec_heartbeat (dp_dec dp) body of
        None \<Rightarrow> (problem 400 ''invalid JSON body'', sv)
      | Some ver \<Rightarrow>
      (case Heartbeat (tk_faults tk) (tk_now tk) wid ver (reg sv) of
        Inl _ \<Rightarrow> (problem 500 ''heartbeat failed'', sv)
      | Inr (w, R) \<Rightarrow>
          (let actions = (if map_of (w_config w) ''rotate_requested'' = Some (JBool True) then [JStr ''rotate_key''] else []);
               (m, sv') = currentManifestCached dp (tk_now tk) (upd_registry R sv) in
           (writeJSON 200 (JObj ([(''state'', JStr (w_state w)), (''config'', JObj (w_config w)), (''actions'', JArr actions)] @
              (case m of
                 Some m' \<Rightarrow> if w_state w = ''active'' then [(''snapshot'', JObj [(''version'', JStr (m_version m'))])] else []
               | None \<Rightarrow> []))), sv'))))"

definition me :: "'s deployment \<Rightarrow> tick \<Rightarrow> string \<Rightarrow> string \<Rightarrow> bytes \<Rightarrow> 's handler" where
  "me dp tk wid st body sv = (writeJSON 200 (registered_json wid st), sv)"

definition selfRetire :: "'s deployment \<Rightarrow> tick \<Rightarrow> string \<Rightarrow> string \<Rightarrow> bytes \<Rightarrow> 's handler" where
  "selfRetire dp tk wid st body sv =
     (case SetState (tk_faults tk) (tk_now tk) wid ''retired'' ''operator requested'' ''worker'' (reg sv) of
        Inl e \<Rightarrow> (problem 409 (dp_error_text dp e), sv)
      | Inr R \<Rightarrow> (writeJSON 200 (JObj [(''state'', JStr ''retired'')]),
                  server_audit dp tk ''lifecycle'' (''worker:'' @ wid) ''self_retire'' wid [] (upd_registry R sv)))"

definition currentManifest :: "'s deployment \<Rightarrow> tick \<Rightarrow> string \<Rightarrow> string \<Rightarrow> bytes \<Rightarrow> 's handler" where
  "currentManifest dp tk wid st body sv =
     (case currentManifestCached dp (tk_now tk) sv of
        (None, sv') \<Rightarrow> (problem 404 ''no snapshot published yet'', sv')
      | (Some m, sv') \<Rightarrow> (writeJSON 200 (JObj [(''manifest'', manifest_json (dp_time_json dp) m),
           (''download_path'', JStr ''/api/v1/artifacts/routing/current/download'')]), sv'))"

definition downloadArtifact :: "'s deployment \<Rightarrow> tick \<Rightarrow> string \<Rightarrow> string \<Rightarrow> bytes \<Rightarrow> 's handler" where
  "downloadArtifact dp tk wid st body sv =
     (case currentManifestCached dp (tk_now tk) sv of
        (None, sv') \<Rightarrow> (problem 404 ''no snapshot published yet'', sv')
      | (Some m, sv') \<Rightarrow>
          (case st_get (dp_store dp) (m_object_key m) (sv_store sv') of
             None \<Rightarrow> (problem 502 ''artifact store unavailable'', sv')
           | Some b \<Rightarrow> (Stream ''application/vnd.sqlite3'' (m_size_bytes m) b, sv')))"

definition lease_handler :: "'s deployment \<Rightarrow> tick \<Rightarrow> string \<Rightarrow> string \<Rightarrow> bytes \<Rightarrow> 's handler" where
  "lease_handler dp tk wid st body sv =
     (case leaseAssignments (tk_faults tk) (tk_locked tk) (tk_now tk) (cf_lease_ttl (dp_cfg dp)) (cf_max_assignments (dp_cfg dp))
             (sv_paused sv) wid (dec_lease (dp_dec dp) body) (sv_db sv) of
        (resp, D) \<Rightarrow> (resp, upd_db D sv))"

definition release_handler :: "'s deployment \<Rightarrow> tick \<Rightarrow> string \<Rightarrow> string \<Rightarrow> bytes \<Rightarrow> 's handler" where
  "release_handler dp tk wid st body sv =
     (case releaseAssignments (tk_faults tk) (tk_now tk) wid (dec_release (dp_dec dp) body) (sv_db sv) of
        (resp, D) \<Rightarrow> (resp, upd_db D sv))"

definition upload_handler :: "'s deployment \<Rightarrow> tick \<Rightarrow> string \<Rightarrow> string \<Rightarrow> bytes \<Rightarrow> 's handler" where
  "upload_handler dp tk wid st body sv =
     (case uploadObservations (tk_faults tk) (dp_env dp) (dp_marshal dp) (tk_now tk) wid (dec_upload (dp_dec dp) body) (sv_db sv) of
        (resp, D) \<Rightarrow> (resp, upd_db D sv))"

definition KeyOverlap :: int where
  "KeyOverlap = 10 * minute"

definition rotateKey :: "'s deployment \<Rightarrow> tick \<Rightarrow> string \<Rightarrow> string \<Rightarrow> bytes \<Rightarrow> 's handler" where
  "rotateKey dp tk wid st body sv =
     (case dec_rotate (dp_dec dp) (take max_small body) of
        None \<Rightarrow> (problem 400 ''invalid JSON body'', sv)
      | Some next \<Rightarrow>
      (case b64_decode next of
        None \<Rightarrow> (problem 422 ''next_public_key must be base64 of 32 bytes'', sv)
      | Some raw \<Rightarrow>
          if length raw \<noteq> public_key_size then (problem 422 ''next_public_key must be base64 of 32 bytes'', sv)
          else
            (case RotateKey (tk_faults tk) (tk_now tk) wid raw KeyOverlap (reg sv) of
               Inl _ \<Rightarrow> (problem 500 ''rotation failed'', sv)
             | Inr R \<Rightarrow>
                 (let seconds = JObj [(''overlap_seconds'', JNum (of_int (KeyOverlap div second)))] in
                  (writeJSON 200 seconds,
                   server_audit dp tk ''auth'' (''worker:'' @ wid) ''key_rotated'' wid
                     [(''overlap_seconds'', JNum (of_int (KeyOverlap div second)))] (upd_registry R sv))))))"

section \<open>Admin endpoints\<close>

definition adminPause :: "bool \<Rightarrow> 's deployment \<Rightarrow> tick \<Rightarrow> request \<Rightarrow> 's handler" where
  "adminPause pause dp tk req sv =
     (Empty 204, server_audit dp tk ''admin'' ''admin'' (if pause then ''scheduler_paused'' else ''scheduler_resumed'') [] []
        (sv\<lparr>sv_paused := pause\<rparr>))"

definition adminCreateWorker :: "'s deployment \<Rightarrow> tick \<Rightarrow> request \<Rightarrow> 's handler" where
  "adminCreateWorker dp tk req sv =
     (case Option.bind (limited max_small req) (dec_create (dp_dec dp)) of
        None \<Rightarrow> (problem 400 ''name is required'', sv)
      | Some (name, operator) \<Rightarrow>
          if name = [] then (problem 400 ''name is required'', sv)
          else
            (case CreateWorker (tk_faults tk) (dp_env dp) (tk_now tk) (tk_rand tk) (tk_uuid tk)
                    (if operator = [] then DevOperatorID else operator) name (24 * hour) (reg sv) of
               Inl _ \<Rightarrow> (problem 500 ''create failed'', sv)
             | Inr (wid, token, R) \<Rightarrow>
                 (writeJSON 201 (JObj [(''worker_id'', JStr wid), (''enrollment_token'', JStr token)]), upd_registry R sv)))"

definition adminSetState :: "'s deployment \<Rightarrow> string \<Rightarrow> tick \<Rightarrow> request \<Rightarrow> 's handler" where
  "adminSetState dp wid tk req sv =
     (case Option.bind (limited max_small req) (dec_state (dp_dec dp)) of
        None \<Rightarrow> (problem 400 ''invalid JSON body'', sv)
      | Some (st, reason) \<Rightarrow>
          (case SetState (tk_faults tk) (tk_now tk) wid st reason ''admin'' (reg sv) of
             Inl ErrUnknownWorker \<Rightarrow> (problem 404 ''unknown worker'', sv)
           | Inl (ErrBadTransition a b) \<Rightarrow> (problem 409 (dp_error_text dp (ErrBadTransition a b)), sv)
           | Inl _ \<Rightarrow> (problem 500 ''transition failed'', sv)
           | Inr R \<Rightarrow> (Empty 204, server_audit dp tk ''admin'' ''admin'' (''worker_state:'' @ st) wid
                          [(''reason'', JStr reason)] (upd_registry R sv))))"

definition adminRequestRotation :: "'s deployment \<Rightarrow> string \<Rightarrow> tick \<Rightarrow> request \<Rightarrow> 's handler" where
  "adminRequestRotation dp wid tk req sv =
     (case RequestRotation (tk_faults tk) wid (reg sv) of
        Inl _ \<Rightarrow> (problem 404 ''unknown worker'', sv)
      | Inr R \<Rightarrow> (Empty 202, server_audit dp tk ''admin'' ''admin'' ''rotation_requested'' wid [] (upd_registry R sv)))"

definition opt_json :: "('a \<Rightarrow> json) \<Rightarrow> 'a option \<Rightarrow> json" where
  "opt_json f x = (case x of None \<Rightarrow> JNull | Some v \<Rightarrow> f v)"

text \<open>A field with \<^verbatim>\<open>omitempty\<close>.\<close>

definition omit_empty :: "string \<Rightarrow> string \<Rightarrow> (string \<times> json) list" where
  "omit_empty k v = (if v = [] then [] else [(k, JStr v)])"

definition worker_json :: "(time \<Rightarrow> json) \<Rightarrow> worker_row \<Rightarrow> json" where
  "worker_json tj w = JObj
     ([(''worker_id'', JStr (w_id w)), (''name'', JStr (w_name w)), (''state'', JStr (w_state w))] @
      omit_empty ''state_reason'' (case w_state_reason w of None \<Rightarrow> [] | Some r \<Rightarrow> r) @
      omit_empty ''software_version'' (case w_software_version w of None \<Rightarrow> [] | Some v \<Rightarrow> v) @
      (case w_last_heartbeat_at w of None \<Rightarrow> [] | Some t \<Rightarrow> [(''last_heartbeat_at'', tj t)]))"

definition adminListWorkers :: "'s deployment \<Rightarrow> tick \<Rightarrow> request \<Rightarrow> 's handler" where
  "adminListWorkers dp tk req sv =
     (case List_workers (tk_faults tk) (reg sv) of
        Inl _ \<Rightarrow> (problem 500 ''list failed'', sv)
      | Inr ws \<Rightarrow> (writeJSON 200 (JObj [(''workers'', JArr (map (worker_json (dp_time_json dp)) ws))]), sv))"

text \<open>A null \<open>published_at\<close> sorts first and does not scan into the summary.\<close>

definition published_snapshot :: "routing_schema \<Rightarrow> snapshot_row option" where
  "published_snapshot R =
     (let ps = filter (\<lambda>s. sn_status s = ''published'') (snapshots R) in
      if \<exists>s \<in> set ps. sn_published_at s = None then None
      else case rev (sort_key (\<lambda>s. case sn_published_at s of None \<Rightarrow> 0 | Some t \<Rightarrow> t) ps) of
        [] \<Rightarrow> None
      | s # _ \<Rightarrow> Some s)"

definition feed_json :: "(time \<Rightarrow> json) \<Rightarrow> (advisor_error \<Rightarrow> string) \<Rightarrow> feedHealth \<Rightarrow> json" where
  "feed_json tj et h = JObj
     ([(''last_attempt_at'', tj (fh_last_attempt h)), (''last_success_at'', opt_json tj (fh_last_success h))] @
      (case fh_last_error h of None \<Rightarrow> [] | Some e \<Rightarrow> omit_empty ''last_error'' (et e)) @
      [(''consecutive_failures'', JNum (of_nat (fh_failures h)))])"

definition adminOverview :: "'s deployment \<Rightarrow> (advisor_error \<Rightarrow> string) \<Rightarrow> tick \<Rightarrow> request \<Rightarrow> 's handler" where
  "adminOverview dp et tk req sv =
     (let F = tk_faults tk; D = sv_db sv; R = routing_of D; num = (\<lambda>n. JNum (of_nat n)) in
      if F ''overview.states'' then (problem 500 ''overview failed'', sv)
      else (writeJSON 200 (JObj
        ([(''workers_by_state'', JObj (count_groups (map w_state (workers (reg sv))))),
          (''software_versions'', JObj (if F ''overview.versions'' then []
              else count_groups (map (\<lambda>w. case w_software_version w of None \<Rightarrow> ''unknown'' | Some v \<Rightarrow> v)
                     (filter (\<lambda>w. w_state w = ''active'') (workers (reg sv)))))),
          (''published_snapshot'', (if F ''overview.snapshot'' then JNull
              else case published_snapshot R of
                None \<Rightarrow> JNull
              | Some s \<Rightarrow> JObj [(''version'', JStr (sn_version s)), (''published_at'', opt_json (dp_time_json dp) (sn_published_at s)),
                  (''targets'', num (count_where (\<lambda>t. tg_snapshot_id t = sn_id s) (probe_targets R)))])),
          (''open_assignments'', num (if F ''overview.counts'' then 0
              else count_where (\<lambda>a. a_status a \<in> {''open'', ''leased''}) (assignments (scheduling_of D)))),
          (''live_leases'', num (if F ''overview.counts'' then 0 else count_where live (leases (scheduling_of D)))),
          (''outbox_queued'', num (if F ''overview.counts'' then 0
              else count_where (\<lambda>r. ob_acked_at r = None) (publication_outbox (aggregation_of D)))),
          (''security_events_24h'', JObj (if F ''overview.events'' then []
              else count_groups (map e_event_type
                     (filter (\<lambda>e. e_created_at e > tk_now tk - 24 * hour) (trust_events (reg sv)))))),
          (''scheduler_paused'', JBool (sv_paused sv))] @
         (if sv_advisor sv = [] then []
          else [(''advisor_sync'', JObj (map (\<lambda>(f, h). (f, feed_json (dp_time_json dp) et h)) (sv_advisor sv)))]))), sv))"

definition snapshot_json :: "(time \<Rightarrow> json) \<Rightarrow> routing_schema \<Rightarrow> snapshot_row \<Rightarrow> json" where
  "snapshot_json tj R s = JObj
     [(''version'', JStr (sn_version s)), (''status'', JStr (sn_status s)), (''created_at'', tj (sn_created_at s)),
      (''published_at'', opt_json tj (sn_published_at s)),
      (''prefix_count_v4'', JNum (of_nat (sn_prefix_count_v4 s))), (''prefix_count_v6'', JNum (of_nat (sn_prefix_count_v6 s))),
      (''has_data'', JBool (\<exists>p \<in> set (prefixes R). px_snapshot_id p = sn_id s))]"

definition adminListSnapshots :: "'s deployment \<Rightarrow> tick \<Rightarrow> request \<Rightarrow> 's handler" where
  "adminListSnapshots dp tk req sv =
     (if tk_faults tk ''snapshots.list'' then (problem 500 ''snapshot list failed'', sv)
      else (let R = routing_of (sv_db sv) in
            (writeJSON 200 (JObj [(''snapshots'',
               JArr (map (snapshot_json (dp_time_json dp) R) (take 50 (rev (sort_key sn_id (snapshots R))))))]), sv)))"

definition adminRollbackSnapshot :: "'s deployment \<Rightarrow> string \<Rightarrow> string \<Rightarrow> tick \<Rightarrow> request \<Rightarrow> 's handler" where
  "adminRollbackSnapshot dp reason version tk req sv =
     (case RollbackTo (tk_faults tk) (dp_codec dp) (dp_store dp) (tk_now tk) version (sv_store sv) (routing_of (sv_db sv)) of
        (ok, st', R') \<Rightarrow>
          (let sv' = (upd_db ((sv_db sv)\<lparr>routing_of := R'\<rparr>) sv)\<lparr>sv_store := st'\<rparr> in
           if \<not> ok then (problem 409 reason, sv')
           else (writeJSON 200 (JObj [(''published'', JStr version)]),
                 server_audit dp tk ''admin'' ''admin'' ''snapshot_rollback'' version [] (invalidateManifestCache sv'))))"

text \<open>\<^verbatim>\<open>strconv.Atoi\<close> on the texts that pass the range check of the handler.\<close>

definition Atoi :: "string \<Rightarrow> int option" where
  "Atoi s =
     (let (neg, ds) = (case s of c # cs \<Rightarrow> if c = CHR ''-'' then (True, cs) else if c = CHR ''+'' then (False, cs) else (False, s)
                        | [] \<Rightarrow> (False, [])) in
      if ds = [] \<or> \<not> list_all is_digit ds then None
      else let n = (if neg then - int (number 10 (map digit_val ds)) else int (number 10 (map digit_val ds))) in
           if - (2 ^ 63) \<le> n \<and> n < 2 ^ 63 then Some n else None)"

definition audit_limit :: "(string \<times> string) list \<Rightarrow> nat" where
  "audit_limit q = (case Atoi (header_get q ''limit'') of
     Some n \<Rightarrow> if n > 0 \<and> n \<le> 1000 then nat n else 100
   | None \<Rightarrow> 100)"

definition audit_since :: "(string \<Rightarrow> time option) \<Rightarrow> time \<Rightarrow> (string \<times> string) list \<Rightarrow> time" where
  "audit_since parse now q = (case parse (header_get q ''since'') of Some t \<Rightarrow> t | None \<Rightarrow> now - 24 * hour)"

text \<open>The identity column of \<^verbatim>\<open>audit.event\<close> numbers the rows from one in insertion order.\<close>

definition audit_rows :: "time \<Rightarrow> string \<Rightarrow> nat \<Rightarrow> audit_row list \<Rightarrow> (nat \<times> audit_row) list" where
  "audit_rows since category limit rows =
     take limit (rev (filter (\<lambda>(i, r). au_created_at r > since \<and> (category = [] \<or> au_category r = category)) (enumerate 1 rows)))"

definition adminAudit :: "'s deployment \<Rightarrow> tick \<Rightarrow> request \<Rightarrow> 's handler" where
  "adminAudit dp tk req sv =
     (if tk_faults tk ''audit.query'' then (problem 500 ''audit query failed'', sv)
      else (let q = req_query req in
       (writeJSON 200 (JObj [(''events'', JArr (map (\<lambda>(i, r). JObj
          [(''id'', JNum (of_nat i)), (''category'', JStr (au_category r)), (''actor'', JStr (au_actor r)),
           (''action'', JStr (au_action r)), (''subject'', JStr (au_subject r)), (''detail'', JObj (au_detail r)),
           (''created_at'', dp_time_json dp (au_created_at r))])
          (audit_rows (audit_since (rfc3339_parse (dp_env dp)) (tk_now tk) q) (header_get q ''category'') (audit_limit q)
             (audit_of (sv_db sv)))))]), sv)))"

definition components_json :: "trust_components \<Rightarrow> json" where
  "components_json c = JObj [(''availability'', JNum (availability c)), (''tenure'', JNum (tenure c)),
     (''agreement'', JNum (agreement c)), (''penalty'', JNum (penalty c))]"

definition event_json :: "(time \<Rightarrow> json) \<Rightarrow> event_row \<Rightarrow> json" where
  "event_json tj e = JObj
     [(''id'', JNum (of_nat (e_id e))), (''category'', JStr ''trust''), (''actor'', JStr (e_actor e)),
      (''action'', JStr (e_event_type e)), (''subject'', JNull), (''detail'', JObj (e_detail e)),
      (''created_at'', tj (e_created_at e))]"

definition adminWorkerDetail :: "'s deployment \<Rightarrow> string \<Rightarrow> tick \<Rightarrow> request \<Rightarrow> 's handler" where
  "adminWorkerDetail dp wid tk req sv =
     (if tk_faults tk ''detail.worker'' then (problem 404 ''unknown worker'', sv)
      else case lookup_by w_id wid (workers (reg sv)) of
        None \<Rightarrow> (problem 404 ''unknown worker'', sv)
      | Some w \<Rightarrow>
          (let ts = lookup_by s_worker_id wid (trust_scores (reg sv)); tj = dp_time_json dp in
           (writeJSON 200 (JObj
             [(''id'', JStr (w_id w)), (''name'', JStr (w_name w)), (''state'', JStr (w_state w)),
              (''state_reason'', opt_json JStr (w_state_reason w)), (''software_version'', opt_json JStr (w_software_version w)),
              (''source_asn'', opt_json (JNum \<circ> of_int) (w_source_asn w)), (''enrolled_at'', tj (w_enrolled_at w)),
              (''last_heartbeat_at'', opt_json tj (w_last_heartbeat_at w)),
              (''trust_score'', opt_json (JNum \<circ> s_score) ts), (''trust_components'', opt_json (components_json \<circ> s_components) ts),
              (''live_leases'', JNum (of_nat (count_where (\<lambda>l. l_worker_id l = wid \<and> live l) (leases (scheduling_of (sv_db sv)))))),
              (''recent_trust_events'', if tk_faults tk ''detail.events'' then JNull
                 else JArr (map (event_json tj)
                   (take 20 (rev (sort_key e_id (filter (\<lambda>e. e_worker_id e = wid) (trust_events (reg sv))))))))]), sv)))"

section \<open>Routes and maintenance\<close>

text \<open>
  The route table of \<open>New\<close>. A pattern segment in braces matches any non-empty segment and is passed
  to the handler.
\<close>

fun segments :: "string \<Rightarrow> string list" where
  "segments [] = [[]]"
| "segments (c # cs) =
     (if c = CHR ''/'' then [] # segments cs
      else case segments cs of s # ss \<Rightarrow> (c # s) # ss | [] \<Rightarrow> [[c]])"

datatype pattern_part = Lit string | Wild

fun match_parts :: "pattern_part list \<Rightarrow> string list \<Rightarrow> string list option" where
  "match_parts [] [] = Some []"
| "match_parts (Lit p # ps) (s # ss) = (if p = s then match_parts ps ss else None)"
| "match_parts (Wild # ps) (s # ss) = (if s = [] then None else map_option (Cons s) (match_parts ps ss))"
| "match_parts _ _ = None"

datatype endpoint =
    ERegister | EHeartbeat | EMe | EManifest | EDownload | ELease | ERelease | EUpload | ERotate | ERetire
  | ACreate | AList | ASetState | ARequestRotation | APause | AResume | AOverview | ADetail | ASnapshots | ARollback | AAudit

definition worker_base :: "pattern_part list" where
  "worker_base = [Lit [], Lit ''api'', Lit ''v1'']"

definition admin_base :: "pattern_part list" where
  "admin_base = [Lit [], Lit ''admin'', Lit ''v1'']"

definition routes :: "(string \<times> pattern_part list \<times> endpoint) list" where
  "routes =
     [(''POST'', worker_base @ [Lit ''workers'', Lit ''register''], ERegister),
      (''POST'', worker_base @ [Lit ''workers'', Lit ''heartbeat''], EHeartbeat),
      (''GET'', worker_base @ [Lit ''workers'', Lit ''me''], EMe),
      (''GET'', worker_base @ [Lit ''artifacts'', Lit ''routing'', Lit ''current''], EManifest),
      (''GET'', worker_base @ [Lit ''artifacts'', Lit ''routing'', Lit ''current'', Lit ''download''], EDownload),
      (''POST'', worker_base @ [Lit ''assignments'', Lit ''lease''], ELease),
      (''POST'', worker_base @ [Lit ''assignments'', Lit ''release''], ERelease),
      (''POST'', worker_base @ [Lit ''observations''], EUpload),
      (''POST'', worker_base @ [Lit ''workers'', Lit ''keys'', Lit ''rotate''], ERotate),
      (''POST'', worker_base @ [Lit ''workers'', Lit ''retire''], ERetire),
      (''POST'', admin_base @ [Lit ''workers''], ACreate),
      (''GET'', admin_base @ [Lit ''workers''], AList),
      (''POST'', admin_base @ [Lit ''workers'', Wild, Lit ''state''], ASetState),
      (''POST'', admin_base @ [Lit ''workers'', Wild, Lit ''rotate-key''], ARequestRotation),
      (''POST'', admin_base @ [Lit ''scheduler'', Lit ''pause''], APause),
      (''POST'', admin_base @ [Lit ''scheduler'', Lit ''resume''], AResume),
      (''GET'', admin_base @ [Lit ''overview''], AOverview),
      (''GET'', admin_base @ [Lit ''workers'', Wild], ADetail),
      (''GET'', admin_base @ [Lit ''snapshots''], ASnapshots),
      (''POST'', admin_base @ [Lit ''snapshots'', Wild, Lit ''rollback''], ARollback),
      (''GET'', admin_base @ [Lit ''audit''], AAudit)]"

text \<open>A GET pattern also serves HEAD; no two patterns of one method match the same path.\<close>

definition method_matches :: "string \<Rightarrow> string \<Rightarrow> bool" where
  "method_matches pat m \<longleftrightarrow> m = pat \<or> pat = ''GET'' \<and> m = ''HEAD''"

definition route_of :: "string \<Rightarrow> string \<Rightarrow> (endpoint \<times> string list) option" where
  "route_of method path =
     (case concat (map (\<lambda>(m, pat, e). case match_parts pat (segments path) of
                          Some vs \<Rightarrow> if method_matches m method then [(e, vs)] else []
                        | None \<Rightarrow> []) routes) of
        [] \<Rightarrow> None
      | r # _ \<Rightarrow> Some r)"

text \<open>The texts of errors of other packages that responses carry.\<close>

record texts =
  tx_advisor :: "advisor_error \<Rightarrow> string"
  tx_rollback :: string

definition path_value :: "string list \<Rightarrow> string" where
  "path_value vs = (case vs of v # _ \<Rightarrow> v | [] \<Rightarrow> [])"

definition endpoint_handler :: "'s deployment \<Rightarrow> texts \<Rightarrow> endpoint \<Rightarrow> string list \<Rightarrow> tick \<Rightarrow> request \<Rightarrow> 's handler" where
  "endpoint_handler dp tx e vs =
     (case e of
        ERegister \<Rightarrow> register dp
      | EHeartbeat \<Rightarrow> signed dp (heartbeat dp)
      | EMe \<Rightarrow> signed dp (me dp)
      | EManifest \<Rightarrow> signed dp (currentManifest dp)
      | EDownload \<Rightarrow> signed dp (downloadArtifact dp)
      | ELease \<Rightarrow> signed dp (lease_handler dp)
      | ERelease \<Rightarrow> signed dp (release_handler dp)
      | EUpload \<Rightarrow> signed dp (upload_handler dp)
      | ERotate \<Rightarrow> signed dp (rotateKey dp)
      | ERetire \<Rightarrow> signed dp (selfRetire dp)
      | ACreate \<Rightarrow> admin dp (adminCreateWorker dp)
      | AList \<Rightarrow> admin dp (adminListWorkers dp)
      | ASetState \<Rightarrow> admin dp (adminSetState dp (path_value vs))
      | ARequestRotation \<Rightarrow> admin dp (adminRequestRotation dp (path_value vs))
      | APause \<Rightarrow> admin dp (adminPause True dp)
      | AResume \<Rightarrow> admin dp (adminPause False dp)
      | AOverview \<Rightarrow> admin dp (adminOverview dp (tx_advisor tx))
      | ADetail \<Rightarrow> admin dp (adminWorkerDetail dp (path_value vs))
      | ASnapshots \<Rightarrow> admin dp (adminListSnapshots dp)
      | ARollback \<Rightarrow> admin dp (adminRollbackSnapshot dp (tx_rollback tx) (path_value vs))
      | AAudit \<Rightarrow> admin dp (adminAudit dp))"

definition serve :: "'s deployment \<Rightarrow> texts \<Rightarrow> tick \<Rightarrow> request \<Rightarrow> 's handler" where
  "serve dp tx tk req sv =
     (case route_of (req_method req) (req_path req) of
        None \<Rightarrow> (Empty 404, sv)
      | Some (e, vs) \<Rightarrow> endpoint_handler dp tx e vs tk req sv)"

definition maintenance :: "tick \<Rightarrow> 's server \<Rightarrow> 's server" where
  "maintenance tk sv =
     (case PruneNonces (tk_faults tk) (tk_now tk) (2 * MaxSkew) (reg sv) of
        Inl _ \<Rightarrow> sv
      | Inr (_, R) \<Rightarrow> upd_registry R sv)"

end
