(* ===== verification/WorkerClient.thy ===== *)
theory WorkerClient
  imports Coordinator
begin

text \<open>
  The persistent directory of a worker (\<^verbatim>\<open>internal/worker/state.go\<close>, \<^verbatim>\<open>status.go\<close>) and its client for the
  coordinator (\<^verbatim>\<open>client.go\<close>). Files are a map from paths to contents; a write can fail before or after
  the file was truncated. The network is a function from a request and the state of the world to an
  answer (\<^const>\<open>None\<close> when there is none) and the new state of the world: the request may have had its
  effect although the answer was lost. Encoders of request bodies and decoders of answers stand for
  \<^verbatim>\<open>encoding/json\<close>.
\<close>

section \<open>Parameters\<close>

record Assignment =
  as_id :: int
  as_target :: string
  as_probe_type :: string
  as_interval :: int

record HeartbeatResponse =
  hb_state :: string
  hb_actions :: "string list"
  hb_snapshot :: "string option"

record encoders =
  enc_register :: "registerRequest \<Rightarrow> bytes"
  enc_heartbeat :: "string \<Rightarrow> bytes"
  enc_lease :: "int \<Rightarrow> bytes"
  enc_upload :: "string \<Rightarrow> Observation list \<Rightarrow> bytes option"
  enc_rotate :: "string \<Rightarrow> bytes"

record answers =
  ans_register :: "json \<Rightarrow> (string \<times> string) option"
  ans_heartbeat :: "json \<Rightarrow> HeartbeatResponse option"
  ans_manifest :: "json \<Rightarrow> (Manifest \<times> string) option"
  ans_lease :: "json \<Rightarrow> Assignment list option"

text \<open>
  What a worker is built on: the primitives, the derivation of a key pair from a seed and the seed
  of a key, the codecs, the probe targets listed in an artifact file, and the version it reports.
\<close>

record worker_env =
  we_env :: wire_env
  we_from_seed :: "bytes \<Rightarrow> bytes"
  we_seed :: "bytes \<Rightarrow> bytes"
  we_marshal :: marshal
  we_codec :: artifact_codec
  we_enc :: encoders
  we_ans :: answers
  we_targets :: "bytes \<Rightarrow> string list option"
  we_status_json :: "(string \<times> json) list \<Rightarrow> bytes option"
  we_version :: string

text \<open>What \<^verbatim>\<open>crypto/ed25519\<close> documents: the seed has 32 bytes and derives the key again.\<close>

definition seeds_ok :: "worker_env \<Rightarrow> bool" where
  "seeds_ok E \<longleftrightarrow> (\<forall>s. length s = seed_size \<longrightarrow> we_seed E (we_from_seed E s) = s)"

section \<open>The state directory\<close>

definition keyPath :: "string \<Rightarrow> string" where "keyPath dir = dir @ ''/worker.key''"
definition idPath :: "string \<Rightarrow> string" where "idPath dir = dir @ ''/worker.id''"
definition SnapshotPath :: "string \<Rightarrow> string" where "SnapshotPath dir = dir @ ''/routing.sqlite''"
definition versionPath :: "string \<Rightarrow> string" where "versionPath dir = dir @ ''/routing.version''"
definition StatusPath :: "string \<Rightarrow> string" where "StatusPath dir = dir @ ''/status.json''"

datatype file_read = FileBytes bytes | NotExist | ReadFailed

definition read_file :: "faults \<Rightarrow> string \<Rightarrow> filesystem \<Rightarrow> file_read" where
  "read_file F path fs =
     (if F (path @ '':read'') then ReadFailed
      else case fs path of None \<Rightarrow> NotExist | Some b \<Rightarrow> FileBytes b)"

definition write_file :: "faults \<Rightarrow> string \<Rightarrow> bytes \<Rightarrow> filesystem \<Rightarrow> bool \<times> filesystem" where
  "write_file F path content fs =
     (if F (path @ '':open'') then (False, fs)
      else if F (path @ '':write'') then (False, fs(path \<mapsto> []))
      else (True, fs(path \<mapsto> content)))"

definition rename_file :: "faults \<Rightarrow> string \<Rightarrow> string \<Rightarrow> filesystem \<Rightarrow> bool \<times> filesystem" where
  "rename_file F a b fs =
     (case fs a of
        None \<Rightarrow> (False, fs)
      | Some content \<Rightarrow> if F (b @ '':rename'') then (False, fs) else (True, fs(a := None, b \<mapsto> content)))"

text \<open>\<^verbatim>\<open>strings.TrimSpace\<close> on ASCII text.\<close>

definition white :: "char \<Rightarrow> bool" where
  "white c \<longleftrightarrow> (of_char c :: nat) \<in> {9, 10, 11, 12, 13, 32}"

definition TrimSpace :: "string \<Rightarrow> string" where
  "TrimSpace s = rev (dropWhile white (rev (dropWhile white s)))"

abbreviation newline :: string where "newline \<equiv> [CHR 0x0A]"

text \<open>\<open>rnd\<close> is the seed drawn for a new key, \<^const>\<open>None\<close> when the random source fails.\<close>

definition GenerateKey :: "worker_env \<Rightarrow> bytes option \<Rightarrow> bytes option" where
  "GenerateKey E rnd = map_option (we_from_seed E) rnd"

definition state_Key :: "worker_env \<Rightarrow> faults \<Rightarrow> bytes option \<Rightarrow> string \<Rightarrow> filesystem \<Rightarrow> bytes option \<times> filesystem" where
  "state_Key E F rnd dir fs =
     (case read_file F (keyPath dir) fs of
        FileBytes raw \<Rightarrow>
          (case b64_decode (TrimSpace raw) of
             None \<Rightarrow> (None, fs)
           | Some seed \<Rightarrow> if length seed \<noteq> seed_size then (None, fs) else (Some (we_from_seed E seed), fs))
      | ReadFailed \<Rightarrow> (None, fs)
      | NotExist \<Rightarrow>
          (case GenerateKey E rnd of
             None \<Rightarrow> (None, fs)
           | Some priv \<Rightarrow>
               (case write_file F (keyPath dir) (b64_encode (we_seed E priv) @ newline) fs of
                  (ok, fs') \<Rightarrow> (if ok then Some priv else None, fs'))))"

definition ReplaceKey :: "worker_env \<Rightarrow> faults \<Rightarrow> string \<Rightarrow> bytes \<Rightarrow> filesystem \<Rightarrow> bool \<times> filesystem" where
  "ReplaceKey E F dir priv fs =
     (let tmp = keyPath dir @ ''.tmp'' in
      case write_file F tmp (b64_encode (we_seed E priv) @ newline) fs of
        (ok, fs') \<Rightarrow> if \<not> ok then (False, fs') else rename_file F tmp (keyPath dir) fs')"

text \<open>\<^const>\<open>None\<close> is a read error; the empty text means not registered.\<close>

definition state_WorkerID :: "faults \<Rightarrow> string \<Rightarrow> filesystem \<Rightarrow> string option" where
  "state_WorkerID F dir fs =
     (case read_file F (idPath dir) fs of
        NotExist \<Rightarrow> Some []
      | ReadFailed \<Rightarrow> None
      | FileBytes raw \<Rightarrow> Some (TrimSpace raw))"

definition SaveWorkerID :: "faults \<Rightarrow> string \<Rightarrow> string \<Rightarrow> filesystem \<Rightarrow> bool \<times> filesystem" where
  "SaveWorkerID F dir wid fs = write_file F (idPath dir) (wid @ newline) fs"

definition SnapshotVersion :: "faults \<Rightarrow> string \<Rightarrow> filesystem \<Rightarrow> string" where
  "SnapshotVersion F dir fs = (case read_file F (versionPath dir) fs of FileBytes raw \<Rightarrow> TrimSpace raw | _ \<Rightarrow> [])"

definition InstallSnapshot :: "faults \<Rightarrow> string \<Rightarrow> string \<Rightarrow> string \<Rightarrow> filesystem \<Rightarrow> bool \<times> filesystem" where
  "InstallSnapshot F dir tmp version fs =
     (case rename_file F tmp (SnapshotPath dir) fs of
        (ok, fs') \<Rightarrow> if \<not> ok then (False, fs') else write_file F (versionPath dir) (version @ newline) fs')"

definition WriteStatus :: "worker_env \<Rightarrow> faults \<Rightarrow> string \<Rightarrow> (string \<times> json) list \<Rightarrow> json \<Rightarrow> filesystem \<Rightarrow> bool \<times> filesystem" where
  "WriteStatus E F dir st updated fs =
     (case we_status_json E (obj_set ''updated_at'' updated st) of
        None \<Rightarrow> (False, fs)
      | Some raw \<Rightarrow>
          (let tmp = StatusPath dir @ ''.tmp'' in
           case write_file F tmp raw fs of
             (ok, fs') \<Rightarrow> if \<not> ok then (False, fs') else rename_file F tmp (StatusPath dir) fs'))"

definition ReadStatus :: "faults \<Rightarrow> (bytes \<Rightarrow> 'st option) \<Rightarrow> string \<Rightarrow> filesystem \<Rightarrow> 'st option" where
  "ReadStatus F unmarshal dir fs = (case read_file F (StatusPath dir) fs of FileBytes raw \<Rightarrow> unmarshal raw | _ \<Rightarrow> None)"

section \<open>The client\<close>

record client =
  cl_base_url :: string
  cl_worker_id :: string
  cl_key :: bytes

definition NewClient :: "string \<Rightarrow> bytes \<Rightarrow> client" where
  "NewClient baseURL key = \<lparr>cl_base_url = baseURL, cl_worker_id = [], cl_key = key\<rparr>"

type_synonym 'w net = "request \<Rightarrow> 'w \<Rightarrow> response option \<times> 'w"

text \<open>The clock and the random bytes of one call.\<close>

type_synonym call = "time \<times> bytes option"

datatype client_error = EncodeFailed | SignFailed | NoAnswer | HttpStatus nat | DecodeFailed | FileFailed

text \<open>\<open>out\<close> decodes the answer; without a result every answer below 300 will do.\<close>

definition client_do ::
  "worker_env \<Rightarrow> 'w net \<Rightarrow> call \<Rightarrow> client \<Rightarrow> string \<Rightarrow> string \<Rightarrow> bytes option \<Rightarrow> (response \<Rightarrow> 'o option) \<Rightarrow> 'w \<Rightarrow> (client_error + 'o) \<times> 'w" where
  "client_do E net cal c method path body out w =
     (case body of
        None \<Rightarrow> (Inl EncodeFailed, w)
      | Some raw \<Rightarrow>
          (let req = \<lparr>req_method = method, req_path = path, req_query = [], req_header = [(''Content-Type'', ''application/json'')],
                      req_body = Some raw, req_remote = []\<rparr> in
           case (if cl_worker_id c \<noteq> [] then Sign (we_env E) (fst cal) (snd cal) (cl_worker_id c) (cl_key c) raw req else Some req) of
             None \<Rightarrow> (Inl SignFailed, w)
           | Some sreq \<Rightarrow>
               (case net sreq w of
                  (None, w') \<Rightarrow> (Inl NoAnswer, w')
                | (Some resp, w') \<Rightarrow>
                    if status_of resp \<ge> 300 then (Inl (HttpStatus (status_of resp)), w')
                    else case out resp of None \<Rightarrow> (Inl DecodeFailed, w') | Some v \<Rightarrow> (Inr v, w'))))"

definition json_answer :: "(json \<Rightarrow> 'o option) \<Rightarrow> response \<Rightarrow> 'o option" where
  "json_answer dec resp = (case resp of JsonBody n j \<Rightarrow> dec j | _ \<Rightarrow> None)"

definition client_Register ::
  "worker_env \<Rightarrow> 'w net \<Rightarrow> call \<Rightarrow> string \<Rightarrow> string \<Rightarrow> client \<Rightarrow> 'w \<Rightarrow> (client_error + string \<times> string) \<times> client \<times> 'w" where
  "client_Register E net cal token name c w =
     (case client_do E net cal c ''POST'' ''/api/v1/workers/register''
         (Some (enc_register (we_enc E) \<lparr>rr_token = token, rr_public_key = b64_encode (ed_public (we_env E) (cl_key c)), rr_name = name, rr_version = we_version E\<rparr>))
         (json_answer (ans_register (we_ans E))) w of
        (Inl e, w') \<Rightarrow> (Inl e, c, w')
      | (Inr (wid, st), w') \<Rightarrow> (Inr (wid, st), c\<lparr>cl_worker_id := wid\<rparr>, w'))"

definition client_Heartbeat :: "worker_env \<Rightarrow> 'w net \<Rightarrow> call \<Rightarrow> client \<Rightarrow> 'w \<Rightarrow> (client_error + HeartbeatResponse) \<times> 'w" where
  "client_Heartbeat E net cal c w =
     client_do E net cal c ''POST'' ''/api/v1/workers/heartbeat'' (Some (enc_heartbeat (we_enc E) (we_version E)))
       (json_answer (ans_heartbeat (we_ans E))) w"

definition client_CurrentManifest :: "worker_env \<Rightarrow> 'w net \<Rightarrow> call \<Rightarrow> client \<Rightarrow> 'w \<Rightarrow> (client_error + Manifest \<times> string) \<times> 'w" where
  "client_CurrentManifest E net cal c w =
     client_do E net cal c ''GET'' ''/api/v1/artifacts/routing/current'' (Some []) (json_answer (ans_manifest (we_ans E))) w"

definition client_RotateKey :: "worker_env \<Rightarrow> 'w net \<Rightarrow> call \<Rightarrow> client \<Rightarrow> bytes \<Rightarrow> 'w \<Rightarrow> (client_error + unit) \<times> 'w" where
  "client_RotateKey E net cal c nextPub w =
     client_do E net cal c ''POST'' ''/api/v1/workers/keys/rotate'' (Some (enc_rotate (we_enc E) (b64_encode nextPub))) (\<lambda>_. Some ()) w"

definition client_Retire :: "worker_env \<Rightarrow> 'w net \<Rightarrow> call \<Rightarrow> client \<Rightarrow> 'w \<Rightarrow> (client_error + unit) \<times> 'w" where
  "client_Retire E net cal c w = client_do E net cal c ''POST'' ''/api/v1/workers/retire'' (Some ''{}'') (\<lambda>_. Some ()) w"

definition client_LeaseAssignments :: "worker_env \<Rightarrow> 'w net \<Rightarrow> call \<Rightarrow> client \<Rightarrow> int \<Rightarrow> 'w \<Rightarrow> (client_error + Assignment list) \<times> 'w" where
  "client_LeaseAssignments E net cal c capacity w =
     client_do E net cal c ''POST'' ''/api/v1/assignments/lease'' (Some (enc_lease (we_enc E) capacity)) (json_answer (ans_lease (we_ans E))) w"

definition client_UploadObservations ::
  "worker_env \<Rightarrow> 'w net \<Rightarrow> call \<Rightarrow> client \<Rightarrow> string \<Rightarrow> Observation list \<Rightarrow> 'w \<Rightarrow> (client_error + unit) \<times> 'w" where
  "client_UploadObservations E net cal c batchID obs w =
     client_do E net cal c ''POST'' ''/api/v1/observations'' (enc_upload (we_enc E) batchID obs) (\<lambda>_. Some ()) w"

text \<open>\<open>tmp\<close> is the name the temporary file gets; the answer is copied to it.\<close>

definition answer_bytes :: "response \<Rightarrow> bytes option" where
  "answer_bytes resp = (case resp of Stream ty n b \<Rightarrow> Some b | _ \<Rightarrow> None)"

definition client_DownloadArtifact ::
  "worker_env \<Rightarrow> faults \<Rightarrow> 'w net \<Rightarrow> call \<Rightarrow> client \<Rightarrow> string \<Rightarrow> string \<Rightarrow> filesystem \<Rightarrow> 'w \<Rightarrow> (client_error + string) \<times> filesystem \<times> 'w" where
  "client_DownloadArtifact E F net cal c path tmp fs w =
     (let req = \<lparr>req_method = ''GET'', req_path = path, req_query = [], req_header = [], req_body = Some [], req_remote = []\<rparr> in
      case Sign (we_env E) (fst cal) (snd cal) (cl_worker_id c) (cl_key c) [] req of
        None \<Rightarrow> (Inl SignFailed, fs, w)
      | Some sreq \<Rightarrow>
          (case net sreq w of
             (None, w') \<Rightarrow> (Inl NoAnswer, fs, w')
           | (Some resp, w') \<Rightarrow>
               if status_of resp \<noteq> 200 then (Inl (HttpStatus (status_of resp)), fs, w')
               else if F ''download.create'' then (Inl FileFailed, fs, w')
               else case answer_bytes resp of
                 None \<Rightarrow> (Inl DecodeFailed, fs(tmp := None), w')
               | Some b \<Rightarrow>
                   if F ''download.copy'' \<or> F ''download.close'' then (Inl FileFailed, fs(tmp := None), w')
                   else (Inr tmp, fs(tmp \<mapsto> b), w')))"

end
