(* ===== verification/Probe.thy ===== *)
theory Probe
  imports Netip
begin

text \<open>
  The measurement engine (\<^verbatim>\<open>internal/probe/probe.go\<close>, \<^verbatim>\<open>icmp.go\<close>): parameters with their defaults, the
  registry of probers, and the ICMP prober. The network is what the prober meets: for every packet
  whether the run was cancelled, whether encoding and sending worked, and what the socket then
  returned. Round-trip times are rationals in milliseconds.
\<close>

section \<open>Operations\<close>

record Params =
  pp_count :: int
  pp_interval :: int
  pp_timeout :: int

definition probe_withDefaults :: "Params \<Rightarrow> Params" where
  "probe_withDefaults p =
     \<lparr>pp_count = (if pp_count p \<le> 0 then 4 else pp_count p),
      pp_interval = (if pp_interval p \<le> 0 then 200000000 else pp_interval p),
      pp_timeout = (if pp_timeout p \<le> 0 then 2 * second else pp_timeout p)\<rparr>"

record Result =
  rs_ok :: bool
  rs_rtt :: rat
  rs_sent :: nat
  rs_lost :: nat
  rs_metrics :: "(string \<times> json) list"

text \<open>A prober is what it answers; \<^const>\<open>None\<close> is an execution error. Later probers of a type replace earlier ones.\<close>

definition NewRegistry :: "(string \<times> 'p) list \<Rightarrow> (string \<rightharpoonup> 'p)" where
  "NewRegistry probers = map_of (rev probers)"

definition registry_Get :: "(string \<rightharpoonup> 'p) \<Rightarrow> string \<Rightarrow> 'p option" where
  "registry_Get r probeType = r probeType"

text \<open>A received packet: where it came from, the time since the send, and the decoded message.\<close>

datatype icmp_body = EchoBody int int | OtherMessage

record packet =
  pk_from :: addr
  pk_rtt :: rat
  pk_msg :: "icmp_body option"

text \<open>What the read loop sees; \<^const>\<open>None\<close> is the deadline or another read error, as is the end of the list.\<close>

fun await_loop :: "nat \<Rightarrow> bool \<Rightarrow> int \<Rightarrow> int \<Rightarrow> packet option list \<Rightarrow> rat option" where
  "await_loop 0 raw ident seq reads = None"
| "await_loop (Suc budget) raw ident seq [] = None"
| "await_loop (Suc budget) raw ident seq (None # reads) = None"
| "await_loop (Suc budget) raw ident seq (Some p # reads) =
     (case pk_msg p of
        None \<Rightarrow> await_loop budget raw ident seq reads
      | Some OtherMessage \<Rightarrow> await_loop budget raw ident seq reads
      | Some (EchoBody i s) \<Rightarrow>
          if s \<noteq> seq then await_loop budget raw ident seq reads
          else if raw \<and> i \<noteq> ident then await_loop budget raw ident seq reads
          else Some (pk_rtt p))"

definition awaitReply :: "bool \<Rightarrow> int \<Rightarrow> int \<Rightarrow> packet option list \<Rightarrow> rat option" where
  "awaitReply raw ident seq reads = await_loop 64 raw ident seq reads"

record attempt =
  at_cancelled :: bool
  at_encoded :: bool
  at_written :: bool
  at_reads :: "packet option list"

text \<open>The loop over the packets still to send; \<^const>\<open>None\<close> when encoding fails.\<close>

fun probe_loop :: "bool \<Rightarrow> int \<Rightarrow> int \<Rightarrow> attempt list \<Rightarrow> nat \<times> rat list \<Rightarrow> (nat \<times> rat list) option" where
  "probe_loop raw ident seq [] acc = Some acc"
| "probe_loop raw ident seq (a # as) (sent, rtts) =
     (if at_cancelled a then Some (sent, rtts)
      else if \<not> at_encoded a then None
      else if \<not> at_written a then probe_loop raw ident (seq + 1) as (sent + 1, rtts)
      else probe_loop raw ident (seq + 1) as
        (sent + 1, case awaitReply raw ident seq (at_reads a) of None \<Rightarrow> rtts | Some rtt \<Rightarrow> rtts @ [rtt]))"

definition probe_result :: "nat \<Rightarrow> rat list \<Rightarrow> Result" where
  "probe_result sent rtts =
     (let s = sort rtts in
      \<lparr>rs_ok = rtts \<noteq> [], rs_rtt = (if rtts = [] then 0 else s ! (length rtts div 2)),
       rs_sent = sent, rs_lost = sent - length rtts,
       rs_metrics = (if rtts = [] then [] else [(''rtt_min_ms'', JNum (s ! 0)), (''rtt_max_ms'', JNum (s ! (length rtts - 1)))])\<rparr>)"

text \<open>The socket is a datagram or a raw one, or could not be opened; \<open>attempts\<close> says what happens packet by packet.\<close>

definition Probe :: "bool option \<Rightarrow> int \<Rightarrow> (nat \<Rightarrow> attempt) \<Rightarrow> Params \<Rightarrow> Result option" where
  "Probe sock pid attempts params =
     (case sock of
        None \<Rightarrow> None
      | Some raw \<Rightarrow>
          (case probe_loop raw (pid mod 65536) 0 (map attempts [0..<nat (pp_count (probe_withDefaults params))]) (0, []) of
             None \<Rightarrow> None
           | Some (sent, rtts) \<Rightarrow> Some (probe_result sent rtts)))"

section \<open>Properties\<close>

lemma probe_loop_counts:
  "probe_loop raw ident seq as (sent, rtts) = Some (sent', rtts') \<Longrightarrow>
   sent \<le> sent' \<and> sent' \<le> sent + length as \<and> length rtts' - length rtts \<le> sent' - sent \<and> length rtts \<le> length rtts'"
proof (induction as arbitrary: seq sent rtts)
  case (Cons a as)
  let ?r = "if at_written a then case awaitReply raw ident seq (at_reads a) of None \<Rightarrow> rtts | Some rtt \<Rightarrow> rtts @ [rtt] else rtts"
  show ?case
  proof (cases "at_cancelled a")
    case False
    then have "probe_loop raw ident (seq + 1) as (sent + 1, ?r) = Some (sent', rtts')"
      using Cons.prems by (auto split: if_split_asm)
    from Cons.IH [OF this] have ih: "sent + 1 \<le> sent' \<and> sent' \<le> sent + 1 + length as \<and> length rtts' - length ?r \<le> sent' - (sent + 1) \<and> length ?r \<le> length rtts'" .
    have r: "length rtts \<le> length ?r" "length ?r \<le> length rtts + 1" by (auto split: option.split)
    from ih have i1: "sent + 1 \<le> sent'" and i2: "sent' \<le> sent + 1 + length as" and i3: "length rtts' - length ?r \<le> sent' - (sent + 1)"
      and i4: "length ?r \<le> length rtts'" by blast+
    have "length rtts \<le> length rtts'" using r(1) i4 by (rule le_trans)
    moreover have "length rtts' - length rtts \<le> sent' - sent" using r i1 i3 i4 by linarith
    ultimately show ?thesis using i1 i2 by simp
  qed (use Cons in simp)
qed simp

lemma sorted_median:
  assumes "sorted s" "s \<noteq> []"
  shows "s ! 0 \<le> s ! (length s div 2) \<and> s ! (length s div 2) \<le> s ! (length s - 1)"
proof -
  have "length s div 2 < length s" using assms(2) by (simp add: div_less_dividend)
  moreover have "length s div 2 \<le> length s - 1" using assms(2) by (cases s) auto
  ultimately show ?thesis using sorted_nth_mono [OF assms(1)] by simp
qed

text \<open>
  The counters of a probe: never more packets than asked for, never more lost than sent, success
  exactly when a reply counted, and the reported time lies between the reported extremes.
\<close>

theorem probe_counts:
  assumes "Probe sock pid attempts params = Some r"
  shows "int (rs_sent r) \<le> pp_count (probe_withDefaults params) \<and> rs_lost r \<le> rs_sent r \<and> (rs_ok r \<longleftrightarrow> rs_lost r < rs_sent r) \<and>
    (rs_ok r \<longrightarrow> (\<exists>lo hi. rs_metrics r = [(''rtt_min_ms'', JNum lo), (''rtt_max_ms'', JNum hi)] \<and> lo \<le> rs_rtt r \<and> rs_rtt r \<le> hi))"
proof -
  obtain raw sent rtts where p: "probe_loop raw (pid mod 65536) 0 (map attempts [0..<nat (pp_count (probe_withDefaults params))]) (0, []) = Some (sent, rtts)"
    "r = probe_result sent rtts"
    using assms by (auto simp: Probe_def split: option.split_asm)
  have "0 < pp_count (probe_withDefaults params)" by (simp add: probe_withDefaults_def)
  moreover have "sent \<le> nat (pp_count (probe_withDefaults params))" "length rtts \<le> sent"
    using probe_loop_counts [OF p(1)] by simp_all
  moreover have "s ! 0 \<le> s ! (length rtts div 2) \<and> s ! (length rtts div 2) \<le> s ! (length rtts - 1)" if "rtts \<noteq> []" "s = sort rtts" for s
  proof -
    have "sorted s" "length s = length rtts" using that(2) by simp_all
    moreover have "s \<noteq> []" using that(1) calculation(2) by auto
    ultimately show ?thesis using sorted_median [of s] by simp
  qed
  moreover have "rtts \<noteq> [] \<Longrightarrow> length rtts \<le> sent \<Longrightarrow> sent - length rtts < sent" by (cases rtts) auto
  ultimately show ?thesis by (auto simp: p(2) probe_result_def Let_def)
qed

text \<open>What the socket filter guarantees: the counted reply carries the sequence number and, on a raw socket, the identifier.\<close>

lemma await_loop_match:
  "await_loop n raw ident seq reads = Some t \<Longrightarrow>
   \<exists>p i. Some p \<in> set reads \<and> pk_rtt p = t \<and> pk_msg p = Some (EchoBody i seq) \<and> (raw \<longrightarrow> i = ident)"
proof (induction n arbitrary: reads)
  case (Suc n)
  obtain p rs where r: "reads = Some p # rs"
  proof (cases reads)
    case (Cons x rs)
    then show ?thesis using Suc.prems that by (cases x) auto
  qed (use Suc.prems in simp)
  show ?case
  proof (cases "await_loop n raw ident seq rs = Some t")
    case True
    then show ?thesis using Suc.IH [OF True] r by auto
  next
    case False
    then show ?thesis using Suc.prems r by (auto split: option.split_asm icmp_body.split_asm if_split_asm)
  qed
qed simp

text \<open>
  The sender of a reply is not looked at: a probe of one address succeeds on echo messages that all
  come from another one, such as the replies to a concurrent probe of the same process, which uses
  the same identifier and sequence numbers.
\<close>

definition foreign_echo :: "addr \<Rightarrow> int \<Rightarrow> nat \<Rightarrow> attempt" where
  "foreign_echo other ident n = \<lparr>at_cancelled = False, at_encoded = True, at_written = True,
     at_reads = [Some \<lparr>pk_from = other, pk_rtt = 1, pk_msg = Some (EchoBody ident (int n))\<rparr>]\<rparr>"

theorem foreign_reply_counts:
  "\<exists>r. Probe (Some True) pid (foreign_echo other (pid mod 65536)) \<lparr>pp_count = 0, pp_interval = 0, pp_timeout = 0\<rparr> = Some r \<and>
     rs_ok r \<and> rs_sent r = 4 \<and> rs_lost r = 0 \<and> (\<forall>n. \<forall>p. Some p \<in> set (at_reads (foreign_echo other (pid mod 65536) n)) \<longrightarrow> pk_from p = other)"
  by (simp add: Probe_def probe_withDefaults_def foreign_echo_def awaitReply_def numeral_eq_Suc upt_rec probe_result_def Let_def)

end
