(* ===== verification/Worker.thy ===== *)
theory Worker
  imports WorkerClient Probe
begin

text \<open>
  The agent and the executor of a worker (\<^verbatim>\<open>internal/worker/agent.go\<close>, \<^verbatim>\<open>executor.go\<close>, \<^verbatim>\<open>cmd/worker/main.go\<close>):
  registration, the heartbeat with key rotation and snapshot sync, the reconciliation of leased
  assignments, the bounded queue of measurements and the uploader. The goroutines interleave: a run
  is a sequence of events, each a tick of one of them. Agent and executor share one client; the
  executor has its own copy of the key it was made with.
\<close>

section \<open>State\<close>

record AgentConfig =
  ac_url :: string
  ac_token :: string
  ac_name :: string
  ac_dir :: string
  ac_pub :: bytes

record worker =
  wk_fs :: filesystem
  wk_client :: client
  wk_last_state :: string
  wk_waiting_since :: "time option"
  wk_last_wait_log :: "time option"
  wk_log :: "string list"
  wk_started :: bool
  wk_key :: bytes
  wk_running :: "(int \<times> Assignment) list"
  wk_cancelled :: "Assignment list"
  wk_queue :: "Observation list"
  wk_pending :: "Observation list"
  wk_submitted :: nat
  wk_last_upload :: time
  wk_upload_ms :: int

text \<open>What one event meets: failing file operations, the clock and random bytes of its calls by name, the random part of a file name, new keys, batch ids, how long the upload took.\<close>

record weather =
  wx_faults :: faults
  wx_call :: "string \<Rightarrow> nat \<Rightarrow> call"
  wx_tmp :: string
  wx_seed :: "nat \<Rightarrow> bytes option"
  wx_uuid :: "nat \<Rightarrow> string"
  wx_now :: time
  wx_elapsed :: int

section \<open>The agent\<close>

definition NewAgent :: "worker_env \<Rightarrow> faults \<Rightarrow> bytes option \<Rightarrow> AgentConfig \<Rightarrow> filesystem \<Rightarrow> worker option \<times> filesystem" where
  "NewAgent E F rnd cfg fs =
     (if F ''ensure'' then (None, fs)
      else case state_Key E F rnd (ac_dir cfg) fs of
        (None, fs') \<Rightarrow> (None, fs')
      | (Some key, fs') \<Rightarrow>
          (case state_WorkerID F (ac_dir cfg) fs' of
             None \<Rightarrow> (None, fs')
           | Some wid \<Rightarrow>
               (Some \<lparr>wk_fs = fs', wk_client = (NewClient (ac_url cfg) key)\<lparr>cl_worker_id := wid\<rparr>, wk_last_state = [],
                  wk_waiting_since = None, wk_last_wait_log = None, wk_log = [], wk_started = False, wk_key = key,
                  wk_running = [], wk_cancelled = [], wk_queue = [], wk_pending = [], wk_submitted = 0, wk_last_upload = 0, wk_upload_ms = 0\<rparr>, fs')))"

text \<open>At most 30 attempts; \<open>i\<close> counts them.\<close>

fun register_loop ::
  "nat \<Rightarrow> worker_env \<Rightarrow> 'w net \<Rightarrow> weather \<Rightarrow> AgentConfig \<Rightarrow> nat \<Rightarrow> client \<Rightarrow> 'w \<Rightarrow> (string \<times> string) option \<times> client \<times> 'w" where
  "register_loop 0 E net x cfg i c w = (None, c, w)"
| "register_loop (Suc n) E net x cfg i c w =
     (case client_Register E net (wx_call x ''register'' i) (ac_token cfg) (ac_name cfg) c w of
        (Inr r, c', w') \<Rightarrow> (Some r, c', w')
      | (Inl e, c', w') \<Rightarrow> register_loop n E net x cfg (i + 1) c' w')"

definition agent_register :: "worker_env \<Rightarrow> 'w net \<Rightarrow> weather \<Rightarrow> AgentConfig \<Rightarrow> worker \<Rightarrow> 'w \<Rightarrow> bool \<times> worker \<times> 'w" where
  "agent_register E net x cfg k w =
     (if ac_token cfg = [] then (False, k, w)
      else case register_loop 30 E net x cfg 0 (wk_client k) w of
        (None, c, w') \<Rightarrow> (False, k\<lparr>wk_client := c\<rparr>, w')
      | (Some (wid, st), c, w') \<Rightarrow>
          (case SaveWorkerID (wx_faults x) (ac_dir cfg) wid (wk_fs k) of
             (ok, fs) \<Rightarrow> (ok, k\<lparr>wk_client := c, wk_fs := fs\<rparr>, w')))"

definition add_log :: "string \<Rightarrow> worker \<Rightarrow> worker" where
  "add_log line k = k\<lparr>wk_log := wk_log k @ [line]\<rparr>"

definition noteState :: "string \<Rightarrow> worker \<Rightarrow> worker" where
  "noteState st k =
     (if st = wk_last_state k then k
      else
        (let line = (if wk_last_state k = [] then ''worker state''
                     else if wk_last_state k = ''pending'' \<and> st = ''active'' then ''worker approval detected'' else ''worker state changed'');
             k1 = (add_log line k)\<lparr>wk_last_state := st\<rparr> in
         if st \<noteq> ''pending'' then k1\<lparr>wk_waiting_since := None, wk_last_wait_log := None\<rparr> else k1))"

definition waitingReminder :: int where
  "waitingReminder = 10 * minute"

definition noteWaiting :: "time \<Rightarrow> worker \<Rightarrow> worker" where
  "noteWaiting now k =
     (case wk_waiting_since k of
        None \<Rightarrow> (add_log ''awaiting approval'' k)\<lparr>wk_waiting_since := Some now, wk_last_wait_log := Some now\<rparr>
      | Some since \<Rightarrow>
          (case wk_last_wait_log k of
             Some last_at \<Rightarrow>
               if now - last_at < waitingReminder then k
               else (add_log ''still awaiting approval'' k)\<lparr>wk_last_wait_log := Some now\<rparr>
           | None \<Rightarrow> (add_log ''still awaiting approval'' k)\<lparr>wk_last_wait_log := Some now\<rparr>))"

definition status_fields :: "worker_env \<Rightarrow> weather \<Rightarrow> AgentConfig \<Rightarrow> string \<Rightarrow> worker \<Rightarrow> (string \<times> json) list" where
  "status_fields E x cfg st k =
     [(''worker_id'', JStr (cl_worker_id (wk_client k))), (''state'', JStr st), (''software_version'', JStr (we_version E)),
      (''coordinator_url'', JStr (ac_url cfg)), (''snapshot_version'', JStr (SnapshotVersion (wx_faults x) (ac_dir cfg) (wk_fs k))),
      (''last_heartbeat_at'', JNum (of_int (wx_now x))), (''assignments'', JNum (of_nat (length (wk_running k)))),
      (''measurements_submitted'', JNum (of_nat (wk_submitted k))), (''last_upload_at'', JNum (of_int (wk_last_upload k))),
      (''last_upload_ms'', JNum (of_int (wk_upload_ms k))), (''queue_depth'', JNum (of_nat (length (wk_queue k))))]"

definition writeStatus :: "worker_env \<Rightarrow> weather \<Rightarrow> AgentConfig \<Rightarrow> string \<Rightarrow> worker \<Rightarrow> worker" where
  "writeStatus E x cfg st k =
     k\<lparr>wk_fs := snd (WriteStatus E (wx_faults x) (ac_dir cfg) (status_fields E x cfg st k) (JNum (of_int (wx_now x))) (wk_fs k))\<rparr>"

text \<open>The result tells whether the rotation succeeded.\<close>

definition agent_rotateKey :: "worker_env \<Rightarrow> 'w net \<Rightarrow> weather \<Rightarrow> AgentConfig \<Rightarrow> nat \<Rightarrow> worker \<Rightarrow> 'w \<Rightarrow> bool \<times> worker \<times> 'w" where
  "agent_rotateKey E net x cfg i k w =
     (case GenerateKey E (wx_seed x i) of
        None \<Rightarrow> (False, k, w)
      | Some nxt \<Rightarrow>
          (case client_RotateKey E net (wx_call x ''rotate'' i) (wk_client k) (ed_public (we_env E) nxt) w of
             (Inl e, w') \<Rightarrow> (False, k, w')
           | (Inr _, w') \<Rightarrow>
               (case ReplaceKey E (wx_faults x) (ac_dir cfg) nxt (wk_fs k) of
                  (ok, fs) \<Rightarrow>
                    if \<not> ok then (False, k\<lparr>wk_fs := fs\<rparr>, w')
                    else (True, k\<lparr>wk_fs := fs, wk_client := (wk_client k)\<lparr>cl_key := nxt\<rparr>\<rparr>, w'))))"

fun run_actions :: "worker_env \<Rightarrow> 'w net \<Rightarrow> weather \<Rightarrow> AgentConfig \<Rightarrow> nat \<Rightarrow> string list \<Rightarrow> worker \<Rightarrow> 'w \<Rightarrow> worker \<times> 'w" where
  "run_actions E net x cfg i [] k w = (k, w)"
| "run_actions E net x cfg i (action # rest) k w =
     (if action = ''rotate_key''
      then (case agent_rotateKey E net x cfg i k w of (ok, k', w') \<Rightarrow> run_actions E net x cfg (i + 1) rest k' w')
      else run_actions E net x cfg (i + 1) rest k w)"

text \<open>\<^verbatim>\<open>os.CreateTemp\<close> with the pattern of \<^verbatim>\<open>DownloadArtifact\<close>.\<close>

definition tmp_path :: "string \<Rightarrow> string \<Rightarrow> string" where
  "tmp_path dir r = dir @ ''/routing-'' @ r @ ''.sqlite.partial''"

text \<open>A version older than the installed one is only logged. The temporary file is removed at the end.\<close>

definition SyncSnapshot :: "worker_env \<Rightarrow> 'w net \<Rightarrow> weather \<Rightarrow> AgentConfig \<Rightarrow> worker \<Rightarrow> 'w \<Rightarrow> bool \<times> worker \<times> 'w" where
  "SyncSnapshot E net x cfg k w =
     (let F = wx_faults x; dir = ac_dir cfg in
      case client_CurrentManifest E net (wx_call x ''manifest'' 0) (wk_client k) w of
        (Inl e, w1) \<Rightarrow> (False, k, w1)
      | (Inr (m, path), w1) \<Rightarrow>
          if \<not> man_Verify (we_env E) (we_codec E) m (ac_pub cfg) then (False, k, w1)
          else if m_version m = SnapshotVersion F dir (wk_fs k) then (True, k, w1)
          else
            (case client_DownloadArtifact E F net (wx_call x ''download'' 0) (wk_client k) path (tmp_path dir (wx_tmp x)) (wk_fs k) w1 of
               (Inl e, fs1, w2) \<Rightarrow> (False, k\<lparr>wk_fs := fs1\<rparr>, w2)
             | (Inr tmp, fs1, w2) \<Rightarrow>
                 if \<not> VerifyFile (we_env E) (fs1 tmp) m then (False, k\<lparr>wk_fs := fs1(tmp := None)\<rparr>, w2)
                 else
                   (case InstallSnapshot F dir tmp (m_version m) fs1 of
                      (ok, fs2) \<Rightarrow> (ok, k\<lparr>wk_fs := fs2(tmp := None)\<rparr>, w2))))"

definition agent_tick :: "worker_env \<Rightarrow> 'w net \<Rightarrow> weather \<Rightarrow> AgentConfig \<Rightarrow> worker \<Rightarrow> 'w \<Rightarrow> worker \<times> 'w" where
  "agent_tick E net x cfg k w =
     (case client_Heartbeat E net (wx_call x ''heartbeat'' 0) (wk_client k) w of
        (Inl e, w1) \<Rightarrow> (k, w1)
      | (Inr hb, w1) \<Rightarrow>
          (let k1 = noteState (hb_state hb) (writeStatus E x cfg (hb_state hb) k) in
           if hb_state hb = ''pending'' then (noteWaiting (wx_now x) k1, w1)
           else if hb_state hb \<noteq> ''active'' \<and> hb_state hb \<noteq> ''quarantined'' then (k1, w1)
           else
             (case run_actions E net x cfg 0 (hb_actions hb) k1 w1 of
                (k2, w2) \<Rightarrow>
                  (case (case hb_snapshot hb of
                           None \<Rightarrow> (k2, w2)
                         | Some v \<Rightarrow>
                             if v \<noteq> SnapshotVersion (wx_faults x) (ac_dir cfg) (wk_fs k2)
                             then (case SyncSnapshot E net x cfg k2 w2 of (ok, k', w') \<Rightarrow> (k', w')) else (k2, w2)) of
                     (k3, w3) \<Rightarrow>
                       (if SnapshotVersion (wx_faults x) (ac_dir cfg) (wk_fs k3) \<noteq> [] then k3\<lparr>wk_started := True\<rparr> else k3, w3)))))"

text \<open>The loop: registration on the first boot, then a tick per entry of the list.\<close>

definition agent_Run :: "worker_env \<Rightarrow> 'w net \<Rightarrow> weather \<Rightarrow> weather list \<Rightarrow> AgentConfig \<Rightarrow> worker \<Rightarrow> 'w \<Rightarrow> bool \<times> worker \<times> 'w" where
  "agent_Run E net x xs cfg k w =
     (case (if cl_worker_id (wk_client k) = [] then agent_register E net x cfg k w else (True, k, w)) of
        (False, k1, w1) \<Rightarrow> (False, k1, w1)
      | (True, k1, w1) \<Rightarrow> (True, fold (\<lambda>y (k2, w2). agent_tick E net y cfg k2 w2) xs (k1, w1)))"

text \<open>The self-diagnosis: the number of failed checks.\<close>

definition Doctor :: "worker_env \<Rightarrow> 'w net \<Rightarrow> weather \<Rightarrow> AgentConfig \<Rightarrow> worker \<Rightarrow> 'w \<Rightarrow> nat \<times> worker \<times> 'w" where
  "Doctor E net x cfg k w =
     (case state_Key E (wx_faults x) (wx_seed x 0) (ac_dir cfg) (wk_fs k) of
        (key, fs) \<Rightarrow>
          (let k1 = k\<lparr>wk_fs := fs\<rparr>; bad = (\<lambda>b. if b then 1 else 0 :: nat);
               wid = (case state_WorkerID (wx_faults x) (ac_dir cfg) fs of None \<Rightarrow> [] | Some i \<Rightarrow> i);
               vers = bad (SnapshotVersion (wx_faults x) (ac_dir cfg) fs = []) in
           if wid = [] then (bad (key = None) + 1 + vers, k1, w)
           else case client_Heartbeat E net (wx_call x ''heartbeat'' 0) (wk_client k) w of
             (hb, w') \<Rightarrow> (bad (key = None) + bad (\<not> is_ok hb) + vers, k1, w')))"

section \<open>The executor\<close>

definition Capacity :: int where
  "Capacity = 64"

definition queue_size :: nat where
  "queue_size = 4096"

definition batch_size :: nat where
  "batch_size = 256"

definition targetInSnapshot :: "worker_env \<Rightarrow> AgentConfig \<Rightarrow> string \<Rightarrow> worker \<Rightarrow> bool" where
  "targetInSnapshot E cfg target k =
     (case wk_fs k (SnapshotPath (ac_dir cfg)) of
        None \<Rightarrow> False
      | Some file \<Rightarrow> (case we_targets E file of None \<Rightarrow> False | Some ts \<Rightarrow> target \<in> set ts))"

text \<open>The last assignment of an id counts. Assignments that are no longer held are stopped, new ones started when listed.\<close>

definition reconcile_running :: "worker_env \<Rightarrow> AgentConfig \<Rightarrow> Assignment list \<Rightarrow> worker \<Rightarrow> worker" where
  "reconcile_running E cfg leased k =
     (let current = map_of (rev (map (\<lambda>a. (as_id a, a)) leased));
          kept = filter (\<lambda>(i, a). current i \<noteq> None) (wk_running k);
          fresh = filter (\<lambda>i. i \<notin> fst ` set kept \<and> (case current i of None \<Rightarrow> False | Some a \<Rightarrow> targetInSnapshot E cfg (as_target a) k))
            (remdups (map as_id leased)) in
      k\<lparr>wk_running := kept @ map (\<lambda>i. (i, the (current i))) fresh,
        wk_cancelled := wk_cancelled k @ map snd (filter (\<lambda>(i, a). current i = None) (wk_running k))\<rparr>)"

definition executor_lease :: "worker_env \<Rightarrow> 'w net \<Rightarrow> weather \<Rightarrow> AgentConfig \<Rightarrow> worker \<Rightarrow> 'w \<Rightarrow> worker \<times> 'w" where
  "executor_lease E net x cfg k w =
     (case client_LeaseAssignments E net (wx_call x ''lease'' 0) (wk_client k) Capacity w of
        (Inl e, w') \<Rightarrow> (k, w')
      | (Inr leased, w') \<Rightarrow> (reconcile_running E cfg leased k, w'))"

definition stopAll :: "worker \<Rightarrow> worker" where
  "stopAll k = k\<lparr>wk_running := [], wk_cancelled := wk_cancelled k @ map snd (wk_running k)\<rparr>"

text \<open>A full queue loses its oldest entry.\<close>

definition enqueue_obs :: "Observation \<Rightarrow> Observation list \<Rightarrow> Observation list" where
  "enqueue_obs ob q = (if length q < queue_size then q @ [ob] else (let q' = drop 1 q in if length q' < queue_size then q' @ [ob] else q'))"

text \<open>One probe of a running assignment: \<open>prober\<close> is the result for the parsed target, \<^const>\<open>None\<close> an execution error.\<close>

definition execute :: "worker_env \<Rightarrow> time \<Rightarrow> (string \<rightharpoonup> (addr \<Rightarrow> Result option)) \<Rightarrow> Assignment \<Rightarrow> worker \<Rightarrow> worker" where
  "execute E now registry a k =
     (case registry_Get registry (as_probe_type a) of
        None \<Rightarrow> k
      | Some prober \<Rightarrow>
          (case ParseAddr (as_target a) of
             None \<Rightarrow> k
           | Some target \<Rightarrow>
               (case prober target of
                  None \<Rightarrow> k
                | Some res \<Rightarrow>
                    (case obs_Sign (we_env E) (we_marshal E) (wk_key k)
                        \<lparr>AssignmentID = as_id a, Target = as_target a, ProbeType = as_probe_type a, MeasuredAt = now, OK = rs_ok res,
                         RTTMillis = (if rs_ok res then Some (rs_rtt res) else None), PacketsSent = int (rs_sent res),
                         PacketsLost = int (rs_lost res), Metrics = rs_metrics res, Signature = []\<rparr> of
                       None \<Rightarrow> k
                     | Some ob \<Rightarrow> k\<lparr>wk_queue := enqueue_obs ob (wk_queue k)\<rparr>))))"

text \<open>
  How the loop of an assignment begins: it ends at once for an unknown probe type or a bad address, and
  \<^verbatim>\<open>rand.N\<close> panics, ending the process, unless the interval is positive; otherwise the
  first probe comes within the interval.
\<close>

datatype probe_start = Unsupported | BadTarget | Panics | FirstWithin int

definition probeLoop_start :: "(string \<rightharpoonup> (addr \<Rightarrow> Result option)) \<Rightarrow> Assignment \<Rightarrow> probe_start" where
  "probeLoop_start registry a =
     (if registry_Get registry (as_probe_type a) = None then Unsupported
      else if ParseAddr (as_target a) = None then BadTarget
      else if as_interval a \<le> 0 then Panics
      else FirstWithin (as_interval a))"

text \<open>A tick of the loop of assignment \<open>i\<close>, if it got that far.\<close>

definition probe_event :: "worker_env \<Rightarrow> time \<Rightarrow> (string \<rightharpoonup> (addr \<Rightarrow> Result option)) \<Rightarrow> int \<Rightarrow> worker \<Rightarrow> worker" where
  "probe_event E now registry i k =
     (case map_of (wk_running k) i of
        None \<Rightarrow> k
      | Some a \<Rightarrow> (case probeLoop_start registry a of FirstWithin n \<Rightarrow> execute E now registry a k | _ \<Rightarrow> k))"

text \<open>A probe that was under way when its assignment was stopped still delivers its result.\<close>

definition late_probe :: "worker_env \<Rightarrow> time \<Rightarrow> (string \<rightharpoonup> (addr \<Rightarrow> Result option)) \<Rightarrow> Assignment \<Rightarrow> worker \<Rightarrow> worker" where
  "late_probe E now registry a k =
     (if a \<in> set (wk_cancelled k) then execute E now registry a (k\<lparr>wk_cancelled := remove1 a (wk_cancelled k)\<rparr>) else k)"

text \<open>The upload loop; \<open>i\<close> numbers the batches.\<close>

function flush_loop :: "worker_env \<Rightarrow> 'w net \<Rightarrow> weather \<Rightarrow> nat \<Rightarrow> worker \<Rightarrow> 'w \<Rightarrow> worker \<times> 'w" where
  "flush_loop E net x i k w =
     (if wk_pending k = [] then (k, w)
      else
        (let n = (if length (wk_pending k) > batch_size then batch_size else length (wk_pending k)) in
         case client_UploadObservations E net (wx_call x ''upload'' i) (wk_client k) (wx_uuid x i) (take n (wk_pending k)) w of
           (Inl e, w') \<Rightarrow> (k, w')
         | (Inr _, w') \<Rightarrow>
             flush_loop E net x (i + 1)
               (k\<lparr>wk_submitted := wk_submitted k + n, wk_last_upload := wx_now x, wk_upload_ms := wx_elapsed x, wk_pending := drop n (wk_pending k)\<rparr>) w'))"
  by pat_completeness auto
termination
  by (relation "measure (\<lambda>(E, net, x, i, k, w). length (wk_pending k))") (auto simp: batch_size_def)

declare flush_loop.simps [simp del]

definition uploader_receive :: "worker_env \<Rightarrow> 'w net \<Rightarrow> weather \<Rightarrow> worker \<Rightarrow> 'w \<Rightarrow> worker \<times> 'w" where
  "uploader_receive E net x k w =
     (case wk_queue k of
        [] \<Rightarrow> (k, w)
      | ob # q \<Rightarrow>
          (let k1 = k\<lparr>wk_queue := q, wk_pending := wk_pending k @ [ob]\<rparr> in
           if length (wk_pending k1) \<ge> batch_size then flush_loop E net x 0 k1 w else (k1, w)))"

text \<open>Shutdown: the assignments are stopped, the queue is drained and flushed once.\<close>

definition uploader_drain :: "worker_env \<Rightarrow> 'w net \<Rightarrow> weather \<Rightarrow> worker \<Rightarrow> 'w \<Rightarrow> worker \<times> 'w" where
  "uploader_drain E net x k w = flush_loop E net x 0 (k\<lparr>wk_pending := wk_pending k @ wk_queue k, wk_queue := []\<rparr>) w"

section \<open>Interleaving\<close>

datatype worker_event =
    Registration
  | HeartbeatTick
  | LeaseTick
  | ProbeDone int "string \<rightharpoonup> (addr \<Rightarrow> Result option)"
  | LateProbe Assignment "string \<rightharpoonup> (addr \<Rightarrow> Result option)"
  | Receive
  | FlushTick
  | Shutdown

definition worker_handle :: "worker_env \<Rightarrow> AgentConfig \<Rightarrow> 'w net \<Rightarrow> weather \<Rightarrow> worker_event \<Rightarrow> worker \<Rightarrow> 'w \<Rightarrow> worker \<times> 'w" where
  "worker_handle E cfg net x ev k w =
     (case ev of
        Registration \<Rightarrow>
          if cl_worker_id (wk_client k) = [] then (case agent_register E net x cfg k w of (ok, k', w') \<Rightarrow> (k', w')) else (k, w)
      | HeartbeatTick \<Rightarrow> agent_tick E net x cfg k w
      | LeaseTick \<Rightarrow> if wk_started k then executor_lease E net x cfg k w else (k, w)
      | ProbeDone i registry \<Rightarrow> (probe_event E (wx_now x) registry i k, w)
      | LateProbe a registry \<Rightarrow> (late_probe E (wx_now x) registry a k, w)
      | Receive \<Rightarrow> if wk_started k then uploader_receive E net x k w else (k, w)
      | FlushTick \<Rightarrow> if wk_started k then flush_loop E net x 0 k w else (k, w)
      | Shutdown \<Rightarrow> uploader_drain E net x (stopAll k) w)"

text \<open>
  The network may answer anything, differently at every call: the world is a counter, and the
  function is another one at every step.
\<close>

inductive worker_step :: "worker_env \<Rightarrow> AgentConfig \<Rightarrow> worker \<Rightarrow> worker \<Rightarrow> bool" for E cfg where
  step: "worker_handle E cfg (net :: nat net) x ev k w = (k', w') \<Longrightarrow> worker_step E cfg k k'"

inductive_cases worker_stepE: "worker_step E cfg k k'"

section \<open>Files\<close>

lemma write_file_other: "q \<noteq> p \<Longrightarrow> snd (write_file F p c fs) q = fs q"
  by (simp add: write_file_def)

lemma rename_file_other: "q \<noteq> a \<Longrightarrow> q \<noteq> b \<Longrightarrow> snd (rename_file F a b fs) q = fs q"
  by (simp add: rename_file_def split: option.split)

lemmas paths = keyPath_def idPath_def SnapshotPath_def versionPath_def StatusPath_def tmp_path_def

lemmas file_frames = write_file_other rename_file_other case_prod_beta Let_def paths

lemma WriteStatus_snapshot [simp]: "snd (WriteStatus E F dir st u fs) (SnapshotPath dir) = fs (SnapshotPath dir)"
  by (simp add: WriteStatus_def file_frames split: option.split)

lemma ReplaceKey_snapshot [simp]: "snd (ReplaceKey E F dir priv fs) (SnapshotPath dir) = fs (SnapshotPath dir)"
  by (simp add: ReplaceKey_def file_frames)

section \<open>What a worker never does\<close>

text \<open>A file that matches a manifest signed with the pinned key, and the addresses such files list.\<close>

definition verified_file :: "worker_env \<Rightarrow> AgentConfig \<Rightarrow> bytes \<Rightarrow> bool" where
  "verified_file E cfg file \<longleftrightarrow> (\<exists>m. man_Verify (we_env E) (we_codec E) m (ac_pub cfg) \<and> VerifyFile (we_env E) (Some file) m)"

definition listed :: "worker_env \<Rightarrow> AgentConfig \<Rightarrow> string \<Rightarrow> bool" where
  "listed E cfg target \<longleftrightarrow> (\<exists>file ts. verified_file E cfg file \<and> we_targets E file = Some ts \<and> target \<in> set ts)"

definition snapshot_ok :: "worker_env \<Rightarrow> AgentConfig \<Rightarrow> filesystem \<Rightarrow> bool" where
  "snapshot_ok E cfg fs \<longleftrightarrow> (\<forall>file. fs (SnapshotPath (ac_dir cfg)) = Some file \<longrightarrow> verified_file E cfg file)"

definition obs_ok :: "worker_env \<Rightarrow> AgentConfig \<Rightarrow> bytes \<Rightarrow> Observation \<Rightarrow> bool" where
  "obs_ok E cfg key ob \<longleftrightarrow> listed E cfg (Target ob) \<and> obs_Verify (we_env E) (we_marshal E) (ed_public (we_env E) key) ob"

definition worker_inv :: "worker_env \<Rightarrow> AgentConfig \<Rightarrow> worker \<Rightarrow> bool" where
  "worker_inv E cfg k \<longleftrightarrow> snapshot_ok E cfg (wk_fs k) \<and> length (wk_queue k) \<le> queue_size \<and> distinct (map fst (wk_running k)) \<and>
     (\<forall>a \<in> snd ` set (wk_running k) \<union> set (wk_cancelled k). listed E cfg (as_target a)) \<and>
     (\<forall>ob \<in> set (wk_queue k) \<union> set (wk_pending k). obs_ok E cfg (wk_key k) ob)"

text \<open>The agent leaves the work of the executor alone.\<close>

definition same_work :: "worker \<Rightarrow> worker \<Rightarrow> bool" where
  "same_work k k' \<longleftrightarrow> wk_running k' = wk_running k \<and> wk_cancelled k' = wk_cancelled k \<and> wk_queue k' = wk_queue k \<and>
     wk_pending k' = wk_pending k \<and> wk_key k' = wk_key k"

lemma same_work_inv: "same_work k k' \<Longrightarrow> worker_inv E cfg k \<Longrightarrow> snapshot_ok E cfg (wk_fs k') \<Longrightarrow> worker_inv E cfg k'"
  by (simp add: same_work_def worker_inv_def)

lemma snapshot_ok_same: "snapshot_ok E cfg fs \<Longrightarrow> fs' (SnapshotPath (ac_dir cfg)) = fs (SnapshotPath (ac_dir cfg)) \<Longrightarrow> snapshot_ok E cfg fs'"
  by (simp add: snapshot_ok_def)

lemma noteState_frame [simp]: "same_work k (noteState st k)" "wk_fs (noteState st k) = wk_fs k"
  by (simp_all add: noteState_def add_log_def same_work_def Let_def)

lemma noteWaiting_frame [simp]: "same_work k (noteWaiting now k)" "wk_fs (noteWaiting now k) = wk_fs k"
  by (simp_all add: noteWaiting_def add_log_def same_work_def split: option.split)

lemma writeStatus_frame [simp]:
  "same_work k (writeStatus E x cfg st k)" "wk_fs (writeStatus E x cfg st k) (SnapshotPath (ac_dir cfg)) = wk_fs k (SnapshotPath (ac_dir cfg))"
  by (simp_all add: writeStatus_def same_work_def)

lemma same_work_trans: "same_work k1 k2 \<Longrightarrow> same_work k2 k3 \<Longrightarrow> same_work k1 k3"
  by (simp add: same_work_def)

lemma ReplaceKey_snapshotD: "ReplaceKey E F dir priv fs = (ok, fs') \<Longrightarrow> fs' (SnapshotPath dir) = fs (SnapshotPath dir)"
  by (metis ReplaceKey_snapshot snd_conv)

lemma rotate_frame:
  assumes "agent_rotateKey E net x cfg i k w = (ok, k', w')"
  shows "same_work k k' \<and> wk_fs k' (SnapshotPath (ac_dir cfg)) = wk_fs k (SnapshotPath (ac_dir cfg))"
  using assms by (auto simp: agent_rotateKey_def same_work_def split: option.split_asm prod.split_asm sum.split_asm if_split_asm dest: ReplaceKey_snapshotD)

lemma actions_frame:
  "run_actions E net x cfg i as k w = (k', w') \<Longrightarrow> same_work k k' \<and> wk_fs k' (SnapshotPath (ac_dir cfg)) = wk_fs k (SnapshotPath (ac_dir cfg))"
proof (induction as arbitrary: i k w)
  case (Cons a as)
  show ?case
  proof (cases "a = ''rotate_key''")
    case True
    obtain ok k1 w1 where r: "agent_rotateKey E net x cfg i k w = (ok, k1, w1)" by (metis prod_cases3)
    then have "run_actions E net x cfg (i + 1) as k1 w1 = (k', w')" using Cons.prems True by simp
    from Cons.IH [OF this] rotate_frame [OF r] show ?thesis using same_work_trans by auto
  qed (use Cons in auto)
qed (simp add: same_work_def)

lemma download_facts:
  assumes "client_DownloadArtifact E F net cal c path tmp fs w = (r, fs', w')"
  shows "\<And>q. q \<noteq> tmp \<Longrightarrow> fs' q = fs q" "\<And>t. r = Inr t \<Longrightarrow> t = tmp"
  using assms by (auto simp: client_DownloadArtifact_def Let_def split: option.split_asm prod.split_asm if_split_asm)

lemma install_facts:
  assumes "InstallSnapshot F dir tmp v fs = (ok, fs')"
  shows "fs' (SnapshotPath dir) = fs (SnapshotPath dir) \<or> fs' (SnapshotPath dir) = fs tmp"
  using assms by (auto simp: InstallSnapshot_def rename_file_def write_file_def paths split: option.split_asm if_split_asm)

lemma sync_frame:
  assumes "SyncSnapshot E net x cfg k w = (ok, k', w')"
  shows "same_work k k' \<and> (snapshot_ok E cfg (wk_fs k) \<longrightarrow> snapshot_ok E cfg (wk_fs k'))"
proof -
  let ?dir = "ac_dir cfg" let ?tmp = "tmp_path ?dir (wx_tmp x)" let ?S = "SnapshotPath ?dir"
  obtain r w1 where m: "client_CurrentManifest E net (wx_call x ''manifest'' 0) (wk_client k) w = (r, w1)" by fastforce
  consider (same) "k' = k" | (get) man path where "r = Inr (man, path)" "man_Verify (we_env E) (we_codec E) man (ac_pub cfg)"
    "man_Verify (we_env E) (we_codec E) man (ac_pub cfg) \<and> m_version man \<noteq> SnapshotVersion (wx_faults x) ?dir (wk_fs k)"
    using assms(1) m by (auto simp: SyncSnapshot_def Let_def split: sum.split_asm if_split_asm)
  then show ?thesis
  proof cases
    case same
    then show ?thesis by (simp add: same_work_def)
  next
    case (get man path)
    obtain d fs1 w2 where d: "client_DownloadArtifact E (wx_faults x) net (wx_call x ''download'' 0) (wk_client k) path ?tmp (wk_fs k) w1 = (d, fs1, w2)"
      by (metis prod_cases3)
    note df = download_facts [OF d]
    have ne: "?S \<noteq> ?tmp" by (simp add: paths)
    have s1: "fs1 ?S = wk_fs k ?S" using df(1) [OF ne] .
    obtain ok2 fs2 where i: "InstallSnapshot (wx_faults x) ?dir ?tmp (m_version man) fs1 = (ok2, fs2)" by fastforce
    have "same_work k k' \<and> (wk_fs k' ?S = fs1 ?S \<or> (VerifyFile (we_env E) (fs1 ?tmp) man \<and> wk_fs k' ?S = fs2 ?S))"
      using assms(1) m get d df(2) i ne
      by (auto simp: SyncSnapshot_def Let_def same_work_def split: sum.split_asm if_split_asm)
    moreover have "verified_file E cfg b" if "VerifyFile (we_env E) (fs1 ?tmp) man" "fs1 ?tmp = Some b" for b
      using that get(2) by (auto simp: verified_file_def)
    ultimately show ?thesis using install_facts [OF i] s1 by (auto simp: snapshot_ok_def)
  qed
qed

lemma tick_frame:
  assumes "agent_tick E net x cfg k w = (k', w')"
  shows "same_work k k' \<and> (snapshot_ok E cfg (wk_fs k) \<longrightarrow> snapshot_ok E cfg (wk_fs k'))"
proof (cases "client_Heartbeat E net (wx_call x ''heartbeat'' 0) (wk_client k) w")
  case (Pair r w1)
  show ?thesis
  proof (cases r)
    case (Inl e)
    then show ?thesis using assms Pair by (simp add: agent_tick_def same_work_def)
  next
    case (Inr hb)
    let ?k1 = "noteState (hb_state hb) (writeStatus E x cfg (hb_state hb) k)"
    have w1: "same_work k ?k1" using same_work_trans [OF writeStatus_frame(1) noteState_frame(1)] .
    have s1: "snapshot_ok E cfg (wk_fs k) \<Longrightarrow> snapshot_ok E cfg (wk_fs ?k1)" by (simp add: snapshot_ok_def)
    obtain k2 w2 where a: "run_actions E net x cfg 0 (hb_actions hb) ?k1 w1 = (k2, w2)" by fastforce
    note af = actions_frame [OF a]
    have s2: "snapshot_ok E cfg (wk_fs k) \<Longrightarrow> snapshot_ok E cfg (wk_fs k2)" using af s1 by (simp add: snapshot_ok_def)
    obtain ok k3 w3 where y: "SyncSnapshot E net x cfg k2 w2 = (ok, k3, w3)" by (metis prod_cases3)
    note yf = sync_frame [OF y]
    have "k' \<in> {noteWaiting (wx_now x) ?k1, ?k1, k2, k3, k2\<lparr>wk_started := True\<rparr>, k3\<lparr>wk_started := True\<rparr>}"
      using assms Pair Inr a y by (auto simp: agent_tick_def Let_def split: if_split_asm option.split_asm)
    moreover have "same_work k (noteWaiting (wx_now x) ?k1)" "same_work k k2" "same_work k k3"
      using same_work_trans [OF w1] same_work_trans [of k k2 k3] af yf by auto
    moreover have "same_work k (k2\<lparr>wk_started := True\<rparr>)" "same_work k (k3\<lparr>wk_started := True\<rparr>)"
      using calculation(3,4) by (simp_all add: same_work_def)
    ultimately show ?thesis using w1 s1 s2 yf by auto
  qed
qed

lemma listed_installed:
  assumes "snapshot_ok E cfg (wk_fs k)" "targetInSnapshot E cfg t k"
  shows "listed E cfg t"
  using assms by (auto simp: targetInSnapshot_def snapshot_ok_def listed_def split: option.split_asm)

lemma reconcile_inv:
  assumes "worker_inv E cfg k"
  shows "worker_inv E cfg (reconcile_running E cfg leased k)"
proof -
  let ?cur = "map_of (rev (map (\<lambda>a. (as_id a, a)) leased))"
  let ?kept = "filter (\<lambda>(i, a). ?cur i \<noteq> None) (wk_running k)"
  let ?fresh = "filter (\<lambda>i. i \<notin> fst ` set ?kept \<and> (case ?cur i of None \<Rightarrow> False | Some a \<Rightarrow> targetInSnapshot E cfg (as_target a) k)) (remdups (map as_id leased))"
  have r: "reconcile_running E cfg leased k = k\<lparr>wk_running := ?kept @ map (\<lambda>i. (i, the (?cur i))) ?fresh,
      wk_cancelled := wk_cancelled k @ map snd (filter (\<lambda>(i, a). ?cur i = None) (wk_running k))\<rparr>"
    by (simp add: reconcile_running_def Let_def)
  have "distinct (map fst ?kept)" using assms by (simp add: worker_inv_def distinct_map_filter)
  moreover have "map fst (map (\<lambda>i. (i, the (?cur i))) ?fresh) = ?fresh" by (simp add: comp_def)
  ultimately have d: "distinct (map fst (?kept @ map (\<lambda>i. (i, the (?cur i))) ?fresh))" by (auto simp del: map_map)
  have l: "listed E cfg (as_target (the (?cur i)))" if "i \<in> set ?fresh" for i
    using that assms listed_installed by (auto simp: worker_inv_def split: option.split_asm)
  have kept: "snd ` set (filter P (wk_running k)) \<subseteq> snd ` set (wk_running k)" for P by auto
  have "listed E cfg (as_target a)" if "a \<in> snd ` set (?kept @ map (\<lambda>i. (i, the (?cur i))) ?fresh) \<union>
      set (wk_cancelled k @ map snd (filter (\<lambda>(i, a). ?cur i = None) (wk_running k)))" for a
  proof -
    have "a \<in> snd ` set (wk_running k) \<union> set (wk_cancelled k) \<or> a \<in> (\<lambda>i. the (?cur i)) ` set ?fresh"
      using that kept unfolding set_append set_map image_Un image_image snd_conv by blast
    then show ?thesis using l assms unfolding worker_inv_def by blast
  qed
  then show ?thesis using assms d unfolding r worker_inv_def by simp
qed

lemma enqueue_obs_facts:
  "length q \<le> queue_size \<Longrightarrow> length (enqueue_obs ob q) \<le> queue_size" "set (enqueue_obs ob q) \<subseteq> insert ob (set q)" "ob \<in> set (enqueue_obs ob q)"
  if "length q \<le> queue_size"
  using that by (auto simp: enqueue_obs_def Let_def queue_size_def dest: in_set_dropD)

lemma execute_inv:
  assumes "worker_inv E cfg k" "ed25519_ok (we_env E)" "listed E cfg (as_target a)"
  shows "worker_inv E cfg (execute E now registry a k)"
proof (cases "execute E now registry a k = k")
  case False
  then obtain ob o1 where o: "execute E now registry a k = k\<lparr>wk_queue := enqueue_obs ob (wk_queue k)\<rparr>"
    "obs_Sign (we_env E) (we_marshal E) (wk_key k) o1 = Some ob" "Target o1 = as_target a"
    by (auto simp: execute_def split: option.split_asm)
  note v = observation_sign_verify [OF assms(2) o(2)]
  have "Target ob = as_target a" using conjunct2 [OF v, THEN arg_cong [where f = Target]] o(3) by simp
  then have "obs_ok E cfg (wk_key k) ob" using v assms(3) by (simp add: obs_ok_def)
  moreover have q: "length (wk_queue k) \<le> queue_size" using assms(1) by (simp add: worker_inv_def)
  ultimately show ?thesis using assms(1) enqueue_obs_facts [OF q, of ob] by (auto simp: o(1) worker_inv_def)
qed (use assms in simp)

lemma probe_event_inv:
  assumes "worker_inv E cfg k" "ed25519_ok (we_env E)"
  shows "worker_inv E cfg (probe_event E now registry i k)"
proof (cases "map_of (wk_running k) i")
  case (Some a)
  then have "a \<in> snd ` set (wk_running k)" by (force dest: map_of_SomeD)
  then have "listed E cfg (as_target a)" using assms(1) unfolding worker_inv_def by blast
  then show ?thesis using Some assms execute_inv [OF assms] by (simp add: probe_event_def split: probe_start.split)
qed (use assms in \<open>simp add: probe_event_def\<close>)

lemma late_probe_inv:
  assumes "worker_inv E cfg k" "ed25519_ok (we_env E)"
  shows "worker_inv E cfg (late_probe E now registry a k)"
proof (cases "a \<in> set (wk_cancelled k)")
  case True
  have "worker_inv E cfg (k\<lparr>wk_cancelled := remove1 a (wk_cancelled k)\<rparr>)"
    using assms(1) notin_set_remove1 by (auto simp: worker_inv_def)
  moreover have "listed E cfg (as_target a)" using assms(1) True by (auto simp: worker_inv_def)
  ultimately show ?thesis using True assms(2) execute_inv by (simp add: late_probe_def)
qed (use assms in \<open>simp add: late_probe_def\<close>)

section \<open>The uploader\<close>

text \<open>A sequence of batches, each acknowledged by the coordinator, with the calls numbered from \<open>i\<close>.\<close>

fun acked :: "worker_env \<Rightarrow> 'w net \<Rightarrow> weather \<Rightarrow> client \<Rightarrow> nat \<Rightarrow> Observation list list \<Rightarrow> 'w \<Rightarrow> 'w \<Rightarrow> bool" where
  "acked E net x c i [] w w' \<longleftrightarrow> w' = w"
| "acked E net x c i (b # bs) w w' \<longleftrightarrow>
     (\<exists>w1. client_UploadObservations E net (wx_call x ''upload'' i) c (wx_uuid x i) b w = (Inr (), w1) \<and> acked E net x c (i + 1) bs w1 w')"

definition flushed :: "worker \<Rightarrow> worker \<Rightarrow> bool" where
  "flushed k k' \<longleftrightarrow> wk_fs k' = wk_fs k \<and> wk_client k' = wk_client k \<and> wk_running k' = wk_running k \<and> wk_cancelled k' = wk_cancelled k \<and>
     wk_queue k' = wk_queue k \<and> wk_key k' = wk_key k"

definition flush_result :: "worker_env \<Rightarrow> 'w net \<Rightarrow> weather \<Rightarrow> nat \<Rightarrow> worker \<Rightarrow> 'w \<Rightarrow> worker \<Rightarrow> 'w \<Rightarrow> Observation list list \<Rightarrow> 'w \<Rightarrow> bool" where
  "flush_result E net x i k w k' w' bs w1 \<longleftrightarrow>
     wk_pending k = concat bs @ wk_pending k' \<and> acked E net x (wk_client k) i bs w w1 \<and>
     (\<forall>b \<in> set bs. b \<noteq> [] \<and> length b \<le> batch_size) \<and> length bs * batch_size < length (wk_pending k) + batch_size \<and>
     wk_submitted k' = wk_submitted k + length (concat bs) \<and>
     (wk_pending k' = [] \<and> w' = w1 \<or>
      (\<exists>e. client_UploadObservations E net (wx_call x ''upload'' (i + length bs)) (wk_client k) (wx_uuid x (i + length bs))
         (take batch_size (wk_pending k')) w1 = (Inl e, w')))"

lemma flush_result_step:
  assumes "client_UploadObservations E net (wx_call x ''upload'' i) (wk_client k) (wx_uuid x i) (take batch_size (wk_pending k)) w = (Inr (), w1)"
    and "flush_result E net x (i + 1) kn w1 k' w' bs w2" "wk_pending kn = drop batch_size (wk_pending k)" "wk_client kn = wk_client k"
    and "wk_submitted kn = wk_submitted k + length (take batch_size (wk_pending k))" "wk_pending k \<noteq> []"
  shows "flush_result E net x i k w k' w' (take batch_size (wk_pending k) # bs) w2"
proof -
  let ?p = "wk_pending k"
  have bs: "0 < batch_size" by (simp add: batch_size_def)
  have d: "drop batch_size ?p = concat bs @ wk_pending k'" using assms(2,3) by (simp add: flush_result_def)
  have "?p = concat (take batch_size ?p # bs) @ wk_pending k'"
    using append_take_drop_id [of batch_size ?p] unfolding d by simp
  moreover have "length (take batch_size ?p # bs) * batch_size < length ?p + batch_size"
  proof (cases "batch_size \<le> length ?p")
    case True
    have "length bs * batch_size < length (wk_pending kn) + batch_size" using assms(2) unfolding flush_result_def by blast
    then show ?thesis using True assms(3) by simp
  next
    case False
    then have "concat bs = []" using assms(2,3) by (simp add: flush_result_def)
    then have "bs = []" using assms(2) by (cases bs) (auto simp: flush_result_def)
    then show ?thesis using assms(6) by (simp add: length_greater_0_conv)
  qed
  moreover have "take batch_size ?p \<noteq> []" using assms(6) bs by simp
  ultimately show ?thesis using assms by (simp add: flush_result_def)
qed

lemma flush_loop_facts:
  "flush_loop E net x i k w = (k', w') \<Longrightarrow> flushed k k' \<and> (\<exists>bs w1. flush_result E net x i k w k' w' bs w1)"
proof (induction E net x i k w rule: flush_loop.induct)
  case (1 E net x i k w)
  let ?p = "wk_pending k" let ?n = "if length ?p > batch_size then batch_size else length ?p"
  have t: "take ?n ?p = take batch_size ?p" "drop ?n ?p = drop batch_size ?p" "?n = length (take batch_size ?p)" by simp_all
  show ?case
  proof (cases "?p = []")
    case True
    then have "flush_result E net x i k w k' w' [] w" "k' = k" using "1.prems" by (auto simp: flush_loop.simps flush_result_def batch_size_def)
    then show ?thesis unfolding flushed_def by blast
  next
    case False
    obtain r w1 where u: "client_UploadObservations E net (wx_call x ''upload'' i) (wk_client k) (wx_uuid x i) (take ?n ?p) w = (r, w1)" by fastforce
    show ?thesis
    proof (cases r)
      case (Inl e)
      then have "k' = k" "w' = w1" using "1.prems" False u by (auto simp: flush_loop.simps [of E net x i k w] Let_def)
      then have "flush_result E net x i k w k' w' [] w" using u Inl unfolding t(1) by (simp add: flush_result_def batch_size_def)
      then show ?thesis using \<open>k' = k\<close> unfolding flushed_def by blast
    next
      case (Inr u1)
      let ?k = "k\<lparr>wk_submitted := wk_submitted k + ?n, wk_last_upload := wx_now x, wk_upload_ms := wx_elapsed x, wk_pending := drop ?n ?p\<rparr>"
      have l: "flush_loop E net x (i + 1) ?k w1 = (k', w')"
        using "1.prems" False u Inr by (simp add: flush_loop.simps [of E net x i k w] Let_def)
      have ih: "flushed ?k k' \<and> (\<exists>bs w2. flush_result E net x (i + 1) ?k w1 k' w' bs w2)" by (rule "1.IH" [OF False refl u [symmetric] Inr l])
      then obtain bs w2 where "flush_result E net x (i + 1) ?k w1 k' w' bs w2" by blast
      then have "flush_result E net x i k w k' w' (take batch_size ?p # bs) w2"
        using u Inr False unfolding t(1) by (intro flush_result_step [where kn = ?k]) (simp_all add: t(2))
      then show ?thesis using ih unfolding flushed_def by auto
    qed
  qed
qed

lemma flush_inv:
  assumes "flush_loop E net x i k w = (k', w')" "worker_inv E cfg k"
  shows "worker_inv E cfg k'"
proof -
  obtain bs w1 where f: "flushed k k'" "flush_result E net x i k w k' w' bs w1" using flush_loop_facts [OF assms(1)] by blast
  have "set (wk_pending k') \<subseteq> set (wk_pending k)" using f(2) unfolding flush_result_def by (metis Un_upper2 set_append)
  then show ?thesis using f(1) assms(2) by (auto simp: worker_inv_def flushed_def)
qed

section \<open>Runs\<close>

lemma register_frame:
  assumes "agent_register E net x cfg k w = (ok, k', w')"
  shows "same_work k k' \<and> wk_fs k' (SnapshotPath (ac_dir cfg)) = wk_fs k (SnapshotPath (ac_dir cfg))"
proof -
  have "snd (SaveWorkerID F dir wid fs) (SnapshotPath dir) = fs (SnapshotPath dir)" for F dir wid fs
    by (simp add: SaveWorkerID_def file_frames)
  then have "SaveWorkerID F dir wid fs = (ok1, fs1) \<Longrightarrow> fs1 (SnapshotPath dir) = fs (SnapshotPath dir)" for F dir wid fs ok1 fs1
    by (metis snd_conv)
  then show ?thesis
    using assms by (auto simp: agent_register_def same_work_def split: if_split_asm prod.split_asm option.split_asm)
qed

lemma handle_inv:
  assumes "worker_handle E cfg net x ev k w = (k', w')" "worker_inv E cfg k" "ed25519_ok (we_env E)"
  shows "worker_inv E cfg k'"
proof (cases ev)
  case Registration
  have ok: "snapshot_ok E cfg (wk_fs k)" using assms(2) by (simp add: worker_inv_def)
  show ?thesis
  proof (cases "cl_worker_id (wk_client k) = []")
    case True
    then obtain r where "agent_register E net x cfg k w = (r, k', w')"
      using assms(1) Registration by (auto simp: worker_handle_def split: prod.split_asm)
    from register_frame [OF this] show ?thesis using same_work_inv assms(2) snapshot_ok_same [OF ok] by blast
  qed (use assms Registration in \<open>simp add: worker_handle_def\<close>)
next
  case HeartbeatTick
  then have "agent_tick E net x cfg k w = (k', w')" using assms(1) by (simp add: worker_handle_def)
  note tf = tick_frame [OF this]
  have "snapshot_ok E cfg (wk_fs k)" using assms(2) by (simp add: worker_inv_def)
  then show ?thesis using same_work_inv [OF _ assms(2)] tf by blast
next
  case LeaseTick
  then show ?thesis using assms reconcile_inv by (auto simp: worker_handle_def executor_lease_def split: if_split_asm prod.split_asm sum.split_asm)
next
  case (ProbeDone i registry)
  then show ?thesis using assms probe_event_inv by (auto simp: worker_handle_def)
next
  case (LateProbe a registry)
  then show ?thesis using assms late_probe_inv by (auto simp: worker_handle_def)
next
  case Receive
  have "worker_inv E cfg (k\<lparr>wk_queue := q, wk_pending := wk_pending k @ [ob]\<rparr>)" if "wk_queue k = ob # q" for ob q
    using assms(2) that by (auto simp: worker_inv_def)
  then show ?thesis using assms Receive flush_inv
    by (fastforce simp: worker_handle_def uploader_receive_def Let_def split: if_split_asm list.split_asm)
next
  case FlushTick
  then show ?thesis using assms flush_inv by (auto simp: worker_handle_def split: if_split_asm)
next
  case Shutdown
  have "worker_inv E cfg ((stopAll k)\<lparr>wk_pending := wk_pending (stopAll k) @ wk_queue (stopAll k), wk_queue := []\<rparr>)"
    using assms(2) by (auto simp: worker_inv_def stopAll_def queue_size_def)
  then show ?thesis using assms(1) Shutdown flush_inv by (auto simp: worker_handle_def uploader_drain_def)
qed

interpretation wk: invariant_system "worker_step E cfg" "\<lambda>k. ed25519_ok (we_env E) \<and> worker_inv E cfg k" for E cfg
  by unfold_locales (auto elim!: worker_stepE intro: handle_inv)

lemma NewAgent_inv:
  assumes "NewAgent E F rnd cfg fs = (Some k, fs')" "snapshot_ok E cfg fs"
  shows "worker_inv E cfg k"
proof -
  have "snd (state_Key E F rnd dir fs) (SnapshotPath dir) = fs (SnapshotPath dir)" for dir
    by (simp add: state_Key_def file_frames split: file_read.split option.split)
  then have "state_Key E F rnd dir fs = (r, fs1) \<Longrightarrow> fs1 (SnapshotPath dir) = fs (SnapshotPath dir)" for dir r fs1 by (metis snd_conv)
  then show ?thesis
    using assms by (auto simp: NewAgent_def worker_inv_def snapshot_ok_def split: if_split_asm prod.split_asm option.split_asm)
qed

text \<open>
  C9. Whatever the coordinator and the network answer, a worker installs only snapshots that match a
  manifest signed with its pinned key, probes only addresses that such a snapshot lists, and holds for
  upload only measurements of such addresses, each signed with its own key. Its queue never holds more than
  4096 measurements.
\<close>

theorem worker_probes_only_listed:
  assumes "NewAgent E F rnd cfg fs = (Some k0, fs0)" and "\<forall>f. fs (SnapshotPath (ac_dir cfg)) = Some f \<longrightarrow> verified_file E cfg f"
    and "ed25519_ok (we_env E)" and "(worker_step E cfg)\<^sup>*\<^sup>* k0 k"
  shows "(\<forall>f. wk_fs k (SnapshotPath (ac_dir cfg)) = Some f \<longrightarrow> verified_file E cfg f) \<and>
    (\<forall>(i, a) \<in> set (wk_running k). listed E cfg (as_target a)) \<and>
    (\<forall>ob \<in> set (wk_queue k) \<union> set (wk_pending k). listed E cfg (Target ob) \<and>
       obs_Verify (we_env E) (we_marshal E) (ed_public (we_env E) (wk_key k)) ob) \<and>
    length (wk_queue k) \<le> 4096"
proof -
  have "worker_inv E cfg k0" using NewAgent_inv [OF assms(1)] assms(2) by (simp add: snapshot_ok_def)
  then have "worker_inv E cfg k" using wk.reachable_inv [OF assms(4)] assms(3) by blast
  then show ?thesis by (force simp: worker_inv_def snapshot_ok_def obs_ok_def queue_size_def)
qed

text \<open>
  C37. A flush ends, and loses nothing: it sends the measurements in order, in batches of at most 256,
  at most one more than a 256th of their number; exactly those of the acknowledged batches leave the buffer, and
  when something is left, the batch that begins with it was refused.
\<close>

theorem flush_delivers:
  assumes "flush_loop E net x 0 k w = (k', w')"
  shows "\<exists>bs w1. wk_pending k = concat bs @ wk_pending k' \<and> acked E net x (wk_client k) 0 bs w w1 \<and>
     (\<forall>b \<in> set bs. b \<noteq> [] \<and> length b \<le> 256) \<and> length bs * 256 < length (wk_pending k) + 256 \<and>
     wk_submitted k' = wk_submitted k + length (concat bs) \<and>
     (wk_pending k' = [] \<and> w' = w1 \<or>
      (\<exists>e. client_UploadObservations E net (wx_call x ''upload'' (length bs)) (wk_client k) (wx_uuid x (length bs))
         (take 256 (wk_pending k')) w1 = (Inl e, w')))"
  using flush_loop_facts [OF assms] by (auto simp: flush_result_def batch_size_def)

section \<open>Keys across rotation and restart\<close>

lemma b64_char_not_white: "n < 64 \<Longrightarrow> \<not> white (b64_char n)" "\<not> white b64_pad"
  by (auto simp: white_def b64_char_def)

lemma b64_encode_not_white: "c \<in> set (b64_encode s) \<Longrightarrow> \<not> white c"
  by (induction s rule: b64_encode.induct) (auto simp: b64_char_not_white)

lemma trim_encoded: "TrimSpace (b64_encode s @ newline) = b64_encode s"
proof (cases "b64_encode s")
  case Nil
  then show ?thesis by (simp add: TrimSpace_def white_def)
next
  case (Cons c cs)
  have hd: "dropWhile white (b64_encode s @ newline) = b64_encode s @ newline" using b64_encode_not_white [of c s] Cons by simp
  have tl: "dropWhile white (rev (b64_encode s)) = rev (b64_encode s)"
  proof (cases "rev (b64_encode s)")
    case (Cons d ds)
    then have "d \<in> set (b64_encode s)" by (metis list.set_intros(1) set_rev)
    then show ?thesis using b64_encode_not_white [of d s] Cons by simp
  qed simp
  show ?thesis unfolding TrimSpace_def hd using tl by (simp add: white_def)
qed

text \<open>The key a restart would load.\<close>

definition restarts_with :: "worker_env \<Rightarrow> string \<Rightarrow> filesystem \<Rightarrow> bytes \<Rightarrow> bool" where
  "restarts_with E dir fs key \<longleftrightarrow> state_Key E no_faults None dir fs = (Some key, fs)"

lemma restarts_encoded:
  assumes "fs (keyPath dir) = Some (b64_encode s @ newline)" "length s = seed_size"
  shows "restarts_with E dir fs (we_from_seed E s)"
  using assms by (simp add: restarts_with_def state_Key_def read_file_def trim_encoded)

lemma restarts_same: "fs' (keyPath dir) = fs (keyPath dir) \<Longrightarrow> restarts_with E dir fs key \<Longrightarrow> restarts_with E dir fs' key"
  by (auto simp: restarts_with_def state_Key_def read_file_def GenerateKey_def split: option.split_asm if_split_asm)

lemma ReplaceKey_file:
  assumes "ReplaceKey E F dir priv fs = (ok, fs')"
  shows "fs' (keyPath dir) = (if ok then Some (b64_encode (we_seed E priv) @ newline) else fs (keyPath dir))"
  using assms by (auto simp: ReplaceKey_def write_file_def rename_file_def Let_def split: if_split_asm option.split_asm)

text \<open>
  C21. A key rotation cannot lock the worker out: whatever fails, the key a restart would load is the
  key the client signs with; on failure this is the old key, on success one whose public part the coordinator acknowledged.
\<close>

theorem rotation_survives_restart:
  assumes "agent_rotateKey E net x cfg i k w = (ok, k', w')" and "restarts_with E (ac_dir cfg) (wk_fs k) (cl_key (wk_client k))"
    and "seeds_ok E" and "\<forall>s. wx_seed x i = Some s \<longrightarrow> length s = 32"
  shows "restarts_with E (ac_dir cfg) (wk_fs k') (cl_key (wk_client k')) \<and>
    (if ok then client_RotateKey E net (wx_call x ''rotate'' i) (wk_client k) (ed_public (we_env E) (cl_key (wk_client k'))) w = (Inr (), w')
     else wk_client k' = wk_client k)"
proof (cases "GenerateKey E (wx_seed x i)")
  case None
  then show ?thesis using assms by (simp add: agent_rotateKey_def)
next
  case (Some nxt)
  then obtain s where s: "nxt = we_from_seed E s" "length s = 32" using assms(4) by (auto simp: GenerateKey_def)
  have seed: "we_seed E nxt = s" using assms(3) s by (simp add: seeds_ok_def)
  obtain r w1 where c: "client_RotateKey E net (wx_call x ''rotate'' i) (wk_client k) (ed_public (we_env E) nxt) w = (r, w1)" by fastforce
  obtain ok1 fs1 where p: "ReplaceKey E (wx_faults x) (ac_dir cfg) nxt (wk_fs k) = (ok1, fs1)" by fastforce
  note pf = ReplaceKey_file [OF p, unfolded seed]
  show ?thesis
  proof (cases r)
    case (Inl e)
    then show ?thesis using assms(1,2) Some c by (simp add: agent_rotateKey_def)
  next
    case (Inr u)
    show ?thesis
    proof (cases ok1)
      case True
      then show ?thesis using assms(1) Some c p Inr restarts_encoded [of fs1 "ac_dir cfg" s E] pf s by (auto simp: agent_rotateKey_def)
    next
      case False
      then have "k' = k\<lparr>wk_fs := fs1\<rparr>" "\<not> ok" using assms(1) Some c p Inr by (auto simp: agent_rotateKey_def)
      then show ?thesis using restarts_same [OF _ assms(2), of fs1] pf False by simp
    qed
  qed
qed

text \<open>The executor signs with the key it was made with, through any number of rotations.\<close>

lemma execute_key [simp]: "wk_key (execute E now registry a k) = wk_key k"
  by (simp add: execute_def split: option.split)

lemma flush_key: "flush_loop E net x i k w = (k', w') \<Longrightarrow> wk_key k' = wk_key k"
  using flush_loop_facts [of E net x i k w k' w'] by (simp add: flushed_def)

lemma handle_key:
  assumes "worker_handle E cfg net x ev k w = (k', w')"
  shows "wk_key k' = wk_key k"
proof (cases ev)
  case Registration
  then show ?thesis using assms register_frame by (fastforce simp: worker_handle_def same_work_def split: if_split_asm prod.split_asm)
next
  case HeartbeatTick
  then show ?thesis using assms tick_frame by (fastforce simp: worker_handle_def same_work_def)
next
  case LeaseTick
  then show ?thesis
    using assms by (auto simp: worker_handle_def executor_lease_def reconcile_running_def Let_def split: if_split_asm prod.split_asm sum.split_asm)
next
  case Receive
  then show ?thesis
    using assms by (auto simp: worker_handle_def uploader_receive_def Let_def split: if_split_asm list.split_asm dest!: flush_key)
qed (use assms in \<open>auto simp: worker_handle_def probe_event_def late_probe_def uploader_drain_def stopAll_def split: if_split_asm option.split_asm probe_start.split dest!: flush_key\<close>)

interpretation wkey: invariant_system "worker_step E cfg" "\<lambda>k. wk_key k = key" for E cfg key
  by unfold_locales (auto elim!: worker_stepE dest: handle_key)

text \<open>
  Once the overlap of a rotation is over, the coordinator knows only the new key: it refuses every
  measurement the executor signs from then on, since these are signed with the key of the start.
\<close>

theorem rotated_worker_is_refused:
  assumes "(worker_step E cfg)\<^sup>*\<^sup>* k0 k" and "sig_key_bound (crypto.truncate (we_env E))"
    and "obs_Sign (we_env E) (we_marshal E) (wk_key k) o1 = Some ob" and "ed_public (we_env E) (wk_key k0) \<notin> set keys"
  shows "check_obs (we_env E) (we_marshal E) keys held ob = None"
proof -
  have key: "wk_key k = wk_key k0" using wkey.reachable_inv [OF assms(1)] by blast
  obtain p where p: "payload (we_marshal E) o1 = Some p" "ob = o1\<lparr>Signature := b64_encode (ed_sign (we_env E) (wk_key k0) p)\<rparr>"
    using assms(3) key by (auto simp: obs_Sign_def split: option.split_asm)
  have "\<not> obs_Verify (we_env E) (we_marshal E) pub ob" if "pub \<in> set keys" for pub
  proof -
    have "pub \<noteq> ed_public (we_env E) (wk_key k0)" using assms(4) that by blast
    then have "\<not> ed_verify (we_env E) pub p (ed_sign (we_env E) (wk_key k0) p)"
      using assms(2) by (simp add: sig_key_bound_def crypto.defs)
    then show ?thesis using p by (simp add: obs_Verify_def payload_def)
  qed
  then show ?thesis by (simp add: check_obs_def verifyObs_def)
qed

text \<open>A snapshot whose version file cannot be written is in force although the sync reports an error.\<close>

theorem failed_install_replaces_snapshot:
  assumes "fs tmp = Some b" "tmp \<noteq> SnapshotPath dir" "tmp \<noteq> versionPath dir"
  shows "\<exists>fs'. InstallSnapshot (\<lambda>s. s = versionPath dir @ '':open'') dir tmp version fs = (False, fs') \<and>
    fs' (SnapshotPath dir) = Some b \<and> fs' (versionPath dir) = fs (versionPath dir)"
  using assms by (auto simp: InstallSnapshot_def rename_file_def write_file_def paths)

text \<open>A running assignment is not checked against a newer snapshot as long as it is leased.\<close>

theorem running_not_rechecked:
  assumes "(as_id a, a) \<in> set (wk_running k)" "a \<in> set leased"
  shows "(as_id a, a) \<in> set (wk_running (reconcile_running E cfg leased (k\<lparr>wk_fs := fs\<rparr>)))"
proof -
  have "map_of (rev (map (\<lambda>a. (as_id a, a)) leased)) (as_id a) \<noteq> None" using assms(2) by (auto simp: map_of_eq_None_iff image_iff)
  then show ?thesis using assms(1) by (simp add: reconcile_running_def Let_def)
qed

section \<open>A concrete worker\<close>

definition demo_listed :: Assignment where
  "demo_listed = \<lparr>as_id = 4, as_target = ''192.0.2.1'', as_probe_type = ''icmp'', as_interval = 30\<rparr>"

definition demo_worker_env :: worker_env where
  "demo_worker_env = \<lparr>we_env = demo_env, we_from_seed = (\<lambda>s. s), we_seed = (\<lambda>k. k), we_marshal = demo_marshal, we_codec = demo_codec,
     we_enc = \<lparr>enc_register = (\<lambda>_. []), enc_heartbeat = (\<lambda>_. []), enc_lease = (\<lambda>_. []), enc_upload = (\<lambda>_ _. Some []), enc_rotate = (\<lambda>_. [])\<rparr>,
     we_ans = \<lparr>ans_register = (\<lambda>_. None), ans_heartbeat = (\<lambda>_. Some \<lparr>hb_state = ''active'', hb_actions = [], hb_snapshot = None\<rparr>),
       ans_manifest = (\<lambda>_. None), ans_lease = (\<lambda>_. Some [demo_listed])\<rparr>,
     we_targets = (\<lambda>b. Some [b]), we_status_json = (\<lambda>_. None), we_version = ''1''\<rparr>"

definition demo_agent_config :: AgentConfig where
  "demo_agent_config = \<lparr>ac_url = [], ac_token = [], ac_name = [], ac_dir = ''/s'', ac_pub = ''k''\<rparr>"

definition demo_seed :: bytes where
  "demo_seed = replicate 32 (CHR ''x'')"

definition demo_files :: filesystem where
  "demo_files = [''/s/worker.key'' \<mapsto> b64_encode demo_seed @ newline, ''/s/worker.id'' \<mapsto> ''w1'', ''/s/routing.sqlite'' \<mapsto> ''192.0.2.1'', ''/s/routing.version'' \<mapsto> ''v1'']"

definition demo_worker :: worker where
  "demo_worker = \<lparr>wk_fs = demo_files, wk_client = \<lparr>cl_base_url = [], cl_worker_id = ''w1'', cl_key = demo_seed\<rparr>, wk_last_state = [],
     wk_waiting_since = None, wk_last_wait_log = None, wk_log = [], wk_started = False, wk_key = demo_seed,
     wk_running = [], wk_cancelled = [], wk_queue = [], wk_pending = [], wk_submitted = 0, wk_last_upload = 0, wk_upload_ms = 0\<rparr>"

definition demo_weather :: weather where
  "demo_weather = \<lparr>wx_faults = no_faults, wx_call = (\<lambda>_ _. (0, Some ''n'')), wx_tmp = ''1'', wx_seed = (\<lambda>_. Some (replicate 32 (CHR ''y''))),
     wx_uuid = (\<lambda>_. ''u''), wx_now = 9, wx_elapsed = 1\<rparr>"

definition demo_net :: "nat net" where
  "demo_net req w = (Some (JsonBody 200 JNull), w)"

lemma demo_worker_key: "state_Key demo_worker_env F rnd ''/s'' demo_files = (Some demo_seed, demo_files)" if "F = no_faults"
  by (simp add: that state_Key_def read_file_def demo_files_def keyPath_def trim_encoded) (simp add: demo_seed_def demo_worker_env_def)

lemma demo_NewAgent: "NewAgent demo_worker_env no_faults None demo_agent_config demo_files = (Some demo_worker, demo_files)"
proof -
  have "TrimSpace ''w1'' = ''w1''" by (simp add: TrimSpace_def white_def)
  then have "state_WorkerID no_faults ''/s'' demo_files = Some ''w1''"
    by (simp add: state_WorkerID_def read_file_def demo_files_def idPath_def)
  then show ?thesis
    by (simp add: NewAgent_def demo_agent_config_def demo_worker_key NewClient_def demo_worker_def)
qed

lemma demo_verified: "verified_file demo_worker_env demo_agent_config ''192.0.2.1''"
proof -
  let ?m = "demo_manifest\<lparr>m_sha256 := hex_encode (sha256 demo_env ''192.0.2.1''), m_size_bytes := 9\<rparr>"
  obtain m where m: "man_Sign demo_env demo_codec ''k'' ?m = Some m" by (simp add: man_Sign_def man_payload_def demo_codec_def)
  have "man_Verify demo_env demo_codec m ''k''" using man_Sign_Verify [OF demo_env_ok(3) m] by (simp add: demo_env_def)
  moreover have "VerifyFile demo_env (Some ''192.0.2.1'') m"
    using m by (auto simp: man_Sign_def VerifyFile_def HashFile_def split: option.split_asm)
  ultimately show ?thesis by (auto simp: verified_file_def demo_worker_env_def demo_agent_config_def)
qed

lemma demo_call:
  "client_do demo_worker_env demo_net (0, Some ''n'') c method path (Some b) out w =
     (case out (JsonBody 200 JNull) of None \<Rightarrow> (Inl DecodeFailed, w) | Some v \<Rightarrow> (Inr v, w))"
  by (simp add: client_do_def demo_net_def Sign_def Let_def)

definition demo_worker_active :: worker where
  "demo_worker_active = demo_worker\<lparr>wk_log := [''worker state''], wk_last_state := ''active'', wk_started := True\<rparr>"

lemma demo_tick: "worker_handle demo_worker_env demo_agent_config demo_net demo_weather HeartbeatTick demo_worker 0 = (demo_worker_active, 0)"
proof -
  have "client_Heartbeat demo_worker_env demo_net (0, Some ''n'') c w = (Inr \<lparr>hb_state = ''active'', hb_actions = [], hb_snapshot = None\<rparr>, w)" for c w
    unfolding client_Heartbeat_def demo_call by (simp add: json_answer_def demo_worker_env_def)
  moreover have "writeStatus demo_worker_env x demo_agent_config st k = k" for x st k
    by (simp add: writeStatus_def WriteStatus_def demo_worker_env_def)
  moreover have "SnapshotVersion no_faults ''/s'' demo_files = ''v1''"
    by (simp add: SnapshotVersion_def read_file_def demo_files_def versionPath_def TrimSpace_def white_def)
  ultimately show ?thesis
    by (simp add: worker_handle_def agent_tick_def demo_weather_def demo_agent_config_def noteState_def add_log_def demo_worker_def demo_worker_active_def Let_def)
qed

definition demo_leased :: worker where
  "demo_leased = demo_worker_active\<lparr>wk_running := [(4, demo_listed)]\<rparr>"

lemma demo_worker_leases: "worker_handle demo_worker_env demo_agent_config demo_net demo_weather LeaseTick demo_worker_active 0 = (demo_leased, 0)"
proof -
  have "client_LeaseAssignments demo_worker_env demo_net (0, Some ''n'') c n w = (Inr [demo_listed], w)" for c n w
    unfolding client_LeaseAssignments_def demo_call by (simp add: json_answer_def demo_worker_env_def)
  moreover have "targetInSnapshot demo_worker_env demo_agent_config ''192.0.2.1'' demo_worker_active"
    by (simp add: targetInSnapshot_def demo_worker_active_def demo_worker_def demo_files_def SnapshotPath_def demo_agent_config_def demo_worker_env_def)
  ultimately show ?thesis
    by (simp add: worker_handle_def executor_lease_def demo_weather_def reconcile_running_def demo_listed_def Let_def)
      (simp add: demo_leased_def demo_worker_active_def demo_worker_def demo_listed_def)
qed

definition demo_prober :: "string \<rightharpoonup> (addr \<Rightarrow> Result option)" where
  "demo_prober = NewRegistry [(''icmp'', \<lambda>_. Some (probe_result 4 [1, 2]))]"

lemma demo_probe: "\<exists>ob. probe_event demo_worker_env 9 demo_prober 4 demo_leased = demo_leased\<lparr>wk_queue := [ob]\<rparr>"
proof -
  obtain ad where "ParseAddr ''192.0.2.1'' = Some ad" using demo_addr by auto
  moreover have "\<forall>key o1. \<exists>ob. obs_Sign (we_env demo_worker_env) (we_marshal demo_worker_env) key o1 = Some ob"
    by (simp add: demo_worker_env_def obs_Sign_def payload_def demo_marshal_def)
  then obtain sg where "\<And>key o1. obs_Sign (we_env demo_worker_env) (we_marshal demo_worker_env) key o1 = Some (sg key o1)" by metis
  moreover have "wk_queue demo_leased = []" "wk_running demo_leased = [(4, demo_listed)]"
    by (simp_all add: demo_leased_def demo_worker_active_def demo_worker_def)
  moreover have "registry_Get demo_prober ''icmp'' = Some (\<lambda>_. Some (probe_result 4 [1, 2]))"
    by (simp add: registry_Get_def demo_prober_def NewRegistry_def)
  ultimately show ?thesis
    by (auto simp: probe_event_def probeLoop_start_def execute_def demo_listed_def enqueue_obs_def queue_size_def)
qed

theorem worker_probes_only_listed_witness:
  "\<exists>k ob. (worker_step demo_worker_env demo_agent_config)\<^sup>*\<^sup>* demo_worker k \<and> wk_queue k = [ob] \<and>
     listed demo_worker_env demo_agent_config (Target ob) \<and> as_target demo_listed \<in> (\<lambda>(i, a). as_target a) ` set (wk_running k)"
proof -
  obtain ob where p: "probe_event demo_worker_env 9 demo_prober 4 demo_leased = demo_leased\<lparr>wk_queue := [ob]\<rparr>" using demo_probe by blast
  have "worker_handle demo_worker_env demo_agent_config demo_net demo_weather (ProbeDone 4 demo_prober) demo_leased 0 = (demo_leased\<lparr>wk_queue := [ob]\<rparr>, 0)"
    using p by (simp add: worker_handle_def demo_weather_def)
  then have "worker_step demo_worker_env demo_agent_config demo_leased (demo_leased\<lparr>wk_queue := [ob]\<rparr>)" by (rule worker_step.step)
  then have r: "(worker_step demo_worker_env demo_agent_config)\<^sup>*\<^sup>* demo_worker (demo_leased\<lparr>wk_queue := [ob]\<rparr>)"
    using worker_step.step [OF demo_tick] worker_step.step [OF demo_worker_leases] converse_rtranclp_into_rtranclp r_into_rtranclp by metis
  have "\<forall>f. demo_files (SnapshotPath (ac_dir demo_agent_config)) = Some f \<longrightarrow> verified_file demo_worker_env demo_agent_config f"
    using demo_verified by (simp add: demo_files_def SnapshotPath_def demo_agent_config_def)
  moreover have "ed25519_ok (we_env demo_worker_env)" using demo_env_ok(3) by (simp add: demo_worker_env_def)
  ultimately have "\<forall>o2 \<in> set (wk_queue (demo_leased\<lparr>wk_queue := [ob]\<rparr>)) \<union> set (wk_pending (demo_leased\<lparr>wk_queue := [ob]\<rparr>)). listed demo_worker_env demo_agent_config (Target o2)"
    using worker_probes_only_listed [OF demo_NewAgent _ _ r] by blast
  then show ?thesis using r by (intro exI [of _ "demo_leased\<lparr>wk_queue := [ob]\<rparr>"] exI [of _ ob]) (simp add: demo_leased_def)
qed

theorem flush_delivers_witness:
  "\<exists>k' w' bs. flush_loop demo_worker_env demo_net demo_weather 0 (demo_worker_active\<lparr>wk_pending := replicate 300 demo_observation\<rparr>) 0 = (k', w') \<and>
     replicate 300 demo_observation = concat bs @ wk_pending k' \<and> length bs * 256 < 556"
proof -
  let ?k = "demo_worker_active\<lparr>wk_pending := replicate 300 demo_observation\<rparr>"
  obtain k' w' where f: "flush_loop demo_worker_env demo_net demo_weather 0 ?k 0 = (k', w')" by fastforce
  show ?thesis using f flush_delivers [OF f] by auto
qed

theorem rotation_survives_restart_witness:
  "\<exists>k' w'. agent_rotateKey demo_worker_env demo_net demo_weather demo_agent_config 0 demo_worker_active 0 = (True, k', w') \<and>
     restarts_with demo_worker_env ''/s'' (wk_fs k') (cl_key (wk_client k')) \<and> cl_key (wk_client k') = replicate 32 (CHR ''y'')"
proof -
  have "client_RotateKey demo_worker_env demo_net (0, Some ''n'') c pub w = (Inr (), w)" for c pub w
    unfolding client_RotateKey_def demo_call by simp
  then have "\<exists>k' w'. agent_rotateKey demo_worker_env demo_net demo_weather demo_agent_config 0 demo_worker_active 0 = (True, k', w') \<and>
     cl_key (wk_client k') = replicate 32 (CHR ''y'')"
    by (simp add: agent_rotateKey_def demo_weather_def GenerateKey_def ReplaceKey_def write_file_def rename_file_def Let_def)
       (simp add: demo_worker_env_def)
  then obtain k' w' where r: "agent_rotateKey demo_worker_env demo_net demo_weather demo_agent_config 0 demo_worker_active 0 = (True, k', w')"
    "cl_key (wk_client k') = replicate 32 (CHR ''y'')" by blast
  have "restarts_with demo_worker_env (ac_dir demo_agent_config) (wk_fs demo_worker_active) (cl_key (wk_client demo_worker_active))"
    using demo_worker_key [of no_faults None] by (simp add: restarts_with_def demo_worker_active_def demo_worker_def demo_agent_config_def)
  moreover have "seeds_ok demo_worker_env" "\<forall>s. wx_seed demo_weather 0 = Some s \<longrightarrow> length s = 32"
    by (simp_all add: seeds_ok_def demo_worker_env_def demo_weather_def)
  ultimately show ?thesis using r rotation_survives_restart [OF r(1)] by (auto simp: demo_agent_config_def)
qed

end
