(* ===== verification/HostConfig.thy ===== *)
theory HostConfig
  imports Worker "HOL-Library.AList" "HOL-Library.Char_ord" "HOL-Library.List_Lexorder"
begin

text \<open>
  The configuration file of the host tool (\<^verbatim>\<open>cmd/vapn/main.go\<close>, \<^verbatim>\<open>conf\<close>): reading, rewriting and the
  masked display of secrets. A configuration is an association list with one entry per key. Reading back
  what was written gives the settings that are not empty, whatever the operator added by hand.
\<close>

section \<open>Text\<close>

fun split_on :: "char \<Rightarrow> string \<Rightarrow> string list" where
  "split_on c [] = [[]]"
| "split_on c (x # xs) =
     (if x = c then [] # split_on c xs
      else case split_on c xs of [] \<Rightarrow> [[x]] | l # ls \<Rightarrow> (x # l) # ls)"

text \<open>\<^verbatim>\<open>strings.Cut\<close>: the parts before and after the first separator.\<close>

fun Cut :: "char \<Rightarrow> string \<Rightarrow> (string \<times> string) option" where
  "Cut c [] = None"
| "Cut c (x # xs) = (if x = c then Some ([], xs) else case Cut c xs of None \<Rightarrow> None | Some (a, b) \<Rightarrow> Some (x # a, b))"

definition orDefault :: "string \<Rightarrow> string \<Rightarrow> string" where
  "orDefault v def = (if v = [] then def else v)"

section \<open>The configuration file\<close>

type_synonym conf = "(string \<times> string) list"

definition conf_get :: "conf \<Rightarrow> string \<Rightarrow> string" where
  "conf_get c k = (case map_of c k of None \<Rightarrow> [] | Some v \<Rightarrow> v)"

definition load_line :: "string \<Rightarrow> conf \<Rightarrow> conf" where
  "load_line raw c =
     (let line = TrimSpace raw in
      if line = [] \<or> hd line = CHR ''#'' then c
      else case Cut (CHR ''='') line of None \<Rightarrow> c | Some (k, v) \<Rightarrow> AList.update k v c)"

definition parse_conf :: "bytes \<Rightarrow> conf" where
  "parse_conf raw = fold load_line (split_on (CHR 0x0A) raw) []"

text \<open>\<^const>\<open>None\<close> ends the process: no worker is installed.\<close>

definition loadConfig :: "faults \<Rightarrow> bool \<Rightarrow> string \<Rightarrow> filesystem \<Rightarrow> conf option" where
  "loadConfig F must path fs =
     (case read_file F path fs of
        FileBytes raw \<Rightarrow> Some (parse_conf raw)
      | _ \<Rightarrow> if must then None else Some [])"

definition managedKeys :: "string list" where
  "managedKeys = [''VAPN_COORDINATOR_URL'', ''VAPN_WORKER_NAME'', ''VAPN_SNAPSHOT_PUBLIC_KEY'', ''VAPN_WORKER_IMAGE'', ''VAPN_ENROLLMENT_TOKEN'']"

definition conf_line :: "conf \<Rightarrow> string \<Rightarrow> string" where
  "conf_line c k = k @ ''='' @ conf_get c k"

definition extra_keys :: "conf \<Rightarrow> string list" where
  "extra_keys c = sort (map fst (filter (\<lambda>(k, v). k \<notin> set managedKeys \<and> v \<noteq> []) c))"

definition conf_header :: string where
  "conf_header = ''# VAPN worker configuration (managed by '' @ [CHR 0x60] @ ''vapn'' @ [CHR 0x60] @ '')''"

definition conf_lines :: "conf \<Rightarrow> string list" where
  "conf_lines c =
     conf_header # map (conf_line c) (filter (\<lambda>k. conf_get c k \<noteq> []) managedKeys) @
     (if extra_keys c = [] then []
      else [] # ''# added by hand; preserved across vapn reconfigure'' # map (conf_line c) (extra_keys c))"

definition conf_text :: "conf \<Rightarrow> bytes" where
  "conf_text c = concat (map (\<lambda>l. l @ newline) (conf_lines c))"

definition conf_save :: "faults \<Rightarrow> string \<Rightarrow> conf \<Rightarrow> filesystem \<Rightarrow> bool \<times> filesystem" where
  "conf_save F path c fs = (if F ''mkdir home'' then (False, fs) else write_file F path (conf_text c) fs)"

text \<open>How a secret is shown.\<close>

definition mask :: "string \<Rightarrow> string" where
  "mask v =
     (if v = [] then []
      else if length v \<le> 10 then replicate (length v) (CHR ''*'')
      else take 5 v @ ''********'' @ drop (length v - 5) v)"

section \<open>Reading back\<close>

lemma split_on_line: "c \<notin> set l \<Longrightarrow> split_on c (l @ c # rest) = l # split_on c rest"
  by (induction l) auto

lemma split_on_plain: "l \<in> set (split_on c s) \<Longrightarrow> c \<notin> set l"
proof (induction s arbitrary: l)
  case (Cons x xs)
  then show ?case by (cases "split_on c xs") (auto split: if_split_asm)
qed simp

lemma split_on_lines:
  "\<forall>l \<in> set ls. c \<notin> set l \<Longrightarrow> split_on c (concat (map (\<lambda>l. l @ [c]) ls)) = ls @ [[]]"
  by (induction ls) (auto simp: split_on_line)

lemma Cut_line: "c \<notin> set k \<Longrightarrow> Cut c (k @ c # v) = Some (k, v)"
  by (induction k) auto

lemma Cut_Some: "Cut c s = Some (k, v) \<Longrightarrow> s = k @ c # v \<and> c \<notin> set k"
  by (induction s arbitrary: k) (auto split: if_split_asm option.split_asm)

lemma TrimSpace_id: "l \<noteq> [] \<Longrightarrow> \<not> white (hd l) \<Longrightarrow> \<not> white (last l) \<Longrightarrow> TrimSpace l = l"
proof -
  assume a: "l \<noteq> []" "\<not> white (hd l)" "\<not> white (last l)"
  have "dropWhile white l = l" using a by (cases l) auto
  moreover have "dropWhile white (rev l) = rev l" using a by (cases "rev l") (auto simp: hd_rev [symmetric] last_rev)
  ultimately show ?thesis by (simp add: TrimSpace_def)
qed

lemma TrimSpace_ends:
  assumes "TrimSpace l \<noteq> []"
  shows "\<not> white (hd (TrimSpace l))" "\<not> white (last (TrimSpace l))" "set (TrimSpace l) \<subseteq> set l"
proof -
  let ?d = "dropWhile white l"
  have s: "TrimSpace l = rev (dropWhile white (rev ?d))" by (simp add: TrimSpace_def)
  then have ne: "dropWhile white (rev ?d) \<noteq> []" using assms by auto
  then show "\<not> white (last (TrimSpace l))" unfolding s using hd_dropWhile [of white "rev ?d"] by (simp add: last_rev)
  obtain pre where p: "rev ?d = pre @ dropWhile white (rev ?d)" by (metis takeWhile_dropWhile_id)
  then have "?d = TrimSpace l @ rev pre" using s by (metis rev_append rev_rev_ident)
  moreover have "?d \<noteq> []" using calculation assms by auto
  ultimately show "\<not> white (hd (TrimSpace l))" using hd_dropWhile [of white l] assms by (metis hd_append2)
  show "set (TrimSpace l) \<subseteq> set l" unfolding s by (metis set_dropWhileD set_rev subsetI)
qed

text \<open>
  What an entry must be like to survive as a line. Every entry read from a file is like this.
\<close>

definition entry_ok :: "string \<Rightarrow> string \<Rightarrow> bool" where
  "entry_ok k v \<longleftrightarrow> CHR ''='' \<notin> set k \<and> CHR 0x0A \<notin> set k \<union> set v \<and>
     (k = [] \<or> \<not> white (hd k) \<and> hd k \<noteq> CHR ''#'') \<and> (v = [] \<or> \<not> white (last v))"

definition conf_ok :: "conf \<Rightarrow> bool" where
  "conf_ok c \<longleftrightarrow> distinct (map fst c) \<and> (\<forall>(k, v) \<in> set c. entry_ok k v)"

lemma load_line_ok:
  assumes "conf_ok c" "CHR 0x0A \<notin> set l"
  shows "conf_ok (load_line l c)"
proof (cases "TrimSpace l = [] \<or> hd (TrimSpace l) = CHR ''#'' \<or> Cut (CHR ''='') (TrimSpace l) = None")
  case True
  then show ?thesis using assms(1) by (auto simp: load_line_def Let_def split: option.split)
next
  case False
  then obtain k v where c: "Cut (CHR ''='') (TrimSpace l) = Some (k, v)" by auto
  note t = Cut_Some [OF c] and e = TrimSpace_ends [of l]
  have ne: "TrimSpace l \<noteq> []" using False by blast
  have "k = [] \<or> hd k = hd (TrimSpace l)" using t by (cases k) auto
  moreover have "v = [] \<or> last v = last (TrimSpace l)" using t by auto
  moreover have "set k \<union> set v \<subseteq> set l" using t e(3) [OF ne] by auto
  ultimately have "entry_ok k v"
    unfolding entry_ok_def using t e(1,2) [OF ne] assms(2) False by (metis subsetD)
  moreover have "set (AList.update k v c) \<subseteq> insert (k, v) (set c)" by (induction c) auto
  moreover have "load_line l c = AList.update k v c" using False c by (simp add: load_line_def)
  ultimately show ?thesis using assms(1) by (auto simp: conf_ok_def distinct_update)
qed

lemma parse_conf_ok: "conf_ok (parse_conf raw)"
proof -
  have "conf_ok (fold load_line ls c)" if "\<forall>l \<in> set ls. CHR 0x0A \<notin> set l" "conf_ok c" for ls c
    using that by (induction ls arbitrary: c) (auto simp: load_line_ok)
  moreover have "conf_ok []" by (simp add: conf_ok_def)
  ultimately show ?thesis using split_on_plain unfolding parse_conf_def by blast
qed

lemma load_line_entry:
  assumes "entry_ok k v" "v \<noteq> []"
  shows "load_line (k @ ''='' @ v) c = AList.update k v c"
proof -
  have "\<not> white (hd (k @ ''='' @ v))" "hd (k @ ''='' @ v) \<noteq> CHR ''#''"
    using assms by (cases k; auto simp: entry_ok_def white_def)+
  moreover have "TrimSpace (k @ ''='' @ v) = k @ ''='' @ v"
    using assms calculation by (intro TrimSpace_id) (auto simp: entry_ok_def)
  moreover have "Cut (CHR ''='') (k @ ''='' @ v) = Some (k, v)" using assms by (simp add: entry_ok_def Cut_line)
  ultimately show ?thesis by (simp add: load_line_def)
qed

lemma load_line_skip:
  "load_line [] c = c" "load_line conf_header c = c"
  "load_line ''# added by hand; preserved across vapn reconfigure'' c = c"
proof -
  show "load_line [] c = c" by (simp add: load_line_def TrimSpace_def)
  have "load_line l c = c" if "l \<noteq> []" "hd l = CHR ''#''" "\<not> white (last l)" for l
    using that TrimSpace_id [of l] by (simp add: load_line_def white_def)
  then show "load_line conf_header c = c" "load_line ''# added by hand; preserved across vapn reconfigure'' c = c"
    by (simp_all add: conf_header_def white_def)
qed

lemma fold_load_lines:
  assumes "\<forall>k \<in> set ks. entry_ok k (conf_get c k) \<and> conf_get c k \<noteq> []"
  shows "fold load_line (map (conf_line c) ks) d = fold (\<lambda>k. AList.update k (conf_get c k)) ks d"
  using assms by (induction ks arbitrary: d) (auto simp: conf_line_def load_line_entry simp del: append_Cons)

lemma map_of_fold_update:
  "map_of (fold (\<lambda>k. AList.update k (f k)) ks d) k = (if k \<in> set ks then Some (f k) else map_of d k)"
  by (induction ks arbitrary: d) (auto simp: update_conv')

lemma distinct_fold_update: "distinct (map fst d) \<Longrightarrow> distinct (map fst (fold (\<lambda>k. AList.update k (f k)) ks d))"
  by (induction ks arbitrary: d) (auto simp: distinct_update)

lemma conf_get_entry: "conf_ok c \<Longrightarrow> conf_get c k \<noteq> [] \<Longrightarrow> entry_ok k (conf_get c k)"
  by (auto simp: conf_get_def conf_ok_def split: option.split_asm dest: map_of_SomeD)

lemma extra_keys_facts:
  assumes "distinct (map fst c)"
  shows "set (extra_keys c) = {k. k \<notin> set managedKeys \<and> conf_get c k \<noteq> []}" "distinct (extra_keys c)" "sorted (extra_keys c)"
proof -
  have mem: "(k, v) \<in> set c \<longleftrightarrow> map_of c k = Some v" for k v using assms by simp
  have "set (extra_keys c) = {k. \<exists>v. (k, v) \<in> set c \<and> k \<notin> set managedKeys \<and> v \<noteq> []}"
    by (auto simp: extra_keys_def image_iff split: prod.split_asm)
  also have "\<dots> = {k. k \<notin> set managedKeys \<and> conf_get c k \<noteq> []}" unfolding mem conf_get_def by (auto split: option.split_asm)
  finally show "set (extra_keys c) = {k. k \<notin> set managedKeys \<and> conf_get c k \<noteq> []}" .
  show "distinct (extra_keys c)" using assms by (simp add: extra_keys_def distinct_map_filter)
  show "sorted (extra_keys c)" by (simp add: extra_keys_def)
qed

text \<open>The keys that are written.\<close>

definition written_keys :: "conf \<Rightarrow> string list" where
  "written_keys c = filter (\<lambda>k. conf_get c k \<noteq> []) managedKeys @ extra_keys c"

lemma parse_conf_text:
  assumes "conf_ok c"
  shows "parse_conf (conf_text c) = fold (\<lambda>k. AList.update k (conf_get c k)) (written_keys c) []"
proof -
  have x: "set (extra_keys c) = {k. k \<notin> set managedKeys \<and> conf_get c k \<noteq> []}" using assms extra_keys_facts by (simp add: conf_ok_def)
  have ok: "\<forall>k \<in> set (written_keys c). entry_ok k (conf_get c k) \<and> conf_get c k \<noteq> []"
    using x conf_get_entry [OF assms] by (auto simp: written_keys_def)
  have "CHR 0x0A \<notin> set (conf_line c k)" if "k \<in> set (written_keys c)" for k
    using ok that by (auto simp: conf_line_def entry_ok_def)
  then have "\<forall>l \<in> set (conf_lines c). CHR 0x0A \<notin> set l"
    by (auto simp: conf_lines_def written_keys_def conf_header_def split: if_split_asm)
  then have "parse_conf (conf_text c) = fold load_line (conf_lines c @ [[]]) []"
    using split_on_lines unfolding parse_conf_def conf_text_def by simp
  also have "\<dots> = fold load_line (map (conf_line c) (written_keys c)) []"
    by (cases "extra_keys c = []") (simp_all add: conf_lines_def written_keys_def load_line_skip)
  finally show ?thesis using fold_load_lines [OF ok] by simp
qed

text \<open>
  C35. Rewriting the configuration loses nothing and adds nothing: reading back what was written gives exactly
  the settings that are not empty, also those the operator added by hand, one entry per key, and writing
  it again yields the same bytes. It needs only what reading any file guarantees.
\<close>

theorem config_roundtrip:
  assumes "conf_ok c"
  shows "map_of (parse_conf (conf_text c)) k = (if conf_get c k = [] then None else Some (conf_get c k)) \<and>
    distinct (map fst (parse_conf (conf_text c))) \<and> conf_text (parse_conf (conf_text c)) = conf_text c \<and> conf_ok (parse_conf raw)"
proof -
  let ?d = "parse_conf (conf_text c)"
  note p = parse_conf_text [OF assms]
  have x: "set (extra_keys c) = {k. k \<notin> set managedKeys \<and> conf_get c k \<noteq> []}" using assms extra_keys_facts by (simp add: conf_ok_def)
  have m: "map_of ?d k = (if conf_get c k = [] then None else Some (conf_get c k))" for k
    unfolding p map_of_fold_update using x by (auto simp: written_keys_def)
  then have g: "conf_get ?d k = conf_get c k" for k by (simp add: conf_get_def [of ?d])
  have d: "distinct (map fst ?d)" unfolding p by (rule distinct_fold_update) simp
  have "extra_keys ?d = extra_keys c"
    using extra_keys_facts [OF d] extra_keys_facts [of c] assms g by (intro sorted_distinct_set_unique) (simp_all add: conf_ok_def)
  moreover have "conf_line ?d = conf_line c" "conf_get ?d = conf_get c" using g by (simp_all add: conf_line_def fun_eq_iff)
  ultimately have "conf_lines ?d = conf_lines c" unfolding conf_lines_def by (simp only:)
  then have "conf_text ?d = conf_text c" by (simp only: conf_text_def)
  then show ?thesis using m d parse_conf_ok by blast
qed

text \<open>A masked value of 11 characters hides a single one, at a known place.\<close>

theorem mask_reveals:
  assumes "length v = 11" "length w = 11" "mask v = mask w"
  shows "take 5 v = take 5 w \<and> drop 6 v = drop 6 w"
proof -
  have "mask s = take 5 s @ ''********'' @ drop 6 s" if "length s = 11" for s
    using that by (auto simp: mask_def)
  then show ?thesis using assms by simp
qed

definition demo_conf :: conf where
  "demo_conf = [(''HTTP_PROXY'', ''http://p:3128/?a=b''), (''VAPN_ENROLLMENT_TOKEN'', []), (''VAPN_WORKER_NAME'', ''box'')]"

theorem config_roundtrip_witness:
  "conf_ok demo_conf \<and> map_of (parse_conf (conf_text demo_conf)) ''HTTP_PROXY'' = Some ''http://p:3128/?a=b'' \<and>
   map_of (parse_conf (conf_text demo_conf)) ''VAPN_ENROLLMENT_TOKEN'' = None \<and>
   conf_text (parse_conf (conf_text demo_conf)) = conf_text demo_conf"
proof -
  have ok: "conf_ok demo_conf" by (simp add: conf_ok_def demo_conf_def entry_ok_def white_def)
  show ?thesis
    using ok config_roundtrip [OF ok, of "''HTTP_PROXY''"] config_roundtrip [OF ok, of "''VAPN_ENROLLMENT_TOKEN''"]
    by (simp add: conf_get_def demo_conf_def)
qed

end
