(* ===== verification/Platform.thy ===== *)
theory Platform
  imports HostConfig
begin

text \<open>
  What all services share: the configuration from the environment (\<^verbatim>\<open>internal/platform/config/config.go\<close>),
  the choice of the object store (\<^verbatim>\<open>internal/artifact/storeconfig.go\<close>), the connection to the database
  (\<^verbatim>\<open>internal/platform/db/db.go\<close>), its migrations (\<^verbatim>\<open>internal/platform/migrate/migrate.go\<close>), the download of the routing dump
  (\<^verbatim>\<open>internal/builder/download.go\<close>) and the readiness checks (\<^verbatim>\<open>internal/platform/httpserver/httpserver.go\<close>). Log lines are left out.
\<close>

section \<open>Configuration\<close>

record Source =
  src_seen :: "(string \<times> string) list"
  src_missing :: "string list"

text \<open>The environment, and the texts of \<^verbatim>\<open>time.Duration\<close> and of quoted strings.\<close>

record conf_env =
  ev_lookup :: "string \<Rightarrow> string option"
  ev_parse_duration :: "string \<Rightarrow> int option"
  ev_duration_text :: "int \<Rightarrow> string"
  ev_quote :: "string \<Rightarrow> string"

definition conf_prefix :: string where "conf_prefix = ''VAPN_''"

definition Source_New :: Source where
  "Source_New = \<lparr>src_seen = [], src_missing = []\<rparr>"

definition src_lookup :: "conf_env \<Rightarrow> string \<Rightarrow> string \<Rightarrow> Source \<Rightarrow> string \<times> Source" where
  "src_lookup V key def s =
     (let v = (case ev_lookup V (conf_prefix @ key) of Some x \<Rightarrow> x | None \<Rightarrow> def) in
      (v, s\<lparr>src_seen := obj_set key v (src_seen s)\<rparr>))"

definition note_missing :: "string \<Rightarrow> Source \<Rightarrow> Source" where
  "note_missing m s = s\<lparr>src_missing := src_missing s @ [m]\<rparr>"

definition src_String :: "conf_env \<Rightarrow> string \<Rightarrow> string \<Rightarrow> Source \<Rightarrow> string \<times> Source" where
  "src_String V key def s = src_lookup V key def s"

definition src_Require :: "conf_env \<Rightarrow> string \<Rightarrow> Source \<Rightarrow> string \<times> Source" where
  "src_Require V key s =
     (case src_lookup V key [] s of (v, s') \<Rightarrow> (v, if v = [] then note_missing (conf_prefix @ key) s' else s'))"

definition src_Int :: "conf_env \<Rightarrow> string \<Rightarrow> int \<Rightarrow> Source \<Rightarrow> int \<times> Source" where
  "src_Int V key def s =
     (case src_lookup V key (int_text def) s of (v, s') \<Rightarrow>
       (case Atoi v of
          None \<Rightarrow> (def, note_missing (conf_prefix @ key @ '' (not an integer: '' @ ev_quote V v @ '')'') s')
        | Some n \<Rightarrow> (n, s')))"

definition bool_text :: "bool \<Rightarrow> string" where
  "bool_text b = (if b then ''true'' else ''false'')"

text \<open>\<^verbatim>\<open>strconv.ParseBool\<close>.\<close>

definition ParseBool :: "string \<Rightarrow> bool option" where
  "ParseBool v =
     (if v \<in> {''1'', ''t'', ''T'', ''true'', ''TRUE'', ''True''} then Some True
      else if v \<in> {''0'', ''f'', ''F'', ''false'', ''FALSE'', ''False''} then Some False
      else None)"

definition src_Bool :: "conf_env \<Rightarrow> string \<Rightarrow> bool \<Rightarrow> Source \<Rightarrow> bool \<times> Source" where
  "src_Bool V key def s =
     (case src_lookup V key (bool_text def) s of (v, s') \<Rightarrow>
       (case ParseBool v of
          None \<Rightarrow> (def, note_missing (conf_prefix @ key @ '' (not a bool: '' @ ev_quote V v @ '')'') s')
        | Some b \<Rightarrow> (b, s')))"

definition src_Duration :: "conf_env \<Rightarrow> string \<Rightarrow> int \<Rightarrow> Source \<Rightarrow> int \<times> Source" where
  "src_Duration V key def s =
     (case src_lookup V key (ev_duration_text V def) s of (v, s') \<Rightarrow>
       (case ev_parse_duration V v of
          None \<Rightarrow> (def, note_missing (conf_prefix @ key @ '' (not a duration: '' @ ev_quote V v @ '')'') s')
        | Some d \<Rightarrow> (d, s')))"

definition src_Err :: "Source \<Rightarrow> string list option" where
  "src_Err s = (if src_missing s = [] then None else Some (src_missing s))"

definition secretMarkers :: "string list" where
  "secretMarkers = [''TOKEN'', ''SECRET'', ''KEY'', ''PASSWORD'', ''DSN'', ''CREDENTIAL'']"

definition to_upper :: "string \<Rightarrow> string" where
  "to_upper s = map (\<lambda>c. let n = (of_char c :: nat) in if 97 \<le> n \<and> n \<le> 122 then char_of (n - 32) else c) s"

fun contains :: "string \<Rightarrow> string \<Rightarrow> bool" where
  "contains s m = (take (length m) s = m \<or> (case s of [] \<Rightarrow> False | _ # t \<Rightarrow> contains t m))"

declare contains.simps [simp del]

definition redacted :: "string \<Rightarrow> bool" where
  "redacted key = list_ex (contains (to_upper key)) secretMarkers"

definition dump_pair :: "string \<times> string \<Rightarrow> string \<times> string" where
  "dump_pair kv = (case kv of (k, v) \<Rightarrow> (conf_prefix @ k, if redacted k \<and> v \<noteq> [] then ''[redacted]'' else v))"

definition src_Dump :: "Source \<Rightarrow> (string \<times> string) list" where
  "src_Dump s = map dump_pair (sort_key fst (src_seen s))"

text \<open>A service reads its settings one after the other.\<close>

datatype setting = GetString string string | GetRequired string | GetInt string int | GetBool string bool | GetDuration string int

fun read_setting :: "conf_env \<Rightarrow> setting \<Rightarrow> Source \<Rightarrow> Source" where
  "read_setting V (GetString k d) s = snd (src_String V k d s)"
| "read_setting V (GetRequired k) s = snd (src_Require V k s)"
| "read_setting V (GetInt k d) s = snd (src_Int V k d s)"
| "read_setting V (GetBool k d) s = snd (src_Bool V k d s)"
| "read_setting V (GetDuration k d) s = snd (src_Duration V k d s)"

definition read_settings :: "conf_env \<Rightarrow> setting list \<Rightarrow> Source" where
  "read_settings V ks = foldl (\<lambda>s k. read_setting V k s) Source_New ks"

section \<open>The object store\<close>

record S3Config =
  s3_Endpoint :: string
  s3_AccessKey :: string
  s3_SecretKey :: string
  s3_Bucket :: string
  s3_Region :: string
  s3_UseSSL :: bool

datatype store_choice = UseS3 S3Config | UseDirectory string

datatype store_error = MutuallyExclusive | S3Failed

definition TrimPrefix :: "string \<Rightarrow> string \<Rightarrow> string" where
  "TrimPrefix p s = (if take (length p) s = p then drop (length p) s else s)"

text \<open>\<open>client\<close> says whether the third-party client accepts the endpoint and its options.\<close>

definition NewS3Store :: "(S3Config \<Rightarrow> bool) \<Rightarrow> S3Config \<Rightarrow> store_error + store_choice" where
  "NewS3Store client cfg =
     (let cfg' = cfg\<lparr>s3_Endpoint := TrimPrefix ''http://'' (TrimPrefix ''https://'' (s3_Endpoint cfg))\<rparr> in
      if client cfg' then Inr (UseS3 cfg') else Inl S3Failed)"

definition StoreFromConfig :: "conf_env \<Rightarrow> (S3Config \<Rightarrow> bool) \<Rightarrow> Source \<Rightarrow> (store_error + store_choice option) \<times> Source" where
  "StoreFromConfig V client s =
     (case src_String V ''ARTIFACT_S3_ENDPOINT'' [] s of (endpoint, s1) \<Rightarrow>
     (case src_String V ''ARTIFACT_DIR'' [] s1 of (dir, s2) \<Rightarrow>
     (case src_String V ''ARTIFACT_S3_ACCESS_KEY'' [] s2 of (access, s3) \<Rightarrow>
     (case src_String V ''ARTIFACT_S3_SECRET_KEY'' [] s3 of (secret, s4) \<Rightarrow>
     (case src_String V ''ARTIFACT_S3_BUCKET'' ''vapn-artifacts'' s4 of (bucket, s5) \<Rightarrow>
     (case src_String V ''ARTIFACT_S3_REGION'' [] s5 of (region, s6) \<Rightarrow>
     (case src_Bool V ''ARTIFACT_S3_USE_SSL'' True s6 of (ssl, s7) \<Rightarrow>
       (if endpoint \<noteq> [] \<and> dir \<noteq> [] then Inl MutuallyExclusive
        else if endpoint \<noteq> [] then
          map_sum id Some (NewS3Store client \<lparr>s3_Endpoint = endpoint, s3_AccessKey = access, s3_SecretKey = secret,
            s3_Bucket = bucket, s3_Region = region, s3_UseSSL = ssl\<rparr>)
        else if dir \<noteq> [] then Inr (Some (UseDirectory dir))
        else Inr None, s7))))))))"

section \<open>Connecting to the database\<close>

text \<open>
  An attempt begun at some time ends with success or failure at a later time. Between attempts the loop sleeps two
  seconds; the deadline ends the wait.
\<close>

function connect_loop :: "(time \<Rightarrow> bool \<times> time) \<Rightarrow> time \<Rightarrow> time \<Rightarrow> time option" where
  "connect_loop attempt deadline now =
     (case attempt now of (ok, fin) \<Rightarrow>
       (if ok then Some (max now fin)
        else if max now fin + 2 * second \<ge> deadline then None
        else connect_loop attempt deadline (max now fin + 2 * second)))"
  by pat_completeness auto
termination by (relation "measure (\<lambda>(_, deadline, now). nat (deadline - now))") auto

declare connect_loop.simps [simp del]

definition WaitAndConnect :: "(time \<Rightarrow> bool \<times> time) \<Rightarrow> time \<Rightarrow> time \<Rightarrow> time option" where
  "WaitAndConnect attempt wait now = connect_loop attempt (now + wait) now"

section \<open>Migrations\<close>

text \<open>
  The table of applied versions and the rest of the database, on which \<open>run\<close> executes the text of a file in the
  transaction (\<^const>\<open>None\<close>: the statement fails). A commit can fail, or succeed without its answer arriving.
\<close>

record 'd migrated =
  mg_versions :: "string list"
  mg_data :: 'd

type_synonym migration_file = "string \<times> bytes"

definition is_sql :: "string \<Rightarrow> bool" where
  "is_sql name \<longleftrightarrow> length name \<ge> 4 \<and> drop (length name - 4) name = ''.sql''"

definition apply_one_file ::
  "faults \<Rightarrow> (bytes \<Rightarrow> 'd \<Rightarrow> 'd option) \<Rightarrow> migration_file \<Rightarrow> 'd migrated \<Rightarrow> bool \<times> 'd migrated" where
  "apply_one_file F run f s =
     (case f of (version, sql) \<Rightarrow>
       if F (''exists:'' @ version) then (False, s)
       else if version \<in> set (mg_versions s) then (True, s)
       else if F (''read:'' @ version) \<or> F (''begin:'' @ version) then (False, s)
       else case run sql (mg_data s) of
         None \<Rightarrow> (False, s)
       | Some d \<Rightarrow>
           if F (''insert:'' @ version) \<or> F (''commit:'' @ version) then (False, s)
           else (\<not> F (''answer:'' @ version), \<lparr>mg_versions = mg_versions s @ [version], mg_data = d\<rparr>))"

fun apply_files ::
  "faults \<Rightarrow> (bytes \<Rightarrow> 'd \<Rightarrow> 'd option) \<Rightarrow> migration_file list \<Rightarrow> 'd migrated \<Rightarrow> bool \<times> 'd migrated" where
  "apply_files F run [] s = (True, s)"
| "apply_files F run (f # fs) s =
     (case apply_one_file F run f s of (ok, s') \<Rightarrow> if ok then apply_files F run fs s' else (False, s'))"

definition migration_files :: "migration_file list \<Rightarrow> migration_file list" where
  "migration_files dir = sort_key fst (filter (is_sql \<circ> fst) dir)"

definition migrate_Apply ::
  "faults \<Rightarrow> (bytes \<Rightarrow> 'd \<Rightarrow> 'd option) \<Rightarrow> migration_file list \<Rightarrow> 'd migrated \<Rightarrow> bool \<times> 'd migrated" where
  "migrate_Apply F run dir s =
     (if F ''acquire'' \<or> F ''lock'' \<or> F ''table'' \<or> F ''glob'' \<or> migration_files dir = [] then (False, s)
      else apply_files F run (migration_files dir) s)"

section \<open>The download of the routing dump\<close>

text \<open>
  The answer of the download server: its status, the bytes that arrive, and whether the body ends as announced. \<open>tmp\<close> is the
  name \<^verbatim>\<open>os.CreateTemp\<close> draws in the directory of the dump.
\<close>

type_synonym download = "nat \<times> bytes \<times> bool"

definition fresh_dump :: "faults \<Rightarrow> time \<Rightarrow> time \<Rightarrow> string \<Rightarrow> (string \<Rightarrow> time) \<Rightarrow> filesystem \<Rightarrow> bool" where
  "fresh_dump F now maxAge path mtime fs =
     (case fs path of
        None \<Rightarrow> False
      | Some b \<Rightarrow> \<not> F ''stat'' \<and> now - mtime path < maxAge \<and> b \<noteq> [])"

text \<open>The file systems after each system call of the download, and its outcome.\<close>

definition fetch_dump :: "faults \<Rightarrow> download option \<Rightarrow> string \<Rightarrow> string \<Rightarrow> filesystem \<Rightarrow> bool \<times> filesystem list" where
  "fetch_dump F answer path tmp fs =
     (case answer of
        None \<Rightarrow> (False, [fs])
      | Some (st, body, whole) \<Rightarrow>
          if st \<noteq> 200 \<or> F ''mkdir'' \<or> F ''create'' then (False, [fs])
          else
            (let removed = (\<lambda>g. if F ''remove'' then g else g(tmp := None));
                 copied = map (\<lambda>k. fs(tmp \<mapsto> take k body)) [0..<length body + 1] in
             if \<not> whole \<or> F ''write'' \<or> F ''close'' then (False, fs # copied @ [removed (fs(tmp \<mapsto> body))])
             else (case rename_file F tmp path (fs(tmp \<mapsto> body)) of
                 (ok, g) \<Rightarrow> (ok, fs # copied @ [g, if ok then g else removed g]))))"

definition EnsureBview ::
  "faults \<Rightarrow> time \<Rightarrow> download option \<Rightarrow> string \<Rightarrow> string \<Rightarrow> time \<Rightarrow> string \<Rightarrow> (string \<Rightarrow> time) \<Rightarrow> filesystem \<Rightarrow> bool \<times> filesystem list" where
  "EnsureBview F now answer url path maxAge tmp mtime fs =
     (if url = [] then (True, [fs])
      else if fresh_dump F now maxAge path mtime fs then (True, [fs])
      else fetch_dump F answer path tmp fs)"

section \<open>Health and readiness\<close>

definition SelfCheck :: "(string \<Rightarrow> nat option) \<Rightarrow> string \<Rightarrow> string \<Rightarrow> nat" where
  "SelfCheck get addr fallback =
     (case get (''http://127.0.0.1'' @ (if addr = [] then fallback else addr) @ ''/healthz'') of
        None \<Rightarrow> 1
      | Some st \<Rightarrow> if st \<noteq> 200 then 1 else 0)"

text \<open>A check yields the text of its error. Go visits the checks in some order, the first argument of \<open>readyz\<close>.\<close>

type_synonym ready_checks = "(string \<times> string option) list"

definition AddReadyCheck :: "string \<Rightarrow> string option \<Rightarrow> ready_checks \<Rightarrow> ready_checks" where
  "AddReadyCheck name c checks = obj_set name c checks"

fun readyz :: "ready_checks \<Rightarrow> nat \<times> string" where
  "readyz [] = (200, ''ready'')"
| "readyz ((name, None) # rest) = readyz rest"
| "readyz ((name, Some e) # rest) = (503, name @ '': '' @ e)"

section \<open>What the configuration log shows\<close>

lemma obj_set_fst: "fst ` set (obj_set k v ob) = insert k (fst ` set ob)"
  by (auto simp: obj_set_def image_iff)

lemma obj_set_distinct: "distinct (map fst ob) \<Longrightarrow> distinct (map fst (obj_set k v ob))"
  by (auto simp: obj_set_def distinct_map inj_on_def)

text \<open>Two environments that differ only in settings marked secret, and there not in whether one is empty.\<close>

definition same_public :: "conf_env \<Rightarrow> conf_env \<Rightarrow> bool" where
  "same_public V W \<longleftrightarrow> ev_duration_text W = ev_duration_text V \<and>
     (\<forall>k. if redacted k then ev_lookup V (conf_prefix @ k) = ev_lookup W (conf_prefix @ k) \<or>
             (\<exists>x y. ev_lookup V (conf_prefix @ k) = Some x \<and> ev_lookup W (conf_prefix @ k) = Some y \<and> x \<noteq> [] \<and> y \<noteq> [])
          else ev_lookup V (conf_prefix @ k) = ev_lookup W (conf_prefix @ k))"

definition same_shown :: "(string \<times> string) list \<Rightarrow> (string \<times> string) list \<Rightarrow> bool" where
  "same_shown xs ys \<longleftrightarrow> list_all2 (\<lambda>x y. fst x = fst y \<and> dump_pair x = dump_pair y) xs ys"

fun setting_key :: "setting \<Rightarrow> string" where
  "setting_key (GetString k d) = k" | "setting_key (GetRequired k) = k" | "setting_key (GetInt k d) = k"
| "setting_key (GetBool k d) = k" | "setting_key (GetDuration k d) = k"

fun setting_default :: "conf_env \<Rightarrow> setting \<Rightarrow> string" where
  "setting_default V (GetString k d) = d" | "setting_default V (GetRequired k) = []" | "setting_default V (GetInt k d) = int_text d"
| "setting_default V (GetBool k d) = bool_text d" | "setting_default V (GetDuration k d) = ev_duration_text V d"

definition value_of :: "conf_env \<Rightarrow> setting \<Rightarrow> string" where
  "value_of V k = (case ev_lookup V (conf_prefix @ setting_key k) of Some x \<Rightarrow> x | None \<Rightarrow> setting_default V k)"

lemma seen_setting: "src_seen (read_setting V k s) = obj_set (setting_key k) (value_of V k) (src_seen s)"
  by (cases k) (auto simp: src_String_def src_Require_def src_Int_def src_Bool_def src_Duration_def src_lookup_def note_missing_def
      value_of_def Let_def split: option.split)

lemma same_shown_set:
  assumes "same_shown xs ys" "dump_pair (k, v) = dump_pair (k, w)"
  shows "same_shown (obj_set k v xs) (obj_set k w ys)"
proof -
  have "list_all2 (\<lambda>x y. fst x = fst y \<and> dump_pair x = dump_pair y) (filter (\<lambda>p. fst p \<noteq> k) xs) (filter (\<lambda>p. fst p \<noteq> k) ys)"
    using assms(1) unfolding same_shown_def by (induction xs ys rule: list_all2_induct) auto
  then show ?thesis using assms(2) by (simp add: same_shown_def obj_set_def)
qed

lemma value_shown: "same_public V W \<Longrightarrow> dump_pair (setting_key k, value_of V k) = dump_pair (setting_key k, value_of W k)"
proof -
  assume a: "same_public V W"
  have d: "setting_default V k = setting_default W k" using a by (cases k) (auto simp: same_public_def)
  show ?thesis using a d unfolding same_public_def value_of_def dump_pair_def
    by (auto split: option.split if_split dest!: spec [of _ "setting_key k"])
qed

lemma read_settings_shown: "same_public V W \<Longrightarrow> same_shown (src_seen (read_settings V ks)) (src_seen (read_settings W ks))"
proof (induction ks rule: rev_induct)
  case (snoc k ks)
  then show ?case
    using same_shown_set [OF snoc.IH value_shown] by (simp add: read_settings_def seen_setting)
qed (simp add: read_settings_def Source_New_def same_shown_def)

lemma same_shown_insort:
  assumes "same_shown xs ys" "fst a = fst b" "dump_pair a = dump_pair b"
  shows "same_shown (insort_key fst a xs) (insort_key fst b ys)"
  using assms unfolding same_shown_def by (induction xs ys rule: list_all2_induct) auto

lemma same_shown_sort: "same_shown xs ys \<Longrightarrow> same_shown (sort_key fst xs) (sort_key fst ys)"
  unfolding same_shown_def
proof (induction xs ys rule: list_all2_induct)
  case (Cons x xs y ys)
  then show ?case using same_shown_insort [unfolded same_shown_def] by simp
qed simp

text \<open>
  C36. The configuration a service logs at start tells nothing about a secret but whether it is set: whatever
  settings are read, in whatever order, two environments that differ only in settings whose name carries a secret marker, and agree
  on which of those are empty, are logged alike.
\<close>

theorem dump_hides_secrets:
  assumes "same_public V W"
  shows "src_Dump (read_settings V ks) = src_Dump (read_settings W ks)"
proof -
  have "same_shown (sort_key fst (src_seen (read_settings V ks))) (sort_key fst (src_seen (read_settings W ks)))"
    using read_settings_shown [OF assms] by (rule same_shown_sort)
  then show ?thesis unfolding same_shown_def src_Dump_def by (induction rule: list_all2_induct) auto
qed

text \<open>The settings of the services that hold credentials are all marked; a website address with a password in it is not.\<close>

theorem service_secrets_redacted:
  "list_all redacted [''DB_DSN'', ''ADMIN_TOKEN'', ''DEV_ENROLLMENT_TOKEN'', ''ENROLLMENT_TOKEN'', ''ADVISOR_TOKEN'', ''ARTIFACT_S3_ACCESS_KEY'',
     ''ARTIFACT_S3_SECRET_KEY'', ''SNAPSHOT_SIGNING_KEY'']"
  by code_simp

theorem advisor_url_shown:
  assumes "ev_lookup V ''VAPN_ADVISOR_URL'' = Some u"
  shows "(''VAPN_ADVISOR_URL'', u) \<in> set (src_Dump (read_settings V [GetString ''ADVISOR_URL'' []]))"
proof -
  have "\<not> redacted ''ADVISOR_URL''" by code_simp
  then show ?thesis
    using assms by (simp add: src_Dump_def read_settings_def src_String_def src_lookup_def Source_New_def dump_pair_def conf_prefix_def obj_set_def)
qed

text \<open>All settings that were read and are unusable are reported together.\<close>

definition setting_bad :: "conf_env \<Rightarrow> setting \<Rightarrow> bool" where
  "setting_bad V k = (case k of
     GetString _ _ \<Rightarrow> False
   | GetRequired _ \<Rightarrow> value_of V k = []
   | GetInt _ _ \<Rightarrow> Atoi (value_of V k) = None
   | GetBool _ _ \<Rightarrow> ParseBool (value_of V k) = None
   | GetDuration _ _ \<Rightarrow> ev_parse_duration V (value_of V k) = None)"

lemma missing_setting: "length (src_missing (read_setting V k s)) = length (src_missing s) + (if setting_bad V k then 1 else 0)"
  by (cases k) (auto simp: src_String_def src_Require_def src_Int_def src_Bool_def src_Duration_def src_lookup_def note_missing_def
      value_of_def setting_bad_def Let_def split: option.split)

lemma missing_count: "length (src_missing (read_settings V ks)) = count_where (setting_bad V) ks"
  by (induction ks rule: rev_induct) (simp_all add: read_settings_def Source_New_def missing_setting)

lemma src_Err_iff: "src_Err (read_settings V ks) = None \<longleftrightarrow> (\<forall>k \<in> set ks. \<not> setting_bad V k)"
  using missing_count [of V ks] by (metis count_where_zero_iff length_0_conv option.distinct(1) src_Err_def)

section \<open>Migrations run once and in order\<close>

fun run_all :: "(bytes \<Rightarrow> 'd \<Rightarrow> 'd option) \<Rightarrow> bytes list \<Rightarrow> 'd \<Rightarrow> 'd option" where
  "run_all run [] d = Some d"
| "run_all run (b # bs) d = Option.bind (run b d) (run_all run bs)"

definition pending_files :: "migration_file list \<Rightarrow> 'd migrated \<Rightarrow> migration_file list" where
  "pending_files fs s = filter (\<lambda>f. fst f \<notin> set (mg_versions s)) fs"

definition ran :: "(bytes \<Rightarrow> 'd \<Rightarrow> 'd option) \<Rightarrow> migration_file list \<Rightarrow> 'd migrated \<Rightarrow> 'd migrated \<Rightarrow> bool" where
  "ran run fs s s' \<longleftrightarrow> mg_versions s' = mg_versions s @ map fst fs \<and> run_all run (map snd fs) (mg_data s) = Some (mg_data s')"

lemma apply_one_file_cases:
  assumes "apply_one_file F run f s = (ok, s')"
  shows "s' = s \<and> (ok \<longrightarrow> fst f \<in> set (mg_versions s)) \<or> fst f \<notin> set (mg_versions s) \<and> ran run [f] s s'"
  using assms by (auto simp: apply_one_file_def ran_def split: prod.split_asm if_split_asm option.split_asm)

lemma ran_simps: "ran run [] s s" "ran run [f] s s1 \<Longrightarrow> ran run fs s1 t \<Longrightarrow> ran run (f # fs) s t"
  by (auto simp: ran_def split: bind_split_asm)

lemma pending_Cons:
  "fst f \<in> set (mg_versions s) \<Longrightarrow> pending_files (f # fs) s = pending_files fs s"
  "fst f \<notin> set (mg_versions s) \<Longrightarrow> pending_files (f # fs) s = f # pending_files fs s"
  by (simp_all add: pending_files_def)

lemma pending_ran: "ran run [f] s s1 \<Longrightarrow> fst f \<notin> fst ` set fs \<Longrightarrow> pending_files fs s1 = pending_files fs s"
  by (auto simp: pending_files_def ran_def image_iff intro!: filter_cong)

lemma apply_files_prefix:
  assumes "distinct (map fst fs)" "apply_files F run fs s = (ok, s')"
  shows "\<exists>k. ran run (take k (pending_files fs s)) s s' \<and> (ok \<longrightarrow> k \<ge> length (pending_files fs s))"
  using assms
proof (induction fs arbitrary: s)
  case Nil
  then show ?case by (simp add: ran_simps pending_files_def)
next
  case (Cons f fs)
  obtain ok1 s1 where one: "apply_one_file F run f s = (ok1, s1)" by (metis surj_pair)
  have stop: "\<not> ok \<and> s' = s1" if "\<not> ok1" using Cons.prems(2) one that by simp
  have go: "apply_files F run fs s1 = (ok, s')" if ok1 using Cons.prems(2) one that by simp
  from apply_one_file_cases [OF one] consider "s1 = s" "ok1 \<longrightarrow> fst f \<in> set (mg_versions s)" | "fst f \<notin> set (mg_versions s)" "ran run [f] s s1" by auto
  then show ?case
  proof cases
    case 1
    show ?thesis
    proof (cases ok1)
      case True
      then have skip: "pending_files (f # fs) s = pending_files fs s" using 1(2) by (simp add: pending_Cons)
      have "apply_files F run fs s = (ok, s')" using go [OF True] 1(1) by simp
      then show ?thesis unfolding skip using Cons.IH Cons.prems(1) by simp
    next
      case False
      then show ?thesis using stop 1(1) by (intro exI [of _ 0]) (simp add: ran_simps)
    qed
  next
    case 2
    show ?thesis
    proof (cases ok1)
      case True
      then obtain k where "ran run (take k (pending_files fs s)) s1 s'" "ok \<longrightarrow> k \<ge> length (pending_files fs s)"
        using Cons.IH [OF _ go] Cons.prems(1) pending_ran [OF 2(2)] by auto
      then show ?thesis using ran_simps(2) [OF 2(2)] pending_Cons(2) [OF 2(1)] by (intro exI [of _ "Suc k"]) simp
    next
      case False
      then show ?thesis using stop 2(2) pending_Cons(2) [OF 2(1)] by (intro exI [of _ 1]) simp
    qed
  qed
qed

lemma apply_files_settled:
  assumes "\<forall>f \<in> set fs. fst f \<in> set (mg_versions s)" shows "snd (apply_files F run fs s) = s"
  using assms
proof (induction fs)
  case (Cons f fs)
  obtain ok1 s1 where one: "apply_one_file F run f s = (ok1, s1)" by (metis surj_pair)
  then have "s1 = s" using apply_one_file_cases [OF one] Cons.prems by auto
  then show ?case using Cons one by simp
qed simp


section \<open>The dump is never half written\<close>

text \<open>
  C22. At no moment, also when the build is killed in the middle of the download or any system call fails, does the
  dump file hold anything but what it held before or the complete body of an answer with status 200. When the call
  reports success for a configured address, the file is fresh or holds that body.
\<close>

theorem dump_never_truncated:
  assumes "EnsureBview F now answer url path maxAge tmp mtime fs = (ok, states)" and "tmp \<noteq> path"
  shows "(\<forall>g \<in> set states. g path = fs path \<or> (\<exists>body. answer = Some (200, body, True) \<and> g path = Some body)) \<and>
    (ok \<and> url \<noteq> [] \<longrightarrow> fresh_dump F now maxAge path mtime fs \<and> last states path = fs path \<or>
       (\<exists>body. answer = Some (200, body, True) \<and> last states path = Some body))"
proof (cases "url = [] \<or> fresh_dump F now maxAge path mtime fs")
  case True
  then show ?thesis using assms(1) by (auto simp: EnsureBview_def split: if_split_asm)
next
  case False
  then have "fetch_dump F answer path tmp fs = (ok, states)" using assms(1) by (simp add: EnsureBview_def)
  then show ?thesis
    using assms(2) by (auto simp: fetch_dump_def rename_file_def Let_def split: option.split_asm prod.split_asm if_split_asm)
qed

section \<open>Waiting for the database\<close>

lemma connect_loop_Some:
  assumes "\<And>t. snd (attempt t) \<le> t + d" "\<And>t. t \<ge> up \<Longrightarrow> fst (attempt t)" "up + d + 2 * second < deadline" "0 \<le> d"
  shows "connect_loop attempt deadline now \<noteq> None"
  using assms
proof (induction attempt deadline now rule: connect_loop.induct)
  case (1 attempt deadline now)
  obtain ok fin where a: "attempt now = (ok, fin)" by (cases "attempt now")
  show ?case
  proof (cases ok)
    case False
    then have "now < up" using a "1.prems"(2) by (metis fst_conv not_le)
    moreover have "fin \<le> now + d" using a "1.prems"(1) by (metis snd_conv)
    ultimately have "max now fin + 2 * second < deadline" using "1.prems"(3,4) by simp
    then show ?thesis using "1.IH" [OF a [symmetric]] "1.prems" False by (subst connect_loop.simps) (simp add: a)
  qed (subst connect_loop.simps, simp add: a)
qed

text \<open>
  A service that starts before its database gets its connection when the database comes up early enough before the
  deadline for one attempt and one pause.
\<close>

theorem connect_waits:
  assumes "\<And>t. snd (attempt t) \<le> t + d" and "\<And>t. t \<ge> up \<Longrightarrow> fst (attempt t)" and "up + d + 2 * second < now + wait" and "0 \<le> d"
  shows "\<exists>t. WaitAndConnect attempt wait now = Some t"
  using connect_loop_Some [OF assms] by (simp add: WaitAndConnect_def)

section \<open>Readiness\<close>

theorem readyz_iff: "fst (readyz checks) = 200 \<longleftrightarrow> (\<forall>(name, e) \<in> set checks. e = None)"
  by (induction checks rule: readyz.induct) auto

section \<open>Witnesses\<close>

definition demo_conf_env :: "string \<Rightarrow> conf_env" where
  "demo_conf_env token = \<lparr>ev_lookup = (\<lambda>k. if k = ''VAPN_ADMIN_TOKEN'' then Some token else None), ev_parse_duration = (\<lambda>_. Some 0),
     ev_duration_text = (\<lambda>_. ''1m''), ev_quote = id\<rparr>"

theorem dump_hides_secrets_witness:
  "src_Dump (read_settings (demo_conf_env ''abc'') [GetRequired ''ADMIN_TOKEN'', GetDuration ''DB_WAIT'' minute]) =
   src_Dump (read_settings (demo_conf_env ''xyz'') [GetRequired ''ADMIN_TOKEN'', GetDuration ''DB_WAIT'' minute])"
proof (rule dump_hides_secrets)
  have "redacted ''ADMIN_TOKEN''" by code_simp
  moreover have "conf_prefix @ k = ''VAPN_ADMIN_TOKEN'' \<longleftrightarrow> k = ''ADMIN_TOKEN''" for k by (simp add: conf_prefix_def)
  ultimately show "same_public (demo_conf_env ''abc'') (demo_conf_env ''xyz'')" by (auto simp: same_public_def demo_conf_env_def)
qed

definition demo_migrations :: "migration_file list" where
  "demo_migrations = [(''002.sql'', ''b''), (''README'', []), (''001.sql'', ''a'')]"

lemma demo_migrated: "migrate_Apply no_faults (\<lambda>b d. Some (d @ b)) demo_migrations \<lparr>mg_versions = [], mg_data = []\<rparr> =
    (True, \<lparr>mg_versions = [''001.sql'', ''002.sql''], mg_data = ''ab''\<rparr>)"
  by code_simp


theorem dump_never_truncated_witness:
  "list_all (\<lambda>g. g ''/d'' = Some ''old'' \<or> g ''/d'' = Some ''new'')
     (snd (EnsureBview no_faults 10 (Some (200, ''new'', True)) ''u'' ''/d'' 5 ''/t'' (\<lambda>_. 0) [''/d'' \<mapsto> ''old''])) \<and>
   last (snd (EnsureBview no_faults 10 (Some (200, ''new'', True)) ''u'' ''/d'' 5 ''/t'' (\<lambda>_. 0) [''/d'' \<mapsto> ''old''])) ''/d'' = Some ''new''"
proof -
  let ?r = "EnsureBview no_faults 10 (Some (200, ''new'', True)) ''u'' ''/d'' 5 ''/t'' (\<lambda>_. 0) [''/d'' \<mapsto> ''old'']"
  have "fst ?r" "\<not> fresh_dump no_faults 10 5 ''/d'' (\<lambda>_. 0) [''/d'' \<mapsto> ''old'']"
    by (simp_all add: EnsureBview_def fetch_dump_def fresh_dump_def rename_file_def Let_def)
  then show ?thesis using dump_never_truncated [OF surjective_pairing [of ?r]] by (simp add: list_all_iff)
qed

end
