(* ===== verification/Access.thy ===== *)
theory Access
  imports Coordinator
begin

text \<open>
  What the coordinator's endpoints guarantee together: every request changes the registry only
  through the operations of the registry component, a signed request is accepted at most once, the
  middleware admits only live keys of workers that are neither suspended nor retired, the admin
  surface is closed without the token, and the kill switch stops the handing out of work.
\<close>

section \<open>Handlers run registry operations\<close>

text \<open>The registry operations a request may perform beside its nonce check.\<close>

inductive handler_step :: "('a) crypto_scheme \<Rightarrow> registry_schema \<Rightarrow> registry_schema \<Rightarrow> bool" for C where
  create: "CreateWorker F C now raw uid operator name ttl db = Inr (wid, token, db') \<Longrightarrow> handler_step C db db'"
| register: "Register F C now token pub ver db = Inr (wid, st, db') \<Longrightarrow> handler_step C db db'"
| set_state: "SetState F now wid st reason actor db = Inr db' \<Longrightarrow> handler_step C db db'"
| heartbeat: "Heartbeat F now wid ver db = Inr (w, db') \<Longrightarrow> handler_step C db db'"
| rotate: "RotateKey F now wid pub overlap db = Inr db' \<Longrightarrow> handler_step C db db'"
| request: "RequestRotation F wid db = Inr db' \<Longrightarrow> handler_step C db db'"
| event: "handler_step C db (RecordTrustEvent F now wid ty actor db)"
| source: "handler_step C db (SetSourceASN F wid asn db)"

lemma handler_step_reg_step: "handler_step C db db' \<Longrightarrow> reg_step C db db'"
  by (cases rule: handler_step.cases) (auto intro: reg_step.intros)

lemma handler_run_reg_run: "(handler_step C)\<^sup>*\<^sup>* db db' \<Longrightarrow> (reg_step C)\<^sup>*\<^sup>* db db'"
  by (rule rtranclp_mono [THEN predicate2D, rotated]) (auto intro: handler_step_reg_step)

lemma CreateWorker_nonces: "CreateWorker F C now raw uid operator name ttl db = Inr (wid, token, db') \<Longrightarrow>
    replay_nonces db' = replay_nonces db"
  by (auto simp: CreateWorker_def Let_def insert_worker_def insert_token_def split: option.splits if_splits)

lemma Register_nonces: "Register F C now token pub ver db = Inr (wid, st, db') \<Longrightarrow> replay_nonces db' = replay_nonces db"
  by (auto simp: Register_def Let_def set_version_def and_then_Inr_iff split: option.split_asm if_split_asm
      elim!: insert_keyE dest!: insert_event_frame)

lemma RotateKey_nonces: "RotateKey F now wid pub overlap db = Inr db' \<Longrightarrow> replay_nonces db' = replay_nonces db"
  by (auto simp: RotateKey_def Let_def and_then_Inr_iff split: if_split_asm elim!: insert_keyE dest!: insert_event_frame)

lemma handler_step_nonces: "handler_step C db db' \<Longrightarrow> replay_nonces db' = replay_nonces db"
  by (cases rule: handler_step.cases)
    (auto simp: Heartbeat_def RequestRotation_def RecordTrustEvent_def SetSourceASN_def Let_def
      CreateWorker_nonces Register_nonces RotateKey_nonces
      split: if_splits option.splits sum.splits elim!: SetState_ok dest!: insert_event_frame)

lemma handler_run_nonces: "(handler_step C)\<^sup>*\<^sup>* db db' \<Longrightarrow> replay_nonces db' = replay_nonces db"
  by (induction rule: rtranclp_induct) (auto dest: handler_step_nonces)

section \<open>What a request does to the registry\<close>

definition handler_run :: "'s deployment \<Rightarrow> 's server \<Rightarrow> 's server \<Rightarrow> bool" where
  "handler_run dp sv sv' \<longleftrightarrow> (handler_step (dp_env dp))\<^sup>*\<^sup>* (reg sv) (reg sv')"

lemma handler_run_refl [simp, intro]: "reg sv' = reg sv \<Longrightarrow> handler_run dp sv sv'"
  by (simp add: handler_run_def)

text \<open>One operation, and one more operation after a run.\<close>

lemma run_into: "handler_step C db db' \<Longrightarrow> (handler_step C)\<^sup>*\<^sup>* db db'"
  by (rule r_into_rtranclp)

lemma run_snoc: "handler_step C db' db'' \<Longrightarrow> (handler_step C)\<^sup>*\<^sup>* db db' \<Longrightarrow> (handler_step C)\<^sup>*\<^sup>* db db''"
  by (rule rtranclp.rtrancl_into_rtrancl)

lemmas run_one = handler_step.intros [THEN run_into]
lemmas run_more = handler_step.intros [THEN run_snoc]

lemma server_frame [simp]:
  "reg (upd_registry R sv) = R" "reg (upd_db D sv) = registry_of D" "reg (server_audit dp tk c a x s d sv) = reg sv"
  "reg (invalidateManifestCache sv) = reg sv" "reg (snd (currentManifestCached dp now sv)) = reg sv"
  "sv_db (upd_db D sv) = D" "sv_db (invalidateManifestCache sv) = sv_db sv" "sv_db (snd (currentManifestCached dp now sv)) = sv_db sv"
  by (simp_all add: upd_registry_def upd_db_def server_audit_def invalidateManifestCache_def currentManifestCached_def
      split: option.split)

lemma currentManifestCached_reg: "currentManifestCached dp now sv = (m, sv') \<Longrightarrow> sv_db sv' = sv_db sv"
  using server_frame(8) [of dp now sv] by simp

lemma recordSourceASN_run: "handler_run dp sv sv' \<Longrightarrow> handler_run dp sv (recordSourceASN dp tk req wid sv')"
  by (auto simp: recordSourceASN_def handler_run_def split: option.split intro: run_more)

lemma devRegister_run: "handler_run dp sv (snd (devRegister dp tk req rr pub sv))"
proof -
  have "handler_run dp sv (recordSourceASN dp tk req wid (upd_registry R3 sv))"
    if "CreateWorker F (dp_env dp) now raw uid opr name ttl (reg sv) = Inr (wid, token, R1)"
      "Register F (dp_env dp) now token pub ver R1 = Inr (w, st, R2)" "SetState F now wid s reason actor R2 = Inr R3"
    for F now raw uid opr name ttl wid token R1 ver w st R2 s reason actor R3
  proof (rule recordSourceASN_run)
    show "handler_run dp sv (upd_registry R3 sv)"
      using run_more(3) [OF that(3) run_more(2) [OF that(2) run_one(1) [OF that(1)]]] by (simp add: handler_run_def)
  qed
  then show ?thesis
    by (auto simp: devRegister_def Let_def handler_run_def [of _ _ "upd_registry _ _"] split: sum.split
        intro: run_one run_more)
qed

lemma register_run: "handler_run dp sv (snd (register dp tk req sv))"
proof -
  have "handler_run dp sv (server_audit dp tk c a x s d (recordSourceASN dp tk req wid (upd_registry R sv)))"
    if "Register F (dp_env dp) now token pub ver (reg sv) = Inr (w, st, R)" for F now token pub ver w st R c a x s d wid
  proof -
    have "handler_run dp sv (upd_registry R sv)" using run_one(2) [OF that] by (simp add: handler_run_def)
    then show ?thesis using recordSourceASN_run [of dp sv "upd_registry R sv" tk req wid] by (simp add: handler_run_def)
  qed
  then show ?thesis
    by (auto simp: register_def devRegister_run split: option.split sum.split reg_error.split)
qed

lemma handlers_run:
  "handler_run dp sv (snd (heartbeat dp tk wid st body sv))"
  "handler_run dp sv (snd (me dp tk wid st body sv))"
  "handler_run dp sv (snd (currentManifest dp tk wid st body sv))"
  "handler_run dp sv (snd (downloadArtifact dp tk wid st body sv))"
  "handler_run dp sv (snd (rotateKey dp tk wid st body sv))"
  "handler_run dp sv (snd (selfRetire dp tk wid st body sv))"
  by (auto simp: handler_run_def heartbeat_def me_def currentManifest_def downloadArtifact_def rotateKey_def selfRetire_def
      Let_def currentManifestCached_reg split: option.split sum.split prod.split intro: run_one)

lemma pool_handlers_registry:
  "reg (snd (lease_handler dp tk wid st body sv)) = reg sv"
  "reg (snd (release_handler dp tk wid st body sv)) = reg sv"
  "reg (snd (upload_handler dp tk wid st body sv)) = reg sv"
  by (auto simp: lease_handler_def leaseAssignments_def release_handler_def releaseAssignments_def upload_handler_def
      uploadObservations_def Let_def split: option.split sum.split prod.split)

lemma admin_handlers_run:
  "handler_run dp sv (snd (adminPause b dp tk req sv))"
  "handler_run dp sv (snd (adminCreateWorker dp tk req sv))"
  "handler_run dp sv (snd (adminListWorkers dp tk req sv))"
  "handler_run dp sv (snd (adminSetState dp wid tk req sv))"
  "handler_run dp sv (snd (adminRequestRotation dp wid tk req sv))"
  "handler_run dp sv (snd (adminOverview dp et tk req sv))"
  "handler_run dp sv (snd (adminWorkerDetail dp wid tk req sv))"
  "handler_run dp sv (snd (adminListSnapshots dp tk req sv))"
  "handler_run dp sv (snd (adminRollbackSnapshot dp reason ver tk req sv))"
  "handler_run dp sv (snd (adminAudit dp tk req sv))"
  by (auto simp: handler_run_def adminPause_def adminCreateWorker_def adminListWorkers_def adminSetState_def
      adminRequestRotation_def adminOverview_def adminWorkerDetail_def adminListSnapshots_def adminRollbackSnapshot_def
      adminAudit_def Let_def split: option.split sum.split prod.split reg_error.split intro: run_one)

section \<open>The middleware\<close>

lemma authenticate_Inr:
  assumes "authenticate dp tk req sv = (Inr (wid, st, body), sv')"
  obtains keys nonce R where "wid = header_get (req_header req) HeaderWorkerID" "limited max_body req = Some body"
    "ActiveKeys (tk_faults tk) (tk_now tk) wid (reg sv) = Inr (keys, st)"
    "verify_any (dp_env dp) (req_method req) (req_path req) (req_header req) body (tk_now tk) keys = Some nonce"
    "SeenNonce (tk_faults tk) (tk_now tk) wid nonce (reg sv) = Inr (False, R)"
    "st \<noteq> ''suspended''" "st \<noteq> ''retired''" "sv' = upd_registry R sv"
  using assms
  by (auto simp: authenticate_def Let_def split: if_split_asm option.split_asm sum.split_asm prod.split_asm bool.split_asm)

lemma authenticate_run: "(reg_step (dp_env dp))\<^sup>*\<^sup>* (reg sv) (reg (snd (authenticate dp tk req sv)))"
  by (auto simp: authenticate_def Let_def split: option.split sum.split bool.split
      intro: reg_step.event reg_step.nonce rtranclp.rtrancl_into_rtrancl [OF r_into_rtranclp])

lemma SeenNonce_cases [consumes 1, case_names replayed fresh]:
  assumes "SeenNonce F now wid nonce db = Inr (seen, db')"
  obtains "seen" "db' = db" "(wid, nonce) \<in> (\<lambda>n. (n_worker_id n, n_nonce n)) ` set (replay_nonces db)"
  | "\<not> seen" "(wid, nonce) \<notin> (\<lambda>n. (n_worker_id n, n_nonce n)) ` set (replay_nonces db)"
    "replay_nonces db' = replay_nonces db @ [\<lparr>n_worker_id = wid, n_nonce = nonce, n_seen_at = now\<rparr>]"
  using assms by (auto simp: SeenNonce_def split: if_split_asm)

lemma RecordTrustEvent_nonces [simp]: "replay_nonces (RecordTrustEvent F now wid ty actor db) = replay_nonces db"
  by (rule handler_step_nonces [of undefined]) (rule handler_step.event)

lemma authenticate_nonces: "set (replay_nonces (reg sv)) \<subseteq> set (replay_nonces (reg (snd (authenticate dp tk req sv))))"
  by (auto simp: authenticate_def Let_def split: option.split sum.split bool.split elim!: SeenNonce_cases)

lemma verify_any_Some:
  "verify_any E method path header body now keys = Some nonce \<Longrightarrow>
     \<exists>pub \<in> set keys. Verify E method path header body pub now = Inr nonce"
  by (induction keys) (auto split: sum.split_asm)

lemma Verify_Inr:
  assumes "Verify E method path header body pub now = Inr nonce"
  obtains t where "nonce = header_get header HeaderNonce" "rfc3339_parse E (header_get header HeaderTimestamp) = Some t"
    "\<bar>now - t\<bar> \<le> MaxSkew"
  using assms by (auto simp: Verify_def Let_def split: if_split_asm option.split_asm)

lemma authenticate_fresh:
  assumes "authenticate dp tk req sv = (Inr (wid, st, body), sv')"
  shows "\<exists>R t. wid = header_get (req_header req) HeaderWorkerID \<and>
    SeenNonce (tk_faults tk) (tk_now tk) wid (header_get (req_header req) HeaderNonce) (reg sv) = Inr (False, R) \<and>
    sv' = upd_registry R sv \<and>
    rfc3339_parse (dp_env dp) (header_get (req_header req) HeaderTimestamp) = Some t \<and> \<bar>tk_now tk - t\<bar> \<le> MaxSkew"
  using assms
proof (rule authenticate_Inr)
  fix keys nonce R
  assume a: "wid = header_get (req_header req) HeaderWorkerID"
    "verify_any (dp_env dp) (req_method req) (req_path req) (req_header req) body (tk_now tk) keys = Some nonce"
    "SeenNonce (tk_faults tk) (tk_now tk) wid nonce (reg sv) = Inr (False, R)" "sv' = upd_registry R sv"
  obtain pub where "Verify (dp_env dp) (req_method req) (req_path req) (req_header req) body pub (tk_now tk) = Inr nonce"
    using verify_any_Some [OF a(2)] by blast
  then obtain t where "nonce = header_get (req_header req) HeaderNonce"
    "rfc3339_parse (dp_env dp) (header_get (req_header req) HeaderTimestamp) = Some t" "\<bar>tk_now tk - t\<bar> \<le> MaxSkew"
    by (rule Verify_Inr)
  then show ?thesis using a by blast
qed

definition signed_endpoint :: "endpoint \<Rightarrow> bool" where
  "signed_endpoint e \<longleftrightarrow>
     e \<in> {EHeartbeat, EMe, EManifest, EDownload, ELease, ERelease, EUpload, ERotate, ERetire}"

lemma pool_handlers_run:
  "handler_run dp sv (snd (lease_handler dp tk wid st body sv))"
  "handler_run dp sv (snd (release_handler dp tk wid st body sv))"
  "handler_run dp sv (snd (upload_handler dp tk wid st body sv))"
  by (simp_all add: pool_handlers_registry handler_run_refl)

lemmas all_runs = handlers_run pool_handlers_run admin_handlers_run register_run

lemma signed_snd:
  assumes "\<And>wid st body sv. handler_run dp sv (snd (next tk wid st body sv))"
  shows "handler_run dp (snd (authenticate dp tk req sv)) (snd (signed dp next tk req sv))"
  using assms by (auto simp: signed_def split: prod.split sum.split)

lemma admin_run:
  assumes "\<And>sv. handler_run dp sv (snd (next tk req sv))"
  shows "handler_run dp sv (snd (admin dp next tk req sv))"
  using assms by (simp add: admin_def)

text \<open>A request is an authentication (on the signed endpoints) followed by registry operations.\<close>

lemma endpoint_run:
  "handler_run dp (if signed_endpoint e then snd (authenticate dp tk req sv) else sv)
     (snd (endpoint_handler dp tx e vs tk req sv))"
  by (cases e) (simp_all add: endpoint_handler_def signed_endpoint_def all_runs signed_snd admin_run)

lemma serve_registry_run: "(reg_step (dp_env dp))\<^sup>*\<^sup>* (reg sv) (reg (snd (serve dp tx tk req sv)))"
proof (cases "route_of (req_method req) (req_path req)")
  case (Some ev)
  obtain e vs where ev: "ev = (e, vs)" by (cases ev)
  have "(reg_step (dp_env dp))\<^sup>*\<^sup>* (reg (if signed_endpoint e then snd (authenticate dp tk req sv) else sv))
      (reg (snd (endpoint_handler dp tx e vs tk req sv)))"
    using endpoint_run [of dp e tk req sv tx vs] by (simp only: handler_run_def handler_run_reg_run)
  moreover have "(reg_step (dp_env dp))\<^sup>*\<^sup>* (reg sv) (reg (if signed_endpoint e then snd (authenticate dp tk req sv) else sv))"
    using authenticate_run [of dp sv tk req] by simp
  ultimately show ?thesis using Some ev by (simp add: serve_def)
qed (simp add: serve_def)

lemma serve_nonces: "set (replay_nonces (reg sv)) \<subseteq> set (replay_nonces (reg (snd (serve dp tx tk req sv))))"
proof (cases "route_of (req_method req) (req_path req)")
  case (Some ev)
  obtain e vs where ev: "ev = (e, vs)" by (cases ev)
  have "replay_nonces (reg (snd (endpoint_handler dp tx e vs tk req sv))) =
      replay_nonces (reg (if signed_endpoint e then snd (authenticate dp tk req sv) else sv))"
    using endpoint_run [of dp e tk req sv tx vs] by (simp only: handler_run_def handler_run_nonces)
  then show ?thesis using Some ev authenticate_nonces [of sv dp tk req] by (simp add: serve_def)
qed (simp add: serve_def)

lemma serve_signed_nonces:
  assumes "route_of (req_method req) (req_path req) = Some (e, vs)" "signed_endpoint e"
  shows "replay_nonces (reg (snd (serve dp tx tk req sv))) = replay_nonces (reg (snd (authenticate dp tk req sv)))"
  using endpoint_run [of dp e tk req sv tx vs] assms by (simp add: serve_def handler_run_def handler_run_nonces)

section \<open>Runs of the coordinator\<close>

text \<open>
  A state is the instant of the last event and the server. Requests and maintenance passes come in
  any order; between them the other services write what they like except the nonce table.
\<close>

inductive coord_step :: "'s deployment \<Rightarrow> texts \<Rightarrow> time \<times> 's server \<Rightarrow> time \<times> 's server \<Rightarrow> bool" for dp tx where
  request: "t \<le> tk_now tk \<Longrightarrow> coord_step dp tx (t, sv) (tk_now tk, snd (serve dp tx tk req sv))"
| maintain: "t \<le> tk_now tk \<Longrightarrow> coord_step dp tx (t, sv) (tk_now tk, maintenance tk sv)"
| others: "t \<le> t' \<Longrightarrow> replay_nonces (registry_of D) = replay_nonces (reg sv) \<Longrightarrow> coord_step dp tx (t, sv) (t', upd_db D sv)"

inductive_cases coord_stepE: "coord_step dp tx (t, sv) (t', sv')"

text \<open>A nonce seen at \<open>t1\<close> is in the table as long as the retention window since then has not passed.\<close>

definition nonce_held :: "time \<Rightarrow> string \<Rightarrow> string \<Rightarrow> time \<times> 's server \<Rightarrow> bool" where
  "nonce_held t1 wid nonce ts \<longleftrightarrow> fst ts > t1 + 2 * MaxSkew \<or>
     (\<exists>n \<in> set (replay_nonces (reg (snd ts))). n_worker_id n = wid \<and> n_nonce n = nonce \<and> t1 \<le> n_seen_at n)"

lemma maintenance_nonces:
  "replay_nonces (reg (maintenance tk sv)) = replay_nonces (reg sv) \<or>
   replay_nonces (reg (maintenance tk sv)) = filter (\<lambda>n. \<not> n_seen_at n < tk_now tk - 2 * MaxSkew) (replay_nonces (reg sv))"
  by (auto simp: maintenance_def PruneNonces_def Let_def)

interpretation held: invariant_system "coord_step dp tx" "nonce_held t1 wid nonce" for dp tx t1 wid nonce
proof unfold_locales
  fix s s'
  assume held: "nonce_held t1 wid nonce s" and step: "coord_step dp tx s s'"
  from step held show "nonce_held t1 wid nonce s'"
  proof (cases rule: coord_step.cases)
    case (request t tk sv req)
    then show ?thesis using held serve_nonces [of sv dp tx tk req] by (auto simp: nonce_held_def)
  next
    case (maintain t tk sv)
    then show ?thesis using held maintenance_nonces [of tk sv] by (fastforce simp: nonce_held_def)
  next
    case (others t t' D sv)
    then show ?thesis using held by (auto simp: nonce_held_def)
  qed
qed

lemma coord_step_time: "coord_step dp tx s s' \<Longrightarrow> fst s \<le> fst s'"
  by (cases rule: coord_step.cases) auto


lemma ActiveKeys_sound:
  assumes "ActiveKeys F now wid db = Inr (keys, st)" and "pub \<in> set keys"
  shows "(\<exists>w \<in> set (workers db). w_id w = wid \<and> w_state w = st) \<and>
    (\<exists>k \<in> set (worker_keys db). k_worker_id k = wid \<and> key_active now k \<and> k_public_key k = pub)"
proof -
  obtain w where w: "lookup_by w_id wid (workers db) = Some w" "st = w_state w"
    and k: "keys = filter (\<lambda>p. length p = public_key_size) (map k_public_key (rev (sort_key k_id
          (filter (\<lambda>k. k_worker_id k = wid \<and> key_active now k) (worker_keys db)))))"
    using assms(1) by (auto simp: ActiveKeys_def Let_def split: if_split_asm option.split_asm)
  have "pub \<in> k_public_key ` {k \<in> set (worker_keys db). k_worker_id k = wid \<and> key_active now k}"
    using assms(2) unfolding k by auto
  then show ?thesis using w lookup_by_SomeD by fastforce
qed


text \<open>
  C25. Every request keeps the registry sound: whatever endpoint is called, with whatever credentials
  and whatever statements fail, the invariant of the registry survives and a retired worker stays
  retired.
\<close>

theorem serve_keeps_registry:
  assumes "reg_inv (reg sv)"
  shows "reg_inv (reg (snd (serve dp tx tk req sv))) \<and>
    (worker_state (reg sv) wid = Some ''retired'' \<longrightarrow> worker_state (reg (snd (serve dp tx tk req sv))) wid = Some ''retired'')"
  using registry.reachable_inv [OF serve_registry_run assms] retired.reachable_inv [OF serve_registry_run] by blast

text \<open>
  Without the admin token the admin surface does nothing: the answer is 401 and the server is
  unchanged. An empty configured token closes it altogether.
\<close>

theorem admin_needs_token:
  assumes "route_of (req_method req) (req_path req) = Some (e, vs)" "\<not> signed_endpoint e" "e \<noteq> ERegister"
    and "cf_admin_token (dp_cfg dp) = [] \<or>
      header_get (req_header req) ''Authorization'' \<noteq> ''Bearer '' @ cf_admin_token (dp_cfg dp)"
  shows "serve dp tx tk req sv = (Problem 401 ''invalid admin credential'', sv)"
  using assms by (cases e) (simp_all add: serve_def endpoint_handler_def signed_endpoint_def admin_def response_defs)

section \<open>The kill switch\<close>

lemma paused_frame [simp]:
  "sv_paused (upd_registry R sv) = sv_paused sv" "sv_paused (upd_db D sv) = sv_paused sv"
  "sv_paused (server_audit dp tk c a x s d sv) = sv_paused sv" "sv_paused (invalidateManifestCache sv) = sv_paused sv"
  "sv_paused (snd (currentManifestCached dp now sv)) = sv_paused sv" "sv_paused (recordSourceASN dp tk req wid sv) = sv_paused sv"
  "sv_paused (snd (authenticate dp tk req sv)) = sv_paused sv"
  by (simp_all add: upd_registry_def upd_db_def server_audit_def invalidateManifestCache_def currentManifestCached_def
      recordSourceASN_def authenticate_def Let_def split: option.split sum.split bool.split)

abbreviation sched :: "'s server \<Rightarrow> scheduling_schema" where
  "sched sv \<equiv> scheduling_of (sv_db sv)"

lemma sched_frame [simp]:
  "sched (upd_registry R sv) = sched sv" "sched (server_audit dp tk c a x s d sv) = sched sv"
  "sched (recordSourceASN dp tk req wid sv) = sched sv" "sched (snd (authenticate dp tk req sv)) = sched sv"
  by (simp_all add: upd_registry_def upd_db_def server_audit_def recordSourceASN_def authenticate_def Let_def
      split: option.split sum.split bool.split)

lemma currentManifestCached_paused: "currentManifestCached dp now sv = (m, sv') \<Longrightarrow> sv_paused sv' = sv_paused sv"
  using paused_frame(5) [of dp now sv] by simp

text \<open>Every handler but lease and release leaves the scheduling tables alone, and only the two switches change the flag.\<close>

definition quiet :: "'s server \<Rightarrow> 's server \<Rightarrow> bool" where
  "quiet sv sv' \<longleftrightarrow> sv_paused sv' = sv_paused sv \<and> sched sv' = sched sv"

lemma devRegister_quiet: "quiet sv (snd (devRegister dp tk req rr pub sv))"
  by (simp add: quiet_def devRegister_def Let_def split: sum.split prod.split)

lemma register_quiet: "quiet sv (snd (register dp tk req sv))"
  using devRegister_quiet [of sv dp tk req] by (simp add: quiet_def register_def split: option.split sum.split prod.split reg_error.split)

lemma upload_scheduling: "scheduling_of (snd (uploadObservations F C mj now w r D)) = scheduling_of D"
  by (simp add: uploadObservations_def Let_def split: option.split sum.split prod.split)

lemma upload_quiet: "quiet sv (snd (upload_handler dp tk wid st body sv))"
  using upload_scheduling [of "tk_faults tk" "dp_env dp" "dp_marshal dp" "tk_now tk" wid "dec_upload (dp_dec dp) body" "sv_db sv"]
  by (auto simp: quiet_def upload_handler_def split: prod.split)

lemma heartbeat_quiet: "quiet sv (snd (heartbeat dp tk wid st body sv))"
  by (simp add: quiet_def heartbeat_def currentManifestCached_paused currentManifestCached_reg Let_def
      split: option.split sum.split prod.split)

lemma quiet_handlers:
  "quiet sv (snd (me dp tk wid st body sv))"
  "quiet sv (snd (currentManifest dp tk wid st body sv))"
  "quiet sv (snd (downloadArtifact dp tk wid st body sv))"
  "quiet sv (snd (rotateKey dp tk wid st body sv))"
  "quiet sv (snd (selfRetire dp tk wid st body sv))"
  by (simp_all add: quiet_def me_def currentManifest_def downloadArtifact_def
      rotateKey_def selfRetire_def Let_def currentManifestCached_paused currentManifestCached_reg
      split: option.split sum.split prod.split)

lemma quiet_admin:
  "quiet sv (snd (adminCreateWorker dp tk req sv))"
  "quiet sv (snd (adminListWorkers dp tk req sv))"
  "quiet sv (snd (adminSetState dp wid tk req sv))"
  "quiet sv (snd (adminRequestRotation dp wid tk req sv))"
  "quiet sv (snd (adminOverview dp et tk req sv))"
  "quiet sv (snd (adminWorkerDetail dp wid tk req sv))"
  "quiet sv (snd (adminListSnapshots dp tk req sv))"
  "quiet sv (snd (adminRollbackSnapshot dp reason ver tk req sv))"
  "quiet sv (snd (adminAudit dp tk req sv))"
  by (simp_all add: quiet_def adminCreateWorker_def adminListWorkers_def adminSetState_def adminRequestRotation_def
      adminOverview_def adminWorkerDetail_def adminListSnapshots_def adminRollbackSnapshot_def adminAudit_def Let_def
      split: option.split sum.split prod.split reg_error.split)

text \<open>The expiry of every lease ever granted.\<close>

definition expiries :: "'s server \<Rightarrow> (nat \<times> time) list" where
  "expiries sv = map (\<lambda>l. (l_id l, l_expires_at l)) (leases (sched sv))"

lemma release_expiries: "sv_paused (snd (release_handler dp tk wid st body sv)) = sv_paused sv \<and>
    expiries (snd (release_handler dp tk wid st body sv)) = expiries sv"
  by (simp add: expiries_def release_handler_def releaseAssignments_def release_stmt_def release_where_def Let_def
      update_where_proj split: option.split)

lemma paused_lease: "sv_paused sv \<Longrightarrow> snd (lease_handler dp tk wid st body sv) = sv"
  by (simp add: lease_handler_def leaseAssignments_def upd_db_def split: option.split)

definition idle :: "'s server \<Rightarrow> 's server \<Rightarrow> bool" where
  "idle sv sv' \<longleftrightarrow> (sv_paused sv \<longrightarrow> sv_paused sv' \<and> expiries sv' = expiries sv)"

lemma idle_refl: "idle sv sv"
  by (simp add: idle_def)

lemma quiet_idle: "quiet sv sv' \<Longrightarrow> idle sv sv'"
  by (simp add: quiet_def idle_def expiries_def)

lemma idle_pool:
  "idle sv (snd (lease_handler dp tk wid st body sv))" "idle sv (snd (release_handler dp tk wid st body sv))"
  "idle sv (snd (adminPause True dp tk req sv))"
  using release_expiries [of dp tk wid st body sv]
  by (simp_all add: idle_def paused_lease adminPause_def) (simp add: expiries_def)

lemma signed_idle:
  assumes "\<And>wid st body sv. idle sv (snd (next tk wid st body sv))"
  shows "idle sv (snd (signed dp next tk req sv))"
proof -
  have "idle (snd (authenticate dp tk req sv)) (snd (signed dp next tk req sv))"
    using assms by (auto simp: signed_def idle_refl split: prod.split sum.split)
  then show ?thesis by (simp add: idle_def expiries_def)
qed

lemma admin_idle:
  "(\<And>sv. idle sv (snd (next tk req sv))) \<Longrightarrow> idle sv (snd (admin dp next tk req sv))"
  by (simp add: admin_def idle_def)

lemmas all_idle = idle_pool quiet_handlers [THEN quiet_idle] quiet_admin [THEN quiet_idle] upload_quiet [THEN quiet_idle]
  heartbeat_quiet [THEN quiet_idle] register_quiet [THEN quiet_idle]

lemma endpoint_idle: "e \<noteq> AResume \<Longrightarrow> idle sv (snd (endpoint_handler dp tx e vs tk req sv))"
  by (cases e) (simp_all add: endpoint_handler_def signed_idle admin_idle all_idle)

text \<open>
  The kill switch works: once the scheduler is paused, no request other than the admin's resume
  grants a lease or extends one. Every lease keeps its expiry and none is added, so all work
  runs out within one lease lifetime, and the switch stays on.
\<close>

theorem paused_grants_nothing:
  assumes "sv_paused sv" and "\<And>vs. route_of (req_method req) (req_path req) \<noteq> Some (AResume, vs)"
  shows "sv_paused (snd (serve dp tx tk req sv)) \<and> expiries (snd (serve dp tx tk req sv)) = expiries sv"
proof (cases "route_of (req_method req) (req_path req)")
  case (Some ev)
  obtain e vs where ev: "ev = (e, vs)" by (cases ev)
  then have "e \<noteq> AResume" using assms(2) Some by auto
  then have "idle sv (snd (endpoint_handler dp tx e vs tk req sv))" by (rule endpoint_idle)
  then show ?thesis using assms(1) Some ev by (simp add: serve_def idle_def)
qed (use assms(1) in \<open>simp add: serve_def\<close>)

section \<open>A deployment\<close>

definition demo_decoders :: decoders where
  "demo_decoders = \<lparr>dec_register = (\<lambda>_. None), dec_heartbeat = Some, dec_lease = (\<lambda>_. Some 3), dec_release = (\<lambda>_. None),
     dec_upload = (\<lambda>_. None), dec_rotate = (\<lambda>_. None), dec_create = (\<lambda>_. None), dec_state = (\<lambda>_. Some (''active'', []))\<rparr>"

definition demo_dp :: "filesystem deployment" where
  "demo_dp = \<lparr>dp_env = demo_env, dp_marshal = demo_marshal, dp_codec = demo_codec, dp_store = FSStore no_faults ''/s'',
     dp_dec = demo_decoders,
     dp_cfg = \<lparr>cf_admin_token = ''adm'', cf_audit = True, cf_dev_token = [], cf_poll_ttl = 0, cf_lease_ttl = 0,
        cf_resolve_asn = None, cf_max_assignments = 0\<rparr>,
     dp_time_json = (\<lambda>t. JNum (of_int t)), dp_error_text = (\<lambda>_. ''error'')\<rparr>"

definition demo_texts :: texts where
  "demo_texts = \<lparr>tx_advisor = (\<lambda>_. ''error''), tx_rollback = ''error''\<rparr>"

definition demo_server :: "filesystem server" where
  "demo_server = \<lparr>sv_db = demo_db, sv_store = \<lambda>_. None, sv_paused = False, sv_advisor = [], sv_cached = None, sv_fetched = 0\<rparr>"

definition demo_tick :: "time \<Rightarrow> tick" where
  "demo_tick now = \<lparr>tk_faults = no_faults, tk_now = now, tk_rand = Some ''r'', tk_uuid = ''u'', tk_locked = (\<lambda>_. False)\<rparr>"

definition demo_request :: "string \<Rightarrow> string \<Rightarrow> request" where
  "demo_request method path =
     the (Sign demo_env 20 (Some ''n'') ''w1'' demo_key []
       \<lparr>req_method = method, req_path = path, req_query = [], req_header = [], req_body = Some [], req_remote = []\<rparr>)"

lemma demo_request_simps:
  "req_method (demo_request m p) = m" "req_path (demo_request m p) = p" "req_body (demo_request m p) = Some []"
  "header_get (req_header (demo_request m p)) HeaderWorkerID = ''w1''"
  "header_get (req_header (demo_request m p)) HeaderTimestamp = ''p''"
  "header_get (req_header (demo_request m p)) HeaderNonce = hex_encode ''n''"
  "header_get (req_header (demo_request m p)) HeaderSignature =
     b64_encode (ed_sign demo_env demo_key (canonical demo_env m p ''p'' (hex_encode ''n'') []))"
  by (simp_all add: demo_request_def Sign_def Let_def demo_env_def)

lemma demo_verify: "Verify demo_env m p (req_header (demo_request m p)) [] demo_key 20 = Inr (hex_encode ''n'')"
proof -
  have "rfc3339_parse demo_env ''p'' = Some 0" by (simp add: demo_env_def)
  moreover have "ed_verify demo_env demo_key x (ed_sign demo_env demo_key x)" "ed_sign demo_env demo_key x \<noteq> []"
    "hex_encode ''n'' \<noteq> []" for x
    by (simp_all add: demo_env_def pad_def hex_encode_def)
  ultimately show ?thesis by (simp add: Verify_def demo_request_simps MaxSkew_def)
qed

lemma demo_authenticate:
  "\<exists>sv'. authenticate demo_dp (demo_tick 20) (demo_request m p) demo_server = (Inr (''w1'', ''pending'', []), sv')"
proof -
  have "has_worker demo_registered ''w1''" "replay_nonces demo_registered = []"
    by (simp_all add: demo_registered_def demo_eval has_worker_def)
  then show ?thesis
    by (simp add: authenticate_def demo_dp_def demo_tick_def demo_server_def demo_db_def limited_def demo_request_simps
        demo_active demo_verify SeenNonce_def Let_def)
qed

lemma demo_routes:
  "route_of ''GET'' ''/api/v1/workers/me'' = Some (EMe, [])" "route_of ''POST'' ''/api/v1/assignments/lease'' = Some (ELease, [])"
  "route_of ''POST'' ''/admin/v1/workers/w1/state'' = Some (ASetState, [''w1''])"
  by code_simp+



theorem serve_keeps_registry_witness:
  "reg_inv (reg (snd (serve demo_dp demo_texts (demo_tick 20) (demo_request ''GET'' ''/api/v1/workers/me'') demo_server)))"
proof -
  have "reg_inv (reg demo_server)"
    using registry.reachable_inv [OF demo_registered_reachable demo_registry_inv] by (simp add: demo_server_def demo_db_def)
  then show ?thesis using serve_keeps_registry by blast
qed

theorem admin_needs_token_witness:
  "serve demo_dp demo_texts (demo_tick 20) (demo_request ''POST'' ''/admin/v1/workers/w1/state'') demo_server =
     (Problem 401 ''invalid admin credential'', demo_server)"
proof -
  have "header_get (req_header (demo_request m p)) ''Authorization'' = []" for m p
    by (simp add: demo_request_def Sign_def Let_def header_get_def header_set_def obj_set_def)
  then show ?thesis
    by (intro admin_needs_token [where e = ASetState and vs = "[''w1'']"])
      (simp_all add: demo_request_simps demo_routes signed_endpoint_def demo_dp_def)
qed

theorem paused_grants_nothing_witness:
  "expiries (snd (serve demo_dp demo_texts (demo_tick 20) (demo_request ''POST'' ''/api/v1/assignments/lease'')
     (demo_server\<lparr>sv_paused := True\<rparr>))) = expiries demo_server \<and> expiries demo_server \<noteq> []"
proof -
  have "expiries (snd (serve demo_dp demo_texts (demo_tick 20) (demo_request ''POST'' ''/api/v1/assignments/lease'')
     (demo_server\<lparr>sv_paused := True\<rparr>))) = expiries (demo_server\<lparr>sv_paused := True\<rparr>)"
    by (rule conjunct2 [OF paused_grants_nothing]) (simp_all add: demo_request_simps demo_routes)
  moreover have "expiries (demo_server\<lparr>sv_paused := True\<rparr>) = expiries demo_server" "expiries demo_server \<noteq> []"
    by (simp_all add: expiries_def demo_server_def demo_db_def demo_scheduled_def demo_lease new_leases_def)
  ultimately show ?thesis by simp
qed

end
