(* ===== verification/Fleet.thy ===== *)
theory Fleet
  imports Access Worker
begin

text \<open>
  A worker and the coordinator together: the network of the client is the HTTP service of
  \<^verbatim>\<open>Coordinator\<close>. The state of the world is the number of requests so far and the server; every request meets its
  own instant and failures, and an answer may be lost after the request took effect.
\<close>

section \<open>Composition\<close>

definition coordinator_net :: "'s deployment \<Rightarrow> texts \<Rightarrow> (nat \<Rightarrow> tick) \<Rightarrow> (nat \<Rightarrow> bool) \<Rightarrow> (nat \<times> 's server) net" where
  "coordinator_net dp tx ticks lost req w =
     (case w of (n, sv) \<Rightarrow> (case serve dp tx (ticks n) req sv of (resp, sv') \<Rightarrow> (if lost n then None else Some resp, (n + 1, sv'))))"

abbreviation stored_obs :: "'s server \<Rightarrow> observation_row list" where
  "stored_obs sv \<equiv> observations (measurements_of (sv_db sv))"

abbreviation batch_ids :: "'s server \<Rightarrow> string list" where
  "batch_ids sv \<equiv> map b_batch_id (upload_batches (measurements_of (sv_db sv)))"

abbreviation leases_held :: "string \<Rightarrow> 's server \<Rightarrow> int \<rightharpoonup> string" where
  "leases_held wid sv \<equiv> held_map wid (scheduling_of (sv_db sv))"

text \<open>The tables the checks of an upload read.\<close>

definition same_checks :: "'s server \<Rightarrow> 's server \<Rightarrow> bool" where
  "same_checks sv sv' \<longleftrightarrow> scheduling_of (sv_db sv') = scheduling_of (sv_db sv) \<and> workers (reg sv') = workers (reg sv) \<and>
     worker_keys (reg sv') = worker_keys (reg sv)"

lemma ActiveKeys_same: "same_checks sv sv' \<Longrightarrow> ActiveKeys F now wid (reg sv') = ActiveKeys F now wid (reg sv)"
  by (simp only: ActiveKeys_def same_checks_def)

lemma same_checks_trans: "same_checks a b \<Longrightarrow> same_checks b c \<Longrightarrow> same_checks a c"
  by (simp add: same_checks_def)

lemma upd_registry_db [simp]: "sv_db (upd_registry R sv) = (sv_db sv)\<lparr>registry_of := R\<rparr>"
  by (simp add: upd_registry_def)

section \<open>Authentication of what a client signs\<close>

lemma Sign_request:
  assumes "Sign E t raw wid key body req = Some req'"
  shows "req_method req' = req_method req" "req_path req' = req_path req" "req_body req' = req_body req"
    "header_get (req_header req') HeaderWorkerID = wid"
  using assms by (auto simp: Sign_def Let_def split: option.split_asm)

lemma RecordTrustEvent_rows [simp]:
  "workers (RecordTrustEvent F now wid ty actor db) = workers db" "worker_keys (RecordTrustEvent F now wid ty actor db) = worker_keys db"
  by (auto simp: RecordTrustEvent_def split: sum.split dest: insert_event_frame)

lemma SeenNonce_rows: "SeenNonce F now wid nonce db = Inr (seen, db') \<Longrightarrow> workers db' = workers db \<and> worker_keys db' = worker_keys db"
  by (auto simp: SeenNonce_def split: if_split_asm)

lemma authenticate_frame:
  assumes "authenticate dp tk req sv = (r, sv')"
  shows "same_checks sv sv'" "measurements_of (sv_db sv') = measurements_of (sv_db sv)" "\<And>resp. r = Inl resp \<Longrightarrow> 400 \<le> status_of resp"
  using assms SeenNonce_rows
  by (auto simp: authenticate_def same_checks_def Let_def split: if_split_asm option.split_asm sum.split_asm prod.split_asm bool.split_asm dest: SeenNonce_rows)

lemma upload_refused:
  assumes "uploadObservations F C mj now wid (Some (batch, obs)) D = (resp, D')" "\<not> batch_known batch D" "status_of resp \<noteq> 202"
  shows "400 \<le> status_of resp"
  using assms by (auto simp: uploadObservations_def upload_response_def Let_def split: if_split_asm sum.split_asm prod.split_asm)

lemma upload_route: "route_of ''POST'' ''/api/v1/observations'' = Some (EUpload, [])"
  by code_simp

section \<open>Uploads\<close>

text \<open>What one call can have done: nothing, or stored the checked measurements of the batch; only the latter is acknowledged.\<close>

definition batch_stored :: "'s deployment \<Rightarrow> bytes list \<Rightarrow> string \<Rightarrow> string \<Rightarrow> Observation list \<Rightarrow> 's server \<Rightarrow> 's server \<Rightarrow> bool" where
  "batch_stored dp K wid batch obs sv sv' \<longleftrightarrow>
     stored_obs sv' = stored_obs sv @ accept (dp_env dp) (dp_marshal dp) K (leases_held wid sv) wid obs \<and> batch_ids sv' = batch_ids sv @ [batch]"

text \<open>Encoder and decoder of an upload fit, and the body is within the limit of the server.\<close>

definition upload_codec :: "worker_env \<Rightarrow> 's deployment \<Rightarrow> bool" where
  "upload_codec E dp \<longleftrightarrow> (\<forall>batch obs body. enc_upload (we_enc E) batch obs = Some body \<longrightarrow> dec_upload (dp_dec dp) body = Some (batch, obs))"

definition keys_are :: "bytes list \<Rightarrow> string \<Rightarrow> (nat \<Rightarrow> tick) \<Rightarrow> 's server \<Rightarrow> bool" where
  "keys_are K wid ticks sv \<longleftrightarrow> (\<forall>m ks st. ActiveKeys (tk_faults (ticks m)) (tk_now (ticks m)) wid (reg sv) = Inr (ks, st) \<longrightarrow> ks = K)"

lemma keys_are_same: "same_checks sv sv' \<Longrightarrow> keys_are K wid ticks sv' \<longleftrightarrow> keys_are K wid ticks sv"
  by (simp add: keys_are_def ActiveKeys_same)

lemma upload_served:
  assumes "serve dp tx (ticks n) req sv = (resp, sv')" "req_method req = ''POST''" "req_path req = ''/api/v1/observations''"
    and "header_get (req_header req) HeaderWorkerID = wid" "req_body req = Some body" "length body \<le> max_body"
    and "dec_upload (dp_dec dp) body = Some (batch, obs)" "keys_are K wid ticks sv" "batch \<notin> set (batch_ids sv)"
  shows "same_checks sv sv' \<and> (measurements_of (sv_db sv') = measurements_of (sv_db sv) \<and> 300 \<le> status_of resp \<or> batch_stored dp K wid batch obs sv sv')"
proof -
  obtain a sv1 where a: "authenticate dp (ticks n) req sv = (a, sv1)" by (metis surj_pair)
  note fr = authenticate_frame [OF a]
  have served: "serve dp tx (ticks n) req sv = signed dp (upload_handler dp) (ticks n) req sv"
    using assms(2,3) upload_route by (simp add: serve_def endpoint_handler_def)
  show ?thesis
  proof (cases a)
    case (Inl p)
    then show ?thesis using assms(1) served a fr fr(3) [of p] by (auto simp: signed_def)
  next
    case (Inr v)
    obtain st where v: "v = (wid, st, body)"
      using a Inr assms(4-6) by (auto simp: authenticate_def limited_def Let_def split: if_split_asm option.split_asm sum.split_asm prod.split_asm bool.split_asm)
    obtain resp1 D where u: "uploadObservations (tk_faults (ticks n)) (dp_env dp) (dp_marshal dp) (tk_now (ticks n)) wid (Some (batch, obs)) (sv_db sv1) = (resp1, D)"
      by (metis surj_pair)
    have r: "resp = resp1" "sv' = upd_db D sv1" using assms(1,7) served a Inr v u by (auto simp: signed_def upload_handler_def)
    have fresh: "\<not> batch_known batch (sv_db sv1)" using assms(9) fr(2) by (simp add: batch_known_def)
    from u show ?thesis
    proof (cases rule: upload_cases)
      case kept
      then show ?thesis using upload_refused [OF u fresh kept(2)] r fr by (simp add: upd_db_def same_checks_def)
    next
      case (stored b2 o2 keys st2)
      have "keys = K" using stored(2) assms(8) fr(1) ActiveKeys_same unfolding keys_are_def by metis
      then show ?thesis
        using stored fr r by (auto simp: same_checks_def batch_stored_def upd_db_def)
    qed
  qed
qed

text \<open>The measurements at hand fit into requests of the size the server reads.\<close>

definition batches_fit :: "worker_env \<Rightarrow> Observation set \<Rightarrow> bool" where
  "batches_fit E S \<longleftrightarrow>
     (\<forall>batch obs body. set obs \<subseteq> S \<and> length obs \<le> 256 \<and> enc_upload (we_enc E) batch obs = Some body \<longrightarrow> length body \<le> max_body)"

lemma upload_call:
  assumes "client_UploadObservations E (coordinator_net dp tx ticks lost) cal c batch obs (n, sv) = (r, (n', sv'))" "cl_worker_id c = wid" "wid \<noteq> []"
    and "upload_codec E dp" "batches_fit E S" "set obs \<subseteq> S" "length obs \<le> 256" "keys_are K wid ticks sv" "batch \<notin> set (batch_ids sv)"
  shows "same_checks sv sv' \<and> (measurements_of (sv_db sv') = measurements_of (sv_db sv) \<and> r \<noteq> Inr () \<or> batch_stored dp K wid batch obs sv sv')"
proof (cases "enc_upload (we_enc E) batch obs")
  case None
  then show ?thesis using assms(1) by (auto simp: client_UploadObservations_def client_do_def same_checks_def)
next
  case (Some body)
  let ?req = "\<lparr>req_method = ''POST'', req_path = ''/api/v1/observations'', req_query = [], req_header = [(''Content-Type'', ''application/json'')],
    req_body = Some body, req_remote = []\<rparr>"
  show ?thesis
  proof (cases "Sign (we_env E) (fst cal) (snd cal) wid (cl_key c) body ?req")
    case None
    then show ?thesis using assms(1-3) Some by (auto simp: client_UploadObservations_def client_do_def same_checks_def)
  next
    case s: (Some sreq)
    obtain resp sv1 where v: "serve dp tx (ticks n) sreq sv = (resp, sv1)" by (metis surj_pair)
    have "dec_upload (dp_dec dp) body = Some (batch, obs)" "length body \<le> max_body"
      using assms(4-7) Some unfolding upload_codec_def batches_fit_def by blast+
    note up = upload_served [OF v _ _ Sign_request(4) [OF s] _ this(2,1) assms(8,9)]
    have "sv' = sv1 \<and> (300 \<le> status_of resp \<longrightarrow> r \<noteq> Inr ())"
      using assms(1-3) Some s v by (auto simp: client_UploadObservations_def client_do_def coordinator_net_def Let_def split: if_split_asm)
    then show ?thesis using up Sign_request [OF s] by auto
  qed
qed

lemma same_checks_held: "same_checks sv sv' \<Longrightarrow> leases_held wid sv' = leases_held wid sv"
  by (simp add: same_checks_def)

lemma accept_append: "accept C mj K held wid (a @ b) = accept C mj K held wid a @ accept C mj K held wid b"
  by (simp add: accept_def)

lemma acked_stored:
  assumes "acked E (coordinator_net dp tx ticks lost) x c i bs (n, sv) (n', sv')" "cl_worker_id c = wid" "wid \<noteq> []"
    and "upload_codec E dp" "batches_fit E S" "keys_are K wid ticks sv"
    and "\<forall>b \<in> set bs. set b \<subseteq> S \<and> length b \<le> 256" "inj (wx_uuid x)" "\<forall>j \<ge> i. wx_uuid x j \<notin> set (batch_ids sv)"
  shows "same_checks sv sv' \<and> stored_obs sv' = stored_obs sv @ accept (dp_env dp) (dp_marshal dp) K (leases_held wid sv) wid (concat bs) \<and>
    (\<forall>j \<ge> i + length bs. wx_uuid x j \<notin> set (batch_ids sv'))"
  using assms(1,6,7,9)
proof (induction bs arbitrary: i n sv)
  case Nil
  then show ?case by (simp add: same_checks_def accept_def)
next
  case (Cons b bs)
  obtain m sv1 where call: "client_UploadObservations E (coordinator_net dp tx ticks lost) (wx_call x ''upload'' i) c (wx_uuid x i) b (n, sv) = (Inr (), (m, sv1))"
    and rest: "acked E (coordinator_net dp tx ticks lost) x c (i + 1) bs (m, sv1) (n', sv')" using Cons.prems(1) by auto
  have one: "same_checks sv sv1" "batch_stored dp K wid (wx_uuid x i) b sv sv1"
    using upload_call [OF call assms(2-5)] Cons.prems(2-4) by auto
  have "wx_uuid x j \<notin> set (batch_ids sv1)" if "j \<ge> i + 1" for j
    using one(2) Cons.prems(4) that injD [OF assms(8), of i j] by (auto simp: batch_stored_def)
  then have ih: "same_checks sv1 sv' \<and> stored_obs sv' = stored_obs sv1 @ accept (dp_env dp) (dp_marshal dp) K (leases_held wid sv1) wid (concat bs) \<and>
    (\<forall>j \<ge> i + 1 + length bs. wx_uuid x j \<notin> set (batch_ids sv'))"
    using Cons.IH [OF rest] Cons.prems(2,3) keys_are_same [OF one(1)] by simp
  then show ?case using one same_checks_trans same_checks_held [OF one(1)] by (auto simp: batch_stored_def accept_append)
qed

text \<open>
  C5. Measurements get from the buffer of a worker into the database in order and at least once: the
  ones that left the buffer are exactly the ones the coordinator stored, as far as they pass its checks, in the order of
  the buffer; at most the first batch that is still in the buffer was stored as well, when its answer was lost.
  Every failure of the database, every refusal and every loss of an answer is allowed.
\<close>

theorem fleet_delivers:
  assumes "flush_loop E (coordinator_net dp tx ticks lost) x 0 k (n, sv) = (k', (n', sv'))" and "cl_worker_id (wk_client k) = wid" and "wid \<noteq> []"
    and "upload_codec E dp" and "batches_fit E (set (wk_pending k))" and "keys_are K wid ticks sv"
    and "inj (wx_uuid x)" and "\<forall>j. wx_uuid x j \<notin> set (batch_ids sv)"
  shows "\<exists>sent again. wk_pending k = sent @ wk_pending k' \<and> (again = [] \<or> again = take 256 (wk_pending k')) \<and>
    stored_obs sv' = stored_obs sv @ accept (dp_env dp) (dp_marshal dp) K (leases_held wid sv) wid (sent @ again)"
proof -
  obtain bs w1 where f: "wk_pending k = concat bs @ wk_pending k'" "acked E (coordinator_net dp tx ticks lost) x (wk_client k) 0 bs (n, sv) w1"
    "\<forall>b \<in> set bs. length b \<le> 256" and last: "wk_pending k' = [] \<and> (n', sv') = w1 \<or>
      (\<exists>e. client_UploadObservations E (coordinator_net dp tx ticks lost) (wx_call x ''upload'' (length bs)) (wk_client k) (wx_uuid x (length bs))
         (take 256 (wk_pending k')) w1 = (Inl e, (n', sv')))"
    using flush_loop_facts [OF assms(1)] by (auto simp: flush_result_def batch_size_def)
  obtain n1 sv1 where w1: "w1 = (n1, sv1)" by (cases w1)
  have sub: "\<forall>b \<in> set bs. set b \<subseteq> set (wk_pending k) \<and> length b \<le> 256" using f(1,3) by auto
  note st = acked_stored [OF f(2) [unfolded w1] assms(2-6) sub assms(7)] assms(8)
  then have s: "same_checks sv sv1" "stored_obs sv1 = stored_obs sv @ accept (dp_env dp) (dp_marshal dp) K (leases_held wid sv) wid (concat bs)"
    "wx_uuid x (length bs) \<notin> set (batch_ids sv1)" by auto
  from last consider "sv' = sv1" | e where "client_UploadObservations E (coordinator_net dp tx ticks lost) (wx_call x ''upload'' (length bs)) (wk_client k)
      (wx_uuid x (length bs)) (take 256 (wk_pending k')) (n1, sv1) = (Inl e, (n', sv'))" using w1 by auto
  then show ?thesis
  proof cases
    case 1
    then show ?thesis using s f(1) by (intro exI [of _ "concat bs"] exI [of _ "[]"]) simp
  next
    case 2
    have "set (take 256 (wk_pending k')) \<subseteq> set (wk_pending k)" using f(1) set_take_subset [of 256 "wk_pending k'"] by auto
    then have "measurements_of (sv_db sv') = measurements_of (sv_db sv1) \<or> batch_stored dp K wid (wx_uuid x (length bs)) (take 256 (wk_pending k')) sv1 sv'"
      using upload_call [OF 2 assms(2-5)] s(3) assms(6) keys_are_same [OF s(1)] by auto
    then have "stored_obs sv' = stored_obs sv1 \<or> stored_obs sv' = stored_obs sv1 @ accept (dp_env dp) (dp_marshal dp) K (leases_held wid sv) wid (take 256 (wk_pending k'))"
      using same_checks_held [OF s(1)] by (auto simp: batch_stored_def)
    then obtain again where "again = [] \<or> again = take 256 (wk_pending k')"
      "stored_obs sv' = stored_obs sv1 @ accept (dp_env dp) (dp_marshal dp) K (leases_held wid sv) wid again"
      by (metis accept_simps(1) append_Nil2)
    then show ?thesis using s(2) f(1) by (intro exI [of _ "concat bs"] exI [of _ again]) (simp add: accept_append)
  qed
qed

section \<open>Heartbeats\<close>

lemma verify_any_own:
  assumes "Verify E method path header body pub now = Inr nonce" "pub \<in> set keys"
  shows "verify_any E method path header body now keys = Some nonce"
proof -
  have "nonce = header_get header HeaderNonce" by (rule Verify_Inr [OF assms(1)])
  moreover have "m = header_get header HeaderNonce" if "Verify E method path header body p now = Inr m" for p m
    by (rule Verify_Inr [OF that])
  ultimately have same: "m = nonce" if "Verify E method path header body p now = Inr m" for p m using that by metis
  show ?thesis
    using assms(2)
  proof (induction keys)
    case (Cons p keys)
    then show ?case using assms(1) same [of p] by (cases "Verify E method path header body p now") auto
  qed simp
qed

text \<open>What it takes for a signed request to be let in: the key is active, the clocks agree, the nonce is new, the worker is in good standing.\<close>

definition admissible :: "'s deployment \<Rightarrow> tick \<Rightarrow> call \<Rightarrow> bytes \<Rightarrow> string \<Rightarrow> string \<Rightarrow> 's server \<Rightarrow> bool" where
  "admissible dp tk cal key wid st sv \<longleftrightarrow>
     wid \<noteq> [] \<and> \<not> tk_faults tk ''SeenNonce'' \<and> \<bar>tk_now tk - (fst cal - fst cal mod second)\<bar> \<le> MaxSkew \<and>
     (\<exists>raw. snd cal = Some raw \<and> raw \<noteq> [] \<and> (wid, hex_encode raw) \<notin> (\<lambda>n. (n_worker_id n, n_nonce n)) ` set (replay_nonces (reg sv))) \<and>
     (\<exists>keys. ActiveKeys (tk_faults tk) (tk_now tk) wid (reg sv) = Inr (keys, st) \<and> ed_public (dp_env dp) key \<in> set keys) \<and>
     st \<noteq> ''suspended'' \<and> st \<noteq> ''retired''"

definition note_nonce :: "tick \<Rightarrow> call \<Rightarrow> string \<Rightarrow> 's server \<Rightarrow> 's server" where
  "note_nonce tk cal wid sv =
     upd_registry ((reg sv)\<lparr>replay_nonces := replay_nonces (reg sv) @ [\<lparr>n_worker_id = wid, n_nonce = hex_encode (the (snd cal)), n_seen_at = tk_now tk\<rparr>]\<rparr>) sv"

lemma ActiveKeys_worker: "ActiveKeys F now wid db = Inr (keys, st) \<Longrightarrow> \<exists>w. lookup_by w_id wid (workers db) = Some w \<and> w_state w = st"
  by (auto simp: ActiveKeys_def Let_def split: if_split_asm option.split_asm)

lemma authenticate_signed:
  assumes "admissible dp tk cal key wid st sv" "ed25519_ok (dp_env dp)" "rfc3339_ok (dp_env dp)"
    and "Sign (dp_env dp) (fst cal) (snd cal) wid key body req = Some sreq" "req_body req = Some body" "length body \<le> max_body"
  shows "authenticate dp tk sreq sv = (Inr (wid, st, body), note_nonce tk cal wid sv)"
proof -
  obtain raw keys where a: "snd cal = Some raw" "raw \<noteq> []" "ActiveKeys (tk_faults tk) (tk_now tk) wid (reg sv) = Inr (keys, st)"
    "ed_public (dp_env dp) key \<in> set keys" "(wid, hex_encode raw) \<notin> (\<lambda>n. (n_worker_id n, n_nonce n)) ` set (replay_nonces (reg sv))"
    using assms(1) unfolding admissible_def by blast
  have v: "Verify (dp_env dp) (req_method sreq) (req_path sreq) (req_header sreq) body (ed_public (dp_env dp) key) (tk_now tk) = Inr (hex_encode raw)"
    using sign_verify [OF assms(2,3) a(2) assms(4) [unfolded a(1)]] assms(1) by (simp add: admissible_def)
  obtain w where "lookup_by w_id wid (workers (reg sv)) = Some w" using ActiveKeys_worker [OF a(3)] by blast
  then have "has_worker (reg sv) wid" by (auto simp: has_worker_def dest: lookup_by_SomeD)
  then have seen: "SeenNonce (tk_faults tk) (tk_now tk) wid (hex_encode raw) (reg sv) =
      Inr (False, (reg sv)\<lparr>replay_nonces := replay_nonces (reg sv) @ [\<lparr>n_worker_id = wid, n_nonce = hex_encode raw, n_seen_at = tk_now tk\<rparr>]\<rparr>)"
    using assms(1) a(5) by (auto simp: SeenNonce_def admissible_def)
  show ?thesis
    using assms(1) Sign_request [OF assms(4)] assms(5,6) a(1,3) seen verify_any_own [OF v a(4)]
    by (simp add: authenticate_def limited_def note_nonce_def admissible_def)
qed

lemma signed_call:
  assumes "admissible dp tk cal key wid st sv" "ed25519_ok (dp_env dp)" "rfc3339_ok (dp_env dp)"
    and "Sign (dp_env dp) (fst cal) (snd cal) wid key body req = Some sreq" "req_body req = Some body" "length body \<le> max_body"
    and "route_of (req_method req) (req_path req) = Some (e, vs)" "endpoint_handler dp tx e vs = signed dp h"
  shows "serve dp tx tk sreq sv = h tk wid st body (note_nonce tk cal wid sv)"
  using authenticate_signed [OF assms(1-6)] Sign_request [OF assms(4)] assms(7,8) by (simp add: serve_def signed_def)

text \<open>How the request is encoded and its answer read, by the names of its fields.\<close>

definition heartbeat_codec :: "worker_env \<Rightarrow> 's deployment \<Rightarrow> bool" where
  "heartbeat_codec E dp \<longleftrightarrow>
     dec_heartbeat (dp_dec dp) (enc_heartbeat (we_enc E) (we_version E)) = Some (we_version E) \<and>
     length (enc_heartbeat (we_enc E) (we_version E)) \<le> max_body \<and>
     (\<forall>st cfg acts snap. ans_heartbeat (we_ans E) (JObj ([(''state'', JStr st), (''config'', cfg), (''actions'', JArr (map JStr acts))] @
        (case snap of None \<Rightarrow> [] | Some v \<Rightarrow> [(''snapshot'', JObj [(''version'', JStr v)])]))) =
        Some \<lparr>hb_state = st, hb_actions = acts, hb_snapshot = snap\<rparr>)"

lemma heartbeat_route: "route_of ''POST'' ''/api/v1/workers/heartbeat'' = Some (EHeartbeat, [])"
  by code_simp

lemma lookup_by_update:
  assumes "lookup_by key v rs = Some r" "\<And>r. key (f r) = key r"
  shows "lookup_by key v (update_where (\<lambda>r. key r = v) f rs) = Some (f r)"
  using assms(1) by (induction rs) (auto simp: lookup_by_def update_where_def assms(2) split: if_split_asm)

text \<open>
  C34. The heartbeat of a worker in good standing gets through: when its key is active, the clocks agree to
  within two minutes, its nonce is new and the database works, the client is told its state in the registry, and the
  registry has the time of the heartbeat and the software version the client reports.
\<close>

theorem heartbeat_reaches:
  assumes "admissible dp (ticks n) cal (cl_key c) (cl_worker_id c) st sv" and "we_env E = dp_env dp" and "ed25519_ok (dp_env dp)"
    and "rfc3339_ok (dp_env dp)" and "heartbeat_codec E dp" and "\<not> tk_faults (ticks n) ''Heartbeat''" and "\<not> lost n"
  shows "\<exists>hb sv' w. client_Heartbeat E (coordinator_net dp tx ticks lost) cal c (n, sv) = (Inr hb, (n + 1, sv')) \<and> hb_state hb = st \<and>
    lookup_by w_id (cl_worker_id c) (workers (reg sv')) = Some w \<and> w_state w = st \<and>
    w_last_heartbeat_at w = Some (tk_now (ticks n)) \<and> w_software_version w = Some (we_version E)"
proof -
  let ?wid = "cl_worker_id c" and ?body = "enc_heartbeat (we_enc E) (we_version E)" and ?tk = "ticks n"
  let ?req = "\<lparr>req_method = ''POST'', req_path = ''/api/v1/workers/heartbeat'', req_query = [], req_header = [(''Content-Type'', ''application/json'')],
    req_body = Some ?body, req_remote = []\<rparr>"
  obtain sreq where s: "Sign (dp_env dp) (fst cal) (snd cal) ?wid (cl_key c) ?body ?req = Some sreq"
    using assms(1) by (auto simp: admissible_def Sign_def Let_def)
  have served: "serve dp tx ?tk sreq sv = heartbeat dp ?tk ?wid st ?body (note_nonce ?tk cal ?wid sv)"
    using signed_call [OF assms(1,3,4) s] assms(5) heartbeat_route by (simp add: heartbeat_codec_def endpoint_handler_def)
  obtain w where w: "lookup_by w_id ?wid (workers (reg sv)) = Some w" "w_state w = st"
    using assms(1) ActiveKeys_worker unfolding admissible_def by blast
  let ?beat = "\<lambda>w. w\<lparr>w_last_heartbeat_at := Some (tk_now ?tk), w_software_version := Some (we_version E)\<rparr>"
  have l: "lookup_by w_id ?wid (update_where (\<lambda>w. w_id w = ?wid) ?beat (workers (reg sv))) = Some (?beat w)"
    by (rule lookup_by_update [OF w(1)]) simp
  obtain R where hb: "Heartbeat (tk_faults ?tk) (tk_now ?tk) ?wid (we_version E) (reg (note_nonce ?tk cal ?wid sv)) = Inr (?beat w, R)"
    "lookup_by w_id ?wid (workers R) = Some (?beat w)"
    using assms(6) l by (simp add: Heartbeat_def note_nonce_def)
  obtain m sv2 where m: "currentManifestCached dp (tk_now ?tk) (upd_registry R (note_nonce ?tk cal ?wid sv)) = (m, sv2)" by (metis surj_pair)
  have reg2: "reg sv2 = R" using currentManifestCached_reg [OF m] by simp
  let ?acts = "if map_of (w_config w) ''rotate_requested'' = Some (JBool True) then [''rotate_key''] else []"
  let ?snap = "if st = ''active'' then map_option m_version m else None"
  have "serve dp tx ?tk sreq sv = (writeJSON 200 (JObj ([(''state'', JStr st), (''config'', JObj (w_config w)), (''actions'', JArr (map JStr ?acts))] @
      (case ?snap of None \<Rightarrow> [] | Some v \<Rightarrow> [(''snapshot'', JObj [(''version'', JStr v)])]))), sv2)"
    using served hb m assms(5) w(2) by (simp add: heartbeat_def heartbeat_codec_def split: option.split)
  then have "client_Heartbeat E (coordinator_net dp tx ticks lost) cal c (n, sv) = (Inr \<lparr>hb_state = st, hb_actions = ?acts, hb_snapshot = ?snap\<rparr>, (n + 1, sv2))"
    using assms(1,2,5,7) s unfolding client_Heartbeat_def client_do_def
    by (simp add: admissible_def coordinator_net_def json_answer_def writeJSON_def heartbeat_codec_def Let_def)
  then show ?thesis using hb(2) w(2) reg2 by auto
qed

section \<open>Snapshots\<close>

text \<open>The current snapshot of the store: its manifest verifies under the publisher's key, and the object it names matches it.\<close>

definition publishes :: "'s deployment \<Rightarrow> bytes \<Rightarrow> Manifest \<Rightarrow> bytes \<Rightarrow> 's server \<Rightarrow> bool" where
  "publishes dp pub m b sv \<longleftrightarrow>
     fetch_manifest (dp_codec dp) (dp_store dp) (sv_store sv) = Some m \<and> sv_cached sv \<in> {None, Some m} \<and>
     st_get (dp_store dp) (m_object_key m) (sv_store sv) = Some b \<and> man_Verify (dp_env dp) (dp_codec dp) m pub \<and> VerifyFile (dp_env dp) (Some b) m"

lemma publishes_cached:
  assumes "publishes dp pub m b sv"
  obtains sv' where "currentManifestCached dp now sv = (Some m, sv')" "publishes dp pub m b sv'" "sv_db sv' = sv_db sv" "sv_store sv' = sv_store sv"
proof (cases "sv_cached sv \<noteq> None \<and> now - sv_fetched sv < poll_ttl (dp_cfg dp)")
  case True
  then show ?thesis using assms that [of sv] by (auto simp: currentManifestCached_def publishes_def)
next
  case False
  then show ?thesis
    using assms that [of "sv\<lparr>sv_cached := Some m, sv_fetched := now\<rparr>"] by (auto simp: currentManifestCached_def publishes_def)
qed

lemma publishes_nonce [simp]: "publishes dp pub m b (note_nonce tk cal wid sv) \<longleftrightarrow> publishes dp pub m b sv"
  by (simp add: publishes_def note_nonce_def upd_registry_def)

lemma admissible_next:
  assumes "admissible dp tk cal key wid st sv" "sv_db sv' = sv_db (note_nonce tk0 cal0 wid sv)" "snd cal0 = Some r0" "snd cal \<noteq> snd cal0"
  shows "admissible dp tk cal key wid st sv'"
proof -
  have r: "workers (reg sv') = workers (reg sv)" "worker_keys (reg sv') = worker_keys (reg sv)" "scheduling_of (sv_db sv') = scheduling_of (sv_db sv)"
    "set (replay_nonces (reg sv')) = set (replay_nonces (reg sv)) \<union> {\<lparr>n_worker_id = wid, n_nonce = hex_encode r0, n_seen_at = tk_now tk0\<rparr>}"
    using assms(2,3) by (simp_all add: note_nonce_def)
  have "ActiveKeys F now wid (reg sv') = ActiveKeys F now wid (reg sv)" for F now using r by (intro ActiveKeys_same) (simp add: same_checks_def)
  then show ?thesis using assms(1,3,4) unfolding admissible_def r(4) by (auto simp: hex_encode_inj)
qed

definition manifest_codec :: "worker_env \<Rightarrow> 's deployment \<Rightarrow> Manifest \<Rightarrow> bool" where
  "manifest_codec E dp m \<longleftrightarrow> (\<forall>path. ans_manifest (we_ans E)
     (JObj [(''manifest'', manifest_json (dp_time_json dp) m), (''download_path'', JStr path)]) = Some (m, path))"

abbreviation download_path :: string where
  "download_path \<equiv> ''/api/v1/artifacts/routing/current/download''"

lemma artifact_routes:
  "route_of ''GET'' ''/api/v1/artifacts/routing/current'' = Some (EManifest, [])" "route_of ''GET'' download_path = Some (EDownload, [])"
  by code_simp+

lemma manifest_call:
  assumes "admissible dp (ticks n) cal (cl_key c) (cl_worker_id c) st sv" "we_env E = dp_env dp" "ed25519_ok (dp_env dp)" "rfc3339_ok (dp_env dp)"
    and "manifest_codec E dp m" "publishes dp pub m b sv" "\<not> lost n"
  shows "\<exists>sv'. client_CurrentManifest E (coordinator_net dp tx ticks lost) cal c (n, sv) = (Inr (m, download_path), (n + 1, sv')) \<and>
    publishes dp pub m b sv' \<and> sv_db sv' = sv_db (note_nonce (ticks n) cal (cl_worker_id c) sv)"
proof -
  let ?sv = "note_nonce (ticks n) cal (cl_worker_id c) sv"
  let ?req = "\<lparr>req_method = ''GET'', req_path = ''/api/v1/artifacts/routing/current'', req_query = [], req_header = [(''Content-Type'', ''application/json'')],
    req_body = Some [], req_remote = []\<rparr>"
  obtain sreq where s: "Sign (dp_env dp) (fst cal) (snd cal) (cl_worker_id c) (cl_key c) [] ?req = Some sreq"
    using assms(1) by (auto simp: admissible_def Sign_def Let_def)
  have "publishes dp pub m b ?sv" using assms(6) by simp
  then obtain sv' where c: "currentManifestCached dp (tk_now (ticks n)) ?sv = (Some m, sv')" "publishes dp pub m b sv'" "sv_db sv' = sv_db ?sv"
    by (rule publishes_cached)
  have "serve dp tx (ticks n) sreq sv = currentManifest dp (ticks n) (cl_worker_id c) st [] ?sv"
    using signed_call [OF assms(1,3,4) s] artifact_routes by (simp add: endpoint_handler_def)
  then have "client_CurrentManifest E (coordinator_net dp tx ticks lost) cal c (n, sv) = (Inr (m, download_path), (n + 1, sv'))"
    using assms(1,2,5,7) s c unfolding client_CurrentManifest_def client_do_def
    by (simp add: admissible_def coordinator_net_def json_answer_def writeJSON_def currentManifest_def manifest_codec_def Let_def)
  then show ?thesis using c by blast
qed

lemma download_call:
  assumes "admissible dp (ticks n) cal (cl_key c) (cl_worker_id c) st sv" "we_env E = dp_env dp" "ed25519_ok (dp_env dp)" "rfc3339_ok (dp_env dp)"
    and "publishes dp pub m b sv" "\<not> lost n" "\<not> F ''download.create''" "\<not> F ''download.copy''" "\<not> F ''download.close''"
  shows "\<exists>sv'. client_DownloadArtifact E F (coordinator_net dp tx ticks lost) cal c download_path tmp fs (n, sv) = (Inr tmp, fs(tmp \<mapsto> b), (n + 1, sv'))"
proof -
  let ?sv = "note_nonce (ticks n) cal (cl_worker_id c) sv"
  let ?req = "\<lparr>req_method = ''GET'', req_path = download_path, req_query = [], req_header = [], req_body = Some [], req_remote = []\<rparr>"
  obtain sreq where s: "Sign (dp_env dp) (fst cal) (snd cal) (cl_worker_id c) (cl_key c) [] ?req = Some sreq"
    using assms(1) by (auto simp: admissible_def Sign_def Let_def)
  have "publishes dp pub m b ?sv" using assms(5) by simp
  then obtain sv' where c: "currentManifestCached dp (tk_now (ticks n)) ?sv = (Some m, sv')" "publishes dp pub m b sv'"
    by (rule publishes_cached)
  have "serve dp tx (ticks n) sreq sv = downloadArtifact dp (ticks n) (cl_worker_id c) st [] ?sv"
    using signed_call [OF assms(1,3,4) s] artifact_routes by (simp add: endpoint_handler_def)
  then show ?thesis
    using assms(2,6-9) s c unfolding client_DownloadArtifact_def
    by (auto simp: coordinator_net_def downloadArtifact_def publishes_def answer_bytes_def Let_def)
qed

text \<open>
  C10. A published snapshot reaches the workers: a worker in good standing that pins the publisher's key and
  has another version installed ends a sync with exactly the object of the store as its snapshot, its version
  noted and no temporary file left, when nothing fails on the way.
\<close>

theorem snapshot_reaches_worker:
  assumes "admissible dp (ticks n) (wx_call x ''manifest'' 0) (cl_key (wk_client k)) (cl_worker_id (wk_client k)) st sv"
    and "admissible dp (ticks (n + 1)) (wx_call x ''download'' 0) (cl_key (wk_client k)) (cl_worker_id (wk_client k)) st sv"
    and "snd (wx_call x ''download'' 0) \<noteq> snd (wx_call x ''manifest'' 0)"
    and "we_env E = dp_env dp" and "we_codec E = dp_codec dp" and "ed25519_ok (dp_env dp)" and "rfc3339_ok (dp_env dp)"
    and "manifest_codec E dp m" and "publishes dp (ac_pub cfg) m b sv" and "\<not> lost n" and "\<not> lost (n + 1)"
    and "wx_faults x = no_faults" and "SnapshotVersion no_faults (ac_dir cfg) (wk_fs k) \<noteq> m_version m"
  shows "\<exists>k' w'. SyncSnapshot E (coordinator_net dp tx ticks lost) x cfg k (n, sv) = (True, k', w') \<and>
    wk_fs k' (SnapshotPath (ac_dir cfg)) = Some b \<and> wk_fs k' (versionPath (ac_dir cfg)) = Some (m_version m @ newline) \<and>
    wk_fs k' (tmp_path (ac_dir cfg) (wx_tmp x)) = None"
proof -
  let ?net = "coordinator_net dp tx ticks lost" and ?c = "wk_client k" and ?tmp = "tmp_path (ac_dir cfg) (wx_tmp x)"
  obtain sv1 where m: "client_CurrentManifest E ?net (wx_call x ''manifest'' 0) ?c (n, sv) = (Inr (m, download_path), (n + 1, sv1))"
    and p: "publishes dp (ac_pub cfg) m b sv1" "sv_db sv1 = sv_db (note_nonce (ticks n) (wx_call x ''manifest'' 0) (cl_worker_id ?c) sv)"
    using manifest_call [of dp ticks n "wx_call x ''manifest'' 0" ?c st sv, OF assms(1,4,6-9), of lost] assms(10) by blast
  obtain r0 where "snd (wx_call x ''manifest'' 0) = Some r0" using assms(1) unfolding admissible_def by blast
  note adm = admissible_next [OF assms(2) p(2) this assms(3)]
  obtain w' where d: "client_DownloadArtifact E no_faults ?net (wx_call x ''download'' 0) ?c download_path ?tmp (wk_fs k) (n + 1, sv1) =
      (Inr ?tmp, (wk_fs k)(?tmp \<mapsto> b), w')"
    using download_call [of dp ticks "n + 1" "wx_call x ''download'' 0" ?c st sv1, OF adm assms(4,6,7) p(1), of lost no_faults] assms(11) by blast
  have ne: "?tmp \<noteq> SnapshotPath (ac_dir cfg)" "?tmp \<noteq> versionPath (ac_dir cfg)" "SnapshotPath (ac_dir cfg) \<noteq> versionPath (ac_dir cfg)"
    by (simp_all add: tmp_path_def SnapshotPath_def versionPath_def)
  have v: "man_Verify (we_env E) (we_codec E) m (ac_pub cfg)" "VerifyFile (we_env E) (Some b) m"
    using assms(4,5,9) by (simp_all add: publishes_def)
  show ?thesis
    using m d v ne assms(12,13) by (auto simp: SyncSnapshot_def InstallSnapshot_def rename_file_def write_file_def Let_def)
qed

section \<open>A concrete fleet\<close>

definition demo_heartbeat_answer :: "json \<Rightarrow> HeartbeatResponse option" where
  "demo_heartbeat_answer j =
     (case j of
        JObj fs \<Rightarrow>
          (case (map_of fs ''state'', map_of fs ''actions'') of
             (Some (JStr s), Some (JArr acts)) \<Rightarrow>
               Some \<lparr>hb_state = s, hb_actions = map (\<lambda>a. case a of JStr t \<Rightarrow> t | _ \<Rightarrow> []) acts,
                     hb_snapshot = (case map_of fs ''snapshot'' of Some (JObj [(_, JStr v)]) \<Rightarrow> Some v | _ \<Rightarrow> None)\<rparr>
           | _ \<Rightarrow> None)
      | _ \<Rightarrow> None)"

definition demo_manifest_answer :: "json \<Rightarrow> (Manifest \<times> string) option" where
  "demo_manifest_answer j = (case j of JObj [_, (_, JStr p)] \<Rightarrow> Some (demo_published, p) | _ \<Rightarrow> None)"

definition demo_fleet_env :: worker_env where
  "demo_fleet_env = demo_worker_env\<lparr>we_codec := demo_codec2,
     we_enc := \<lparr>enc_register = (\<lambda>_. []), enc_heartbeat = (\<lambda>v. v), enc_lease = (\<lambda>_. []),
       enc_upload = (\<lambda>b os. if b = ''u'' \<and> os = [demo_signed] then Some ''x'' else None), enc_rotate = (\<lambda>_. [])\<rparr>,
     we_ans := \<lparr>ans_register = (\<lambda>_. None), ans_heartbeat = demo_heartbeat_answer, ans_manifest = demo_manifest_answer, ans_lease = (\<lambda>_. None)\<rparr>\<rparr>"

definition demo_fleet_dp :: "filesystem deployment" where
  "demo_fleet_dp = demo_dp\<lparr>dp_codec := demo_codec2, dp_dec := demo_decoders\<lparr>dec_upload := (\<lambda>_. Some (''u'', [demo_signed]))\<rparr>\<rparr>"

definition demo_fleet_server :: "filesystem server" where
  "demo_fleet_server = demo_server\<lparr>sv_store := [fs_path ''/s'' PointerKey \<mapsto> ''v2'', fs_path ''/s'' (ObjectKeyManifest ''v2'') \<mapsto> ''m'',
     fs_path ''/s'' (ObjectKeySQLite ''v2'') \<mapsto> ''file'']\<rparr>"

definition demo_fleet_worker :: worker where
  "demo_fleet_worker = Worker.demo_worker\<lparr>wk_client := \<lparr>cl_base_url = [], cl_worker_id = ''w1'', cl_key = demo_key\<rparr>, wk_pending := [demo_signed]\<rparr>"

definition demo_fleet_weather :: weather where
  "demo_fleet_weather = demo_weather\<lparr>wx_uuid := (\<lambda>i. replicate (i + 1) (CHR ''u'')), wx_call := (\<lambda>s i. (20, Some s))\<rparr>"

lemma demo_admissible: "raw \<noteq> [] \<Longrightarrow> admissible demo_fleet_dp (demo_tick 20) (20, Some raw) demo_key ''w1'' ''pending'' demo_fleet_server"
proof -
  have "replay_nonces demo_registered = []" by (simp add: demo_registered_def demo_eval)
  then show "raw \<noteq> [] \<Longrightarrow> ?thesis"
    by (simp add: admissible_def demo_fleet_dp_def demo_dp_def demo_tick_def demo_fleet_server_def demo_server_def demo_db_def demo_active MaxSkew_def)
      (simp add: demo_env_def)
qed

lemma demo_fleet_laws: "we_env demo_fleet_env = dp_env demo_fleet_dp" "ed25519_ok (dp_env demo_fleet_dp)" "rfc3339_ok (dp_env demo_fleet_dp)"
  "we_codec demo_fleet_env = dp_codec demo_fleet_dp"
  using demo_env_ok by (simp_all add: demo_fleet_env_def demo_worker_env_def demo_fleet_dp_def demo_dp_def)

theorem fleet_delivers_witness:
  "\<exists>k' n' sv' sent again. flush_loop demo_fleet_env (coordinator_net demo_fleet_dp demo_texts (\<lambda>_. demo_tick 20) (\<lambda>_. False)) demo_fleet_weather 0
       demo_fleet_worker (0, demo_fleet_server) = (k', (n', sv')) \<and> [demo_signed] = sent @ wk_pending k' \<and>
     stored_obs sv' = accept demo_env demo_marshal [demo_key] (leases_held ''w1'' demo_fleet_server) ''w1'' (sent @ again)"
proof -
  let ?net = "coordinator_net demo_fleet_dp demo_texts (\<lambda>_. demo_tick 20) (\<lambda>_. False)"
  obtain k' n' sv' where f: "flush_loop demo_fleet_env ?net demo_fleet_weather 0 demo_fleet_worker (0, demo_fleet_server) = (k', (n', sv'))"
    by (metis surj_pair)
  have "inj (wx_uuid demo_fleet_weather)" by (auto simp: demo_fleet_weather_def inj_def dest: arg_cong [where f = length])
  moreover have "upload_codec demo_fleet_env demo_fleet_dp" "batches_fit demo_fleet_env S" for S
    by (simp_all add: upload_codec_def batches_fit_def demo_fleet_env_def demo_fleet_dp_def)
  moreover have "keys_are [demo_key] ''w1'' (\<lambda>_. demo_tick 20) demo_fleet_server"
    by (simp add: keys_are_def demo_tick_def demo_fleet_server_def demo_server_def demo_db_def demo_active)
  moreover have "cl_worker_id (wk_client demo_fleet_worker) = ''w1''" "wk_pending demo_fleet_worker = [demo_signed]" by (simp_all add: demo_fleet_worker_def)
  moreover have "batch_ids demo_fleet_server = []" "stored_obs demo_fleet_server = []" by (simp_all add: demo_fleet_server_def demo_server_def demo_db_def)
  moreover have "dp_env demo_fleet_dp = demo_env" "dp_marshal demo_fleet_dp = demo_marshal" by (simp_all add: demo_fleet_dp_def demo_dp_def)
  ultimately show ?thesis using f fleet_delivers [OF f, of "''w1''" "[demo_key]"] by auto
qed

theorem heartbeat_reaches_witness:
  "\<exists>hb sv'. client_Heartbeat demo_fleet_env (coordinator_net demo_fleet_dp demo_texts (\<lambda>_. demo_tick 20) (\<lambda>_. False)) (20, Some ''n'')
     (wk_client demo_fleet_worker) (0, demo_fleet_server) = (Inr hb, (1, sv')) \<and> hb_state hb = ''pending''"
proof -
  have "heartbeat_codec demo_fleet_env demo_fleet_dp"
    by (auto simp: heartbeat_codec_def demo_fleet_env_def demo_worker_env_def demo_fleet_dp_def demo_decoders_def demo_heartbeat_answer_def comp_def split: option.split)
  moreover have "cl_key (wk_client demo_fleet_worker) = demo_key" "cl_worker_id (wk_client demo_fleet_worker) = ''w1''"
    by (simp_all add: demo_fleet_worker_def)
  moreover have "\<not> tk_faults (demo_tick 20) ''Heartbeat''" by (simp add: demo_tick_def)
  ultimately show ?thesis
    using heartbeat_reaches [where ticks = "\<lambda>_. demo_tick 20" and n = 0 and lost = "\<lambda>_. False" and c = "wk_client demo_fleet_worker" and cal = "(20, Some ''n'')"
        and sv = demo_fleet_server and dp = demo_fleet_dp and st = "''pending''" and E = demo_fleet_env and tx = demo_texts]
      demo_admissible [of "''n''"] demo_fleet_laws by auto
qed

lemma demo_publishes: "publishes demo_fleet_dp ''k'' demo_published ''file'' demo_fleet_server"
proof -
  have g: "st_get (FSStore no_faults ''/s'') key fs = fs (fs_path ''/s'' key)" for key fs by (simp add: FSStore_def fs_get_def)
  have n: "PointerKey \<noteq> ObjectKeyManifest v" "PointerKey \<noteq> ObjectKeySQLite v" "ObjectKeyManifest v \<noteq> ObjectKeySQLite v" for v
    by (simp_all add: PointerKey_def ObjectKeyManifest_def ObjectKeySQLite_def)
  have "m_object_key demo_published = ObjectKeySQLite ''v2''" "VerifyFile demo_env (Some ''file'') demo_published"
    by (simp_all add: demo_published_def man_Sign_def man_payload_def demo_codec_def VerifyFile_def HashFile_def)
  then show ?thesis
    using demo_published_ok n n [symmetric]
    by (simp add: publishes_def fetch_manifest_def demo_fleet_dp_def demo_dp_def demo_fleet_server_def demo_server_def g fs_path_inj demo_codec2_def demo_codec_def)
qed

theorem snapshot_reaches_worker_witness:
  "\<exists>k' w'. SyncSnapshot demo_fleet_env (coordinator_net demo_fleet_dp demo_texts (\<lambda>_. demo_tick 20) (\<lambda>_. False)) demo_fleet_weather demo_agent_config
     demo_fleet_worker (0, demo_fleet_server) = (True, k', w') \<and> wk_fs k' ''/s/routing.sqlite'' = Some ''file''"
proof -
  have v: "SnapshotVersion no_faults ''/s'' (wk_fs demo_fleet_worker) = ''v1''" "m_version demo_published = ''v2''"
    by (simp_all add: SnapshotVersion_def read_file_def demo_fleet_worker_def Worker.demo_worker_def demo_files_def versionPath_def TrimSpace_def white_def
        demo_published_def man_Sign_def man_payload_def demo_codec_def)
  have c: "cl_key (wk_client demo_fleet_worker) = demo_key" "cl_worker_id (wk_client demo_fleet_worker) = ''w1''" "wx_call demo_fleet_weather s i = (20, Some s)"
    "wx_faults demo_fleet_weather = no_faults" "ac_dir demo_agent_config = ''/s''" "ac_pub demo_agent_config = ''k''" for s i
    by (simp_all add: demo_fleet_worker_def demo_fleet_weather_def demo_weather_def demo_agent_config_def)
  have "manifest_codec demo_fleet_env demo_fleet_dp demo_published" by (simp add: manifest_codec_def demo_fleet_env_def demo_manifest_answer_def)
  then show ?thesis
    using snapshot_reaches_worker [where ticks = "\<lambda>_. demo_tick 20" and n = 0 and lost = "\<lambda>_. False" and k = demo_fleet_worker and x = demo_fleet_weather
        and sv = demo_fleet_server and dp = demo_fleet_dp and st = "''pending''" and E = demo_fleet_env and tx = demo_texts and cfg = demo_agent_config
        and m = demo_published and b = "''file''"] demo_admissible demo_fleet_laws demo_publishes v
    unfolding c by (auto simp: SnapshotPath_def)
qed

end
