(* ===== verification/AdvisorSync.thy ===== *)
theory AdvisorSync
  imports Access
begin

text \<open>
  The pull of the VPS Advisor feeds into the coordinator (\<^verbatim>\<open>internal/coordinator/advisorsync.go\<close>):
  health of each feed, one synchronization pass, and the loop over passes. The website may answer
  differently at every pass.
\<close>

section \<open>Operations\<close>

text \<open>The zero \<^verbatim>\<open>time.Time\<close>, which asks for the whole decision feed.\<close>

definition zero_time :: time where
  "zero_time = - (62135596800 * second)"

record advisor_link =
  al_site :: site
  al_providers :: "json \<Rightarrow> Provider list option"
  al_enrollments :: "json \<Rightarrow> PendingEnrollment list option"
  al_decisions :: "json \<Rightarrow> Decision list option"
  al_format :: "time \<Rightarrow> string"

definition fresh_health :: feedHealth where
  "fresh_health = \<lparr>fh_last_attempt = zero_time, fh_last_success = None, fh_last_error = None, fh_failures = 0\<rparr>"

definition health_of :: "string \<Rightarrow> (string \<times> feedHealth) list \<Rightarrow> feedHealth" where
  "health_of feed hs = (case map_of hs feed of None \<Rightarrow> fresh_health | Some h \<Rightarrow> h)"

definition health_record :: "time \<Rightarrow> string \<Rightarrow> advisor_error option \<Rightarrow> (string \<times> feedHealth) list \<Rightarrow> (string \<times> feedHealth) list" where
  "health_record now feed err hs =
     (let h = (health_of feed hs)\<lparr>fh_last_attempt := now\<rparr> in
      obj_set feed (case err of
          Some e \<Rightarrow> h\<lparr>fh_last_error := Some e, fh_failures := fh_failures h + 1\<rparr>
        | None \<Rightarrow> h\<lparr>fh_last_error := None, fh_failures := 0, fh_last_success := Some now\<rparr>) hs)"

definition err_of :: "'e + 'a \<Rightarrow> 'e option" where
  "err_of r = (case r of Inl e \<Rightarrow> Some e | Inr _ \<Rightarrow> None)"

definition note_health :: "tick \<Rightarrow> string \<Rightarrow> advisor_error option \<Rightarrow> 's server \<Rightarrow> 's server" where
  "note_health tk feed err sv = sv\<lparr>sv_advisor := health_record (tk_now tk) feed err (sv_advisor sv)\<rparr>"

definition sync_catalog :: "advisor_link \<Rightarrow> tick \<Rightarrow> 's server \<Rightarrow> 's server" where
  "sync_catalog al tk sv =
     (let r = SyncProviders (tk_faults tk) (al_site al) (al_providers al) (tk_now tk) (routing_of (sv_db sv)) in
      note_health tk ''providers'' (err_of r)
        (case r of Inl _ \<Rightarrow> sv | Inr (_, R) \<Rightarrow> upd_db ((sv_db sv)\<lparr>routing_of := R\<rparr>) sv))"

text \<open>Ingesting one enrollment; the result says whether the website is told so.\<close>

definition ingest_one :: "'s deployment \<Rightarrow> tick \<Rightarrow> PendingEnrollment \<Rightarrow> 's server \<Rightarrow> bool \<times> 's server" where
  "ingest_one dp tk e sv =
     (case IngestEnrollment (tk_faults tk) (tk_now tk) (en_worker e) (en_operator e) (en_worker_name e)
             (en_token_hash e) (en_expires e) (reg sv) of
        Inl _ \<Rightarrow> (False, sv)
      | Inr (created, R) \<Rightarrow>
          (True, if created then server_audit dp tk ''auth'' ''advisor'' ''enrollment_provisioned'' (en_worker e) [] (upd_registry R sv)
                 else upd_registry R sv))"

fun ingest_all :: "'s deployment \<Rightarrow> tick \<Rightarrow> PendingEnrollment list \<Rightarrow> 's server \<Rightarrow> string list \<times> 's server" where
  "ingest_all dp tk [] sv = ([], sv)"
| "ingest_all dp tk (e # es) sv =
     (case ingest_one dp tk e sv of
        (ack, sv1) \<Rightarrow> (case ingest_all dp tk es sv1 of (acks, sv2) \<Rightarrow> (if ack then en_id e # acks else acks, sv2)))"

definition apply_one :: "'s deployment \<Rightarrow> tick \<Rightarrow> Decision \<Rightarrow> time \<times> 's server \<Rightarrow> time \<times> 's server" where
  "apply_one dp tk d = (\<lambda>(cursor, sv).
     case ApplyDecision (tk_faults tk) (tk_now tk) (de_worker d) (de_state d) (de_reason d) (reg sv) of
       Inl _ \<Rightarrow> (cursor, sv)
     | Inr R \<Rightarrow>
         (if de_decided_at d > cursor then de_decided_at d else cursor,
          server_audit dp tk ''admin'' ''advisor-admin'' (''decision:'' @ de_state d) (de_worker d)
            [(''reason'', JStr (de_reason d))] (upd_registry R sv)))"

text \<open>One pass: the new cursor, the enrollments acknowledged, the server.\<close>

definition SyncAdvisor ::
  "'s deployment \<Rightarrow> advisor_link option \<Rightarrow> tick \<Rightarrow> time \<Rightarrow> 's server \<Rightarrow> time \<times> string list \<times> 's server" where
  "SyncAdvisor dp link tk since sv =
     (case link of
        None \<Rightarrow> (since, [], sv)
      | Some al \<Rightarrow>
          (let sv1 = sync_catalog al tk sv;
               es = ListPendingEnrollments (al_site al) (al_enrollments al);
               sv2 = note_health tk ''enrollments'' (err_of es) sv1;
               (acks, sv3) = ingest_all dp tk (case es of Inl _ \<Rightarrow> [] | Inr xs \<Rightarrow> xs) sv2;
               ds = ListDecisions (al_site al) (al_format al) (al_decisions al) (if since = zero_time then None else Some since);
               sv4 = note_health tk ''decisions'' (err_of ds) sv3 in
           case ds of
             Inl _ \<Rightarrow> (since, acks, sv4)
           | Inr xs \<Rightarrow> (case fold (apply_one dp tk) xs (since, sv4) of (cursor, sv5) \<Rightarrow> (cursor, acks, sv5))))"

text \<open>The loop: the first pass asks for the whole feed, each later one continues at the cursor.\<close>

fun sync_passes :: "'s deployment \<Rightarrow> (advisor_link option \<times> tick) list \<Rightarrow> time \<Rightarrow> 's server \<Rightarrow> time \<times> 's server" where
  "sync_passes dp [] since sv = (since, sv)"
| "sync_passes dp ((al, tk) # passes) since sv =
     (case SyncAdvisor dp al tk since sv of (since', _, sv') \<Rightarrow> sync_passes dp passes since' sv')"

definition StartAdvisorSync :: "'s deployment \<Rightarrow> (advisor_link option \<times> tick) list \<Rightarrow> 's server \<Rightarrow> time \<times> 's server" where
  "StartAdvisorSync dp passes sv = sync_passes dp passes zero_time sv"

section \<open>The cursor and the registry\<close>

lemma note_health_frame [simp]: "sv_db (note_health tk feed err sv) = sv_db sv"
  by (simp add: note_health_def)

lemma sync_catalog_reg [simp]: "reg (sync_catalog al tk sv) = reg sv"
  by (simp add: sync_catalog_def Let_def split: sum.split)

lemma ingest_one_run: "(reg_step (dp_env dp))\<^sup>*\<^sup>* (reg sv) (reg (snd (ingest_one dp tk e sv)))"
  by (auto simp: ingest_one_def split: sum.split intro: reg_step.ingest)

lemma ingest_all_run: "(reg_step (dp_env dp))\<^sup>*\<^sup>* (reg sv) (reg (snd (ingest_all dp tk es sv)))"
proof (induction es arbitrary: sv)
  case (Cons e es)
  obtain ack sv1 where 1: "ingest_one dp tk e sv = (ack, sv1)" by fastforce
  then have "(reg_step (dp_env dp))\<^sup>*\<^sup>* (reg sv) (reg sv1)" using ingest_one_run [of dp sv tk e] by simp
  with Cons [of sv1] show ?case by (simp add: 1 split: prod.split) (metis rtranclp_trans snd_conv)
qed simp

lemma ingest_all_advisor: "sv_advisor (snd (ingest_all dp tk es sv)) = sv_advisor sv"
proof (induction es arbitrary: sv)
  case (Cons e es)
  have "sv_advisor (snd (ingest_one dp tk e sv)) = sv_advisor sv"
    by (simp add: ingest_one_def upd_registry_def server_audit_def upd_db_def split: sum.split)
  then show ?case using Cons [of "snd (ingest_one dp tk e sv)"] by (auto split: prod.split)
qed simp

lemma apply_one_run: "(reg_step (dp_env dp))\<^sup>*\<^sup>* (reg (snd cs)) (reg (snd (apply_one dp tk d cs)))"
  by (auto simp: apply_one_def split: prod.split sum.split intro: reg_step.decide)

lemma apply_all_run: "(reg_step (dp_env dp))\<^sup>*\<^sup>* (reg (snd cs)) (reg (snd (fold (apply_one dp tk) ds cs)))"
proof (induction ds arbitrary: cs)
  case (Cons d ds)
  show ?case using rtranclp_trans [OF apply_one_run [of dp cs tk d] Cons [of "apply_one dp tk d cs"]] by simp
qed simp

lemma SyncAdvisor_run:
  assumes "SyncAdvisor dp link tk since sv = (cursor, acks, sv')"
  shows "(reg_step (dp_env dp))\<^sup>*\<^sup>* (reg sv) (reg sv')"
proof (cases link)
  case (Some al)
  let ?sv2 = "note_health tk ''enrollments'' (err_of (ListPendingEnrollments (al_site al) (al_enrollments al))) (sync_catalog al tk sv)"
  obtain es acks0 sv3 where i: "ingest_all dp tk es ?sv2 = (acks0, sv3)"
    and es: "es = (case ListPendingEnrollments (al_site al) (al_enrollments al) of Inl _ \<Rightarrow> [] | Inr xs \<Rightarrow> xs)"
    by fastforce
  have r: "(reg_step (dp_env dp))\<^sup>*\<^sup>* (reg sv) (reg sv3)" using ingest_all_run [of dp ?sv2 tk es] i by simp
  let ?ds = "ListDecisions (al_site al) (al_format al) (al_decisions al) (if since = zero_time then None else Some since)"
  let ?sv4 = "note_health tk ''decisions'' (err_of ?ds) sv3"
  have "sv' = ?sv4 \<or> (\<exists>xs. sv' = snd (fold (apply_one dp tk) xs (since, ?sv4)))"
    using assms i unfolding SyncAdvisor_def Some es
    by (auto simp: Let_def split: sum.split_asm prod.split_asm) (metis snd_conv)+
  then show ?thesis
    using r apply_all_run [of dp "(since, ?sv4)" tk] by (auto intro: rtranclp_trans)
qed (use assms in \<open>simp add: SyncAdvisor_def\<close>)

text \<open>
  The sync keeps the registry sound: from a registry that satisfies its invariant, any number of
  passes against any answers of the website, with any statements failing, ends in one that does,
  and a retired worker is never brought back by a decision.
\<close>

theorem sync_keeps_registry:
  assumes "reg_inv (reg sv)"
  shows "reg_inv (reg (snd (StartAdvisorSync dp passes sv))) \<and>
    (worker_state (reg sv) wid = Some ''retired'' \<longrightarrow>
       worker_state (reg (snd (StartAdvisorSync dp passes sv))) wid = Some ''retired'')"
proof -
  have run: "(reg_step (dp_env dp))\<^sup>*\<^sup>* (reg sv) (reg (snd (sync_passes dp passes since sv)))" for since
  proof (induction passes arbitrary: since sv)
    case (Cons p passes)
    obtain al tk cursor acks sv1 where p: "p = (al, tk)" and s: "SyncAdvisor dp al tk since sv = (cursor, acks, sv1)"
      by (metis prod.exhaust)
    show ?case using rtranclp_trans [OF SyncAdvisor_run [OF s] Cons [of sv1 cursor]] by (simp add: p s)
  qed simp
  show ?thesis
    unfolding StartAdvisorSync_def using registry.reachable_inv [OF run assms] retired.reachable_inv [OF run] by blast
qed

lemma apply_all_cursor:
  assumes "fold (apply_one dp tk) ds (since, sv) = (cursor, sv')"
  shows "since \<le> cursor \<and> (cursor = since \<or> cursor \<in> de_decided_at ` set ds)"
  using assms
proof (induction ds arbitrary: since sv)
  case (Cons d ds)
  obtain c sv1 where 1: "apply_one dp tk d (since, sv) = (c, sv1)" by fastforce
  then have "c = since \<or> c = de_decided_at d \<and> since < c"
    by (auto simp: apply_one_def split: sum.split_asm if_split_asm)
  moreover have "c \<le> cursor \<and> (cursor = c \<or> cursor \<in> de_decided_at ` set ds)"
    using Cons.IH [of c sv1] Cons.prems 1 by simp
  ultimately show ?case by auto
qed simp

text \<open>
  The cursor of the decision feed never comes from the local clock and never moves back: after a
  pass it is what it was, or the \<open>decided_at\<close> of a decision the website returned in this pass that is
  later; when the feed fails the cursor stays, the failure is counted, and the time of the last
  success is kept.
\<close>

theorem sync_cursor:
  assumes "SyncAdvisor dp (Some al) tk since sv = (cursor, acks, sv')"
  shows "since \<le> cursor \<and>
    (case ListDecisions (al_site al) (al_format al) (al_decisions al) (if since = zero_time then None else Some since) of
       Inl e \<Rightarrow> cursor = since \<and> fh_last_error (health_of ''decisions'' (sv_advisor sv')) = Some e \<and>
         fh_failures (health_of ''decisions'' (sv_advisor sv')) = fh_failures (health_of ''decisions'' (sv_advisor sv)) + 1 \<and>
         fh_last_success (health_of ''decisions'' (sv_advisor sv')) = fh_last_success (health_of ''decisions'' (sv_advisor sv))
     | Inr ds \<Rightarrow> cursor = since \<or> cursor \<in> de_decided_at ` set ds)"
proof -
  let ?sv2 = "note_health tk ''enrollments'' (err_of (ListPendingEnrollments (al_site al) (al_enrollments al))) (sync_catalog al tk sv)"
  let ?ds = "ListDecisions (al_site al) (al_format al) (al_decisions al) (if since = zero_time then None else Some since)"
  obtain acks0 sv3 where i: "ingest_all dp tk (case ListPendingEnrollments (al_site al) (al_enrollments al) of Inl _ \<Rightarrow> [] | Inr xs \<Rightarrow> xs) ?sv2 = (acks0, sv3)"
    by fastforce
  have a: "sv_advisor sv3 = sv_advisor ?sv2" using ingest_all_advisor i by (metis snd_conv)
  have h: "health_of ''decisions'' (sv_advisor ?sv2) = health_of ''decisions'' (sv_advisor sv)"
    by (simp add: note_health_def sync_catalog_def Let_def health_record_def health_of_def upd_db_def split: sum.split)
  show ?thesis
  proof (cases ?ds)
    case (Inl e)
    then have "cursor = since" "sv' = note_health tk ''decisions'' (Some e) sv3"
      using assms i by (auto simp: SyncAdvisor_def Let_def err_of_def)
    then show ?thesis using Inl a h by (simp add: note_health_def health_record_def Let_def health_of_def)
  next
    case (Inr ds)
    then have "\<exists>sv4 sv5. fold (apply_one dp tk) ds (since, sv4) = (cursor, sv5)"
      using assms i by (auto simp: SyncAdvisor_def Let_def split: prod.split_asm)
    then show ?thesis using apply_all_cursor Inr by fastforce
  qed
qed

section \<open>Passes against a website\<close>

text \<open>A website that answers the decision feed and fails the two others.\<close>

definition demo_link :: "Decision list \<Rightarrow> advisor_link" where
  "demo_link ds = \<lparr>al_site = (\<lambda>method path body.
       if path = ''/api/v1/monitoring/admin/decisions'' then Some (200, Some (JObj [(''decisions'', JArr [])])) else Some (500, None)),
     al_providers = (\<lambda>_. None), al_enrollments = (\<lambda>_. None), al_decisions = (\<lambda>_. Some ds), al_format = (\<lambda>_. [])\<rparr>"

definition demo_decision :: "string \<Rightarrow> string \<Rightarrow> time \<Rightarrow> Decision" where
  "demo_decision wid st t = \<lparr>de_id = ''d'', de_worker = wid, de_state = st, de_reason = ''ok'', de_decided_at = t\<rparr>"

lemma demo_feeds:
  "ListDecisions (al_site (demo_link ds)) (al_format (demo_link ds)) (al_decisions (demo_link ds)) None = Inr ds"
  "ListPendingEnrollments (al_site (demo_link ds)) (al_enrollments (demo_link ds)) = Inl (Status 500)"
  by (simp_all add: ListDecisions_def ListPendingEnrollments_def fetchPages_def maxPages_def numeral_eq_Suc doJSON_def demo_link_def)

lemma demo_pass:
  "SyncAdvisor dp (Some (demo_link ds)) tk zero_time sv =
     (case fold (apply_one dp tk) ds (zero_time, note_health tk ''decisions'' None
        (note_health tk ''enrollments'' (Some (Status 500)) (sync_catalog (demo_link ds) tk sv))) of
        (cursor, sv') \<Rightarrow> (cursor, [], sv'))"
  by (simp add: SyncAdvisor_def demo_feeds Let_def err_of_def)

lemma demo_decide:
  "\<exists>R. ApplyDecision no_faults 20 ''w1'' ''active'' ''ok'' demo_registered = Inr R \<and> worker_state R ''w1'' = Some ''active'' \<and>
     worker_state R ''w9'' = None"
proof -
  have "is_ok (ApplyDecision no_faults 20 ''w1'' ''active'' ''ok'' demo_registered)"
    by (simp add: ApplyDecision_def demo_registered_def demo_eval SetState_def transitions_def apply_state_def)
  then obtain R where R: "ApplyDecision no_faults 20 ''w1'' ''active'' ''ok'' demo_registered = Inr R"
    by (cases "ApplyDecision no_faults 20 ''w1'' ''active'' ''ok'' demo_registered") auto
  have s: "w_state w \<noteq> ''active'' \<Longrightarrow> lookup_by w_id ''w1'' (workers demo_registered) = Some w \<Longrightarrow>
      SetState no_faults 20 ''w1'' ''active'' ''ok'' ''advisor-admin'' demo_registered = Inr R" for w
    using R by (simp add: ApplyDecision_def)
  have "SetState no_faults 20 ''w1'' ''active'' ''ok'' ''advisor-admin'' demo_registered = Inr R"
    by (rule s) (simp_all add: demo_registered_def demo_eval)
  moreover have "worker_state demo_registered ''w9'' = None" by (simp add: worker_state_def demo_registered_def demo_eval)
  ultimately show ?thesis using R worker_state_SetState by fastforce
qed

lemma demo_decision_simps:
  "de_worker (demo_decision wid st t) = wid" "de_state (demo_decision wid st t) = st" "de_reason (demo_decision wid st t) = ''ok''"
  "de_decided_at (demo_decision wid st t) = t"
  by (simp_all add: demo_decision_def)

lemma zero_before: "zero_time < 100" "zero_time < 200"
  by (simp_all add: zero_time_def)

lemma apply_one_pair:
  "apply_one dp tk d (cursor, sv) =
     (case ApplyDecision (tk_faults tk) (tk_now tk) (de_worker d) (de_state d) (de_reason d) (reg sv) of
       Inl _ \<Rightarrow> (cursor, sv)
     | Inr R \<Rightarrow>
         (if de_decided_at d > cursor then de_decided_at d else cursor,
          server_audit dp tk ''admin'' ''advisor-admin'' (''decision:'' @ de_state d) (de_worker d)
            [(''reason'', JStr (de_reason d))] (upd_registry R sv)))"
  by (simp add: apply_one_def)

lemma demo_server_reg: "reg demo_server = demo_registered"
  by (simp add: demo_server_def demo_db_def)

text \<open>
  A decision that could not be applied is not asked for again once a later one was applied: here the
  worker of the first decision is not known yet because the enrollment feed failed in the same
  pass; the cursor still moves to the second decision.
\<close>

theorem cursor_passes_failed_decision:
  "\<exists>sv'. SyncAdvisor demo_dp (Some (demo_link [demo_decision ''w9'' ''active'' 100, demo_decision ''w1'' ''active'' 200]))
      (demo_tick 20) zero_time demo_server = (200, [], sv') \<and>
     worker_state (reg sv') ''w9'' = None \<and> worker_state (reg sv') ''w1'' = Some ''active''"
proof -
  obtain R where R: "ApplyDecision no_faults 20 ''w1'' ''active'' ''ok'' demo_registered = Inr R"
    "worker_state R ''w1'' = Some ''active''" "worker_state R ''w9'' = None" using demo_decide by blast
  have "ApplyDecision no_faults 20 ''w9'' ''active'' ''ok'' demo_registered = Inl ErrUnknownWorker"
    by (simp add: ApplyDecision_def demo_registered_def demo_eval)
  then show ?thesis
    using R unfolding demo_pass by (simp add: apply_one_pair demo_decision_simps demo_tick_def demo_server_reg zero_before)
qed

theorem sync_cursor_witness:
  "\<exists>cursor acks sv'. SyncAdvisor demo_dp (Some (demo_link [demo_decision ''w1'' ''active'' 200])) (demo_tick 20) zero_time demo_server =
     (cursor, acks, sv') \<and> zero_time \<le> cursor \<and> (cursor = zero_time \<or> cursor = 200)"
proof -
  let ?al = "demo_link [demo_decision ''w1'' ''active'' 200]"
  obtain cursor acks sv' where s: "SyncAdvisor demo_dp (Some ?al) (demo_tick 20) zero_time demo_server = (cursor, acks, sv')"
    by (metis prod.exhaust)
  show ?thesis using s sync_cursor [OF s] by (simp add: demo_feeds demo_decision_def)
qed

theorem sync_keeps_registry_witness:
  "reg_inv (reg (snd (StartAdvisorSync demo_dp [(Some (demo_link [demo_decision ''w1'' ''active'' 200]), demo_tick 20)] demo_server)))"
proof -
  have "reg_inv (reg demo_server)"
    using registry.reachable_inv [OF demo_registered_reachable demo_registry_inv] by (simp add: demo_server_def demo_db_def)
  then show ?thesis using sync_keeps_registry by blast
qed

text \<open>
  Replaying the feed after a restart is not neutral for what happened locally: a worker that the
  platform admin suspended after the website had approved it becomes active again.
\<close>

theorem restart_lifts_suspension:
  assumes "worker_state (reg sv) wid = Some ''suspended''" and "tk_faults tk = no_faults"
  shows "worker_state (reg (snd (StartAdvisorSync dp [(Some (demo_link [demo_decision wid ''active'' t]), tk)] sv))) wid =
    Some ''active''"
proof -
  obtain w where w: "lookup_by w_id wid (workers (reg sv)) = Some w" "w_state w = ''suspended''"
    using assms(1) by (auto simp: worker_state_def)
  have hw: "has_worker (reg sv) wid" using assms(1) worker_state_has [of "reg sv" wid] by simp
  have "is_ok (ApplyDecision no_faults (tk_now tk) wid ''active'' ''ok'' (reg sv))"
    using w hw by (simp add: ApplyDecision_def SetState_def Let_def transitions_def insert_event_def has_worker_def
        upd_state.key_set_kept)
  then obtain R where R: "ApplyDecision no_faults (tk_now tk) wid ''active'' ''ok'' (reg sv) = Inr R"
    by (cases "ApplyDecision no_faults (tk_now tk) wid ''active'' ''ok'' (reg sv)") auto
  then have "SetState no_faults (tk_now tk) wid ''active'' ''ok'' ''advisor-admin'' (reg sv) = Inr R"
    using w by (simp add: ApplyDecision_def)
  then have "worker_state R wid = Some ''active''" by (simp add: worker_state_SetState)
  then show ?thesis using R assms(2) by (simp add: StartAdvisorSync_def demo_pass apply_one_pair demo_decision_simps)
qed

end
