(* ===== verification/Geo.thy ===== *)
theory Geo
  imports Netip
begin

text \<open>
  GeoIP enrichment (\<^verbatim>\<open>internal/routing/geo/geo.go\<close>): the record read from the database, the label of a
  prefix, and the split of a prefix at the record boundaries of the database. The database reader
  (\<^verbatim>\<open>maxminddb\<close>) is a parameter. The interface \<open>geo_split\<close> says what the accounting of address space
  relies on; the split implements it for every database whose iterator behaves as documented.
\<close>

section \<open>Operations\<close>

record Info =
  in_country :: string
  in_country_name :: string
  in_continent_code :: string
  in_continent_name :: string
  in_city :: string
  in_lat :: rat
  in_lon :: rat
  in_ok :: bool

definition no_info :: Info where
  "no_info = \<lparr>in_country = [], in_country_name = [], in_continent_code = [], in_continent_name = [], in_city = [],
     in_lat = 0, in_lon = 0, in_ok = False\<rparr>"

record cityRecord =
  cr_continent_code :: string
  cr_continent_names :: "(string \<times> string) list"
  cr_country_iso :: string
  cr_country_names :: "(string \<times> string) list"
  cr_city_names :: "(string \<times> string) list"
  cr_latitude :: rat
  cr_longitude :: rat

definition english :: "(string \<times> string) list \<Rightarrow> string" where
  "english names = (case map_of names ''en'' of None \<Rightarrow> [] | Some s \<Rightarrow> s)"

definition city_info :: "cityRecord \<Rightarrow> Info" where
  "city_info r = \<lparr>in_country = cr_country_iso r, in_country_name = english (cr_country_names r),
     in_continent_code = cr_continent_code r, in_continent_name = english (cr_continent_names r),
     in_city = english (cr_city_names r), in_lat = cr_latitude r, in_lon = cr_longitude r, in_ok = (cr_country_iso r \<noteq> [])\<rparr>"

text \<open>The reader's lookup of an address, \<^const>\<open>None\<close> on an error.\<close>

definition geo_Lookup :: "(addr \<Rightarrow> cityRecord option) \<Rightarrow> prefix \<Rightarrow> Info" where
  "geo_Lookup db p = (case db (Addr p) of None \<Rightarrow> no_info | Some r \<Rightarrow> city_info r)"

record ipnet =
  net_ip :: bytes
  net_ones :: nat

definition byte_number :: "bytes \<Rightarrow> nat" where
  "byte_number bs = number 256 (map of_char bs)"

definition AddrFromSlice :: "bytes \<Rightarrow> addr option" where
  "AddrFromSlice bs = (if length bs = 4 then Some (V4 (byte_number bs)) else if length bs = 16 then Some (V6 (byte_number bs) []) else None)"

fun is4In6 :: "addr \<Rightarrow> bool" where
  "is4In6 (V4 n) = False"
| "is4In6 (V6 n z) = (n div 2 ^ 32 = 65535)"

definition fromIPNet :: "ipnet \<Rightarrow> prefix option" where
  "fromIPNet n =
     (case AddrFromSlice (net_ip n) of
        None \<Rightarrow> None
      | Some a \<Rightarrow>
          (let mapped = is4In6 a;
               a' = (if mapped then V4 (addr_num a mod 2 ^ 32) else a);
               bits = int (net_ones n) - (if mapped then 96 else 0) in
           if bits < 0 \<or> bits > int (bit_len a') then None
           else Some \<lparr>Addr = a', Bits = nat bits\<rparr>))"

text \<open>The networks the reader's iterator yields for a prefix; \<^const>\<open>None\<close> is a record that does not decode.\<close>

type_synonym mmdb = "prefix \<Rightarrow> (ipnet \<times> cityRecord) option list"

definition decoded :: "(ipnet \<times> cityRecord) option \<Rightarrow> (prefix \<times> cityRecord) option" where
  "decoded e = Option.bind e (\<lambda>(n, r). map_option (\<lambda>g. (g, r)) (fromIPNet n))"

definition Ranges :: "mmdb \<Rightarrow> prefix \<Rightarrow> (prefix \<times> Info) list" where
  "Ranges db p0 =
     (let p = Masked p0 in
      map (\<lambda>(got, r). (if Bits got < Bits p then p else got, city_info r)) (List.map_filter decoded (db p)))"

definition ASN_Lookup :: "(addr \<Rightarrow> int option) \<Rightarrow> addr \<Rightarrow> int option" where
  "ASN_Lookup db a = (case db a of None \<Rightarrow> None | Some n \<Rightarrow> if n = 0 then None else Some n)"

section \<open>Units of address space\<close>

text \<open>
  Space is counted in units: single IPv4 addresses, IPv6 networks of length 64. Unit \<open>u\<close> of a family
  is the block of addresses that starts at \<open>u * unit_width\<close>; prefixes longer than \<open>unit_bits\<close> hold none.
\<close>

definition unit_bits :: "nat \<Rightarrow> nat" where
  "unit_bits len = (if len = 128 then 64 else len)"

definition unit_width :: "nat \<Rightarrow> nat" where
  "unit_width len = 2 ^ (len - unit_bits len)"

definition units_of :: "prefix \<Rightarrow> nat set" where
  "units_of p = (if Bits p \<le> unit_bits (bit_len (Addr p)) then {u. u * unit_width (bit_len (Addr p)) \<in> span p} else {})"

lemma unit_bits_le: "unit_bits (bit_len a) \<le> bit_len a"
  by (cases a) (simp_all add: unit_bits_def)

lemma block_units:
  assumes "Bits p \<le> unit_bits (bit_len (Addr p))"
  shows "block p = 2 ^ (unit_bits (bit_len (Addr p)) - Bits p) * unit_width (bit_len (Addr p))"
proof -
  have "bit_len (Addr p) - Bits p = (unit_bits (bit_len (Addr p)) - Bits p) + (bit_len (Addr p) - unit_bits (bit_len (Addr p)))"
    using assms unit_bits_le [of "Addr p"] by simp
  then show ?thesis by (simp add: block_def unit_width_def power_add)
qed

lemma units_of_interval:
  assumes "Bits p \<le> unit_bits (bit_len (Addr p))"
  shows "\<exists>k. units_of p = {k * 2 ^ (unit_bits (bit_len (Addr p)) - Bits p) ..< (k + 1) * 2 ^ (unit_bits (bit_len (Addr p)) - Bits p)}"
proof -
  let ?w = "unit_width (bit_len (Addr p))" and ?B = "2 ^ (unit_bits (bit_len (Addr p)) - Bits p) :: nat"
  let ?k = "addr_num (Addr p) div block p"
  have w: "0 < ?w" by (simp add: unit_width_def)
  have "u * ?w \<in> span p \<longleftrightarrow> u \<in> {?k * ?B ..< (?k + 1) * ?B}" for u
  proof -
    have "u * ?w div block p = u div ?B" using w by (simp add: block_units [OF assms] div_mult_mult2)
    then have "u * ?w \<in> span p \<longleftrightarrow> u div ?B = ?k" by (simp add: span_def)
    also have "\<dots> \<longleftrightarrow> u \<in> {?k * ?B ..< (?k + 1) * ?B}" using div_eq_interval [of ?B u ?k] by (simp add: algebra_simps)
    finally show ?thesis .
  qed
  then have "units_of p = {?k * ?B ..< (?k + 1) * ?B}" using assms by (simp add: units_of_def set_eq_iff)
  then show ?thesis by blast
qed

lemma card_units_of:
  "card (units_of p) = (if Bits p \<le> unit_bits (bit_len (Addr p)) then 2 ^ (unit_bits (bit_len (Addr p)) - Bits p) else 0)"
  using units_of_interval [of p] by (auto simp: units_of_def)

lemma finite_units_of [simp]: "finite (units_of p)"
  using units_of_interval [of p] by (cases "Bits p \<le> unit_bits (bit_len (Addr p))") (auto simp: units_of_def)

lemma units_of_mono:
  assumes "span p \<subseteq> span q" "bit_len (Addr p) = bit_len (Addr q)" "Bits q \<le> Bits p"
  shows "units_of p \<subseteq> units_of q"
  using assms by (auto simp: units_of_def)

lemma units_of_disjoint:
  assumes "span p \<inter> span q = {}" "bit_len (Addr p) = bit_len (Addr q)"
  shows "units_of p \<inter> units_of q = {}"
  using assms by (auto simp: units_of_def)

lemma units_of_Masked [simp]: "units_of (Masked p) = units_of p"
  by (simp add: units_of_def) (simp add: Masked_def)

lemma units_of_bits: "u \<in> units_of p \<Longrightarrow> Bits p \<le> unit_bits (bit_len (Addr p)) \<and> u * unit_width (bit_len (Addr p)) \<in> span p"
  by (simp add: units_of_def split: if_split_asm)

section \<open>The interface of a geographic source\<close>

text \<open>The code the accounting uses for a record: unattributed space has the code for unknown.\<close>

definition unknownCountry :: string where
  "unknownCountry = ''ZZ''"

definition country_code :: "Info \<Rightarrow> string" where
  "country_code i = (if in_ok i then in_country i else unknownCountry)"

text \<open>
  \<open>located len u\<close> is the country of unit \<open>u\<close> of a family. The pieces of a prefix are prefixes inside it
  that do not meet; every unit of a piece is in the country of the piece; a unit in no piece is in
  no known country.
\<close>

locale geo_split =
  fixes ranges :: "prefix \<Rightarrow> (prefix \<times> Info) list"
    and located :: "nat \<Rightarrow> nat \<Rightarrow> string"
  assumes pieces: "prefix_ok p \<Longrightarrow> Masked p = p \<Longrightarrow> (q, i) \<in> set (ranges p) \<Longrightarrow>
      prefix_ok q \<and> bit_len (Addr q) = bit_len (Addr p) \<and> Bits p \<le> Bits q \<and> span q \<subseteq> span p"
    and separate: "prefix_ok p \<Longrightarrow> Masked p = p \<Longrightarrow> sorted_wrt (\<lambda>(q, i) (q', i'). span q \<inter> span q' = {}) (ranges p)"
    and inside: "prefix_ok p \<Longrightarrow> Masked p = p \<Longrightarrow> (q, i) \<in> set (ranges p) \<Longrightarrow> u \<in> units_of q \<Longrightarrow>
      located (bit_len (Addr p)) u = country_code i"
    and outside: "prefix_ok p \<Longrightarrow> Masked p = p \<Longrightarrow> u \<in> units_of p \<Longrightarrow> \<forall>(q, i) \<in> set (ranges p). u \<notin> units_of q \<Longrightarrow>
      located (bit_len (Addr p)) u = unknownCountry"

text \<open>Without a GeoIP database nothing is known: the builder then runs with a nil source.\<close>

interpretation nowhere: geo_split "\<lambda>p. []" "\<lambda>len u. unknownCountry"
  by unfold_locales simp_all

section \<open>The split of a database implements the interface\<close>

text \<open>
  What \<^verbatim>\<open>NetworksWithin\<close> promises of a database with the networks \<open>nets\<close>: networks do not meet, and for
  a prefix the iterator yields the networks inside it, or the one that contains it, each once.
  Since prefixes nest these are the networks that meet the prefix.
\<close>

definition meets :: "prefix \<Rightarrow> prefix \<Rightarrow> bool" where
  "meets p g \<longleftrightarrow> bit_len (Addr g) = bit_len (Addr p) \<and> span g \<inter> span p \<noteq> {}"

definition networks_within :: "(prefix \<times> cityRecord) list \<Rightarrow> mmdb \<Rightarrow> bool" where
  "networks_within nets db \<longleftrightarrow> (\<forall>(g, r) \<in> set nets. prefix_ok g) \<and>
     sorted_wrt (\<lambda>(g, r) (g', r'). \<not> meets g g') nets \<and>
     (\<forall>p. prefix_ok p \<longrightarrow> mset (List.map_filter decoded (db p)) = mset (filter (\<lambda>(g, r). meets p g) nets))"

definition country_at :: "(prefix \<times> cityRecord) list \<Rightarrow> nat \<Rightarrow> nat \<Rightarrow> string" where
  "country_at nets len u =
     (case find (\<lambda>(g, r). bit_len (Addr g) = len \<and> u \<in> units_of g) nets of
        None \<Rightarrow> unknownCountry | Some (g, r) \<Rightarrow> country_code (city_info r))"

lemma meets_sym: "meets p g = meets g p"
  by (auto simp: meets_def)

lemma pairwise_mset:
  assumes "mset xs = mset ys" "sorted_wrt R xs" "\<And>x y. R x y \<Longrightarrow> R y x"
  shows "sorted_wrt R ys"
  using assms(1,2)
proof (induction xs arbitrary: ys)
  case (Cons x xs)
  then obtain a b where y: "ys = a @ x # b" by (metis list.set_intros(1) mset_eq_setD split_list)
  then have "mset xs = mset (a @ b)" using Cons.prems(1) by simp
  moreover from this have "set xs = set (a @ b)" by (rule mset_eq_setD)
  moreover have "sorted_wrt R xs" "\<forall>z \<in> set xs. R x z" using Cons.prems(2) by simp_all
  ultimately have "sorted_wrt R (a @ b)" "\<forall>z \<in> set (a @ b). R x z" using Cons.IH [of "a @ b"] by simp_all
  then show ?case using assms(3) by (auto simp: y sorted_wrt_append)
qed simp

lemma country_at_unique:
  assumes "sorted_wrt (\<lambda>(g, r) (g', r'). \<not> meets g g') nets" "(g, r) \<in> set nets" "u \<in> units_of g"
  shows "country_at nets (bit_len (Addr g)) u = country_code (city_info r)"
  using assms(1,2)
proof (induction nets)
  case (Cons n nets)
  obtain g' r' where n: "n = (g', r')" by (cases n)
  show ?case
  proof (cases "bit_len (Addr g') = bit_len (Addr g) \<and> u \<in> units_of g'")
    case True
    have "(g', r') = (g, r)"
    proof (rule ccontr)
      assume "(g', r') \<noteq> (g, r)"
      then have "\<not> meets g' g" using Cons.prems n by auto
      moreover have "u * unit_width (bit_len (Addr g)) \<in> span g' \<inter> span g"
        using True assms(3) units_of_bits by (metis IntI)
      ultimately show False using True by (auto simp: meets_def)
    qed
    then show ?thesis using True by (simp add: n country_at_def)
  next
    case False
    then have "(g, r) \<in> set nets" using Cons.prems(2) assms(3) n by auto
    then show ?thesis using Cons False by (auto simp: n country_at_def)
  qed
qed simp

lemma Ranges_in:
  assumes "networks_within nets db" "prefix_ok p" "Masked p = p" "(q, i) \<in> set (Ranges db p)"
  obtains g r where "(g, r) \<in> set nets" "meets p g" "prefix_ok g" "i = city_info r" "q = (if Bits g < Bits p then p else g)"
proof -
  from assms(4) obtain g r where gr: "(g, r) \<in> set (List.map_filter decoded (db p))" "i = city_info r"
    "q = (if Bits g < Bits p then p else g)"
    by (auto simp: Ranges_def Let_def assms(3))
  have "set (List.map_filter decoded (db p)) = set (filter (\<lambda>(g, r). meets p g) nets)"
    using assms(1,2) by (intro mset_eq_setD) (simp add: networks_within_def)
  then have "(g, r) \<in> set nets" "meets p g" using gr(1) by auto
  then show ?thesis using that gr(2,3) assms(1) by (auto simp: networks_within_def)
qed

lemma clamped:
  assumes "prefix_ok p" "prefix_ok g" "meets p g"
  shows "Bits g < Bits p \<Longrightarrow> span p \<subseteq> span g" "\<not> Bits g < Bits p \<Longrightarrow> span g \<subseteq> span p"
proof -
  obtain n where "n \<in> span g" "n \<in> span p" "bit_len (Addr g) = bit_len (Addr p)" using assms(3) by (auto simp: meets_def)
  then show "Bits g < Bits p \<Longrightarrow> span p \<subseteq> span g" "\<not> Bits g < Bits p \<Longrightarrow> span g \<subseteq> span p"
    using span_subset [of g p n] span_subset [of p g n] assms(1,2) by (auto simp: prefix_ok_def)
qed

lemma clamped_inside:
  assumes "prefix_ok p" "prefix_ok g" "meets p g"
  shows "span (if Bits g < Bits p then p else g) \<subseteq> span g" "span (if Bits g < Bits p then p else g) \<subseteq> span p"
    "units_of (if Bits g < Bits p then p else g) \<subseteq> units_of g"
proof -
  have "bit_len (Addr g) = bit_len (Addr p)" using assms(3) by (simp add: meets_def)
  then show "span (if Bits g < Bits p then p else g) \<subseteq> span g" "span (if Bits g < Bits p then p else g) \<subseteq> span p"
    "units_of (if Bits g < Bits p then p else g) \<subseteq> units_of g"
    using clamped [OF assms] units_of_mono [of p g] by simp_all
qed

lemma Ranges_separate:
  assumes "networks_within nets db" "prefix_ok p" "Masked p = p"
  shows "sorted_wrt (\<lambda>(q, i) (q', i'). span q \<inter> span q' = {}) (Ranges db p)"
proof -
  let ?ns = "filter (\<lambda>(g, r). meets p g) nets"
  let ?clamp = "\<lambda>(got, r). (if Bits got < Bits p then p else got, city_info r)"
  have "sorted_wrt (\<lambda>(g, r) (g', r'). \<not> meets g g') ?ns"
    using assms(1) by (auto simp: networks_within_def intro: sorted_wrt_filter)
  moreover have "mset ?ns = mset (List.map_filter decoded (db p))" using assms(1,2) by (simp add: networks_within_def)
  ultimately have s: "sorted_wrt (\<lambda>(g, r) (g', r'). \<not> meets g g') (List.map_filter decoded (db p))"
    by (intro pairwise_mset [where xs = ?ns and ys = "List.map_filter decoded (db p)"]) (auto simp: meets_def)
  have m: "\<forall>(g, r) \<in> set (List.map_filter decoded (db p)). meets p g \<and> prefix_ok g"
  proof -
    have "set (List.map_filter decoded (db p)) = set ?ns"
      using assms(1,2) by (intro mset_eq_setD) (simp add: networks_within_def)
    then show ?thesis using assms(1) by (auto simp: networks_within_def)
  qed
  have "span (if Bits g < Bits p then p else g) \<inter> span (if Bits g' < Bits p then p else g') = {}"
    if "\<not> meets g g'" "meets p g" "meets p g'" "prefix_ok g" "prefix_ok g'" for g g'
  proof -
    have "span g \<inter> span g' = {}" using that(1-3) by (auto simp: meets_def)
    then show ?thesis
      using clamped_inside(1) [OF assms(2) that(4,2)] clamped_inside(1) [OF assms(2) that(5,3)] by blast
  qed
  then have "sorted_wrt (\<lambda>x y. case (?clamp x, ?clamp y) of ((q, i), (q', i')) \<Rightarrow> span q \<inter> span q' = {}) (List.map_filter decoded (db p))"
    using m by (intro sorted_wrt_mono_rel [OF _ s]) (auto simp: case_prod_beta simp del: disjoint_iff)
  then show ?thesis by (simp add: Ranges_def Let_def assms(3) sorted_wrt_map case_prod_beta)
qed

theorem Ranges_split:
  assumes "networks_within nets db"
  shows "geo_split (Ranges db) (country_at nets)"
proof (unfold_locales, goal_cases)
  case (1 p q i)
  then obtain g r where "meets p g" "prefix_ok g" "q = (if Bits g < Bits p then p else g)" by (rule Ranges_in [OF assms])
  then show ?case using clamped [OF 1(1)] 1(1) by (auto simp: meets_def)
next
  case (2 p)
  then show ?case by (rule Ranges_separate [OF assms])
next
  case (3 p q i u)
  then obtain g r where g: "(g, r) \<in> set nets" "meets p g" "prefix_ok g" "i = city_info r" "q = (if Bits g < Bits p then p else g)"
    by (metis Ranges_in [OF assms])
  then have "units_of q \<subseteq> units_of g" using clamped_inside(3) [OF 3(1) g(3,2)] by simp
  then have "u \<in> units_of g" using 3(4) by blast
  then have "country_at nets (bit_len (Addr g)) u = country_code (city_info r)"
    using country_at_unique g(1) assms by (auto simp: networks_within_def)
  then show ?case using g(2,4) by (simp add: meets_def)
next
  case (4 p u)
  have False if "(g, r) \<in> set nets" "bit_len (Addr g) = bit_len (Addr p)" "u \<in> units_of g" for g r
  proof -
    have "u * unit_width (bit_len (Addr p)) \<in> span g \<inter> span p"
      using that(2,3) 4(3) units_of_bits [of u g] units_of_bits [of u p] by simp
    then have "meets p g" using that(2) by (auto simp: meets_def)
    have "mset (List.map_filter decoded (db p)) = mset (filter (\<lambda>(g, r). meets p g) nets)"
      using assms 4(1) by (simp add: networks_within_def)
    then have "(g, r) \<in> set (List.map_filter decoded (db p))" using that(1) \<open>meets p g\<close> mset_eq_setD by fastforce
    then have "(if Bits g < Bits p then p else g, city_info r) \<in> set (Ranges db p)" by (force simp: Ranges_def Let_def 4(2))
    then show False using 4(3,4) that(3) by (auto split: if_split_asm)
  qed
  then have "find (\<lambda>(g, r). bit_len (Addr g) = bit_len (Addr p) \<and> u \<in> units_of g) nets = None"
    by (auto simp: find_None_iff)
  then show ?case by (simp add: country_at_def)
qed

end
