(* ===== verification/Bogon.thy ===== *)
theory Bogon
  imports Netip
begin

text \<open>
  Non-global address space (\<^verbatim>\<open>internal/routing/bogon/bogon.go\<close>): the list of reserved prefixes, the
  bogon test and the test for announcements too long for the global table. The test is characterised
  by the addresses of the prefix.
\<close>

section \<open>Operations\<close>

definition bogon_specs :: "string list" where
  "bogon_specs =
     [''0.0.0.0/8'', ''10.0.0.0/8'', ''100.64.0.0/10'', ''127.0.0.0/8'',
      ''169.254.0.0/16'', ''172.16.0.0/12'', ''192.0.0.0/24'', ''192.0.2.0/24'',
      ''192.168.0.0/16'', ''198.18.0.0/15'', ''198.51.100.0/24'', ''203.0.113.0/24'',
      ''224.0.0.0/4'', ''240.0.0.0/4'',
      ''2001:db8::/32'', ''2001:2::/48'', ''3fff::/20'']"

definition bogons :: "prefix list" where
  "bogons = map (the \<circ> ParsePrefix) bogon_specs"

definition v6Global :: prefix where
  "v6Global = the (ParsePrefix ''2000::/3'')"

definition IsBogon :: "prefix \<Rightarrow> bool" where
  "IsBogon p \<longleftrightarrow> is6 (Addr p) \<and> \<not> Overlaps v6Global p \<or> (\<exists>b \<in> set bogons. Overlaps b p)"

definition TooLong :: "prefix \<Rightarrow> bool" where
  "TooLong p \<longleftrightarrow> (if is4 (Addr p) then Bits p > 24 else Bits p > 48)"

section \<open>The parsed table\<close>

definition parsed_bogons :: "prefix list" where
  "parsed_bogons =
     [\<lparr>Addr = V4 0, Bits = 8\<rparr>, \<lparr>Addr = V4 167772160, Bits = 8\<rparr>, \<lparr>Addr = V4 1681915904, Bits = 10\<rparr>,
      \<lparr>Addr = V4 2130706432, Bits = 8\<rparr>, \<lparr>Addr = V4 2851995648, Bits = 16\<rparr>, \<lparr>Addr = V4 2886729728, Bits = 12\<rparr>,
      \<lparr>Addr = V4 3221225472, Bits = 24\<rparr>, \<lparr>Addr = V4 3221225984, Bits = 24\<rparr>, \<lparr>Addr = V4 3232235520, Bits = 16\<rparr>,
      \<lparr>Addr = V4 3323068416, Bits = 15\<rparr>, \<lparr>Addr = V4 3325256704, Bits = 24\<rparr>, \<lparr>Addr = V4 3405803776, Bits = 24\<rparr>,
      \<lparr>Addr = V4 3758096384, Bits = 4\<rparr>, \<lparr>Addr = V4 4026531840, Bits = 4\<rparr>,
      \<lparr>Addr = V6 (0x20010db8 * 2 ^ 96) [], Bits = 32\<rparr>, \<lparr>Addr = V6 (0x200100020000 * 2 ^ 80) [], Bits = 48\<rparr>,
      \<lparr>Addr = V6 (0x3fff * 2 ^ 112) [], Bits = 20\<rparr>]"

lemma specs_parse: "map ParsePrefix bogon_specs = map Some parsed_bogons"
  by (simp add: bogon_specs_def parsed_bogons_def parse_eval Let_def)

lemma bogons_eq: "bogons = parsed_bogons"
proof -
  have "bogons = map the (map ParsePrefix bogon_specs)" by (simp add: bogons_def)
  then show ?thesis by (simp add: specs_parse comp_def)
qed

lemma v6Global_eq: "v6Global = \<lparr>Addr = V6 (2 ^ 125) [], Bits = 3\<rparr>"
  by (simp add: v6Global_def parse_eval Let_def)

lemma table_ok: "b \<in> set bogons \<Longrightarrow> prefix_ok b" "prefix_ok v6Global"
  by (auto simp: bogons_eq parsed_bogons_def v6Global_eq prefix_ok_def addr_ok_def)

section \<open>What a bogon is\<close>

text \<open>An address (its family and number) is global when no reserved prefix holds it and, for IPv6, it lies in \<^verbatim>\<open>2000::/3\<close>.\<close>

definition global_address :: "nat \<Rightarrow> nat \<Rightarrow> bool" where
  "global_address len n \<longleftrightarrow> (\<forall>b \<in> set bogons. bit_len (Addr b) = len \<longrightarrow> n \<notin> span b) \<and> (len = 128 \<longrightarrow> n \<in> span v6Global)"

lemma Overlaps_family: "Overlaps p q \<Longrightarrow> bit_len (Addr p) = bit_len (Addr q)"
  by (cases "Addr p"; cases "Addr q") (auto simp: Overlaps_def)

lemma span_nested:
  assumes "prefix_ok p" "prefix_ok q" "bit_len (Addr p) = bit_len (Addr q)" "span p \<inter> span q \<noteq> {}"
  shows "span p \<subseteq> span q \<or> span q \<subseteq> span p"
proof -
  obtain n where n: "n \<in> span p" "n \<in> span q" using assms(4) by blast
  show ?thesis
    using span_subset [of p q n] span_subset [of q p n] n assms by (cases "Bits p \<le> Bits q") (auto simp: prefix_ok_def)
qed

lemma documentation_inside: "\<exists>b \<in> set bogons. bit_len (Addr b) = 128 \<and> span b \<subseteq> span v6Global"
proof -
  let ?b = "\<lparr>Addr = V6 (0x20010db8 * 2 ^ 96) [], Bits = 32\<rparr> :: prefix"
  have "?b \<in> set bogons" by (simp add: bogons_eq parsed_bogons_def)
  moreover have "span ?b \<subseteq> span v6Global"
    by (rule span_subset [where n = "0x20010db8 * 2 ^ 96"]) (simp_all add: v6Global_eq span_def block_def)
  ultimately show ?thesis by (intro bexI [where x = ?b]) auto
qed

text \<open>
  The bogon test by addresses: a prefix is a bogon exactly when it holds some address that is not
  global. It does not have to lie inside reserved space: a covering announcement is a bogon too.
\<close>

theorem IsBogon_iff:
  assumes "prefix_ok p"
  shows "IsBogon p \<longleftrightarrow> (\<exists>n \<in> span p. \<not> global_address (bit_len (Addr p)) n)"
proof
  assume "IsBogon p"
  then consider (v6) "bit_len (Addr p) = 128" "\<not> Overlaps v6Global p" | (listed) b where "b \<in> set bogons" "Overlaps b p"
    by (cases "Addr p") (auto simp: IsBogon_def is6_def)
  then show "\<exists>n \<in> span p. \<not> global_address (bit_len (Addr p)) n"
  proof cases
    case v6
    then have "span v6Global \<inter> span p = {}"
      using Overlaps_iff [OF table_ok(2) assms] by (simp add: v6Global_eq)
    then have "addr_num (Addr p) \<notin> span v6Global" using num_in_span by blast
    then show ?thesis using v6(1) num_in_span [of p] by (metis global_address_def)
  next
    case listed
    then have "bit_len (Addr b) = bit_len (Addr p)" "span b \<inter> span p \<noteq> {}"
      using Overlaps_family Overlaps_iff [OF table_ok(1) assms] by auto
    then show ?thesis using listed(1) by (auto simp: global_address_def)
  qed
next
  assume "\<exists>n \<in> span p. \<not> global_address (bit_len (Addr p)) n"
  then obtain n where n: "n \<in> span p" "\<not> global_address (bit_len (Addr p)) n" by blast
  show "IsBogon p"
  proof (cases "\<exists>b \<in> set bogons. bit_len (Addr b) = bit_len (Addr p) \<and> n \<in> span b")
    case True
    then show ?thesis using n(1) Overlaps_iff [OF table_ok(1) assms] by (auto simp: IsBogon_def)
  next
    case False
    then have v6: "bit_len (Addr p) = 128" "n \<notin> span v6Global" using n(2) by (auto simp: global_address_def)
    show ?thesis
    proof (rule ccontr)
      assume nb: "\<not> IsBogon p"
      then have "Overlaps v6Global p" using v6(1) by (cases "Addr p") (auto simp: IsBogon_def is6_def)
      then have "span v6Global \<inter> span p \<noteq> {}" using Overlaps_iff [OF table_ok(2) assms] Overlaps_family by blast
      then have "span v6Global \<subseteq> span p"
        using span_nested [OF table_ok(2) assms] v6 n(1) by (auto simp: v6Global_eq)
      then obtain b where b: "b \<in> set bogons" "bit_len (Addr b) = 128" "span b \<subseteq> span p" using documentation_inside by blast
      then have "Overlaps b p"
        using Overlaps_iff [OF table_ok(1) assms] v6(1) num_in_span [of b] by (metis IntI emptyE subsetD)
      then show False using nb b(1) by (auto simp: IsBogon_def)
    qed
  qed
qed

text \<open>Address space that passes the test is bounded well inside its family.\<close>

lemma global_below: "global_address len n \<Longrightarrow> len = 128 \<Longrightarrow> n < 2 ^ 126"
  by (auto simp: global_address_def v6Global_eq span_interval block_def)

lemma global_positive_bits:
  assumes "prefix_ok p" "\<not> IsBogon p"
  shows "0 < Bits p"
proof (rule ccontr)
  assume "\<not> 0 < Bits p"
  then have "block p = 2 ^ bit_len (Addr p)" by (simp add: block_def)
  moreover have "addr_num (Addr p) < 2 ^ bit_len (Addr p)" using assms(1) by (simp add: prefix_ok_def addr_ok_def)
  ultimately have z: "0 \<in> span p" by (simp add: span_def)
  then have "global_address (bit_len (Addr p)) 0" using IsBogon_iff [OF assms(1)] assms(2) by blast
  moreover have "\<not> global_address 32 0"
    by (force simp: global_address_def bogons_eq parsed_bogons_def span_def block_def)
  moreover have "\<not> global_address 128 0" by (simp add: global_address_def v6Global_eq span_def block_def)
  ultimately show False by (cases "Addr p") simp_all
qed

end
