(* ===== verification/Distribution.thy ===== *)
theory Distribution
  imports Geo Bogon "HOL-Library.AList" "HOL-Library.Product_Lexorder"
begin

text \<open>
  Geographic distribution of announced address space (\<^verbatim>\<open>internal/builder/distribution.go\<close>): the units
  of a prefix per country, the sweep that subtracts more-specific announcements from the covering
  ones, the per-provider statistics and the shares. Counts are \<^verbatim>\<open>uint64\<close>: addition wraps. A Go map
  is an association list with distinct keys.
\<close>

section \<open>Operations\<close>

record CountryStat =
  cs_code :: string
  cs_name :: string
  cs_continent_code :: string
  cs_continent_name :: string
  cs_ipv4 :: nat
  cs_net64s :: nat
  cs_count_v4 :: nat
  cs_count_v6 :: nat

definition new_stat :: "string \<Rightarrow> string \<Rightarrow> string \<Rightarrow> string \<Rightarrow> CountryStat" where
  "new_stat code name cc cn = \<lparr>cs_code = code, cs_name = name, cs_continent_code = cc, cs_continent_name = cn,
     cs_ipv4 = 0, cs_net64s = 0, cs_count_v4 = 0, cs_count_v6 = 0\<rparr>"

type_synonym counts = "(string \<times> nat) list"
type_synonym names = "(string \<times> CountryStat) list"
type_synonym ranger = "prefix \<Rightarrow> (prefix \<times> Info) list"

definition uadd :: "nat \<Rightarrow> nat \<Rightarrow> nat" where
  "uadd a b = (a + b) mod 2 ^ 64"

definition units :: "prefix \<Rightarrow> nat" where
  "units p =
     (if bit_len (Addr p) = 128 \<and> Bits p > 64 then 0
      else
        (let size = (if bit_len (Addr p) = 128 then 64 else bit_len (Addr p)) in
         if Bits p = 0 then 2 ^ 64 - 1 else 2 ^ (size - Bits p)))"

definition count_of :: "counts \<Rightarrow> string \<Rightarrow> nat" where
  "count_of m c = (case map_of m c of None \<Rightarrow> 0 | Some u \<Rightarrow> u)"

definition bump :: "string \<Rightarrow> nat \<Rightarrow> counts \<Rightarrow> counts" where
  "bump c u m = AList.update c (uadd (count_of m c) u) m"

definition note_name :: "Info \<Rightarrow> names \<Rightarrow> names" where
  "note_name i names =
     (if in_ok i \<and> map_of names (in_country i) = None
      then AList.update (in_country i) (new_stat (in_country i) (in_country_name i) (in_continent_code i) (in_continent_name i)) names
      else names)"

text \<open>The loop over the pieces: what is covered so far, the counts, the names seen.\<close>

fun attribute :: "nat \<Rightarrow> (prefix \<times> Info) list \<Rightarrow> nat \<Rightarrow> counts \<Rightarrow> names \<Rightarrow> nat \<times> counts \<times> names" where
  "attribute tot [] covered out names = (covered, out, names)"
| "attribute tot ((q, i) # rest) covered out names =
     (let u = (if uadd covered (units q) > tot then tot - covered else units q);
          out' = bump (country_code i) u out; covered' = uadd covered u; names' = note_name i names in
      if covered' \<ge> tot then (covered', out', names') else attribute tot rest covered' out' names')"

definition countryUnits :: "prefix \<Rightarrow> ranger option \<Rightarrow> names \<Rightarrow> counts \<times> names" where
  "countryUnits p r names =
     (case (case r of None \<Rightarrow> (0, [], names) | Some f \<Rightarrow> attribute (units p) (f p) 0 [] names) of
        (covered, out, names') \<Rightarrow>
          (if covered < units p then bump unknownCountry (units p - covered) out else out, names'))"

definition pkey :: "prefix \<Rightarrow> nat \<times> nat \<times> nat" where
  "pkey p = (bit_len (Addr p), addr_num (Addr p), Bits p)"

fun own_all :: "prefix list \<Rightarrow> ranger option \<Rightarrow> names \<Rightarrow> counts list \<times> names" where
  "own_all [] r names = ([], names)"
| "own_all (p # ps) r names =
     (case countryUnits p r names of (m, names1) \<Rightarrow>
        (case own_all ps r names1 of (ms, names2) \<Rightarrow> (m # ms, names2)))"

text \<open>The stack has its top first.\<close>

definition pop :: "prefix list \<Rightarrow> prefix \<Rightarrow> nat list \<Rightarrow> nat list" where
  "pop srt p stack = dropWhile (\<lambda>k. \<not> (Contains (srt ! k) (Addr p) \<and> Bits (srt ! k) \<le> Bits p)) stack"

definition take_away :: "string \<times> nat \<Rightarrow> counts \<Rightarrow> counts" where
  "take_away e m = (case e of (code, u) \<Rightarrow>
     if count_of m code > u then AList.update code (count_of m code - u) m else AList.delete code m)"

fun sweep :: "prefix list \<Rightarrow> counts list \<Rightarrow> nat list \<Rightarrow> nat list \<Rightarrow> counts list \<Rightarrow> counts list" where
  "sweep srt own [] stack ex = ex"
| "sweep srt own (i # is) stack ex =
     (let st = pop srt (srt ! i) stack;
          ex' = (case st of [] \<Rightarrow> ex | k # _ \<Rightarrow> ex[k := fold take_away (own ! i) (ex ! k)]) in
      sweep srt own is (i # st) ex')"

definition exclusiveUnits :: "prefix list \<Rightarrow> ranger option \<Rightarrow> names \<Rightarrow> counts list \<times> counts list \<times> names" where
  "exclusiveUnits ps r names =
     (let srt = sort_key pkey ps in
      case own_all srt r names of
        (own, names') \<Rightarrow> (own, sweep srt own [0..<length srt] [] own, names'))"

record prefixRow =
  pr_prefix :: prefix
  pr_origin :: nat
  pr_provider :: string
  pr_flags :: "(string \<times> json) list"
  pr_geo :: Info

definition row_key :: "prefixRow \<Rightarrow> string \<times> bool" where
  "row_key row = (pr_provider row, is6 (Addr (pr_prefix row)))"

definition grouped :: "prefixRow list \<Rightarrow> (string \<times> bool) list" where
  "grouped rows = remdups (map row_key (filter (\<lambda>r. pr_provider r \<noteq> []) rows))"

definition group_prefixes :: "prefixRow list \<Rightarrow> string \<times> bool \<Rightarrow> prefix list" where
  "group_prefixes rows k = remdups (map (Masked \<circ> pr_prefix) (filter (\<lambda>r. pr_provider r \<noteq> [] \<and> row_key r = k) rows))"

definition fresh_stat :: "names \<Rightarrow> string \<Rightarrow> CountryStat" where
  "fresh_stat names code = (case map_of names code of
       None \<Rightarrow> new_stat code ''Unknown'' [] []
     | Some m \<Rightarrow> new_stat code (cs_name m) (cs_continent_code m) (cs_continent_name m))"

definition on_stat :: "names \<Rightarrow> string \<Rightarrow> (CountryStat \<Rightarrow> CountryStat) \<Rightarrow> names \<Rightarrow> names" where
  "on_stat names code f stats =
     AList.update code (f (case map_of stats code of Some s \<Rightarrow> s | None \<Rightarrow> fresh_stat names code)) stats"

definition add_space :: "names \<Rightarrow> bool \<Rightarrow> string \<times> nat \<Rightarrow> names \<Rightarrow> names" where
  "add_space names v6 e stats =
     (case e of (code, u) \<Rightarrow>
        if u = 0 then stats
        else if v6 then on_stat names code (\<lambda>s. s\<lparr>cs_net64s := uadd (cs_net64s s) u\<rparr>) stats
        else on_stat names code (\<lambda>s. s\<lparr>cs_ipv4 := uadd (cs_ipv4 s) u\<rparr>) stats)"

definition add_count :: "names \<Rightarrow> bool \<Rightarrow> string \<times> nat \<Rightarrow> names \<Rightarrow> names" where
  "add_count names v6 e stats =
     (if v6 then on_stat names (fst e) (\<lambda>s. s\<lparr>cs_count_v6 := cs_count_v6 s + 1\<rparr>) stats
      else on_stat names (fst e) (\<lambda>s. s\<lparr>cs_count_v4 := cs_count_v4 s + 1\<rparr>) stats)"

definition add_prefix :: "names \<Rightarrow> bool \<Rightarrow> counts \<times> counts \<Rightarrow> names \<Rightarrow> names" where
  "add_prefix names v6 oe stats = (case oe of (own, ex) \<Rightarrow> fold (add_count names v6) own (fold (add_space names v6) ex stats))"

definition distribute_group ::
  "prefixRow list \<Rightarrow> ranger option \<Rightarrow> string \<times> bool \<Rightarrow> names \<times> (string \<times> names) list \<Rightarrow> names \<times> (string \<times> names) list" where
  "distribute_group rows r k st =
     (case st of (names, out) \<Rightarrow>
        (case exclusiveUnits (group_prefixes rows k) r names of
           (own, ex, names') \<Rightarrow>
             (let stats = (case map_of out (fst k) of None \<Rightarrow> [] | Some s \<Rightarrow> s) in
              (names', AList.update (fst k) (fold (add_prefix names' (snd k)) (zip own ex) stats) out))))"

text \<open>Go leaves the order in which a map is walked open: \<open>keys\<close> is the order it took.\<close>

definition distribute :: "(string \<times> bool) list \<Rightarrow> prefixRow list \<Rightarrow> ranger option \<Rightarrow> (string \<times> names) list" where
  "distribute keys rows r = snd (fold (distribute_group rows r) keys ([], []))"

definition shares :: "names \<Rightarrow> (string \<times> rat) list" where
  "shares stats =
     (let tot = foldl (\<lambda>t (c, s). uadd t (cs_ipv4 s)) 0 stats in
      if tot = 0 then []
      else map (\<lambda>(c, s). (c, of_nat (cs_ipv4 s) / of_nat tot * 100)) stats)"

section \<open>Counts as cardinalities\<close>

definition located_in :: "(nat \<Rightarrow> nat \<Rightarrow> string) \<Rightarrow> nat \<Rightarrow> nat set \<Rightarrow> string \<Rightarrow> nat" where
  "located_in loc len S c = card {u \<in> S. loc len u = c}"

lemma located_in_le: "finite S \<Longrightarrow> located_in loc len S c \<le> card S"
  by (auto simp: located_in_def intro: card_mono)

lemma located_in_mono: "finite T \<Longrightarrow> S \<subseteq> T \<Longrightarrow> located_in loc len S c \<le> located_in loc len T c"
  by (auto simp: located_in_def intro!: card_mono)

lemma located_in_Un:
  assumes "finite S" "finite T" "S \<inter> T = {}"
  shows "located_in loc len (S \<union> T) c = located_in loc len S c + located_in loc len T c"
proof -
  have "{u \<in> S \<union> T. loc len u = c} = {u \<in> S. loc len u = c} \<union> {u \<in> T. loc len u = c}" by blast
  then show ?thesis using assms by (simp add: located_in_def) (intro card_Un_disjoint; auto)
qed

lemma located_in_Diff:
  assumes "finite S" "T \<subseteq> S"
  shows "located_in loc len (S - T) c = located_in loc len S c - located_in loc len T c"
proof -
  have "{u \<in> S - T. loc len u = c} = {u \<in> S. loc len u = c} - {u \<in> T. loc len u = c}" by blast
  moreover have "finite {u \<in> T. loc len u = c}" using assms finite_subset [of T S] by simp
  ultimately show ?thesis using assms by (simp add: located_in_def) (intro card_Diff_subset; auto)
qed

lemma located_in_const:
  assumes "\<And>u. u \<in> S \<Longrightarrow> loc len u = d"
  shows "located_in loc len S c = (if c = d then card S else 0)"
proof -
  have "{u \<in> S. loc len u = c} = (if c = d then S else {})" using assms by auto
  then show ?thesis by (simp add: located_in_def)
qed

lemma sum_located:
  assumes "finite S" "finite C" "\<And>u. u \<in> S \<Longrightarrow> loc len u \<in> C"
  shows "(\<Sum>c \<in> C. located_in loc len S c) = card S"
proof -
  have "card S = card (\<Union>c \<in> C. {u \<in> S. loc len u = c})" using assms(3) by (intro arg_cong [where f = card]) blast
  also have "\<dots> = (\<Sum>c \<in> C. card {u \<in> S. loc len u = c})" using assms(1,2) by (intro card_UN_disjoint) auto
  finally show ?thesis by (simp add: located_in_def)
qed

section \<open>Counts of one prefix\<close>

lemma count_of_bump: "count_of (bump d u m) c = (if c = d then uadd (count_of m d) u else count_of m c)"
  by (simp add: count_of_def bump_def update_conv')

lemma distinct_bump: "distinct (map fst m) \<Longrightarrow> distinct (map fst (bump d u m))"
  by (simp add: bump_def distinct_update)

lemma units_card: "prefix_ok p \<Longrightarrow> 0 < Bits p \<Longrightarrow> units p = card (units_of p)"
  by (cases "Addr p") (simp_all add: units_def card_units_of unit_bits_def prefix_ok_def Let_def)

lemma units_below: "prefix_ok p \<Longrightarrow> 0 < Bits p \<Longrightarrow> units p < 2 ^ 64"
proof -
  assume "prefix_ok p" "0 < Bits p"
  then have "units p = 0 \<or> (\<exists>e \<le> 63. units p = 2 ^ e)" by (cases "Addr p") (auto simp: units_def Let_def)
  moreover have "(2 :: nat) ^ e < 2 ^ 64" if "e \<le> 63" for e using that by (intro power_strict_increasing) auto
  ultimately show ?thesis by auto
qed

lemma uadd_small: "a + b < 2 ^ 64 \<Longrightarrow> uadd a b = a + b"
  by (simp add: uadd_def)

text \<open>
  The loop over the pieces. \<open>S\<close> is the space covered so far; the pieces still to come lie in \<open>U\<close>,
  do not meet each other or \<open>S\<close>, and each has one country.
\<close>

lemma attribute_counts:
  assumes "finite U" "card U = tot" "tot < 2 ^ 64" "S \<subseteq> U" "covered = card S"
    and "\<And>c. count_of out c = located_in loc len S c"
    and "\<forall>(q, i) \<in> set rs. units q = card (units_of q) \<and> units_of q \<subseteq> U \<and> units_of q \<inter> S = {} \<and>
       (\<forall>u \<in> units_of q. loc len u = country_code i)"
    and "sorted_wrt (\<lambda>(q, i) (q', i'). units_of q \<inter> units_of q' = {}) rs"
    and "attribute tot rs covered out names = (covered', out', names')"
  shows "\<exists>S'. S' \<subseteq> U \<and> covered' = card S' \<and> (\<forall>c. count_of out' c = located_in loc len S' c) \<and>
    (S' = U \<or> S' = S \<union> (\<Union>(q, i) \<in> set rs. units_of q))"
  using assms(4-9)
proof (induction rs arbitrary: S covered out names)
  case Nil
  then show ?case by auto
next
  case (Cons r rs)
  obtain q i where r: "r = (q, i)" by (cases r)
  let ?T = "S \<union> units_of q" and ?out = "bump (country_code i) (units q) out"
  have q: "units q = card (units_of q)" "units_of q \<subseteq> U" "units_of q \<inter> S = {}" "\<And>u. u \<in> units_of q \<Longrightarrow> loc len u = country_code i"
    using Cons.prems(4) r by auto
  have T: "?T \<subseteq> U" "finite S" "finite (units_of q)" using q(2) Cons.prems(1) assms(1) finite_subset by auto
  have cT: "covered + units q = card ?T"
    using q(1,3) T(2,3) Cons.prems(2) by (simp add: card_Un_disjoint Int_commute)
  moreover have "card ?T \<le> tot" using T(1) assms(1,2) card_mono by blast
  ultimately have le: "covered + units q \<le> tot" and ua: "uadd covered (units q) = card ?T" using assms(3) by (simp_all add: uadd_small)
  have out: "count_of ?out c = located_in loc len ?T c" for c
  proof -
    have "located_in loc len ?T c = located_in loc len S c + (if c = country_code i then units q else 0)"
      using located_in_Un [of S "units_of q" loc len c] located_in_const [of "units_of q" loc len "country_code i" c] q T by (simp add: Int_commute)
    moreover have "located_in loc len S c \<le> covered" using located_in_le [OF T(2)] Cons.prems(2) by simp
    ultimately show ?thesis using Cons.prems(3) le assms(3) by (auto simp: count_of_bump intro!: uadd_small)
  qed
  have step: "attribute tot (r # rs) covered out names =
    (if card ?T \<ge> tot then (card ?T, ?out, note_name i names) else attribute tot rs (card ?T) ?out (note_name i names))"
    using ua le cT by (simp add: r Let_def)
  show ?case
  proof (cases "card ?T \<ge> tot")
    case True
    then have "?T = U" using T(1) assms(1,2) card_seteq by blast
    then show ?thesis using True Cons.prems(6) step out by auto
  next
    case False
    have rest: "\<forall>(q', i') \<in> set rs. units q' = card (units_of q') \<and> units_of q' \<subseteq> U \<and> units_of q' \<inter> ?T = {} \<and>
       (\<forall>u \<in> units_of q'. loc len u = country_code i')"
    proof clarify
      fix q' i' assume qi: "(q', i') \<in> set rs"
      then have "units_of q \<inter> units_of q' = {}" using Cons.prems(5) r by auto
      moreover have "units q' = card (units_of q') \<and> units_of q' \<subseteq> U \<and> units_of q' \<inter> S = {} \<and> (\<forall>u \<in> units_of q'. loc len u = country_code i')"
        using Cons.prems(4) qi by auto
      ultimately show "units q' = card (units_of q') \<and> units_of q' \<subseteq> U \<and> units_of q' \<inter> ?T = {} \<and> (\<forall>u \<in> units_of q'. loc len u = country_code i')"
        by blast
    qed
    have "attribute tot rs (card ?T) ?out (note_name i names) = (covered', out', names')" using False step Cons.prems(6) by simp
    from Cons.IH [OF T(1) refl out rest _ this] Cons.prems(5) obtain S' where "S' \<subseteq> U" "covered' = card S'"
      "\<forall>c. count_of out' c = located_in loc len S' c" "S' = U \<or> S' = ?T \<union> (\<Union>(q, i) \<in> set rs. units_of q)" by auto
    then show ?thesis by (intro exI [of _ S']) (auto simp: r)
  qed
qed

lemma attribute_distinct:
  "distinct (map fst out) \<Longrightarrow> attribute tot rs covered out names = (covered', out', names') \<Longrightarrow> distinct (map fst out')"
  by (induction tot rs covered out names rule: attribute.induct) (auto simp: Let_def distinct_bump split: if_split_asm)

lemma countryUnits_distinct: "countryUnits p r names = (m, names') \<Longrightarrow> distinct (map fst m)"
  by (auto simp: countryUnits_def distinct_bump split: prod.split_asm option.split_asm if_split_asm dest!: attribute_distinct [rotated])

context geo_split
begin

lemma countryUnits_exact:
  assumes "prefix_ok p" "Masked p = p" "0 < Bits p" "countryUnits p (Some ranges) names = (m, names')"
  shows "count_of m c = located_in located (bit_len (Addr p)) (units_of p) c"
proof -
  let ?len = "bit_len (Addr p)"
  obtain covered out where a: "attribute (units p) (ranges p) 0 [] names = (covered, out, names')"
    and m: "m = (if covered < units p then bump unknownCountry (units p - covered) out else out)"
    using assms(4) by (auto simp: countryUnits_def split: prod.split_asm)
  have pc: "\<forall>(q, i) \<in> set (ranges p). units q = card (units_of q) \<and> units_of q \<subseteq> units_of p \<and> units_of q \<inter> {} = {} \<and>
     (\<forall>u \<in> units_of q. located ?len u = country_code i)"
  proof clarify
    fix q i assume qi: "(q, i) \<in> set (ranges p)"
    note q = pieces [OF assms(1,2) qi]
    have "units q = card (units_of q)" using q assms(3) by (intro units_card) auto
    moreover have "units_of q \<subseteq> units_of p" using q by (intro units_of_mono) auto
    moreover have "\<forall>u \<in> units_of q. located ?len u = country_code i" using inside [OF assms(1,2) qi] by blast
    ultimately show "units q = card (units_of q) \<and> units_of q \<subseteq> units_of p \<and> units_of q \<inter> {} = {} \<and>
      (\<forall>u \<in> units_of q. located ?len u = country_code i)" by blast
  qed
  have sp: "sorted_wrt (\<lambda>(q, i) (q', i'). units_of q \<inter> units_of q' = {}) (ranges p)"
  proof (rule sorted_wrt_mono_rel [OF _ separate [OF assms(1,2)]], clarify)
    fix q i q' i'
    assume "(q, i) \<in> set (ranges p)" "(q', i') \<in> set (ranges p)" "span q \<inter> span q' = {}"
    then show "units_of q \<inter> units_of q' = {}" using pieces [OF assms(1,2)] by (intro units_of_disjoint) metis+
  qed
  have start: "count_of [] c = located_in located ?len {} c" for c by (simp add: count_of_def located_in_def)
  obtain S where S: "S \<subseteq> units_of p" "covered = card S" "\<forall>c. count_of out c = located_in located ?len S c"
    "S = units_of p \<or> S = {} \<union> (\<Union>(q, i) \<in> set (ranges p). units_of q)"
    using attribute_counts [OF finite_units_of units_card [OF assms(1,3), symmetric] units_below [OF assms(1,3)] _ _ start pc sp a] by auto
  show ?thesis
  proof (cases "covered < units p")
    case False
    then have "S = units_of p" using S(1,2) units_card [OF assms(1,3)] card_seteq [OF finite_units_of S(1)] by simp
    then show ?thesis using False m S(3) by simp
  next
    case True
    then have rest: "located ?len u = unknownCountry" if "u \<in> units_of p - S" for u
      using that S(4) outside [OF assms(1,2), of u] by auto
    have fin: "finite S" using S(1) finite_subset finite_units_of by blast
    have "located_in located ?len (units_of p) c = located_in located ?len (S \<union> (units_of p - S)) c" using S(1) by (simp add: Un_absorb1)
    also have "\<dots> = located_in located ?len S c + (if c = unknownCountry then units p - covered else 0)"
      using located_in_Un [of S "units_of p - S"] located_in_const [of "units_of p - S" located ?len unknownCountry c] rest S(2) fin card_Diff_subset [OF fin S(1)] units_card [OF assms(1,3)] by simp
    finally have e: "located_in located ?len (units_of p) c = \<dots>" .
    have "located_in located ?len (units_of p) c < 2 ^ 64"
      using located_in_le [OF finite_units_of] units_card [OF assms(1,3)] units_below [OF assms(1,3)] by (metis le_less_trans)
    then show ?thesis using True m S(3) e by (auto simp: count_of_bump uadd_small)
  qed
qed

end

section \<open>The sweep\<close>

lemma count_of_delete: "count_of (AList.delete d m) c = (if c = d then 0 else count_of m c)"
  by (simp add: count_of_def delete_conv')

lemma count_of_update: "count_of (AList.update d u m) c = (if c = d then u else count_of m c)"
  by (simp add: count_of_def update_conv')

lemma count_of_take_away: "count_of (take_away (d, u) m) c = (if c = d then count_of m d - u else count_of m c)"
  by (simp add: take_away_def count_of_delete count_of_update)

lemma count_of_fold_take_away:
  "distinct (map fst own) \<Longrightarrow> count_of (fold take_away own m) c = count_of m c - count_of own c"
proof (induction own arbitrary: m)
  case (Cons e own)
  obtain d u where e: "e = (d, u)" by (cases e)
  have "map_of own d = None" using Cons.prems e by (simp add: map_of_eq_None_iff)
  then have "count_of own d = 0" by (simp add: count_of_def)
  then show ?case using Cons by (simp add: e count_of_take_away) (simp add: count_of_def)
qed (simp add: count_of_def)

text \<open>A forest: announced prefixes of one family in address order, containers before what they contain.\<close>

definition forest :: "nat \<Rightarrow> prefix list \<Rightarrow> bool" where
  "forest len ps \<longleftrightarrow> sorted_wrt (\<lambda>p q. pkey p < pkey q) ps \<and>
     (\<forall>p \<in> set ps. prefix_ok p \<and> Masked p = p \<and> 0 < Bits p \<and> bit_len (Addr p) = len)"

lemma Masked_start: "Masked p = p \<Longrightarrow> addr_num (Addr p) div block p * block p = addr_num (Addr p)"
  by (metis Masked_def prefix.select_convs(1) prefix.surjective prefix.update_convs(1) with_num_simps(1))

lemma span_start: "Masked p = p \<Longrightarrow> span p = {addr_num (Addr p) ..< addr_num (Addr p) + block p}"
  using span_interval [of p] Masked_start [of p] by simp

lemma Contains_iff:
  assumes "prefix_ok p" "prefix_ok q" "bit_len (Addr p) = bit_len (Addr q)"
  shows "Contains p (Addr q) \<longleftrightarrow> addr_num (Addr q) \<in> span p"
  using assms by (cases "Addr p"; cases "Addr q") (auto simp: Contains_def span_def prefix_ok_def)

lemma forest_nth:
  assumes "forest len ps" "k < length ps"
  shows "prefix_ok (ps ! k)" "Masked (ps ! k) = ps ! k" "bit_len (Addr (ps ! k)) = len" "0 < Bits (ps ! k)"
  using assms nth_mem by (auto simp: forest_def)

lemma forest_order:
  assumes "forest len ps" "k < i" "i < length ps"
  shows "addr_num (Addr (ps ! k)) \<le> addr_num (Addr (ps ! i))"
    "addr_num (Addr (ps ! k)) = addr_num (Addr (ps ! i)) \<Longrightarrow> Bits (ps ! k) < Bits (ps ! i)"
proof -
  have "pkey (ps ! k) < pkey (ps ! i)" using assms by (simp add: forest_def sorted_wrt_iff_nth_less)
  then show "addr_num (Addr (ps ! k)) \<le> addr_num (Addr (ps ! i))"
    "addr_num (Addr (ps ! k)) = addr_num (Addr (ps ! i)) \<Longrightarrow> Bits (ps ! k) < Bits (ps ! i)"
    using forest_nth(3) [OF assms(1)] assms(2,3) by (auto simp: pkey_def)
qed

definition covers :: "prefix list \<Rightarrow> prefix \<Rightarrow> nat \<Rightarrow> bool" where
  "covers ps p k \<longleftrightarrow> Contains (ps ! k) (Addr p) \<and> Bits (ps ! k) \<le> Bits p"

lemma covers_span:
  assumes "forest len ps" "k < length ps" "i < length ps" "covers ps (ps ! i) k"
  shows "span (ps ! i) \<subseteq> span (ps ! k)" "units_of (ps ! i) \<subseteq> units_of (ps ! k)"
proof -
  note f = forest_nth [OF assms(1,2)] forest_nth [OF assms(1,3)]
  have "addr_num (Addr (ps ! i)) \<in> span (ps ! k)" using assms(4) Contains_iff f by (simp add: covers_def)
  then show s: "span (ps ! i) \<subseteq> span (ps ! k)"
    using f assms(4) by (intro span_subset [where n = "addr_num (Addr (ps ! i))"]) (auto simp: covers_def prefix_ok_def)
  show "units_of (ps ! i) \<subseteq> units_of (ps ! k)" using s f assms(4) by (intro units_of_mono) (auto simp: covers_def)
qed

text \<open>A prefix that does not cover the current one meets neither it nor any later one.\<close>

lemma not_covers_disjoint:
  assumes "forest len ps" "k < i" "i \<le> m" "m < length ps" "\<not> covers ps (ps ! i) k"
  shows "span (ps ! k) \<inter> span (ps ! m) = {}"
proof (rule ccontr)
  assume ne: "span (ps ! k) \<inter> span (ps ! m) \<noteq> {}"
  have lt: "k < length ps" "i < length ps" using assms by auto
  note K = forest_nth [OF assms(1) lt(1)] and I = forest_nth [OF assms(1) lt(2)] and M = forest_nth [OF assms(1,4)]
  have ord: "addr_num (Addr (ps ! k)) \<le> addr_num (Addr (ps ! i))" "addr_num (Addr (ps ! i)) \<le> addr_num (Addr (ps ! m))"
    using forest_order(1) [OF assms(1,2) lt(2)] forest_order(1) [OF assms(1) _ assms(4), of i] assms(3) by (cases "i = m"; simp)+
  have "addr_num (Addr (ps ! i)) \<in> span (ps ! k)"
    using span_nested [OF K(1) M(1) _ ne] K(3) M(3) ord num_in_span [of "ps ! k"] num_in_span [of "ps ! m"]
      block_pos [of "ps ! k"] block_pos [of "ps ! m"]
    by (auto simp: span_start [OF K(2)] span_start [OF M(2)] simp del: block_pos)
  then have c: "Contains (ps ! k) (Addr (ps ! i))" using Contains_iff K I by simp
  then have "\<not> Bits (ps ! k) \<le> Bits (ps ! i)" using assms(5) by (simp add: covers_def)
  then have "span (ps ! k) \<subseteq> span (ps ! i)"
    using K I \<open>addr_num (Addr (ps ! i)) \<in> span (ps ! k)\<close>
    by (intro span_subset [where n = "addr_num (Addr (ps ! i))"]) (auto simp: prefix_ok_def)
  then have "addr_num (Addr (ps ! k)) \<in> span (ps ! i)" using num_in_span by blast
  then have "addr_num (Addr (ps ! i)) \<le> addr_num (Addr (ps ! k))" by (simp add: span_start [OF I(2)])
  then show False using ord(1) forest_order(2) [OF assms(1,2) lt(2)] \<open>\<not> Bits (ps ! k) \<le> Bits (ps ! i)\<close> by simp
qed

text \<open>
  Before prefix \<open>i\<close> is processed: the stack holds a chain of covering prefixes, everything processed
  after a stack element lies inside it, what left the stack meets nothing still to come. A stack
  element has the count of its space less what was processed after it; the counts so far add up to
  the union.
\<close>

definition chain :: "prefix list \<Rightarrow> nat \<Rightarrow> nat list \<Rightarrow> bool" where
  "chain ps i st \<longleftrightarrow> sorted_wrt (>) st \<and> (\<forall>k \<in> set st. k < i) \<and>
     (\<forall>k \<in> set st. \<forall>j. k < j \<and> j < i \<longrightarrow> span (ps ! j) \<subseteq> span (ps ! k) \<and> units_of (ps ! j) \<subseteq> units_of (ps ! k)) \<and>
     (\<forall>j < i. j \<notin> set st \<longrightarrow> (\<forall>m. i \<le> m \<and> m < length ps \<longrightarrow> span (ps ! j) \<inter> span (ps ! m) = {}))"

definition sweep_inv :: "(nat \<Rightarrow> nat \<Rightarrow> string) \<Rightarrow> nat \<Rightarrow> prefix list \<Rightarrow> nat \<Rightarrow> nat list \<Rightarrow> counts list \<Rightarrow> bool" where
  "sweep_inv loc len ps i st ex \<longleftrightarrow> length ex = length ps \<and>
     (\<forall>k \<in> set st. \<forall>c. count_of (ex ! k) c = located_in loc len (units_of (ps ! k) - (\<Union>j \<in> {k<..<i}. units_of (ps ! j))) c) \<and>
     (\<forall>j. i \<le> j \<and> j < length ps \<longrightarrow> (\<forall>c. count_of (ex ! j) c = located_in loc len (units_of (ps ! j)) c)) \<and>
     (\<forall>c. (\<Sum>j<i. count_of (ex ! j) c) = located_in loc len (\<Union>j<i. units_of (ps ! j)) c)"

lemma pop_covers: "pop ps p st = dropWhile (\<lambda>k. \<not> covers ps p k) st"
  by (simp add: pop_def covers_def)

lemma chain_pop:
  assumes "forest len ps" "chain ps i st" "i < length ps"
  shows "sorted_wrt (>) (pop ps (ps ! i) st)" "k \<in> set (pop ps (ps ! i) st) \<Longrightarrow> k \<in> set st"
    "k \<in> set (pop ps (ps ! i) st) \<Longrightarrow> span (ps ! i) \<subseteq> span (ps ! k) \<and> units_of (ps ! i) \<subseteq> units_of (ps ! k)"
    "j < i \<Longrightarrow> j \<notin> set (pop ps (ps ! i) st) \<Longrightarrow> i \<le> m \<Longrightarrow> m < length ps \<Longrightarrow> span (ps ! j) \<inter> span (ps ! m) = {}"
proof -
  let ?st = "pop ps (ps ! i) st"
  obtain pre where pre: "st = pre @ ?st" "\<forall>k \<in> set pre. \<not> covers ps (ps ! i) k"
    by (metis pop_covers takeWhile_dropWhile_id set_takeWhileD)
  show srt: "sorted_wrt (>) ?st" using assms(2) pre(1) by (metis chain_def sorted_wrt_append)
  show sub: "k \<in> set ?st \<Longrightarrow> k \<in> set st" for k using pre(1) by (metis Un_iff set_append)
  show "span (ps ! i) \<subseteq> span (ps ! k) \<and> units_of (ps ! i) \<subseteq> units_of (ps ! k)" if k: "k \<in> set ?st" for k
  proof -
    obtain h rest where h: "?st = h # rest" using k by (cases ?st) auto
    have "h \<in> set st" using sub h by simp
    then have hi: "h < i" "\<And>k. k \<in> set st \<Longrightarrow> k < h \<Longrightarrow> span (ps ! h) \<subseteq> span (ps ! k) \<and> units_of (ps ! h) \<subseteq> units_of (ps ! k)"
      using assms(2) by (auto simp: chain_def)
    have "covers ps (ps ! i) h" using h hd_dropWhile [of "\<lambda>k. \<not> covers ps (ps ! i) k" st] by (simp add: pop_covers)
    then have "span (ps ! i) \<subseteq> span (ps ! h)" "units_of (ps ! i) \<subseteq> units_of (ps ! h)"
      using covers_span [OF assms(1) _ assms(3)] hi(1) assms(3) by simp_all
    moreover have "k = h \<or> k < h" using k srt h by auto
    ultimately show ?thesis using hi(2) sub [OF k] by blast
  qed
  show "span (ps ! j) \<inter> span (ps ! m) = {}" if "j < i" "j \<notin> set ?st" "i \<le> m" "m < length ps"
  proof (cases "j \<in> set st")
    case True
    then have "\<not> covers ps (ps ! i) j" using pre that(2) by (metis Un_iff set_append)
    then show ?thesis using not_covers_disjoint [OF assms(1) that(1,3,4)] by simp
  next
    case False
    then show ?thesis using assms(2) that by (simp add: chain_def)
  qed
qed

lemma chain_step:
  assumes "forest len ps" "chain ps i st" "i < length ps"
  shows "chain ps (Suc i) (i # pop ps (ps ! i) st)"
proof -
  let ?st = "pop ps (ps ! i) st"
  note P = chain_pop [OF assms]
  have lt: "k < i" if "k \<in> set ?st" for k using P(2) [OF that] assms(2) by (simp add: chain_def)
  have "span (ps ! j) \<subseteq> span (ps ! k) \<and> units_of (ps ! j) \<subseteq> units_of (ps ! k)"
    if "k \<in> set (i # ?st)" "k < j" "j < Suc i" for k j
  proof -
    have k: "k \<in> set ?st" using that by auto
    show ?thesis
    proof (cases "j = i")
      case False
      then show ?thesis using P(2) [OF k] that assms(2) by (simp add: chain_def)
    qed (use P(3) [OF k] in simp)
  qed
  moreover have "span (ps ! j) \<inter> span (ps ! m) = {}"
    if "j < Suc i" "j \<notin> set (i # ?st)" "Suc i \<le> m" "m < length ps" for j m
    using P(4) [of j m] that by auto
  ultimately show ?thesis using P(1) lt by (auto simp: chain_def less_Suc_eq)
qed

lemma chain_fresh:
  assumes "forest len ps" "chain ps i st" "i < length ps" "j < i" "j \<notin> set (pop ps (ps ! i) st)"
  shows "units_of (ps ! j) \<inter> units_of (ps ! i) = {}"
  using chain_pop(4) [OF assms(1-5), of i] forest_nth(3) [OF assms(1)] assms(3,4) by (intro units_of_disjoint) auto

lemma sweep_step_parent:
  assumes f: "forest len ps" and ch: "chain ps i st" and i: "i < length ps"
    and inv: "sweep_inv loc len ps i st ex" and top: "pop ps (ps ! i) st = h # rest"
    and own: "distinct (map fst o1)" "\<And>c. count_of o1 c = located_in loc len (units_of (ps ! i)) c"
  shows "sweep_inv loc len ps (Suc i) (i # h # rest) (ex[h := fold take_away o1 (ex ! h)])"
proof -
  let ?D = "\<lambda>j. units_of (ps ! j)" and ?ex = "ex[h := fold take_away o1 (ex ! h)]"
  note P = chain_pop [OF f ch i]
  have h: "h \<in> set st" "h < i" using P(2) [of h] top ch by (auto simp: chain_def)
  have len: "length ex = length ps" using inv by (simp add: sweep_inv_def)
  have sub: "?D i \<subseteq> ?D h" using P(3) [of h] top by simp
  have fresh: "?D j \<inter> ?D i = {}" if "h < j" "j < i" for j
    using chain_fresh [OF f ch i that(2)] P(1) that(1) top by fastforce
  have within: "?D i \<subseteq> ?D h - (\<Union>j \<in> {h<..<i}. ?D j)" using sub fresh by fastforce
  have hc: "count_of (?ex ! h) c = located_in loc len (?D h - (\<Union>j \<in> {h<..<i}. ?D j) - ?D i) c" for c
  proof -
    have "count_of (?ex ! h) c = located_in loc len (?D h - (\<Union>j \<in> {h<..<i}. ?D j)) c - located_in loc len (?D i) c"
      using count_of_fold_take_away [OF own(1)] own(2) inv h i len by (simp add: sweep_inv_def)
    also have "\<dots> = located_in loc len (?D h - (\<Union>j \<in> {h<..<i}. ?D j) - ?D i) c"
      using within by (intro located_in_Diff [symmetric]) simp_all
    finally show ?thesis .
  qed
  have le: "count_of (ex ! h) c \<ge> located_in loc len (?D i) c" for c
    using located_in_mono [OF _ within, of loc len c] inv h(1) by (simp add: sweep_inv_def)
  have "count_of (?ex ! k) c = located_in loc len (?D k - (\<Union>j \<in> {k<..<Suc i}. ?D j)) c" if k: "k \<in> set (i # h # rest)" for k c
  proof -
    consider "k = i" | "k = h" | "k \<in> set rest" "k < h" using k P(1) top by auto
    then show ?thesis
    proof cases
      case 1
      have "{i<..<Suc i} = {}" by auto
      then show ?thesis using 1 inv i h(2) by (simp add: sweep_inv_def)
    next
      case 2
      have "{h<..<Suc i} = insert i {h<..<i}" using h(2) by auto
      then have "?D h - (\<Union>j \<in> {h<..<Suc i}. ?D j) = ?D h - (\<Union>j \<in> {h<..<i}. ?D j) - ?D i" by auto
      then show ?thesis using 2 hc by simp
    next
      case 3
      have "{k<..<Suc i} = insert i {k<..<i}" "h \<in> {k<..<i}" using 3(2) h(2) by auto
      then have "(\<Union>j \<in> {k<..<Suc i}. ?D j) = (\<Union>j \<in> {k<..<i}. ?D j)" using sub by auto
      moreover have "k \<in> set st" using P(2) [of k] top 3(1) by simp
      ultimately show ?thesis using 3(2) inv by (simp add: sweep_inv_def)
    qed
  qed
  moreover have "(\<Sum>j<Suc i. count_of (?ex ! j) c) = located_in loc len (\<Union>j<Suc i. ?D j) c" for c
  proof -
    have "(\<Union>j<Suc i. ?D j) = (\<Union>j<i. ?D j)" using sub h(2) by (auto simp: lessThan_Suc)
    moreover have "(\<Sum>j<Suc i. count_of (?ex ! j) c) = (\<Sum>j<i. count_of (ex ! j) c)"
    proof -
      have s: "(\<Sum>j<i. g j) = g h + (\<Sum>j \<in> {..<i} - {h}. g j)" for g :: "nat \<Rightarrow> nat" using h(2) by (simp add: sum.remove)
      have "count_of (?ex ! h) c = count_of (ex ! h) c - located_in loc len (?D i) c"
        using count_of_fold_take_away [OF own(1)] own(2) h i len by simp
      moreover have "count_of (?ex ! i) c = located_in loc len (?D i) c" using inv i h(2) by (simp add: sweep_inv_def)
      moreover have "(\<Sum>j \<in> {..<i} - {h}. count_of (?ex ! j) c) = (\<Sum>j \<in> {..<i} - {h}. count_of (ex ! j) c)" by (intro sum.cong) auto
      ultimately show ?thesis using s [of "\<lambda>j. count_of (?ex ! j) c"] s [of "\<lambda>j. count_of (ex ! j) c"] le [of c] by simp
    qed
    ultimately show ?thesis using inv by (simp add: sweep_inv_def)
  qed
  ultimately show ?thesis using inv h(2) by (simp add: sweep_inv_def)
qed

lemma sweep_step_root:
  assumes f: "forest len ps" and ch: "chain ps i st" and i: "i < length ps"
    and inv: "sweep_inv loc len ps i st ex" and top: "pop ps (ps ! i) st = []"
  shows "sweep_inv loc len ps (Suc i) [i] ex"
proof -
  let ?D = "\<lambda>j. units_of (ps ! j)"
  have "(\<Union>j<i. ?D j) \<inter> ?D i = {}" using chain_fresh [OF f ch i] top by auto
  then have "located_in loc len (\<Union>j<Suc i. ?D j) c = located_in loc len (\<Union>j<i. ?D j) c + located_in loc len (?D i) c" for c
    using located_in_Un [of "\<Union>j<i. ?D j" "?D i" loc len c] by (simp add: lessThan_Suc Un_commute)
  moreover have "{i<..<Suc i} = {}" by auto
  ultimately show ?thesis using inv i by (simp add: sweep_inv_def)
qed

lemma sweep_counts:
  assumes "forest len ps" "length own = length ps"
    and "\<And>j. j < length ps \<Longrightarrow> distinct (map fst (own ! j)) \<and> (\<forall>c. count_of (own ! j) c = located_in loc len (units_of (ps ! j)) c)"
    and "chain ps i st" "sweep_inv loc len ps i st ex" "i \<le> length ps"
  shows "\<exists>st'. sweep_inv loc len ps (length ps) st' (sweep ps own [i..<length ps] st ex)"
  using assms(4-6)
proof (induction "length ps - i" arbitrary: i st ex)
  case 0
  then show ?case by auto
next
  case (Suc n)
  then have i: "i < length ps" by simp
  have step: "sweep ps own [i..<length ps] st ex = sweep ps own [Suc i..<length ps] (i # pop ps (ps ! i) st)
      (case pop ps (ps ! i) st of [] \<Rightarrow> ex | k # _ \<Rightarrow> ex[k := fold take_away (own ! i) (ex ! k)])"
    using i by (simp add: upt_conv_Cons Let_def)
  have "sweep_inv loc len ps (Suc i) (i # pop ps (ps ! i) st)
      (case pop ps (ps ! i) st of [] \<Rightarrow> ex | k # _ \<Rightarrow> ex[k := fold take_away (own ! i) (ex ! k)])"
    using sweep_step_root [OF assms(1) Suc.prems(1) i Suc.prems(2)] sweep_step_parent [OF assms(1) Suc.prems(1) i Suc.prems(2)]
      assms(3) [OF i] by (cases "pop ps (ps ! i) st") auto
  then show ?case unfolding step
    using Suc.hyps(1) [of "Suc i"] Suc.hyps(2) chain_step [OF assms(1) Suc.prems(1) i] i by simp
qed

lemma sweep_total:
  assumes "forest len ps" "length own = length ps"
    and "\<And>j. j < length ps \<Longrightarrow> distinct (map fst (own ! j)) \<and> (\<forall>c. count_of (own ! j) c = located_in loc len (units_of (ps ! j)) c)"
  shows "length (sweep ps own [0..<length ps] [] own) = length ps \<and>
    (\<Sum>m \<leftarrow> sweep ps own [0..<length ps] [] own. count_of m c) = located_in loc len (\<Union>p \<in> set ps. units_of p) c"
proof -
  have "chain ps 0 []" by (simp add: chain_def)
  moreover have "sweep_inv loc len ps 0 [] own" using assms(2,3) by (simp add: sweep_inv_def located_in_def)
  ultimately obtain st' where inv: "sweep_inv loc len ps (length ps) st' (sweep ps own [0..<length ps] [] own)"
    using sweep_counts [OF assms] by blast
  have "(\<Union>j<length ps. units_of (ps ! j)) = (\<Union>p \<in> set ps. units_of p)" by (auto simp: set_conv_nth)
  moreover have "(\<Sum>m \<leftarrow> xs. count_of m c) = (\<Sum>j<length xs. count_of (xs ! j) c)" for xs
    by (simp add: sum_list_sum_nth atLeast0LessThan)
  ultimately show ?thesis using inv by (simp add: sweep_inv_def)
qed

section \<open>Exclusive counts of a set of prefixes\<close>

lemma pkey_inj: "prefix_ok p \<Longrightarrow> prefix_ok q \<Longrightarrow> pkey p = pkey q \<Longrightarrow> p = q"
  by (cases "Addr p"; cases "Addr q") (auto simp: pkey_def prefix_ok_def)

lemma forest_sort:
  assumes "distinct ps" "\<forall>p \<in> set ps. prefix_ok p \<and> Masked p = p \<and> 0 < Bits p \<and> bit_len (Addr p) = len"
  shows "forest len (sort_key pkey ps)"
proof -
  have "distinct (map pkey (sort_key pkey ps))" using assms pkey_inj by (auto simp: distinct_map inj_on_def)
  then have "sorted_wrt (<) (map pkey (sort_key pkey ps))" by (simp add: strict_sorted_iff)
  then show ?thesis using assms(2) by (simp add: forest_def sorted_wrt_map)
qed

lemma distinct_take_away: "distinct (map fst m) \<Longrightarrow> distinct (map fst (take_away e m))"
  by (cases e) (simp add: take_away_def distinct_update distinct_delete)

lemma distinct_fold_take_away: "distinct (map fst m) \<Longrightarrow> distinct (map fst (fold take_away own m))"
  by (induction own arbitrary: m) (simp_all add: distinct_take_away)

lemma sweep_distinct:
  "\<forall>m \<in> set ex. distinct (map fst m) \<Longrightarrow> \<forall>m \<in> set (sweep ps own is st ex). distinct (map fst m)"
proof (induction "is" arbitrary: st ex)
  case (Cons i "is")
  have "\<forall>m \<in> set (case pop ps (ps ! i) st of [] \<Rightarrow> ex | k # _ \<Rightarrow> ex[k := fold take_away (own ! i) (ex ! k)]). distinct (map fst m)"
  proof (cases "pop ps (ps ! i) st")
    case (Cons k rest)
    then show ?thesis using Cons.prems distinct_fold_take_away [of "ex ! k"]
      by (cases "k < length ex") (auto simp: list_update_beyond dest!: subsetD [OF set_update_subset_insert])
  qed (use Cons.prems in simp)
  then show ?case using Cons.IH by (simp add: Let_def)
qed simp

lemma own_all_length: "own_all ps r names = (ms, names') \<Longrightarrow> length ms = length ps"
  by (induction ps arbitrary: names ms names') (auto split: prod.split_asm)

lemma own_all_distinct: "own_all ps r names = (ms, names') \<Longrightarrow> \<forall>m \<in> set ms. distinct (map fst m)"
  by (induction ps arbitrary: names ms names') (auto split: prod.split_asm dest: countryUnits_distinct)

lemma exclusive_shape:
  assumes "exclusiveUnits ps r names = (own, ex, names')"
  shows "\<forall>m \<in> set ex. distinct (map fst m)"
  using assms own_all_distinct sweep_distinct by (fastforce simp: exclusiveUnits_def Let_def split: prod.split_asm)

context geo_split
begin

lemma own_all_counts:
  "own_all ps (Some ranges) names = (ms, names') \<Longrightarrow>
   \<forall>p \<in> set ps. prefix_ok p \<and> Masked p = p \<and> 0 < Bits p \<and> bit_len (Addr p) = len \<Longrightarrow> j < length ps \<Longrightarrow>
   count_of (ms ! j) c = located_in located len (units_of (ps ! j)) c"
proof (induction ps arbitrary: names ms j)
  case (Cons p ps)
  then obtain m names1 ms1 where m: "countryUnits p (Some ranges) names = (m, names1)" "own_all ps (Some ranges) names1 = (ms1, names')"
    "ms = m # ms1" by (auto split: prod.split_asm)
  show ?case
  proof (cases j)
    case 0
    then show ?thesis using countryUnits_exact [OF _ _ _ m(1)] Cons.prems(2) m(3) by simp
  next
    case (Suc k)
    then show ?thesis using Cons.IH [OF m(2)] Cons.prems m(3) by simp
  qed
qed simp

lemma exclusive_total:
  assumes "distinct ps" "\<forall>p \<in> set ps. prefix_ok p \<and> Masked p = p \<and> 0 < Bits p \<and> bit_len (Addr p) = len"
    and "exclusiveUnits ps (Some ranges) names = (own, ex, names')"
  shows "(\<Sum>m \<leftarrow> ex. count_of m c) = located_in located len (\<Union>p \<in> set ps. units_of p) c" "length ex = length own"
proof -
  let ?srt = "sort_key pkey ps"
  have o1: "own_all ?srt (Some ranges) names = (own, names')" and ex: "ex = sweep ?srt own [0..<length ?srt] [] own"
    using assms(3) by (auto simp: exclusiveUnits_def Let_def split: prod.split_asm)
  have "distinct (map fst (own ! j)) \<and> (\<forall>c. count_of (own ! j) c = located_in located len (units_of (?srt ! j)) c)" if "j < length ?srt" for j
    using own_all_distinct [OF o1] own_all_length [OF o1] own_all_counts [OF o1 _ that] assms(2) that by simp
  note t = sweep_total [OF forest_sort [OF assms(1,2)] own_all_length [OF o1] this, where c = c, simplified]
  show "(\<Sum>m \<leftarrow> ex. count_of m c) = located_in located len (\<Union>p \<in> set ps. units_of p) c" using t by (simp add: ex)
  show "length ex = length own" using t own_all_length [OF o1] by (simp add: ex)
qed

end

section \<open>Statistics\<close>

definition space :: "bool \<Rightarrow> CountryStat \<Rightarrow> nat" where
  "space v6 s = (if v6 then cs_net64s s else cs_ipv4 s)"

definition space_of :: "bool \<Rightarrow> names \<Rightarrow> string \<Rightarrow> nat" where
  "space_of v6 stats c = (case map_of stats c of None \<Rightarrow> 0 | Some s \<Rightarrow> space v6 s)"

lemma space_fresh [simp]: "space v6 (fresh_stat names c) = 0"
  by (simp add: space_def fresh_stat_def new_stat_def split: option.split)

lemma space_on_stat:
  "space_of v6 (on_stat names d f stats) c =
     (if c = d then space v6 (f (case map_of stats d of Some s \<Rightarrow> s | None \<Rightarrow> fresh_stat names d)) else space_of v6 stats c)"
  by (simp add: space_of_def on_stat_def update_conv')

lemma space_add_count [simp]: "space_of v6 (add_count names v6' e stats) c = space_of v6 stats c"
proof -
  have "space v6 (case map_of stats d of Some s \<Rightarrow> s | None \<Rightarrow> fresh_stat names d) = space_of v6 stats d" for d
    by (simp add: space_of_def split: option.split)
  moreover have "space v6 (s\<lparr>cs_count_v6 := n\<rparr>) = space v6 s" "space v6 (s\<lparr>cs_count_v4 := n\<rparr>) = space v6 s" for s n
    by (simp_all add: space_def)
  ultimately show ?thesis by (simp add: add_count_def space_on_stat)
qed

lemma space_add_counts [simp]: "space_of v6 (fold (add_count names v6') es stats) c = space_of v6 stats c"
  by (induction es arbitrary: stats) simp_all

lemma space_add_space:
  "space_of v6 (add_space names v6' (d, u) stats) c =
     (if v6' = v6 \<and> c = d \<and> u \<noteq> 0 then uadd (space_of v6 stats c) u else space_of v6 stats c)"
proof -
  have "space v6 (case map_of stats d of Some s \<Rightarrow> s | None \<Rightarrow> fresh_stat names d) = space_of v6 stats d" for d
    by (simp add: space_of_def split: option.split)
  moreover have "space v6 (s\<lparr>cs_net64s := uadd (cs_net64s s) u\<rparr>) = (if v6 then uadd (space v6 s) u else space v6 s)"
    "space v6 (s\<lparr>cs_ipv4 := uadd (cs_ipv4 s) u\<rparr>) = (if v6 then space v6 s else uadd (space v6 s) u)" for s
    by (simp_all add: space_def)
  ultimately show ?thesis by (auto simp: add_space_def space_on_stat)
qed

lemma space_add_spaces_other: "v6' \<noteq> v6 \<Longrightarrow> space_of v6 (fold (add_space names v6') es stats) c = space_of v6 stats c"
  by (induction es arbitrary: stats) (auto simp: space_add_space)

lemma space_add_spaces:
  "distinct (map fst es) \<Longrightarrow> space_of v6 stats c + count_of es c < 2 ^ 64 \<Longrightarrow>
   space_of v6 (fold (add_space names v6) es stats) c = space_of v6 stats c + count_of es c"
proof (induction es arbitrary: stats)
  case (Cons e es)
  obtain d u where e: "e = (d, u)" by (cases e)
  have z: "c = d \<Longrightarrow> count_of es c = 0"
    using Cons.prems(1) e by (simp add: count_of_def map_of_eq_None_iff [THEN iffD2])
  have ce: "count_of (e # es) c = (if c = d then u else count_of es c)" by (simp add: e count_of_def)
  have s: "space_of v6 (add_space names v6 e stats) c = (if c = d then space_of v6 stats c + u else space_of v6 stats c)"
    using Cons.prems(2) ce by (auto simp: e space_add_space uadd_small)
  have "space_of v6 (fold (add_space names v6) es (add_space names v6 e stats)) c = space_of v6 (add_space names v6 e stats) c + count_of es c"
    using Cons.prems s z ce by (intro Cons.IH) auto
  then show ?case using s z ce by simp
qed (simp add: count_of_def)

lemma space_add_prefixes:
  "length own = length ex \<Longrightarrow> \<forall>m \<in> set ex. distinct (map fst m) \<Longrightarrow> space_of v6 stats c + (\<Sum>m \<leftarrow> ex. count_of m c) < 2 ^ 64 \<Longrightarrow>
   space_of v6 (fold (add_prefix names v6) (zip own ex) stats) c = space_of v6 stats c + (\<Sum>m \<leftarrow> ex. count_of m c)"
proof (induction own ex arbitrary: stats rule: list_induct2)
  case (Cons o1 own m ex)
  have "space_of v6 (add_prefix names v6 (o1, m) stats) c = space_of v6 stats c + count_of m c"
    using Cons.prems by (simp add: add_prefix_def space_add_spaces)
  then show ?case using Cons by simp
qed simp

lemma space_add_prefixes_other:
  "v6' \<noteq> v6 \<Longrightarrow> space_of v6 (fold (add_prefix names v6') oes stats) c = space_of v6 stats c"
  by (induction oes arbitrary: stats) (auto simp: add_prefix_def space_add_spaces_other)

section \<open>The distribution of a provider\<close>

lemma span_below:
  assumes "prefix_ok p"
  shows "span p \<subseteq> {..<2 ^ bit_len (Addr p)}"
proof
  fix n assume n: "n \<in> span p"
  have b: "2 ^ bit_len (Addr p) = 2 ^ Bits p * block p"
    using assms by (simp add: block_def prefix_ok_def flip: power_add)
  have "addr_num (Addr p) < 2 ^ Bits p * block p" using assms b by (simp add: prefix_ok_def addr_ok_def)
  then have "addr_num (Addr p) div block p < 2 ^ Bits p" by (simp add: less_mult_imp_div_less)
  then have "n div block p < 2 ^ Bits p" using n by (simp add: span_def)
  then have "n < 2 ^ Bits p * block p" using div_less_iff_less_mult [of "block p" n "2 ^ Bits p"] by simp
  then show "n \<in> {..<2 ^ bit_len (Addr p)}" using b by simp
qed

lemma global_units_below:
  assumes "prefix_ok p" "\<not> IsBogon p"
  shows "units_of p \<subseteq> {..<2 ^ 62}"
proof
  fix u assume u: "u \<in> units_of p"
  note ub = units_of_bits [OF u]
  show "u \<in> {..<2 ^ 62}"
  proof (cases "Addr p")
    case (V4 n)
    then show ?thesis using ub span_below [OF assms(1)] by (auto simp: unit_width_def unit_bits_def)
  next
    case (V6 n z)
    then have "global_address 128 (u * 2 ^ 64)"
      using IsBogon_iff [OF assms(1)] assms(2) ub by (auto simp: unit_width_def unit_bits_def)
    then show ?thesis using global_below by fastforce
  qed
qed

definition announced :: "prefixRow list \<Rightarrow> string \<Rightarrow> bool \<Rightarrow> nat set" where
  "announced rows provider v6 = (\<Union>row \<in> {row \<in> set rows. row_key row = (provider, v6)}. units_of (pr_prefix row))"

definition provider_space :: "bool \<Rightarrow> (string \<times> names) list \<Rightarrow> string \<Rightarrow> string \<Rightarrow> nat" where
  "provider_space v6 out provider c = (case map_of out provider of None \<Rightarrow> 0 | Some stats \<Rightarrow> space_of v6 stats c)"

definition sound_rows :: "prefixRow list \<Rightarrow> bool" where
  "sound_rows rows \<longleftrightarrow> (\<forall>row \<in> set rows. prefix_ok (pr_prefix row) \<and> \<not> IsBogon (pr_prefix row))"

lemma group_prefixes_ok:
  assumes "sound_rows rows" "p \<in> set (group_prefixes rows (provider, v6))"
  shows "prefix_ok p \<and> Masked p = p \<and> 0 < Bits p \<and> bit_len (Addr p) = (if v6 then 128 else 32)"
proof -
  obtain row where row: "row \<in> set rows" "row_key row = (provider, v6)" "p = Masked (pr_prefix row)"
    using assms(2) by (auto simp: group_prefixes_def)
  have ok: "prefix_ok (pr_prefix row)" "\<not> IsBogon (pr_prefix row)" using assms(1) row(1) by (auto simp: sound_rows_def)
  moreover have "Bits p = Bits (pr_prefix row)" "bit_len (Addr p) = bit_len (Addr (pr_prefix row))" by (simp_all add: row(3) Masked_def)
  ultimately show ?thesis
    using prefix_ok_Masked global_positive_bits row(2,3) by (cases "Addr (pr_prefix row)") (auto simp: Masked_idem row_key_def is6_def)
qed

lemma group_prefixes_units:
  "provider \<noteq> [] \<Longrightarrow> (\<Union>p \<in> set (group_prefixes rows (provider, v6)). units_of p) = announced rows provider v6"
  by (auto simp: group_prefixes_def announced_def row_key_def)

lemma announced_bound:
  assumes "sound_rows rows"
  shows "finite (announced rows provider v6)" "card (announced rows provider v6) < 2 ^ 64"
proof -
  have sub: "announced rows provider v6 \<subseteq> {..<2 ^ 62}"
    using assms global_units_below by (fastforce simp: announced_def sound_rows_def)
  then show "finite (announced rows provider v6)" using finite_subset by blast
  have "card (announced rows provider v6) \<le> 2 ^ 62" using card_mono [OF _ sub] by simp
  then show "card (announced rows provider v6) < 2 ^ 64" by simp
qed

context geo_split
begin

lemma distribute_group_space:
  assumes "sound_rows rows" "fst k \<noteq> []" "snd k = v6 \<and> fst k = provider \<Longrightarrow> provider_space v6 (snd st) provider c = 0"
  shows "provider_space v6 (snd (distribute_group rows (Some ranges) k st)) provider c =
    (if k = (provider, v6) then located_in located (if v6 then 128 else 32) (announced rows provider v6) c
     else provider_space v6 (snd st) provider c)"
proof -
  obtain names out where st: "st = (names, out)" by (cases st)
  obtain own ex names' where e: "exclusiveUnits (group_prefixes rows k) (Some ranges) names = (own, ex, names')" by (metis prod.exhaust)
  let ?stats = "case map_of out (fst k) of None \<Rightarrow> [] | Some s \<Rightarrow> s"
  have v: "provider_space v6 (snd (distribute_group rows (Some ranges) k st)) provider c =
    (if fst k = provider then space_of v6 (fold (add_prefix names' (snd k)) (zip own ex) ?stats) c else provider_space v6 out provider c)"
    by (auto simp: distribute_group_def st e Let_def provider_space_def update_conv')
  have old: "fst k = provider \<Longrightarrow> space_of v6 ?stats c = provider_space v6 out provider c"
    by (auto simp: provider_space_def space_of_def split: option.split)
  show ?thesis
  proof (cases "k = (provider, v6)")
    case True
    let ?len = "if v6 then 128 else 32"
    have ok: "\<forall>p \<in> set (group_prefixes rows k). prefix_ok p \<and> Masked p = p \<and> 0 < Bits p \<and> bit_len (Addr p) = ?len"
      using group_prefixes_ok [OF assms(1)] True by blast
    have "distinct (group_prefixes rows k)" by (simp add: group_prefixes_def)
    note t = exclusive_total(1) [OF this ok e, of c] exclusive_total(2) [OF this ok e]
    have sum: "(\<Sum>m \<leftarrow> ex. count_of m c) = located_in located ?len (announced rows provider v6) c"
      using t(1) group_prefixes_units assms(2) True by simp
    moreover have "space_of v6 ?stats c = 0" using old assms(3) True st by simp
    moreover have "located_in located ?len (announced rows provider v6) c < 2 ^ 64"
      using located_in_le announced_bound [OF assms(1)] by (metis le_less_trans)
    ultimately have "space_of v6 (fold (add_prefix names' v6) (zip own ex) ?stats) c = (\<Sum>m \<leftarrow> ex. count_of m c)"
      using space_add_prefixes [OF t(2) [symmetric] exclusive_shape [OF e], of v6 ?stats c names'] by simp
    then show ?thesis using v True sum by simp
  next
    case False
    then show ?thesis using v old st space_add_prefixes_other [of "snd k" v6] by (cases k) auto
  qed
qed

lemma distribute_space:
  assumes "sound_rows rows" "distinct keys" "\<forall>k \<in> set keys. fst k \<noteq> []"
  shows "provider_space v6 (snd (fold (distribute_group rows (Some ranges)) keys ([], []))) provider c =
    (if (provider, v6) \<in> set keys then located_in located (if v6 then 128 else 32) (announced rows provider v6) c else 0)"
  using assms(2,3)
proof (induction keys rule: rev_induct)
  case Nil
  then show ?case by (simp add: provider_space_def)
next
  case (snoc k keys)
  obtain p0 v0 where k: "k = (p0, v0)" by (cases k)
  let ?st = "fold (distribute_group rows (Some ranges)) keys ([], [])"
  have "provider_space v6 (snd (distribute_group rows (Some ranges) k ?st)) provider c =
    (if k = (provider, v6) then located_in located (if v6 then 128 else 32) (announced rows provider v6) c
     else provider_space v6 (snd ?st) provider c)"
    using snoc k by (intro distribute_group_space [OF assms(1)]) auto
  then show ?case using snoc k by auto
qed

lemma distribute_exact:
  assumes "sound_rows rows" "distinct keys" "set keys = set (grouped rows)" "provider \<noteq> []"
  shows "provider_space v6 (distribute keys rows (Some ranges)) provider c =
    located_in located (if v6 then 128 else 32) (announced rows provider v6) c"
proof -
  have "announced rows provider v6 = {}" if "(provider, v6) \<notin> set keys"
    using that assms(3,4) by (auto simp: announced_def grouped_def row_key_def)
  moreover have "\<forall>k \<in> set keys. fst k \<noteq> []" using assms(3) by (auto simp: grouped_def row_key_def)
  ultimately show ?thesis
    using distribute_space [OF assms(1,2), of v6 provider c] by (auto simp: distribute_def located_in_def)
qed

lemma distribute_total:
  assumes "sound_rows rows" "distinct keys" "set keys = set (grouped rows)" "provider \<noteq> []"
    and "finite C" "\<And>c. provider_space v6 (distribute keys rows (Some ranges)) provider c \<noteq> 0 \<Longrightarrow> c \<in> C"
  shows "(\<Sum>c \<in> C. provider_space v6 (distribute keys rows (Some ranges)) provider c) = card (announced rows provider v6)"
proof -
  let ?len = "if v6 then 128 else 32"
  have "located ?len u \<in> C" if "u \<in> announced rows provider v6" for u
  proof -
    have "u \<in> {w \<in> announced rows provider v6. located ?len w = located ?len u}" using that by simp
    then have "located_in located ?len (announced rows provider v6) (located ?len u) \<noteq> 0"
      using announced_bound(1) [OF assms(1)] by (auto simp: located_in_def)
    then show ?thesis using assms(6) distribute_exact [OF assms(1-4)] by simp
  qed
  then show ?thesis
    using sum_located [of "announced rows provider v6" C located ?len] announced_bound(1) [OF assms(1)] assms(5)
    by (simp add: distribute_exact [OF assms(1-4)])
qed

end

section \<open>Properties\<close>

definition countries :: "(string \<times> names) list \<Rightarrow> string \<Rightarrow> string list" where
  "countries out provider = (case map_of out provider of None \<Rightarrow> [] | Some stats \<Rightarrow> map fst stats)"

lemma listed_country: "provider_space v6 out provider c \<noteq> 0 \<Longrightarrow> c \<in> set (countries out provider)"
  by (auto simp: provider_space_def countries_def space_of_def split: option.split_asm dest: map_of_SomeD) (force dest: map_of_SomeD)


text \<open>Without a database all announced space is in no known country.\<close>

lemma nil_ranger: "countryUnits p None names = countryUnits p (Some (\<lambda>p. [])) names"
  by (simp add: countryUnits_def)

lemma nil_own_all: "own_all ps None names = own_all ps (Some (\<lambda>p. [])) names"
  by (induction ps arbitrary: names) (simp_all add: nil_ranger split: prod.split)

lemma nil_distribute: "distribute keys rows None = distribute keys rows (Some (\<lambda>p. []))"
proof -
  have "distribute_group rows None = distribute_group rows (Some (\<lambda>p. []))"
    by (simp add: fun_eq_iff distribute_group_def exclusiveUnits_def nil_own_all)
  then show ?thesis by (simp add: distribute_def)
qed

theorem distribution_without_database:
  assumes "sound_rows rows" "distinct keys" "set keys = set (grouped rows)" "provider \<noteq> []"
  shows "provider_space v6 (distribute keys rows None) provider c = (if c = unknownCountry then card (announced rows provider v6) else 0)"
  using nowhere.distribute_exact [OF assms, of v6 c] by (auto simp: nil_distribute located_in_def)

text \<open>The shares of a provider with IPv4 space add up to one hundred percent.\<close>

lemma uadd_list:
  "t + (\<Sum>(c, s) \<leftarrow> stats. cs_ipv4 s) < 2 ^ 64 \<Longrightarrow> foldl (\<lambda>t (c, s). uadd t (cs_ipv4 s)) t stats = t + (\<Sum>(c, s) \<leftarrow> stats. cs_ipv4 s)"
proof (induction stats arbitrary: t)
  case (Cons e stats)
  obtain c s where e: "e = (c, s)" by (cases e)
  show ?case using Cons.IH [of "t + cs_ipv4 s"] Cons.prems by (simp add: e uadd_small)
qed simp

theorem shares_total:
  assumes "(\<Sum>(c, s) \<leftarrow> stats. cs_ipv4 s) < 2 ^ 64" "0 < (\<Sum>(c, s) \<leftarrow> stats. cs_ipv4 s)"
  shows "(\<Sum>(c, x) \<leftarrow> shares stats. x) = 100"
proof -
  let ?T = "\<Sum>(c, s) \<leftarrow> stats. cs_ipv4 s"
  have tot: "foldl (\<lambda>t (c, s). uadd t (cs_ipv4 s)) 0 stats = ?T" using assms(1) uadd_list [of 0 stats] by simp
  have nz: "?T \<noteq> 0" using assms(2) by (rule gr_implies_not_zero)
  have "shares stats = map (\<lambda>(c, s). (c, of_nat (cs_ipv4 s) / of_nat ?T * 100)) stats"
    unfolding shares_def Let_def tot if_not_P [OF nz] ..
  then have "(\<Sum>(c, x) \<leftarrow> shares stats. x) = (\<Sum>(c, s) \<leftarrow> stats. of_nat (cs_ipv4 s) / of_nat ?T * 100)"
    by (simp add: comp_def split_def)
  also have "\<dots> = of_nat ?T / of_nat ?T * (100 :: rat)"
  proof -
    have "(\<Sum>(c, s) \<leftarrow> xs. of_nat (cs_ipv4 s) / of_nat ?T * (100 :: rat)) = of_nat (\<Sum>(c, s) \<leftarrow> xs. cs_ipv4 s) / of_nat ?T * 100" for xs
      by (induction xs) (auto simp: add_divide_distrib algebra_simps)
    then show ?thesis .
  qed
  also have "\<dots> = 100" using nz by (simp del: sum_list_eq_0_iff)
  finally show ?thesis .
qed

section \<open>A concrete announcement\<close>

definition demo_record :: cityRecord where
  "demo_record = \<lparr>cr_continent_code = ''EU'', cr_continent_names = [], cr_country_iso = ''DE'', cr_country_names = [(''en'', ''Germany'')],
     cr_city_names = [], cr_latitude = 0, cr_longitude = 0\<rparr>"

definition demo_network :: prefix where
  "demo_network = \<lparr>Addr = V4 16777216, Bits = 8\<rparr>"

definition demo_mmdb :: mmdb where
  "demo_mmdb p = (if meets p demo_network then [Some (\<lparr>net_ip = map char_of [1 :: nat, 0, 0, 0], net_ones = 8\<rparr>, demo_record)] else [])"

definition demo_announced :: "nat \<Rightarrow> nat \<Rightarrow> prefixRow" where
  "demo_announced n bits = \<lparr>pr_prefix = \<lparr>Addr = V4 n, Bits = bits\<rparr>, pr_origin = 64500, pr_provider = ''p'', pr_flags = [], pr_geo = no_info\<rparr>"

definition demo_rows :: "prefixRow list" where
  "demo_rows = [demo_announced 16908288 16, demo_announced 16909056 24]"

lemma demo_networks_within: "networks_within [(demo_network, demo_record)] demo_mmdb"
proof -
  have "decoded (Some (\<lparr>net_ip = map char_of [1 :: nat, 0, 0, 0], net_ones = 8\<rparr>, demo_record)) = Some (demo_network, demo_record)"
    by (simp add: decoded_def fromIPNet_def AddrFromSlice_def byte_number_def number_def demo_network_def)
  then have "mset (List.map_filter decoded (demo_mmdb p)) = mset (filter (\<lambda>(g, r). meets p g) [(demo_network, demo_record)])" for p
    by (simp add: demo_mmdb_def List.map_filter_def)
  then show ?thesis by (simp add: networks_within_def prefix_ok_def addr_ok_def demo_network_def)
qed

lemma demo_nested:
  "units_of \<lparr>Addr = V4 16909056, Bits = 24\<rparr> \<subseteq> units_of \<lparr>Addr = V4 16908288, Bits = 16\<rparr>"
  "units_of \<lparr>Addr = V4 16908288, Bits = 16\<rparr> \<subseteq> units_of demo_network"
proof -
  have "span \<lparr>Addr = V4 16909056, Bits = 24\<rparr> \<subseteq> span \<lparr>Addr = V4 16908288, Bits = 16\<rparr>"
    "span \<lparr>Addr = V4 16908288, Bits = 16\<rparr> \<subseteq> span demo_network"
    by (simp_all add: span_interval block_def demo_network_def)
  then show "units_of \<lparr>Addr = V4 16909056, Bits = 24\<rparr> \<subseteq> units_of \<lparr>Addr = V4 16908288, Bits = 16\<rparr>"
    "units_of \<lparr>Addr = V4 16908288, Bits = 16\<rparr> \<subseteq> units_of demo_network"
    by (simp_all add: units_of_mono demo_network_def)
qed

lemma demo_announced_units: "announced demo_rows ''p'' False = units_of \<lparr>Addr = V4 16908288, Bits = 16\<rparr>"
proof -
  have "{row \<in> set demo_rows. row_key row = (''p'', False)} = set demo_rows" by (auto simp: demo_rows_def demo_announced_def row_key_def is6_def)
  then show ?thesis using demo_nested(1) by (auto simp: announced_def demo_rows_def demo_announced_def)
qed

lemma demo_sound: "sound_rows demo_rows"
  by (simp add: sound_rows_def demo_rows_def demo_announced_def prefix_ok_def addr_ok_def IsBogon_def bogons_eq parsed_bogons_def
      Overlaps_def is6_def)


end
