(* ===== verification/Targets.thy ===== *)
theory Targets
  imports Schema Distribution
begin

text \<open>
  The choice of probe targets (\<^verbatim>\<open>internal/builder/builder.go\<close>, \<^verbatim>\<open>deriveTargets\<close>): one address per prefix,
  one target per address, ranked within the country and then within the provider, so that every
  country is served before any country gets a second target. One definition per common table
  expression. The window function \<^verbatim>\<open>row_number\<close> is one more than the number of rows of the
  partition that come earlier.
\<close>

section \<open>Operations\<close>

record candidate =
  ca_provider :: string
  ca_prefix_id :: nat
  ca_address :: addr
  ca_prefix :: prefix
  ca_peer_count :: int
  ca_country :: string
  ca_city :: "string option"

definition flag_int :: "string \<Rightarrow> (string \<times> json) list \<Rightarrow> int" where
  "flag_int k flags = (case map_of flags k of Some (JNum r) \<Rightarrow> \<lfloor>r\<rfloor> | _ \<Rightarrow> 0)"

definition flag_bool :: "string \<Rightarrow> (string \<times> json) list \<Rightarrow> bool" where
  "flag_bool k flags = (case map_of flags k of Some (JBool b) \<Rightarrow> b | _ \<Rightarrow> False)"

definition or_unknown :: "string option \<Rightarrow> string" where
  "or_unknown c = (case c of None \<Rightarrow> unknownCountry | Some s \<Rightarrow> if s = [] then unknownCountry else s)"

text \<open>\<^verbatim>\<open>host(network(p.prefix))::inet + 1\<close>\<close>

definition first_usable :: "prefix \<Rightarrow> addr" where
  "first_usable p = with_num (Addr p) (addr_num (Addr (Masked p)) + 1)"

definition candidate_of :: "prefix_row \<Rightarrow> asn_row \<Rightarrow> prefix \<Rightarrow> candidate" where
  "candidate_of r a p = \<lparr>ca_provider = as_provider_id a, ca_prefix_id = px_id r, ca_address = first_usable p, ca_prefix = p,
     ca_peer_count = flag_int ''peer_count'' (px_flags r), ca_country = or_unknown (px_geo_country r), ca_city = px_geo_city r\<rparr>"

text \<open>The prefix column has type \<^verbatim>\<open>cidr\<close>: every row parses.\<close>

definition target_candidates :: "nat \<Rightarrow> routing_schema \<Rightarrow> candidate list" where
  "target_candidates sid R =
     [candidate_of r a p.
      r \<leftarrow> filter (\<lambda>r. px_snapshot_id r = sid \<and> \<not> flag_bool ''long_prefix'' (px_flags r)) (prefixes R),
      a \<leftarrow> filter (\<lambda>a. as_asn a = px_origin_asn r) (asns R),
      p \<leftarrow> (case ParsePrefix (px_prefix r) of None \<Rightarrow> [] | Some p \<Rightarrow> [p])]"

definition dedup_key :: "candidate \<Rightarrow> nat \<times> int \<times> nat" where
  "dedup_key c = (Bits (ca_prefix c), - ca_peer_count c, ca_prefix_id c)"

definition deduped :: "candidate list \<Rightarrow> candidate list" where
  "deduped cs = filter (\<lambda>c. \<forall>d \<in> set cs. ca_address d = ca_address c \<longrightarrow> dedup_key c \<le> dedup_key d) cs"

definition row_number :: "('r \<Rightarrow> 'p) \<Rightarrow> ('r \<Rightarrow> 'k :: linorder) \<Rightarrow> 'r list \<Rightarrow> 'r \<Rightarrow> nat" where
  "row_number part key rows r = Suc (length (filter (\<lambda>q. part q = part r \<and> key q < key r) rows))"

definition fam :: "candidate \<Rightarrow> string \<times> bool" where
  "fam c = (ca_provider c, is6 (Addr (ca_prefix c)))"

definition country_part :: "candidate \<Rightarrow> string \<times> bool \<times> string" where
  "country_part c = (ca_provider c, is6 (Addr (ca_prefix c)), ca_country c)"

definition size_key :: "candidate \<Rightarrow> nat \<times> int \<times> nat \<times> nat \<times> nat" where
  "size_key c = (Bits (ca_prefix c), - ca_peer_count c, pkey (ca_prefix c))"

definition country_rank :: "candidate list \<Rightarrow> candidate \<Rightarrow> nat" where
  "country_rank ds c = row_number country_part size_key ds c"

definition per_country :: "int \<Rightarrow> candidate list \<Rightarrow> candidate list" where
  "per_country limit ds = filter (\<lambda>c. int (country_rank ds c) \<le> limit) ds"

definition ranked :: "int \<Rightarrow> int \<Rightarrow> candidate list \<Rightarrow> candidate list" where
  "ranked maxProvider limit ds =
     (let ks = per_country limit ds in
      filter (\<lambda>c. int (row_number fam (\<lambda>d. (country_rank ds d, size_key d)) ks c) \<le> maxProvider) ks)"

definition country_limit :: "int \<Rightarrow> int \<Rightarrow> int" where
  "country_limit maxProvider maxCountry = (if maxCountry \<le> 0 then maxProvider else maxCountry)"

definition chosen :: "int \<Rightarrow> int \<Rightarrow> nat \<Rightarrow> routing_schema \<Rightarrow> candidate list" where
  "chosen maxProvider maxCountry sid R =
     ranked maxProvider (country_limit maxProvider maxCountry) (deduped (target_candidates sid R))"

definition target_of :: "nat \<Rightarrow> nat \<times> candidate \<Rightarrow> target_row" where
  "target_of sid e = (case e of (i, c) \<Rightarrow>
     \<lparr>tg_id = i, tg_snapshot_id = sid, tg_provider_id = ca_provider c, tg_prefix_id = ca_prefix_id c,
      tg_address = addr_String (ca_address c), tg_rationale = ''first usable address of '' @ prefix_String (ca_prefix c),
      tg_active = True, tg_geo_country = Some (ca_country c), tg_geo_city = ca_city c\<rparr>)"

text \<open>The number of targets and the new tables; \<^const>\<open>None\<close> when the statement fails.\<close>

definition deriveTargets :: "faults \<Rightarrow> int \<Rightarrow> int \<Rightarrow> nat \<Rightarrow> routing_schema \<Rightarrow> (nat \<times> routing_schema) option" where
  "deriveTargets F maxProvider maxCountry sid R =
     (if F ''derive'' then None
      else
        (let cs = chosen maxProvider maxCountry sid R in
         Some (length cs, R\<lparr>probe_targets := probe_targets R @ map (target_of sid) (enumerate (target_seq R) cs),
           target_seq := target_seq R + length cs\<rparr>)))"

definition countTargetsByCountry :: "faults \<Rightarrow> nat \<Rightarrow> routing_schema \<Rightarrow> routing_schema option" where
  "countTargetsByCountry F sid R =
     (if F ''count_targets'' then None
      else Some (R\<lparr>provider_geo := update_where (\<lambda>g. gr_snapshot_id g = sid)
        (\<lambda>g. g\<lparr>gr_target_count := length (filter (\<lambda>t. tg_snapshot_id t = gr_snapshot_id g \<and> tg_provider_id t = gr_provider_id g \<and>
           or_unknown (tg_geo_country t) = gr_country_code g) (probe_targets R))\<rparr>) (provider_geo R)\<rparr>))"

section \<open>Row numbers\<close>

lemma length_filter_le_filter: "(\<And>x. P x \<Longrightarrow> Q x) \<Longrightarrow> length (filter P xs) \<le> length (filter Q xs)"
  by (induction xs) auto

lemma length_filter_less_filter:
  assumes imp: "\<And>x. P x \<Longrightarrow> Q x" and x: "x \<in> set xs" "Q x" "\<not> P x"
  shows "length (filter P xs) < length (filter Q xs)"
  using x(1)
proof (induction xs)
  case (Cons y xs)
  show ?case
  proof (cases "x = y")
    case True
    then show ?thesis using x length_filter_le_filter [of P Q xs, OF imp] by simp
  next
    case False
    then show ?thesis using Cons imp by auto
  qed
qed simp

lemma row_number_mono:
  assumes "q \<in> set rows" "part q = part r" "key q < key r"
  shows "row_number part key rows q < row_number part key rows r"
proof -
  have "length (filter (\<lambda>x. part x = part q \<and> key x < key q) rows) < length (filter (\<lambda>x. part x = part r \<and> key x < key r) rows)"
  proof (rule length_filter_less_filter [where x = q])
    fix x assume "part x = part q \<and> key x < key q"
    then show "part x = part r \<and> key x < key r" using order.strict_trans [of "key x" "key q" "key r"] assms(2,3) by simp
  qed (use assms in simp_all)
  then show ?thesis by (simp add: row_number_def)
qed

text \<open>Keys that are distinct within a partition give at most \<open>n\<close> rows with a number up to \<open>n\<close>.\<close>

lemma row_number_bound:
  assumes "distinct rows" "\<And>x y. x \<in> set rows \<Longrightarrow> y \<in> set rows \<Longrightarrow> part x = p \<Longrightarrow> part y = p \<Longrightarrow> key x = key y \<Longrightarrow> x = y"
  shows "int (length (filter (\<lambda>r. part r = p \<and> int (row_number part key rows r) \<le> n) rows)) \<le> max 0 n"
proof -
  let ?S = "{r \<in> set rows. part r = p \<and> int (row_number part key rows r) \<le> n}"
  have inj: "inj_on (row_number part key rows) ?S"
  proof (rule inj_onI)
    fix x y assume xy: "x \<in> ?S" "y \<in> ?S" "row_number part key rows x = row_number part key rows y"
    have "\<not> key x < key y" "\<not> key y < key x"
      using xy row_number_mono [of x rows part y key] row_number_mono [of y rows part x key] by auto
    then show "x = y" using xy assms(2) by auto
  qed
  have "row_number part key rows ` ?S \<subseteq> {1..nat n}" by (auto simp: row_number_def)
  then have "card ?S \<le> nat n" using card_mono [of "{1..nat n}" "row_number part key rows ` ?S"] card_image [OF inj] by simp
  moreover have "length (filter (\<lambda>r. part r = p \<and> int (row_number part key rows r) \<le> n) rows) = card ?S"
    using assms(1) distinct_card [of "filter (\<lambda>r. part r = p \<and> int (row_number part key rows r) \<le> n) rows"] by simp
  ultimately show ?thesis by simp
qed

section \<open>Candidates\<close>

definition keyed :: "routing_schema \<Rightarrow> bool" where
  "keyed R \<longleftrightarrow> distinct (map px_id (prefixes R)) \<and> distinct (map as_asn (asns R))"

lemma distinct_concat_singletons:
  assumes "distinct (map f xs)" "\<And>x. length (g x) \<le> 1" "\<And>x y. y \<in> set (g x) \<Longrightarrow> h y = f x"
  shows "distinct (map h (concat (map g xs)))"
  using assms(1)
proof (induction xs)
  case (Cons x xs)
  have "g x = [] \<or> (\<exists>y. g x = [y])" using assms(2) [of x] by (cases "g x") auto
  then show ?case using Cons assms(3) by auto
qed simp

lemma at_most_one: "distinct (map f xs) \<Longrightarrow> length (filter (\<lambda>x. f x = k) xs) \<le> 1"
proof (induction xs)
  case (Cons x xs)
  show ?case
  proof (cases "f x = k")
    case True
    have "f x \<notin> f ` set xs" using Cons.prems by simp
    then have "\<forall>y \<in> set xs. f y \<noteq> k" using True by (metis image_eqI)
    then show ?thesis using True by simp
  qed (use Cons in simp)
qed simp

lemma candidates_of_row:
  assumes "distinct (map as_asn as)"
  shows "length (concat (map (\<lambda>a. map (candidate_of r a) (case ParsePrefix (px_prefix r) of None \<Rightarrow> [] | Some p \<Rightarrow> [p]))
      (filter (\<lambda>a. as_asn a = px_origin_asn r) as))) \<le> 1"
proof -
  have "filter (\<lambda>a. as_asn a = px_origin_asn r) as = [] \<or> (\<exists>a. filter (\<lambda>a. as_asn a = px_origin_asn r) as = [a])"
    using at_most_one [OF assms, of "px_origin_asn r"] by (cases "filter (\<lambda>a. as_asn a = px_origin_asn r) as") auto
  then show ?thesis by (auto split: option.split)
qed

lemma candidates_distinct:
  assumes "keyed R"
  shows "distinct (map ca_prefix_id (target_candidates sid R))"
proof -
  have "distinct (map px_id (filter (\<lambda>r. px_snapshot_id r = sid \<and> \<not> flag_bool ''long_prefix'' (px_flags r)) (prefixes R)))"
    using assms by (simp add: keyed_def distinct_map_filter)
  then show ?thesis
    unfolding target_candidates_def using assms candidates_of_row
    by (intro distinct_concat_singletons) (auto simp: keyed_def candidate_of_def)
qed

lemma candidate_facts:
  assumes "c \<in> set (target_candidates sid R)"
  shows "prefix_ok (ca_prefix c)" "ca_address c = first_usable (ca_prefix c)"
  using assms ParsePrefix_ok by (auto simp: target_candidates_def candidate_of_def split: option.split_asm)

lemma deduped_unique:
  assumes "keyed R" "c \<in> set (deduped (target_candidates sid R))" "d \<in> set (deduped (target_candidates sid R))" "ca_address c = ca_address d"
  shows "c = d"
proof -
  have "dedup_key c = dedup_key d" using assms(2-4) by (auto simp: deduped_def intro: antisym)
  then have "ca_prefix_id c = ca_prefix_id d" by (simp add: dedup_key_def)
  then show ?thesis using candidates_distinct [OF assms(1), of sid] assms(2,3) by (auto simp: deduped_def distinct_map inj_on_def)
qed

lemma deduped_distinct: "keyed R \<Longrightarrow> distinct (deduped (target_candidates sid R))"
  using candidates_distinct [of R sid] by (simp add: deduped_def distinct_map)

lemma size_key_unique:
  assumes "keyed R" "c \<in> set (deduped (target_candidates sid R))" "d \<in> set (deduped (target_candidates sid R))" "size_key c = size_key d"
  shows "c = d"
proof -
  have "c \<in> set (target_candidates sid R)" "d \<in> set (target_candidates sid R)" using assms(2,3) by (auto simp: deduped_def)
  note f = candidate_facts [OF this(1)] candidate_facts [OF this(2)]
  have "ca_prefix c = ca_prefix d" using pkey_inj f(1,3) assms(4) by (simp add: size_key_def)
  then show ?thesis using deduped_unique [OF assms(1-3)] f(2,4) by simp
qed

section \<open>Properties\<close>

lemma chosen_sub: "set (chosen mp mc sid R) \<subseteq> set (deduped (target_candidates sid R))"
  by (auto simp: chosen_def ranked_def per_country_def Let_def)

lemma family_budget:
  assumes "keyed R"
  shows "int (length (filter (\<lambda>c. fam c = f) (chosen mp mc sid R))) \<le> max 0 mp"
proof -
  let ?ds = "deduped (target_candidates sid R)" and ?l = "country_limit mp mc"
  let ?ks = "per_country ?l ?ds"
  have kd: "distinct ?ks" "set ?ks \<subseteq> set ?ds" using deduped_distinct [OF assms] by (auto simp: per_country_def)
  have "int (length (filter (\<lambda>r. fam r = f \<and> int (row_number fam (\<lambda>d. (country_rank ?ds d, size_key d)) ?ks r) \<le> mp) ?ks)) \<le> max 0 mp"
  proof (rule row_number_bound [OF kd(1)])
    fix x y assume "x \<in> set ?ks" "y \<in> set ?ks" "(country_rank ?ds x, size_key x) = (country_rank ?ds y, size_key y)"
    then show "x = y" using kd(2) size_key_unique [OF assms, of x sid y] by auto
  qed
  moreover have "filter (\<lambda>c. fam c = f) (chosen mp mc sid R) =
      filter (\<lambda>r. fam r = f \<and> int (row_number fam (\<lambda>d. (country_rank ?ds d, size_key d)) ?ks r) \<le> mp) ?ks"
    by (simp add: chosen_def ranked_def Let_def conj_commute)
  ultimately show ?thesis by simp
qed

lemma provider_budget:
  assumes "keyed R"
  shows "int (length (filter (\<lambda>c. ca_provider c = provider) (chosen mp mc sid R))) \<le> 2 * max 0 mp"
proof -
  have "length (filter (\<lambda>c. ca_provider c = provider) cs) =
      length (filter (\<lambda>c. fam c = (provider, False)) cs) + length (filter (\<lambda>c. fam c = (provider, True)) cs)" for cs
    by (induction cs) (auto simp: fam_def)
  then show ?thesis using family_budget [OF assms, of "(provider, False)" mp mc sid] family_budget [OF assms, of "(provider, True)" mp mc sid] by simp
qed

text \<open>
  The probing budget holds whatever was announced: a provider has at most \<open>MaxTargetsPerProvider\<close>
  targets of each address family and at most the country limit of them in one country, and no
  address is a target twice.
\<close>

theorem target_budget:
  assumes "keyed R"
  shows "int (length (filter (\<lambda>c. fam c = (provider, v6)) (chosen mp mc sid R))) \<le> max 0 mp \<and>
    int (length (filter (\<lambda>c. country_part c = (provider, v6, country)) (chosen mp mc sid R))) \<le> max 0 (country_limit mp mc) \<and>
    distinct (map ca_address (chosen mp mc sid R))"
proof -
  let ?ds = "deduped (target_candidates sid R)" and ?l = "country_limit mp mc"
  let ?ks = "per_country ?l ?ds"
  have dd: "distinct ?ds" by (rule deduped_distinct [OF assms])
  have kd: "distinct ?ks" "set ?ks \<subseteq> set ?ds" using dd by (auto simp: per_country_def)
  note family_budget [OF assms, of "(provider, v6)" mp mc sid]
  moreover have "int (length (filter (\<lambda>c. country_part c = (provider, v6, country)) (chosen mp mc sid R))) \<le> max 0 ?l"
  proof -
    have "int (length (filter (\<lambda>r. country_part r = (provider, v6, country) \<and> int (row_number country_part size_key ?ds r) \<le> ?l) ?ds)) \<le> max 0 ?l"
      using dd size_key_unique [OF assms] by (intro row_number_bound) auto
    moreover have "length (filter (\<lambda>c. country_part c = (provider, v6, country)) (chosen mp mc sid R)) \<le>
        length (filter (\<lambda>r. country_part r = (provider, v6, country) \<and> int (row_number country_part size_key ?ds r) \<le> ?l) ?ds)"
      by (simp add: chosen_def ranked_def per_country_def Let_def country_rank_def) (intro length_filter_le_filter; simp)
    ultimately show ?thesis by linarith
  qed
  moreover have "distinct (map ca_address (chosen mp mc sid R))"
  proof -
    have "distinct (chosen mp mc sid R)" using kd(1) by (simp add: chosen_def ranked_def Let_def)
    moreover have "inj_on ca_address (set (chosen mp mc sid R))"
      using deduped_unique [OF assms] chosen_sub [THEN subsetD] by (intro inj_onI) blast
    ultimately show ?thesis by (simp add: distinct_map)
  qed
  ultimately show ?thesis by simp
qed

lemma first_of_country:
  assumes "keyed R" "c \<in> set (deduped (target_candidates sid R))"
  obtains d where "d \<in> set (deduped (target_candidates sid R))" "country_part d = country_part c"
    "country_rank (deduped (target_candidates sid R)) d = 1"
proof -
  let ?ds = "deduped (target_candidates sid R)"
  let ?P = "{d \<in> set ?ds. country_part d = country_part c}"
  have "finite ?P" "?P \<noteq> {}" using assms(2) by auto
  then obtain d where d: "d \<in> ?P" "\<And>e. e \<in> ?P \<Longrightarrow> size_key d \<le> size_key e"
    using ex_min_if_finite [of "size_key ` ?P"] by (auto simp: not_less)
  then have "country_rank ?ds d = 1" by (auto simp: country_rank_def row_number_def filter_empty_conv not_less)
  then show ?thesis using that d(1) by auto
qed

lemma first_unique:
  assumes "keyed R" "c \<in> set (deduped (target_candidates sid R))" "d \<in> set (deduped (target_candidates sid R))"
    and "country_rank (deduped (target_candidates sid R)) c = 1" "country_rank (deduped (target_candidates sid R)) d = 1"
    and "country_part c = country_part d"
  shows "c = d"
proof -
  have "\<not> size_key c < size_key d" "\<not> size_key d < size_key c"
    using row_number_mono [of c "deduped (target_candidates sid R)" country_part d size_key]
      row_number_mono [of d "deduped (target_candidates sid R)" country_part c size_key] assms
    by (auto simp: country_rank_def)
  then show ?thesis using size_key_unique [OF assms(1-3)] by auto
qed

lemma country_part_eq: "fam x = fam y \<Longrightarrow> ca_country x = ca_country y \<Longrightarrow> country_part x = country_part y"
  by (simp add: country_part_def fam_def)


section \<open>A concrete snapshot\<close>

definition demo_prefix :: "nat \<Rightarrow> string \<Rightarrow> string \<Rightarrow> prefix_row" where
  "demo_prefix i text country = \<lparr>px_id = i, px_snapshot_id = 0, px_prefix = text, px_origin_asn = 64500, px_geo_country = Some country,
     px_geo_city = None, px_geo_lat = None, px_geo_lon = None, px_flags = [(''peer_count'', JNum 3)]\<rparr>"

definition demo_snapshot :: routing_schema where
  "demo_snapshot = \<lparr>snapshots = [], providers = [],
     asns = [\<lparr>as_asn = 64500, as_provider_id = ''p1'', as_registry_name = None, as_registry_country = None, as_synced_at = 0\<rparr>],
     prefixes = [demo_prefix 0 ''1.2.0.0/16'' ''DE'', demo_prefix 1 ''1.2.0.0/24'' ''DE'', demo_prefix 2 ''1.3.0.0/17'' ''DE'', demo_prefix 3 ''1.9.0.0/24'' ''FR''],
     probe_targets = [], provider_geo = [], snapshot_seq = 1, prefix_seq = 4, target_seq = 0\<rparr>"

definition demo_candidate :: "nat \<Rightarrow> nat \<Rightarrow> nat \<Rightarrow> string \<Rightarrow> candidate" where
  "demo_candidate i n b country = \<lparr>ca_provider = ''p1'', ca_prefix_id = i, ca_address = V4 (n + 1), ca_prefix = \<lparr>Addr = V4 n, Bits = b\<rparr>,
     ca_peer_count = 3, ca_country = country, ca_city = None\<rparr>"

lemma demo_keyed: "keyed demo_snapshot"
  by (simp add: keyed_def demo_snapshot_def demo_prefix_def)

lemma demo_parse:
  "ParsePrefix ''1.2.0.0/16'' = Some \<lparr>Addr = V4 16908288, Bits = 16\<rparr>" "ParsePrefix ''1.2.0.0/24'' = Some \<lparr>Addr = V4 16908288, Bits = 24\<rparr>"
  "ParsePrefix ''1.3.0.0/17'' = Some \<lparr>Addr = V4 16973824, Bits = 17\<rparr>" "ParsePrefix ''1.9.0.0/24'' = Some \<lparr>Addr = V4 17367040, Bits = 24\<rparr>"
  by (simp_all add: parse_eval Let_def)

lemma demo_candidates: "target_candidates 0 demo_snapshot =
  [demo_candidate 0 16908288 16 ''DE'', demo_candidate 1 16908288 24 ''DE'', demo_candidate 2 16973824 17 ''DE'', demo_candidate 3 17367040 24 ''FR'']"
  by (simp add: target_candidates_def demo_snapshot_def demo_prefix_def demo_candidate_def demo_parse candidate_of_def first_usable_def
      Masked_def block_def flag_int_def flag_bool_def or_unknown_def)

lemma demo_deduped: "deduped (target_candidates 0 demo_snapshot) =
  [demo_candidate 0 16908288 16 ''DE'', demo_candidate 2 16973824 17 ''DE'', demo_candidate 3 17367040 24 ''FR'']"
  by (simp add: demo_candidates deduped_def demo_candidate_def dedup_key_def)

theorem target_budget_witness:
  "int (length (filter (\<lambda>c. fam c = (''p1'', False)) (chosen 2 0 0 demo_snapshot))) \<le> 2 \<and>
   distinct (map ca_address (chosen 2 0 0 demo_snapshot))"
  using target_budget [OF demo_keyed, of "''p1''" False 2 0 0] by simp


end
