(* ===== verification/Mrt.thy ===== *)
theory Mrt
  imports Netip "HOL-Library.AList"
begin

text \<open>
  The reader of routing table dumps (\<^verbatim>\<open>internal/routing/mrtreader/reader.go\<close>): the origins of a path, the
  origins of a prefix over all peers, and the pass over the records of a dump. The splitting of the
  file into records and the decoding of a record (\<^verbatim>\<open>gobgp\<close>), and decompression, are parameters.
\<close>

section \<open>Operations\<close>

datatype as_segment = As4PathParam nat "nat list" | AsPathParam nat "nat list" | OtherSegment

datatype path_attr = AsPathAttr "as_segment list" | OtherAttr

text \<open>\<^verbatim>\<open>BGP_ASPATH_ATTR_TYPE_SET\<close>\<close>

definition as_set :: nat where
  "as_set = 1"

definition segment_origins :: "as_segment \<Rightarrow> nat list" where
  "segment_origins seg =
     (case seg of
        As4PathParam t ns \<Rightarrow> if ns = [] then [] else if t = as_set then ns else [last ns]
      | AsPathParam t ns \<Rightarrow> if ns = [] then [] else if t = as_set then ns else [last ns]
      | OtherSegment \<Rightarrow> [])"

text \<open>Only the first AS path attribute counts.\<close>

fun originsOf :: "path_attr list \<Rightarrow> nat list" where
  "originsOf [] = []"
| "originsOf (OtherAttr # rest) = originsOf rest"
| "originsOf (AsPathAttr segs # rest) = (if segs = [] then [] else segment_origins (last segs))"

record Record =
  rc_prefix :: prefix
  rc_origins :: "nat list"
  rc_peer_counts :: "(nat \<times> nat) list"

record Stats =
  ss_records :: nat
  ss_matched :: nat
  ss_skipped :: nat
  ss_first_timestamp :: nat

record mrt_header =
  mh_timestamp :: nat
  mh_type :: nat
  mh_subtype :: nat

record rib =
  rib_prefix :: string
  rib_entries :: "path_attr list list"

datatype mrt_body = RibBody rib | OtherBody

text \<open>
  What is read from outside: the bytes of the file (\<^const>\<open>None\<close> when it cannot be opened), the
  decompressor, the scanner with whether it ended without an error, the two decoders.
\<close>

record mrt_lib =
  ml_file :: "bytes option"
  ml_gunzip :: "bytes \<Rightarrow> bytes option"
  ml_scan :: "bytes \<Rightarrow> bytes list \<times> bool"
  ml_header :: "bytes \<Rightarrow> mrt_header option"
  ml_body :: "mrt_header \<Rightarrow> bytes \<Rightarrow> mrt_body option"

definition header_len :: nat where
  "header_len = 12"

definition TABLE_DUMPv2 :: nat where
  "TABLE_DUMPv2 = 13"

definition rib_subtypes :: "nat list" where
  "rib_subtypes = [2, 4, 8, 10]"

definition peer_count :: "(nat \<times> nat) list \<Rightarrow> nat \<Rightarrow> nat" where
  "peer_count m n = (case map_of m n of None \<Rightarrow> 0 | Some k \<Rightarrow> k)"

definition add_origin :: "nat \<Rightarrow> nat list \<times> (nat \<times> nat) list \<Rightarrow> nat list \<times> (nat \<times> nat) list" where
  "add_origin n st = (case st of (os, pc) \<Rightarrow>
     (if n \<in> set os then os else os @ [n], AList.update n (peer_count pc n + 1) pc))"

definition origins_of_entries :: "path_attr list list \<Rightarrow> nat list \<times> (nat \<times> nat) list" where
  "origins_of_entries es = fold add_origin (concat (map originsOf es)) ([], [])"

definition bump_records :: "Stats \<Rightarrow> Stats" where "bump_records s = s\<lparr>ss_records := ss_records s + 1\<rparr>"
definition bump_matched :: "Stats \<Rightarrow> Stats" where "bump_matched s = s\<lparr>ss_matched := ss_matched s + 1\<rparr>"
definition bump_skipped :: "Stats \<Rightarrow> Stats" where "bump_skipped s = s\<lparr>ss_skipped := ss_skipped s + 1\<rparr>"

definition note_timestamp :: "mrt_header \<Rightarrow> Stats \<Rightarrow> Stats" where
  "note_timestamp h s = (if ss_first_timestamp s = 0 then s\<lparr>ss_first_timestamp := mh_timestamp h\<rparr> else s)"

text \<open>One record of the dump: the new statistics and what is emitted for it.\<close>

definition read_record :: "mrt_lib \<Rightarrow> (nat \<Rightarrow> bool) \<Rightarrow> bytes \<Rightarrow> Stats \<Rightarrow> Stats \<times> Record option" where
  "read_record L monitored buf s =
     (case ml_header L (take header_len buf) of
        None \<Rightarrow> (bump_skipped s, None)
      | Some h \<Rightarrow>
          (let s1 = note_timestamp h s in
           if mh_type h \<noteq> TABLE_DUMPv2 then (bump_skipped s1, None)
           else if mh_subtype h \<notin> set rib_subtypes then (s1, None)
           else case ml_body L h (drop header_len buf) of
             Some (RibBody r) \<Rightarrow>
               (let s2 = bump_records s1; oc = origins_of_entries (rib_entries r) in
                if \<not> list_ex monitored (fst oc) then (s2, None)
                else case ParsePrefix (rib_prefix r) of
                  None \<Rightarrow> (bump_skipped (bump_matched s2), None)
                | Some p \<Rightarrow> (bump_matched s2, Some \<lparr>rc_prefix = Masked p, rc_origins = sort (fst oc), rc_peer_counts = snd oc\<rparr>))
           | _ \<Rightarrow> (bump_skipped s1, None)))"

text \<open>The loop; \<open>emit\<close> returns \<^const>\<open>None\<close> to stop the pass with an error.\<close>

fun stream_loop ::
  "mrt_lib \<Rightarrow> (nat \<Rightarrow> bool) \<Rightarrow> (Record \<Rightarrow> 'a \<Rightarrow> 'a option) \<Rightarrow> bytes list \<Rightarrow> Stats \<Rightarrow> 'a \<Rightarrow> bool \<times> Stats \<times> 'a" where
  "stream_loop L monitored emit [] s acc = (True, s, acc)"
| "stream_loop L monitored emit (buf # bufs) s acc =
     (case read_record L monitored buf s of
        (s1, None) \<Rightarrow> stream_loop L monitored emit bufs s1 acc
      | (s1, Some rec) \<Rightarrow>
          (case emit rec acc of
             None \<Rightarrow> (False, s1, acc)
           | Some acc1 \<Rightarrow> stream_loop L monitored emit bufs s1 acc1))"

definition plain :: "mrt_lib \<Rightarrow> bytes \<Rightarrow> bytes option" where
  "plain L raw = (if map of_char (take 2 raw) = [31, 139 :: nat] then ml_gunzip L raw else Some raw)"

definition no_stats :: Stats where
  "no_stats = \<lparr>ss_records = 0, ss_matched = 0, ss_skipped = 0, ss_first_timestamp = 0\<rparr>"

text \<open>\<^const>\<open>None\<close> when the file cannot be opened or decompressed; the flag is False when the pass failed.\<close>

definition Stream :: "mrt_lib \<Rightarrow> (nat \<Rightarrow> bool) \<Rightarrow> (Record \<Rightarrow> 'a \<Rightarrow> 'a option) \<Rightarrow> 'a \<Rightarrow> (bool \<times> Stats \<times> 'a) option" where
  "Stream L monitored emit acc =
     (case Option.bind (ml_file L) (plain L) of
        None \<Rightarrow> None
      | Some body \<Rightarrow>
          (case ml_scan L body of
             (bufs, scan_ok) \<Rightarrow>
               (case stream_loop L monitored emit bufs no_stats acc of
                  (ok, s, acc') \<Rightarrow> Some (ok \<and> scan_ok, s, acc'))))"

section \<open>Origins\<close>

lemma add_origins:
  "fold add_origin ns (os, pc) = (os', pc') \<Longrightarrow> distinct os \<Longrightarrow>
   distinct os' \<and> set os' = set os \<union> set ns \<and> (\<forall>n. peer_count pc' n = peer_count pc n + count_list ns n)"
proof (induction ns arbitrary: os pc)
  case (Cons m ns)
  have "fold add_origin ns (if m \<in> set os then os else os @ [m], AList.update m (peer_count pc m + 1) pc) = (os', pc')"
    using Cons.prems(1) by (simp add: add_origin_def [of m])
  from Cons.IH [OF this] Cons.prems(2) show ?case by (auto simp: peer_count_def update_conv')
qed simp

lemma origins_of_entries:
  assumes "origins_of_entries es = (os, pc)"
  shows "distinct os" "set os = set (concat (map originsOf es))" "peer_count pc n = count_list (concat (map originsOf es)) n"
  using add_origins [of _ "[]" "[]", OF assms [unfolded origins_of_entries_def]] by (simp_all add: peer_count_def)

text \<open>
  What a record of the dump says: a monitored origin of the prefix, the origins over all peers in
  ascending order without repetition, for each the number of entries that name it.
\<close>

definition record_of :: "(nat \<Rightarrow> bool) \<Rightarrow> rib \<Rightarrow> Record \<Rightarrow> bool" where
  "record_of monitored r rec \<longleftrightarrow>
     (\<exists>p. ParsePrefix (rib_prefix r) = Some p \<and> rc_prefix rec = Masked p) \<and>
     sorted (rc_origins rec) \<and> distinct (rc_origins rec) \<and>
     set (rc_origins rec) = set (concat (map originsOf (rib_entries r))) \<and> (\<exists>n \<in> set (rc_origins rec). monitored n) \<and>
     (\<forall>n. peer_count (rc_peer_counts rec) n = count_list (concat (map originsOf (rib_entries r))) n)"

lemma read_record_emits:
  assumes "read_record L monitored buf s = (s', Some rec)"
  shows "\<exists>h r. ml_header L (take header_len buf) = Some h \<and> ml_body L h (drop header_len buf) = Some (RibBody r) \<and> record_of monitored r rec"
proof -
  obtain h r p where h: "ml_header L (take header_len buf) = Some h" "ml_body L h (drop header_len buf) = Some (RibBody r)"
    "list_ex monitored (fst (origins_of_entries (rib_entries r)))" "ParsePrefix (rib_prefix r) = Some p"
    "rec = \<lparr>rc_prefix = Masked p, rc_origins = sort (fst (origins_of_entries (rib_entries r))),
       rc_peer_counts = snd (origins_of_entries (rib_entries r))\<rparr>"
    using assms by (auto simp: read_record_def Let_def split: option.split_asm if_split_asm mrt_body.split_asm)
  obtain os pc where o: "origins_of_entries (rib_entries r) = (os, pc)" by (cases "origins_of_entries (rib_entries r)")
  show ?thesis
    using h o origins_of_entries [OF o] by (auto simp: record_of_def list_ex_iff simp del: set_concat)
qed

lemma record_of_ok: "record_of monitored r rec \<Longrightarrow> prefix_ok (rc_prefix rec) \<and> Masked (rc_prefix rec) = rc_prefix rec"
  using prefix_ok_Masked ParsePrefix_ok Masked_idem by (auto simp: record_of_def)

text \<open>Every record of the dump is counted as skipped, as unmatched, as matched, or is of a kind that is passed over.\<close>

lemma read_record_stats:
  assumes "read_record L monitored buf s = (s', e)"
  shows "ss_records s \<le> ss_records s' \<and> ss_records s' \<le> ss_records s + 1 \<and> ss_matched s \<le> ss_matched s' \<and>
    ss_matched s' - ss_matched s \<le> ss_records s' - ss_records s \<and> (e \<noteq> None \<longrightarrow> ss_matched s' = ss_matched s + 1 \<and> ss_skipped s' = ss_skipped s)"
  using assms by (auto simp: read_record_def Let_def bump_records_def bump_matched_def bump_skipped_def note_timestamp_def
      split: option.split_asm if_split_asm mrt_body.split_asm)

text \<open>A property of the accumulator that every emitted record keeps holds after the pass.\<close>

lemma stream_loop_inv:
  assumes "stream_loop L monitored emit bufs s acc = (ok, s', acc')" "P acc"
    and "\<And>r rec a a'. record_of monitored r rec \<Longrightarrow> P a \<Longrightarrow> emit rec a = Some a' \<Longrightarrow> P a'"
  shows "P acc'"
  using assms(1,2)
proof (induction bufs arbitrary: s acc)
  case (Cons buf bufs)
  obtain s1 e where e: "read_record L monitored buf s = (s1, e)" by (cases "read_record L monitored buf s")
  show ?case
  proof (cases e)
    case None
    then show ?thesis using Cons e by simp
  next
    case (Some rec)
    then show ?thesis
      using Cons e assms(3) read_record_emits [of L monitored buf s s1 rec] by (auto split: option.split_asm)
  qed
qed simp

section \<open>The records of a dump\<close>

definition dump_record :: "mrt_lib \<Rightarrow> (nat \<Rightarrow> bool) \<Rightarrow> bytes \<Rightarrow> Record option" where
  "dump_record L monitored buf = snd (read_record L monitored buf no_stats)"

definition dump_records :: "mrt_lib \<Rightarrow> (nat \<Rightarrow> bool) \<Rightarrow> Record list" where
  "dump_records L monitored =
     (case Option.bind (ml_file L) (plain L) of
        None \<Rightarrow> []
      | Some body \<Rightarrow> List.map_filter (dump_record L monitored) (fst (ml_scan L body)))"

lemma read_record_snd: "snd (read_record L monitored buf s) = dump_record L monitored buf"
  by (simp add: dump_record_def read_record_def Let_def split: option.split mrt_body.split)

lemma stream_loop_total:
  "\<exists>s'. stream_loop L monitored (\<lambda>rec acc. Some (f rec acc)) bufs s acc =
     (True, s', fold f (List.map_filter (dump_record L monitored) bufs) acc)"
proof (induction bufs arbitrary: s acc)
  case (Cons buf bufs)
  obtain s1 e where e: "read_record L monitored buf s = (s1, e)" by (cases "read_record L monitored buf s")
  then have "dump_record L monitored buf = e" using read_record_snd [of L monitored buf s] by simp
  then show ?case using Cons e by (cases e) (simp_all add: map_filter_simps)
qed (simp add: map_filter_simps)

text \<open>With a callback that never fails, a pass that succeeds has folded the callback over the records of the dump.\<close>

lemma Stream_total:
  assumes "Mrt.Stream L monitored (\<lambda>rec acc. Some (f rec acc)) acc = Some (True, s, acc')"
  shows "acc' = fold f (dump_records L monitored) acc"
proof -
  obtain body bufs where b: "Option.bind (ml_file L) (plain L) = Some body" "ml_scan L body = (bufs, True)"
    "stream_loop L monitored (\<lambda>rec acc. Some (f rec acc)) bufs no_stats acc = (True, s, acc')"
    using assms by (auto simp: Mrt.Stream_def split: option.split_asm prod.split_asm)
  then show ?thesis using stream_loop_total [of L monitored f bufs no_stats acc] by (simp add: dump_records_def)
qed

lemma dump_records_sound:
  assumes "rec \<in> set (dump_records L monitored)"
  shows "\<exists>buf h r. ml_header L (take header_len buf) = Some h \<and> ml_body L h (drop header_len buf) = Some (RibBody r) \<and> record_of monitored r rec"
proof -
  obtain buf where "dump_record L monitored buf = Some rec"
    using assms by (auto simp: dump_records_def map_filter_def split: option.split_asm)
  then have "read_record L monitored buf no_stats = (fst (read_record L monitored buf no_stats), Some rec)"
    by (simp add: dump_record_def prod_eq_iff)
  from read_record_emits [OF this] show ?thesis by blast
qed

text \<open>
  C19. Whatever bytes a dump holds and whatever the decoders make of them, every record that is handed on is well formed:
  the prefix is a masked address of its family with a length in range, the origins are ascending without repetition, at
  least one is monitored, and the peer counts are positive exactly on the origins.
\<close>

theorem stream_records_typed:
  assumes "Mrt.Stream L monitored (\<lambda>rec acc. Some (acc @ [rec])) [] = Some (ok, s, recs)" and "rec \<in> set recs"
  shows "prefix_ok (rc_prefix rec) \<and> Masked (rc_prefix rec) = rc_prefix rec \<and> sorted (rc_origins rec) \<and> distinct (rc_origins rec) \<and>
    (\<exists>n \<in> set (rc_origins rec). monitored n) \<and> (\<forall>n. n \<in> set (rc_origins rec) \<longleftrightarrow> peer_count (rc_peer_counts rec) n > 0)"
proof -
  obtain bufs ok' where loop: "stream_loop L monitored (\<lambda>rec acc. Some (acc @ [rec])) bufs no_stats [] = (ok', s, recs)"
    using assms(1) by (auto simp: Mrt.Stream_def split: option.split_asm prod.split_asm)
  have "\<forall>rec \<in> set recs. \<exists>r. record_of monitored r rec"
    by (rule stream_loop_inv [where P = "\<lambda>acc. \<forall>rec \<in> set acc. \<exists>r. record_of monitored r rec", OF loop]) auto
  then obtain r where r: "record_of monitored r rec" using assms(2) by blast
  have "n \<in> set (rc_origins rec) \<longleftrightarrow> peer_count (rc_peer_counts rec) n > 0" for n
    using r count_list_0_iff [of "concat (map originsOf (rib_entries r))" n] unfolding record_of_def by (metis gr0I not_gr_zero)
  moreover have "sorted (rc_origins rec)" "distinct (rc_origins rec)" "\<exists>n \<in> set (rc_origins rec). monitored n"
    using r unfolding record_of_def by blast+
  ultimately show ?thesis using record_of_ok [OF r] by blast
qed

definition demo_rib_lib :: mrt_lib where
  "demo_rib_lib = \<lparr>ml_file = Some ''d'', ml_gunzip = (\<lambda>_. None), ml_scan = (\<lambda>_. ([''r''], True)),
     ml_header = (\<lambda>_. Some \<lparr>mh_timestamp = 1, mh_type = 13, mh_subtype = 2\<rparr>),
     ml_body = (\<lambda>_ _. Some (RibBody \<lparr>rib_prefix = ''1.2.3.0/16'', rib_entries = [[AsPathAttr [As4PathParam 2 [7, 9]]], [AsPathAttr [As4PathParam 2 [9]]]]\<rparr>))\<rparr>"

theorem stream_records_typed_witness:
  "\<exists>ok s recs rec. Mrt.Stream demo_rib_lib (\<lambda>n. n = 9) (\<lambda>rec acc. Some (acc @ [rec])) [] = Some (ok, s, recs) \<and> rec \<in> set recs \<and>
     prefix_ok (rc_prefix rec) \<and> rc_origins rec = [9]"
proof -
  let ?rec = "\<lparr>rc_prefix = Masked \<lparr>Addr = V4 16909056, Bits = 16\<rparr>, rc_origins = [9], rc_peer_counts = [(9, 2)]\<rparr>"
  have "ParsePrefix ''1.2.3.0/16'' = Some \<lparr>Addr = V4 16909056, Bits = 16\<rparr>" by (simp add: parse_eval)
  then have "Mrt.Stream demo_rib_lib (\<lambda>n. n = 9) (\<lambda>rec acc. Some (acc @ [rec])) [] =
      Some (True, \<lparr>ss_records = 1, ss_matched = 1, ss_skipped = 0, ss_first_timestamp = 1\<rparr>, [?rec])"
    by (simp add: Mrt.Stream_def demo_rib_lib_def plain_def read_record_def TABLE_DUMPv2_def rib_subtypes_def origins_of_entries_def segment_origins_def
        add_origin_def as_set_def peer_count_def bump_records_def bump_matched_def note_timestamp_def no_stats_def Let_def)
  from this stream_records_typed [OF this, of ?rec] show ?thesis by auto
qed

end
