(* ===== verification/Statistics.thy ===== *)
theory Statistics
  imports Prelude
begin

text \<open>
  The SQL aggregates the scoring and consensus statements use: averages, counts of distinct values,
  grouping, and \<^verbatim>\<open>percentile_cont\<close>. Double precision is modelled by rational numbers.
\<close>

definition avg :: "rat list \<Rightarrow> rat" where
  "avg xs = sum_list xs / of_nat (length xs)"

definition avg_opt :: "rat list \<Rightarrow> rat option" where
  "avg_opt xs = (if xs = [] then None else Some (avg xs))"

definition indicator :: "bool \<Rightarrow> rat" where
  "indicator b = (if b then 1 else 0)"

definition clamp01 :: "rat \<Rightarrow> rat" where
  "clamp01 x = max 0 (min 1 x)"

text \<open>\<^verbatim>\<open>group by\<close>: the distinct keys with the rows of each.\<close>

definition group_by :: "('r \<Rightarrow> 'k) \<Rightarrow> 'r list \<Rightarrow> ('k \<times> 'r list) list" where
  "group_by key rs = map (\<lambda>k. (k, filter (\<lambda>r. key r = k) rs)) (remdups (map key rs))"

definition count_distinct :: "'a list \<Rightarrow> nat" where
  "count_distinct xs = card (set xs)"

text \<open>\<^verbatim>\<open>percentile_cont\<close>: linear interpolation between the two closest ranks of the sorted values.\<close>

definition percentile_cont :: "rat \<Rightarrow> rat list \<Rightarrow> rat option" where
  "percentile_cont p xs =
     (if xs = [] then None
      else
        (let s = sort xs;
             pos = p * of_nat (length xs - 1);
             lo = nat \<lfloor>pos\<rfloor>;
             hi = min (length xs - 1) (lo + 1);
             frac = pos - of_nat lo in
         Some (s ! lo + frac * (s ! hi - s ! lo))))"

text \<open>\<^verbatim>\<open>round(x::numeric, 3)\<close>: to three decimals, halves away from zero.\<close>

definition round3 :: "rat \<Rightarrow> rat" where
  "round3 x = (if x \<ge> 0 then of_int \<lfloor>x * 1000 + 1 / 2\<rfloor> / 1000 else - (of_int \<lfloor>- x * 1000 + 1 / 2\<rfloor> / 1000))"

text \<open>\<^verbatim>\<open>insert ... on conflict (key) do nothing\<close>, row by row.\<close>

definition insert_if_new :: "('r \<Rightarrow> 'k) \<Rightarrow> 'r \<Rightarrow> 'r list \<Rightarrow> 'r list" where
  "insert_if_new key r rows = (if key r \<in> key ` set rows then rows else rows @ [r])"

definition insert_all_new :: "('r \<Rightarrow> 'k) \<Rightarrow> 'r list \<Rightarrow> 'r list \<Rightarrow> 'r list" where
  "insert_all_new key new rows = fold (insert_if_new key) new rows"

lemma insert_all_new_simps [simp]:
  "insert_all_new key [] rows = rows"
  "insert_all_new key (r # new) rows = insert_all_new key new (insert_if_new key r rows)"
  by (simp_all add: insert_all_new_def)

lemma insert_all_new_keys: "key ` set (insert_all_new key new rows) = key ` set rows \<union> key ` set new"
  by (induction new arbitrary: rows) (auto simp: insert_if_new_def)

lemma insert_if_new_set: "set rows \<subseteq> set (insert_if_new key r rows)" "set (insert_if_new key r rows) \<subseteq> insert r (set rows)"
  by (auto simp: insert_if_new_def)

lemma insert_all_new_old: "set rows \<subseteq> set (insert_all_new key new rows)"
proof (induction new arbitrary: rows)
  case (Cons r new)
  show ?case using order_trans [OF insert_if_new_set(1) Cons] by simp
qed simp

lemma insert_all_new_mem: "set (insert_all_new key new rows) \<subseteq> set rows \<union> set new"
proof (induction new arbitrary: rows)
  case (Cons r new)
  show ?case using Cons [of "insert_if_new key r rows"] insert_if_new_set(2) [of key r rows] by auto
qed simp

lemma insert_all_new_known: "key ` set new \<subseteq> key ` set rows \<Longrightarrow> insert_all_new key new rows = rows"
  by (induction new arbitrary: rows) (auto simp: insert_if_new_def)

lemma insert_all_new_twice: "insert_all_new key new (insert_all_new key new rows) = insert_all_new key new rows"
  by (rule insert_all_new_known) (simp add: insert_all_new_keys)

lemma clamp01_range: "0 \<le> clamp01 x \<and> clamp01 x \<le> 1"
  by (simp add: clamp01_def)

lemma clamp01_le: "0 \<le> y \<Longrightarrow> x \<le> y \<Longrightarrow> clamp01 x \<le> y"
  by (simp add: clamp01_def min.coboundedI2)

lemma sum_list_le_length: "(\<And>x. x \<in> set xs \<Longrightarrow> x \<le> (c :: rat)) \<Longrightarrow> sum_list xs \<le> of_nat (length xs) * c"
  by (induction xs) (auto simp: distrib_right add_mono)

lemma sum_list_ge_length: "(\<And>x. x \<in> set xs \<Longrightarrow> (c :: rat) \<le> x) \<Longrightarrow> of_nat (length xs) * c \<le> sum_list xs"
  by (induction xs) (auto simp: distrib_right add_mono)

lemma avg_le: "xs \<noteq> [] \<Longrightarrow> (\<And>x. x \<in> set xs \<Longrightarrow> x \<le> c) \<Longrightarrow> avg xs \<le> c"
  using sum_list_le_length [of xs c] by (simp add: avg_def divide_le_eq mult.commute)

lemma avg_ge: "xs \<noteq> [] \<Longrightarrow> (\<And>x. x \<in> set xs \<Longrightarrow> c \<le> x) \<Longrightarrow> c \<le> avg xs"
  using sum_list_ge_length [of xs c] by (simp add: avg_def le_divide_eq mult.commute)

lemma avg_range:
  "xs \<noteq> [] \<Longrightarrow> (\<And>x. x \<in> set xs \<Longrightarrow> 0 \<le> x \<and> x \<le> 1) \<Longrightarrow> 0 \<le> avg xs \<and> avg xs \<le> 1"
  by (simp add: avg_le avg_ge)

lemma indicator_range [simp]: "0 \<le> indicator b" "indicator b \<le> 1"
  by (simp_all add: indicator_def)

lemma group_by_mem:
  "(k, rs') \<in> set (group_by key rs) \<longleftrightarrow> k \<in> key ` set rs \<and> rs' = filter (\<lambda>r. key r = k) rs"
  by (auto simp: group_by_def)

lemma group_by_nonempty: "(k, rs') \<in> set (group_by key rs) \<Longrightarrow> rs' \<noteq> []"
  by (auto simp: group_by_mem filter_empty_conv)

lemma group_by_keys [simp]: "map fst (group_by key rs) = remdups (map key rs)"
  by (simp add: group_by_def comp_def)

lemma count_distinct_le: "count_distinct xs \<le> length xs"
  by (simp add: count_distinct_def card_length)

text \<open>A percentile lies between the extremes of the values.\<close>

lemma interpolate_between:
  assumes "(a :: rat) \<le> b" and "0 \<le> f" and "f \<le> 1"
  shows "a \<le> a + f * (b - a) \<and> a + f * (b - a) \<le> b"
proof -
  have "0 \<le> f * (b - a)" using assms by simp
  moreover have "f * (b - a) \<le> 1 * (b - a)" using assms by (intro mult_right_mono) auto
  ultimately show ?thesis by simp
qed

lemma percentile_between:
  assumes "percentile_cont p xs = Some v" and "0 \<le> p" and "p \<le> 1" and "\<And>x. x \<in> set xs \<Longrightarrow> lo \<le> x \<and> x \<le> hi"
  shows "lo \<le> v \<and> v \<le> hi"
proof -
  let ?n = "length xs" and ?s = "sort xs" and ?pos = "p * of_nat (length xs - 1)"
  let ?i = "nat \<lfloor>?pos\<rfloor>" and ?j = "min (length xs - 1) (nat \<lfloor>?pos\<rfloor> + 1)"
  have n: "xs \<noteq> []" and v: "v = ?s ! ?i + (?pos - of_nat ?i) * (?s ! ?j - ?s ! ?i)"
    using assms(1) by (auto simp: percentile_cont_def Let_def split: if_split_asm)
  have pos: "0 \<le> ?pos" "?pos \<le> of_nat (?n - 1)" using assms(2,3) by (simp_all add: mult_left_le_one_le)
  then have "?i \<le> ?n - 1" by (metis floor_mono floor_of_nat nat_le_iff)
  moreover have "0 < ?n" using n by simp
  ultimately have i: "?i < ?n" "?j < ?n" "?i \<le> ?j" by linarith+
  have f: "0 \<le> ?pos - of_nat ?i" "?pos - of_nat ?i \<le> 1" using pos(1) by (simp_all add: of_nat_nat) linarith+
  have "?s ! ?i \<le> ?s ! ?j" using i by (intro sorted_nth_mono) auto
  then have "?s ! ?i \<le> v \<and> v \<le> ?s ! ?j" using interpolate_between f v by blast
  moreover have "?s ! ?i \<in> set xs" "?s ! ?j \<in> set xs"
    using nth_mem [of ?i ?s] nth_mem [of ?j ?s] i by simp_all
  ultimately show ?thesis using assms(4) order_trans by blast
qed

end
