(* ===== verification/Consensus.thy ===== *)
theory Consensus
  imports Schema Statistics
begin

text \<open>
  The consensus engine (\<^verbatim>\<open>internal/aggregate/aggregate.go\<close>, \<^verbatim>\<open>ComputeWindow\<close>): trust-weighted votes per
  target, the rollup per provider globally and per country, verdict and confidence, and the
  agreement of every worker with the result. One definition per common table expression of the two
  statements.
\<close>

section \<open>Configuration\<close>

record agg_config =
  ac_window_seconds :: int
  ac_min_workers :: int
  ac_healthy :: rat
  ac_degraded :: rat
  ac_latency :: rat
  ac_target_window :: int
  ac_raw_retention :: int
  ac_window_retention :: int

definition default_pos :: "'a :: {zero, linorder} \<Rightarrow> 'a \<Rightarrow> 'a" where
  "default_pos x d = (if x \<le> 0 then d else x)"

definition agg_withDefaults :: "agg_config \<Rightarrow> agg_config" where
  "agg_withDefaults c =
     \<lparr>ac_window_seconds = default_pos (ac_window_seconds c) 300,
      ac_min_workers = default_pos (ac_min_workers c) 3,
      ac_healthy = default_pos (ac_healthy c) (9 / 10),
      ac_degraded = default_pos (ac_degraded c) (5 / 10),
      ac_latency = default_pos (ac_latency c) 2,
      ac_target_window = default_pos (ac_target_window c) (24 * hour),
      ac_raw_retention = default_pos (ac_raw_retention c) (14 * 24 * hour),
      ac_window_retention = default_pos (ac_window_retention c) (90 * 24 * hour)\<rparr>"

section \<open>The consensus statement\<close>

definition region_name :: "string option \<Rightarrow> string" where
  "region_name c = (case c of None \<Rightarrow> ''ZZ'' | Some x \<Rightarrow> if x = [] then ''ZZ'' else x)"

definition tgeo :: "routing_schema \<Rightarrow> (string \<times> string \<times> string) list" where
  "tgeo R = [(tg_provider_id t, tg_address t, region_name (tg_geo_country t)).
     t \<leftarrow> probe_targets R, s \<leftarrow> filter (\<lambda>s. sn_id s = tg_snapshot_id t \<and> sn_status s = ''published'') (snapshots R)]"

record window_obs =
  q_provider :: string
  q_region :: string
  q_target :: string
  q_worker :: string
  q_ok :: bool
  q_rtt :: "rat option"

definition in_window :: "time \<Rightarrow> time \<Rightarrow> observation_row \<Rightarrow> bool" where
  "in_window start stop r \<longleftrightarrow> start \<le> o_measured_at r \<and> o_measured_at r < stop"

definition regions_of :: "(string \<times> string \<times> string) list \<Rightarrow> string \<Rightarrow> string \<Rightarrow> string list" where
  "regions_of geo p t =
     (let gs = map (\<lambda>(_, _, g). g) (filter (\<lambda>(p', t', _). p' = p \<and> t' = t) geo) in if gs = [] then [''ZZ''] else gs)"

definition obs_cte :: "time \<Rightarrow> time \<Rightarrow> db \<Rightarrow> window_obs list" where
  "obs_cte start stop D =
     [\<lparr>q_provider = o_provider_id r, q_region = g, q_target = o_target r, q_worker = o_worker_id r, q_ok = o_ok r,
       q_rtt = o_rtt_ms r\<rparr>.
      r \<leftarrow> filter (in_window start stop) (observations (measurements_of D)),
      w \<leftarrow> filter (\<lambda>w. w_id w = o_worker_id r \<and> w_state w = ''active'') (workers (registry_of D)),
      g \<leftarrow> regions_of (tgeo (routing_of D)) (o_provider_id r) (o_target r)]"

definition responsive :: "time \<Rightarrow> time \<Rightarrow> db \<Rightarrow> string \<Rightarrow> string \<Rightarrow> bool" where
  "responsive start stop D p t \<longleftrightarrow>
     (\<exists>r \<in> set (observations (measurements_of D)). o_provider_id r = p \<and> o_target r = t \<and>
        in_window (start - 24 * hour) stop r \<and> o_ok r)"

record vote =
  v_provider :: string
  v_region :: string
  v_target :: string
  v_worker :: string
  v_ok_ratio :: rat
  v_weight :: rat

definition vote_weight :: "score_row list \<Rightarrow> string \<Rightarrow> rat" where
  "vote_weight scores wid =
     (case lookup_by s_worker_id wid scores of None \<Rightarrow> 1 / 10 | Some s \<Rightarrow> max (s_score s) (1 / 10))"

definition ok_ratio :: "bool list \<Rightarrow> rat" where
  "ok_ratio oks = avg (map indicator oks)"

definition weighted :: "score_row list \<Rightarrow> window_obs list \<Rightarrow> vote list" where
  "weighted scores qs =
     map (\<lambda>((p, g, t, w), rs). \<lparr>v_provider = p, v_region = g, v_target = t, v_worker = w,
            v_ok_ratio = ok_ratio (map q_ok rs), v_weight = vote_weight scores w\<rparr>)
       (group_by (\<lambda>q. (q_provider q, q_region q, q_target q, q_worker q)) qs)"

record tally =
  tt_provider :: string
  tt_region :: string
  tt_target :: string
  tt_up_weight :: rat
  tt_workers :: nat

text \<open>
  The share of the voting weight that saw the target reachable. The SQL value is null when nobody
  did, which every use treats like zero; the total is never zero because a weight is at least a tenth.
\<close>

definition up_share :: "(rat \<times> rat) list \<Rightarrow> rat" where
  "up_share rw = sum_list (map snd (filter (\<lambda>(r, w). r \<ge> 1 / 2) rw)) / sum_list (map snd rw)"

definition per_target :: "(string \<Rightarrow> string \<Rightarrow> bool) \<Rightarrow> vote list \<Rightarrow> tally list" where
  "per_target resp vs =
     map (\<lambda>((p, g, t), us). \<lparr>tt_provider = p, tt_region = g, tt_target = t,
            tt_up_weight = up_share (map (\<lambda>v. (v_ok_ratio v, v_weight v)) us),
            tt_workers = count_distinct (map v_worker us)\<rparr>)
       (group_by (\<lambda>v. (v_provider v, v_region v, v_target v)) (filter (\<lambda>v. resp (v_provider v) (v_target v)) vs))"

record rollup =
  ru_provider :: string
  ru_region :: string
  ru_measured :: nat
  ru_up :: nat
  ru_workers :: nat
  ru_dissent :: rat

definition dissent :: "rat \<Rightarrow> rat" where
  "dissent u = 2 * min u (1 - u)"

definition roll :: "string \<Rightarrow> string \<Rightarrow> tally list \<Rightarrow> rollup" where
  "roll p g ts = \<lparr>ru_provider = p, ru_region = g, ru_measured = length ts,
     ru_up = count_where (\<lambda>t. tt_up_weight t \<ge> 1 / 2) ts,
     ru_workers = fold max (map tt_workers ts) 0,
     ru_dissent = avg (map (dissent \<circ> tt_up_weight) ts)\<rparr>"

definition provider_rollup :: "tally list \<Rightarrow> rollup list" where
  "provider_rollup ts =
     concat (map (\<lambda>(p, us). roll p ''global'' us # map (\<lambda>(g, us'). roll p g us') (group_by tt_region us))
       (group_by tt_provider ts))"

definition rtt_rows :: "window_obs list \<Rightarrow> string \<Rightarrow> string \<Rightarrow> window_obs list" where
  "rtt_rows qs p g = filter (\<lambda>q. q_provider q = p \<and> (g = ''global'' \<or> q_region q = g) \<and> (q_rtt q \<noteq> None \<or> \<not> q_ok q)) qs"

definition rtts :: "rat option list \<Rightarrow> rat list" where
  "rtts xs = concat (map (\<lambda>x. case x of None \<Rightarrow> [] | Some v \<Rightarrow> [v]) xs)"

definition verdict :: "agg_config \<Rightarrow> int \<Rightarrow> nat \<Rightarrow> nat \<Rightarrow> string" where
  "verdict c ws measured up =
     (if ws < ac_min_workers c \<or> measured = 0 then ''insufficient_data''
      else if of_nat up / of_nat measured \<ge> ac_healthy c then ''healthy''
      else if of_nat up / of_nat measured \<ge> ac_degraded c then ''degraded''
      else ''outage'')"

definition confidence :: "agg_config \<Rightarrow> int \<Rightarrow> rat \<Rightarrow> rat" where
  "confidence c ws d =
     (if ws < ac_min_workers c then 0 else min 1 (of_int ws / of_int (ac_min_workers c * 2)) * (1 - d))"

definition window_of :: "agg_config \<Rightarrow> time \<Rightarrow> window_obs list \<Rightarrow> rollup \<Rightarrow> window_row" where
  "window_of c start qs r =
     (let rs = rtt_rows qs (ru_provider r) (ru_region r); xs = rtts (map q_rtt rs) in
      \<lparr>cw_provider_id = ru_provider r, cw_region = ru_region r, cw_probe_type = ''icmp'', cw_window_start = start,
       cw_window_seconds = ac_window_seconds c,
       cw_verdict = verdict c (int (ru_workers r)) (ru_measured r) (ru_up r),
       cw_confidence = confidence c (int (ru_workers r)) (ru_dissent r),
       cw_worker_count = ru_workers r, cw_dissent_ratio = ru_dissent r,
       cw_loss_rate = avg_opt (map (\<lambda>q. indicator (\<not> q_ok q)) rs),
       cw_rtt_p50 = percentile_cont (1 / 2) xs, cw_rtt_p95 = percentile_cont (95 / 100) xs,
       cw_rtt_p99 = percentile_cont (99 / 100) xs,
       cw_measured_targets = ru_measured r, cw_up_targets = ru_up r\<rparr>)"

definition window_end :: "agg_config \<Rightarrow> time \<Rightarrow> time" where
  "window_end c start = start + ac_window_seconds c * second"

definition target_tallies :: "agg_config \<Rightarrow> time \<Rightarrow> db \<Rightarrow> tally list" where
  "target_tallies c start D =
     (let stop = window_end c start in
      per_target (responsive start stop D) (weighted (trust_scores (registry_of D)) (obs_cte start stop D)))"

definition new_windows :: "agg_config \<Rightarrow> time \<Rightarrow> db \<Rightarrow> window_row list" where
  "new_windows c start D =
     map (window_of c start (obs_cte start (window_end c start) D)) (provider_rollup (target_tallies c start D))"

definition window_key :: "window_row \<Rightarrow> string \<times> string \<times> string \<times> time \<times> int" where
  "window_key w = (cw_provider_id w, cw_region w, cw_probe_type w, cw_window_start w, cw_window_seconds w)"

section \<open>The agreement statement\<close>

record ballot =
  b_provider :: string
  b_target :: string
  b_worker :: string
  b_ok_ratio :: rat

definition agreement_obs :: "time \<Rightarrow> time \<Rightarrow> db \<Rightarrow> observation_row list" where
  "agreement_obs start stop D =
     [r. r \<leftarrow> filter (in_window start stop) (observations (measurements_of D)),
         w \<leftarrow> filter (\<lambda>w. w_id w = o_worker_id r \<and> w_state w \<in> {''active'', ''quarantined''}) (workers (registry_of D))]"

definition ballots :: "observation_row list \<Rightarrow> ballot list" where
  "ballots rs =
     map (\<lambda>((p, t, w), os). \<lparr>b_provider = p, b_target = t, b_worker = w, b_ok_ratio = ok_ratio (map o_ok os)\<rparr>)
       (group_by (\<lambda>r. (o_provider_id r, o_target r, o_worker_id r)) rs)"

definition target_up :: "score_row list \<Rightarrow> ballot list \<Rightarrow> string \<Rightarrow> string \<Rightarrow> bool" where
  "target_up scores bs p t \<longleftrightarrow>
     up_share (map (\<lambda>b. (b_ok_ratio b, vote_weight scores (b_worker b)))
       (filter (\<lambda>b. b_provider b = p \<and> b_target b = t) bs)) \<ge> 1 / 2"

definition new_agreements :: "time \<Rightarrow> time \<Rightarrow> db \<Rightarrow> agreement_row list" where
  "new_agreements start stop D =
     (let bs = ballots (agreement_obs start stop D); scores = trust_scores (registry_of D) in
      map (\<lambda>(w, us). \<lparr>ag_worker_id = w, ag_window_start = start,
             ag_agreement = avg (map (\<lambda>b. 1 - \<bar>b_ok_ratio b - indicator (target_up scores bs (b_provider b) (b_target b))\<bar>) us),
             ag_targets = length us\<rparr>) (group_by b_worker bs))"

definition agreement_key :: "agreement_row \<Rightarrow> string \<times> time" where
  "agreement_key a = (ag_worker_id a, ag_window_start a)"

definition ComputeWindow :: "faults \<Rightarrow> agg_config \<Rightarrow> time \<Rightarrow> db \<Rightarrow> bool \<times> db" where
  "ComputeWindow F cfg start D =
     (let c = agg_withDefaults cfg; A = aggregation_of D in
      if F ''consensus.window'' then (False, D)
      else
        (let A1 = A\<lparr>consensus_windows := insert_all_new window_key (new_windows c start D) (consensus_windows A)\<rparr> in
         if F ''consensus.agreement'' then (False, D\<lparr>aggregation_of := A1\<rparr>)
         else (True, D\<lparr>aggregation_of := A1\<lparr>worker_agreements :=
                insert_all_new agreement_key (new_agreements start (window_end c start) D) (worker_agreements A)\<rparr>\<rparr>)))"

section \<open>Ranges\<close>

lemma filter_weight_le: "(\<And>x. x \<in> set rw \<Longrightarrow> 0 \<le> snd x) \<Longrightarrow>
    0 \<le> sum_list (map snd (filter P rw)) \<and> sum_list (map snd (filter P rw)) \<le> (sum_list (map snd rw) :: rat)"
  by (induction rw) (auto simp: add_mono add_increasing)

lemma up_share_range:
  assumes "\<And>x. x \<in> set rw \<Longrightarrow> 0 \<le> snd x"
  shows "0 \<le> up_share rw \<and> up_share rw \<le> 1"
proof -
  let ?u = "sum_list (map snd (filter (\<lambda>(r, w). r \<ge> 1 / 2) rw))"
  have "0 \<le> ?u \<and> ?u \<le> sum_list (map snd rw)" by (rule filter_weight_le) (rule assms)
  then show ?thesis unfolding up_share_def by (auto simp: divide_le_eq_1)
qed

lemma vote_weight_pos: "0 \<le> vote_weight scores wid"
  by (simp add: vote_weight_def max.coboundedI2 split: option.split)

lemma dissent_range: "0 \<le> u \<Longrightarrow> u \<le> 1 \<Longrightarrow> 0 \<le> dissent u \<and> dissent u \<le> 1"
  by (simp add: dissent_def min_def)

lemma ok_ratio_range: "oks \<noteq> [] \<Longrightarrow> 0 \<le> ok_ratio oks \<and> ok_ratio oks \<le> 1"
  unfolding ok_ratio_def by (rule avg_range) auto

lemma agg_defaults_pos:
  "0 < ac_min_workers (agg_withDefaults c)" "0 < ac_window_seconds (agg_withDefaults c)"
  "0 < ac_target_window (agg_withDefaults c)" "0 < ac_healthy (agg_withDefaults c)"
  by (simp_all add: agg_withDefaults_def default_pos_def)

lemma per_target_range:
  assumes "t \<in> set (per_target resp vs)" and "\<And>v. v \<in> set vs \<Longrightarrow> 0 \<le> v_weight v"
  shows "0 \<le> tt_up_weight t \<and> tt_up_weight t \<le> 1"
proof -
  obtain p g x us where "(((p, g, x), us) :: _ \<times> vote list) \<in> set (group_by (\<lambda>v. (v_provider v, v_region v, v_target v))
      (filter (\<lambda>v. resp (v_provider v) (v_target v)) vs))" and t: "tt_up_weight t = up_share (map (\<lambda>v. (v_ok_ratio v, v_weight v)) us)"
    using assms(1) by (auto simp: per_target_def)
  then have "us = filter (\<lambda>v. (v_provider v, v_region v, v_target v) = (p, g, x)) (filter (\<lambda>v. resp (v_provider v) (v_target v)) vs)"
    by (simp add: group_by_mem)
  then have "set us \<subseteq> set vs" by auto
  then show ?thesis unfolding t by (intro up_share_range) (auto simp: assms(2))
qed

lemma weighted_pos: "v \<in> set (weighted scores qs) \<Longrightarrow> 0 \<le> v_weight v"
  by (auto simp: weighted_def vote_weight_pos)

lemma tally_range: "t \<in> set (target_tallies c start D) \<Longrightarrow> 0 \<le> tt_up_weight t \<and> tt_up_weight t \<le> 1"
  by (auto simp: target_tallies_def Let_def intro!: per_target_range weighted_pos)

text \<open>Every rollup is made from a non-empty list of tallies of its provider.\<close>

lemma provider_rollup_mem:
  assumes "r \<in> set (provider_rollup ts)"
  obtains us where "us \<noteq> []" "set us \<subseteq> set ts" "r = roll (ru_provider r) (ru_region r) us"
    "\<And>u. u \<in> set us \<Longrightarrow> tt_provider u = ru_provider r"
proof -
  obtain p us where g: "(p, us) \<in> set (group_by tt_provider ts)"
    and r: "r = roll p ''global'' us \<or> (\<exists>g us'. (g, us') \<in> set (group_by tt_region us) \<and> r = roll p g us')"
    using assms by (auto simp: provider_rollup_def)
  have us: "us \<noteq> []" "set us \<subseteq> set ts" "\<And>u. u \<in> set us \<Longrightarrow> tt_provider u = p"
    using g group_by_nonempty [OF g] by (auto simp: group_by_mem)
  from r show thesis
  proof
    assume "r = roll p ''global'' us"
    then show thesis using that [of us] us by (simp add: roll_def)
  next
    assume "\<exists>g us'. (g, us') \<in> set (group_by tt_region us) \<and> r = roll p g us'"
    then obtain g us' where g': "(g, us') \<in> set (group_by tt_region us)" "r = roll p g us'" by blast
    then have "us' \<noteq> []" "set us' \<subseteq> set us" using group_by_nonempty [OF g'(1)] by (auto simp: group_by_mem)
    then show thesis using that [of us'] us g'(2) by (auto simp: roll_def)
  qed
qed

lemma count_where_le: "count_where P xs \<le> length xs"
  by (simp add: count_where_def)

lemma roll_range:
  assumes "us \<noteq> []" and "\<And>u. u \<in> set us \<Longrightarrow> 0 \<le> tt_up_weight u \<and> tt_up_weight u \<le> 1"
  shows "0 \<le> ru_dissent (roll p g us) \<and> ru_dissent (roll p g us) \<le> 1" "ru_up (roll p g us) \<le> ru_measured (roll p g us)"
    "0 < ru_measured (roll p g us)"
proof -
  show "0 \<le> ru_dissent (roll p g us) \<and> ru_dissent (roll p g us) \<le> 1"
    unfolding roll_def rollup.simps by (rule avg_range) (use assms dissent_range in auto)
qed (use assms(1) in \<open>simp_all add: roll_def count_where_le\<close>)

lemma confidence_range:
  assumes "0 \<le> d" "d \<le> 1" "0 \<le> ws" "0 < ac_min_workers c"
  shows "0 \<le> confidence c ws d \<and> confidence c ws d \<le> 1"
proof -
  let ?q = "min 1 (of_int ws / of_int (ac_min_workers c * 2)) :: rat"
  have "0 \<le> ?q" "?q \<le> 1" using assms(3,4) by simp_all
  then have "0 \<le> ?q * (1 - d) \<and> ?q * (1 - d) \<le> 1" using assms(1,2) by (simp add: mult_le_one)
  then show ?thesis by (simp add: confidence_def)
qed

lemma ComputeWindow_windows:
  assumes "ComputeWindow F cfg start D = (ok, D')" and "w \<in> set (consensus_windows (aggregation_of D'))"
    and "w \<notin> set (consensus_windows (aggregation_of D))"
  shows "w \<in> set (new_windows (agg_withDefaults cfg) start D)"
  using assms insert_all_new_mem [of window_key "new_windows (agg_withDefaults cfg) start D" "consensus_windows (aggregation_of D)"]
  by (auto simp: ComputeWindow_def Let_def split: if_split_asm)

lemma window_fields:
  "cw_provider_id (window_of c start qs r) = ru_provider r" "cw_region (window_of c start qs r) = ru_region r"
  "cw_verdict (window_of c start qs r) = verdict c (int (ru_workers r)) (ru_measured r) (ru_up r)"
  "cw_confidence (window_of c start qs r) = confidence c (int (ru_workers r)) (ru_dissent r)"
  "cw_worker_count (window_of c start qs r) = ru_workers r" "cw_dissent_ratio (window_of c start qs r) = ru_dissent r"
  "cw_measured_targets (window_of c start qs r) = ru_measured r" "cw_up_targets (window_of c start qs r) = ru_up r"
  by (simp_all add: window_of_def Let_def)

lemma verdict_values: "verdict c ws m u \<in> {''healthy'', ''degraded'', ''outage'', ''insufficient_data''}"
  by (simp add: verdict_def)

lemma verdict_insufficient: "verdict c ws m u = ''insufficient_data'' \<longleftrightarrow> ws < ac_min_workers c \<or> m = 0"
  by (simp add: verdict_def)

lemma low_confidence: "ws < ac_min_workers c \<Longrightarrow> confidence c ws d = 0"
  by (simp add: confidence_def)

lemma loss_range: "avg_opt (map (\<lambda>q. indicator (P q)) rs) = Some x \<Longrightarrow> 0 \<le> x \<and> x \<le> 1"
  by (auto simp: avg_opt_def split: if_split_asm intro!: avg_le avg_ge)

text \<open>
  C33. Every window the engine settles is well formed: one of the four verdicts, confidence, dissent
  and loss rate between 0 and 1, at least one measured target and no more targets up than
  measured; it is \<open>insufficient_data\<close> exactly when fewer than the configured number of workers
  measured, and then its confidence is 0.
\<close>

theorem settled_window_bounds:
  assumes "ComputeWindow F cfg start D = (ok, D')" and "w \<in> set (consensus_windows (aggregation_of D'))"
    and "w \<notin> set (consensus_windows (aggregation_of D))"
  shows "cw_verdict w \<in> {''healthy'', ''degraded'', ''outage'', ''insufficient_data''} \<and>
    0 \<le> cw_confidence w \<and> cw_confidence w \<le> 1 \<and> 0 \<le> cw_dissent_ratio w \<and> cw_dissent_ratio w \<le> 1 \<and>
    0 < cw_measured_targets w \<and> cw_up_targets w \<le> cw_measured_targets w \<and>
    (cw_verdict w = ''insufficient_data'' \<longleftrightarrow> int (cw_worker_count w) < ac_min_workers (agg_withDefaults cfg)) \<and>
    (cw_verdict w = ''insufficient_data'' \<longrightarrow> cw_confidence w = 0) \<and>
    (\<forall>x. cw_loss_rate w = Some x \<longrightarrow> 0 \<le> x \<and> x \<le> 1)"
proof -
  let ?c = "agg_withDefaults cfg"
  obtain qs r where r: "r \<in> set (provider_rollup (target_tallies ?c start D))" and w: "w = window_of ?c start qs r"
    using ComputeWindow_windows [OF assms] by (auto simp: new_windows_def)
  from r obtain us where us: "us \<noteq> []" "set us \<subseteq> set (target_tallies ?c start D)" "r = roll (ru_provider r) (ru_region r) us"
    by (rule provider_rollup_mem)
  have t: "0 \<le> tt_up_weight u \<and> tt_up_weight u \<le> 1" if "u \<in> set us" for u
    using us(2) that by (intro tally_range) auto
  have b: "0 \<le> ru_dissent r \<and> ru_dissent r \<le> 1" "ru_up r \<le> ru_measured r" "0 < ru_measured r"
    using roll_range [OF us(1) t, of "ru_provider r" "ru_region r"] us(3) by simp_all
  have "0 \<le> confidence ?c (int (ru_workers r)) (ru_dissent r) \<and> confidence ?c (int (ru_workers r)) (ru_dissent r) \<le> 1"
    using b(1) agg_defaults_pos by (intro confidence_range) auto
  moreover have "\<forall>x. cw_loss_rate w = Some x \<longrightarrow> 0 \<le> x \<and> x \<le> 1"
    unfolding w window_of_def Let_def window_row.simps by (intro allI impI) (rule loss_range)
  moreover have "(verdict ?c (int (ru_workers r)) (ru_measured r) (ru_up r) = ''insufficient_data'') =
      (int (ru_workers r) < ac_min_workers ?c)" using b(3) by (simp add: verdict_insufficient)
  ultimately show ?thesis
    using b verdict_values [of ?c "int (ru_workers r)" "ru_measured r" "ru_up r"] low_confidence [of "int (ru_workers r)" ?c "ru_dissent r"]
    unfolding w window_fields by blast
qed

section \<open>Verdicts rest on measurements\<close>

lemma fold_max_attained: "0 < fold max (xs :: nat list) a \<Longrightarrow> fold max xs a = a \<or> fold max xs a \<in> set xs"
proof (induction xs arbitrary: a)
  case (Cons x xs)
  then show ?case using Cons.IH [of "max x a"] by (auto simp: max_def split: if_split_asm)
qed simp

text \<open>The workers behind a tally: active ones that measured the target in the window.\<close>

definition measured_by :: "time \<Rightarrow> time \<Rightarrow> db \<Rightarrow> string \<Rightarrow> string \<Rightarrow> string \<Rightarrow> bool" where
  "measured_by start stop D p t wid \<longleftrightarrow>
     (\<exists>r \<in> set (observations (measurements_of D)). o_provider_id r = p \<and> o_target r = t \<and> o_worker_id r = wid \<and>
        in_window start stop r) \<and>
     (\<exists>w \<in> set (workers (registry_of D)). w_id w = wid \<and> w_state w = ''active'')"

lemma obs_cte_mem: "q \<in> set (obs_cte start stop D) \<Longrightarrow> measured_by start stop D (q_provider q) (q_target q) (q_worker q)"
  by (auto simp: obs_cte_def measured_by_def)

lemma weighted_mem: "v \<in> set (weighted scores qs) \<Longrightarrow>
    \<exists>q \<in> set qs. q_provider q = v_provider v \<and> q_target q = v_target v \<and> q_worker q = v_worker v"
  by (force simp: weighted_def group_by_mem)

lemma per_target_mem:
  assumes "t \<in> set (per_target resp vs)"
  obtains us where "set us \<subseteq> set vs" "us \<noteq> []" "tt_workers t = card (v_worker ` set us)"
    "\<And>v. v \<in> set us \<Longrightarrow> v_provider v = tt_provider t \<and> v_target v = tt_target t" "resp (tt_provider t) (tt_target t)"
proof -
  let ?key = "\<lambda>v. (v_provider v, v_region v, v_target v)" and ?vs = "filter (\<lambda>v. resp (v_provider v) (v_target v)) vs"
  obtain k us where g: "(k, us) \<in> set (group_by ?key ?vs)" and k: "k = (tt_provider t, tt_region t, tt_target t)"
    and n: "tt_workers t = card (v_worker ` set us)"
    using assms by (auto simp: per_target_def count_distinct_def)
  have us: "us = filter (\<lambda>v. ?key v = k) ?vs" "us \<noteq> []" using g group_by_nonempty [OF g] by (simp_all add: group_by_mem)
  obtain v where "v \<in> set us" using us(2) by (meson last_in_set)
  then have "resp (tt_provider t) (tt_target t)" using us(1) k by auto
  moreover have "v_provider v = tt_provider t \<and> v_target v = tt_target t" if "v \<in> set us" for v using that us(1) k by auto
  moreover have "set us \<subseteq> set vs" by (subst us(1)) auto
  ultimately show thesis using that [of us] us(2) n by blast
qed

lemma tally_evidence:
  assumes "t \<in> set (target_tallies c start D)"
  shows "\<exists>W. finite W \<and> card W = tt_workers t \<and> (\<forall>wid \<in> W. measured_by start (window_end c start) D (tt_provider t) (tt_target t) wid) \<and>
    responsive start (window_end c start) D (tt_provider t) (tt_target t)"
proof -
  let ?stop = "window_end c start"
  let ?vs = "weighted (trust_scores (registry_of D)) (obs_cte start ?stop D)"
  from assms have "t \<in> set (per_target (responsive start ?stop D) ?vs)" by (simp add: target_tallies_def Let_def)
  then obtain us where us: "set us \<subseteq> set ?vs" "tt_workers t = card (v_worker ` set us)"
    "\<And>v. v \<in> set us \<Longrightarrow> v_provider v = tt_provider t \<and> v_target v = tt_target t" "responsive start ?stop D (tt_provider t) (tt_target t)"
    by (rule per_target_mem) blast
  have "measured_by start ?stop D (tt_provider t) (tt_target t) (v_worker v)" if v: "v \<in> set us" for v
  proof -
    obtain q where "q \<in> set (obs_cte start ?stop D)" "q_provider q = v_provider v" "q_target q = v_target v" "q_worker q = v_worker v"
      using weighted_mem us(1) v by blast
    then show ?thesis using obs_cte_mem us(3) [OF v] by metis
  qed
  then show ?thesis using us(2,4) by (intro exI [of _ "v_worker ` set us"]) auto
qed

text \<open>
  C4. The engine never guesses. A settled verdict other than \<open>insufficient_data\<close> rests on a target of
  the provider that at least the configured number of distinct active workers measured inside the
  window, and that answered some worker in the day before the window's end.
\<close>

theorem verdict_has_evidence:
  assumes "ComputeWindow F cfg start D = (ok, D')" and "w \<in> set (consensus_windows (aggregation_of D'))"
    and "w \<notin> set (consensus_windows (aggregation_of D))" and "cw_verdict w \<noteq> ''insufficient_data''"
  shows "\<exists>t W. finite W \<and> ac_min_workers (agg_withDefaults cfg) \<le> int (card W) \<and>
    (\<forall>wid \<in> W. measured_by start (window_end (agg_withDefaults cfg) start) D (cw_provider_id w) t wid) \<and>
    responsive start (window_end (agg_withDefaults cfg) start) D (cw_provider_id w) t"
proof -
  let ?c = "agg_withDefaults cfg"
  obtain qs r where r: "r \<in> set (provider_rollup (target_tallies ?c start D))" and w: "w = window_of ?c start qs r"
    using ComputeWindow_windows [OF assms(1-3)] by (auto simp: new_windows_def)
  have n: "ac_min_workers ?c \<le> int (ru_workers r)"
    using assms(4) unfolding w window_fields verdict_insufficient by simp
  from r obtain us where us: "set us \<subseteq> set (target_tallies ?c start D)" "r = roll (ru_provider r) (ru_region r) us"
    "\<And>u. u \<in> set us \<Longrightarrow> tt_provider u = ru_provider r" by (rule provider_rollup_mem) blast
  have m: "ru_workers r = fold max (map tt_workers us) 0" by (subst us(2)) (simp add: roll_def)
  have "0 < ru_workers r" using n agg_defaults_pos(1) [of cfg] by linarith
  then have "ru_workers r \<in> set (map tt_workers us)"
    using fold_max_attained [of "map tt_workers us" 0] unfolding m by auto
  then obtain u where u: "u \<in> set us" "tt_workers u = ru_workers r" by auto
  obtain W where "finite W" "card W = tt_workers u"
    "\<forall>wid \<in> W. measured_by start (window_end ?c start) D (tt_provider u) (tt_target u) wid"
    "responsive start (window_end ?c start) D (tt_provider u) (tt_target u)"
    using tally_evidence [OF subsetD [OF us(1) u(1)]] by (elim exE conjE)
  then show ?thesis
    using n u(2) us(3) [OF u(1)] unfolding w window_fields by (intro exI [of _ "tt_target u"] exI [of _ W]) simp
qed

section \<open>Settling twice, agreement\<close>

lemma new_rows_frame:
  "new_windows c start (D\<lparr>aggregation_of := A\<rparr>) = new_windows c start D"
  "new_agreements start stop (D\<lparr>aggregation_of := A\<rparr>) = new_agreements start stop D"
  by (simp_all add: new_windows_def target_tallies_def obs_cte_def responsive_def [abs_def] new_agreements_def agreement_obs_def)

text \<open>
  A window is settled once. When a window has been computed, computing it again over the same
  measurements changes nothing, whatever statements fail the second time.
\<close>

theorem compute_window_idempotent:
  assumes "ComputeWindow F cfg start D = (True, D')"
  shows "snd (ComputeWindow F' cfg start D') = D'"
proof -
  let ?c = "agg_withDefaults cfg"
  let ?A = "aggregation_of D"
  have D': "D' = D\<lparr>aggregation_of := ?A\<lparr>consensus_windows := insert_all_new window_key (new_windows ?c start D) (consensus_windows ?A),
      worker_agreements := insert_all_new agreement_key (new_agreements start (window_end ?c start) D) (worker_agreements ?A)\<rparr>\<rparr>"
    using assms by (simp add: ComputeWindow_def Let_def split: if_split_asm)
  show ?thesis unfolding D' by (simp add: ComputeWindow_def Let_def new_rows_frame insert_all_new_twice)
qed

lemma ballots_range: "b \<in> set (ballots rs) \<Longrightarrow> 0 \<le> b_ok_ratio b \<and> b_ok_ratio b \<le> 1"
  by (auto simp: ballots_def intro!: ok_ratio_range [THEN conjunct1] ok_ratio_range [THEN conjunct2] dest!: group_by_nonempty)

lemma agreement_term: "0 \<le> r \<Longrightarrow> r \<le> 1 \<Longrightarrow> 0 \<le> 1 - \<bar>r - indicator b\<bar> \<and> 1 - \<bar>r - indicator b\<bar> \<le> 1"
  by (simp add: indicator_def)

lemma new_agreements_range: "a \<in> set (new_agreements start stop D) \<Longrightarrow> 0 \<le> ag_agreement a \<and> ag_agreement a \<le> 1"
proof -
  assume "a \<in> set (new_agreements start stop D)"
  then obtain wid us where g: "(wid, us) \<in> set (group_by b_worker (ballots (agreement_obs start stop D)))"
    and a: "ag_agreement a = avg (map (\<lambda>b. 1 - \<bar>b_ok_ratio b - indicator (target_up (trust_scores (registry_of D))
      (ballots (agreement_obs start stop D)) (b_provider b) (b_target b))\<bar>) us)"
    by (auto simp: new_agreements_def Let_def)
  have "us \<noteq> []" "set us \<subseteq> set (ballots (agreement_obs start stop D))"
    using g group_by_nonempty [OF g] by (auto simp: group_by_mem)
  then show ?thesis unfolding a by (intro avg_range) (use ballots_range agreement_term in auto)
qed

lemma ComputeWindow_agreements:
  assumes "\<forall>a \<in> set (worker_agreements (aggregation_of D)). 0 \<le> ag_agreement a \<and> ag_agreement a \<le> 1"
  shows "\<forall>a \<in> set (worker_agreements (aggregation_of (snd (ComputeWindow F cfg start D)))). 0 \<le> ag_agreement a \<and> ag_agreement a \<le> 1"
proof -
  let ?c = "agg_withDefaults cfg"
  have "0 \<le> ag_agreement a \<and> ag_agreement a \<le> 1"
    if "a \<in> set (insert_all_new agreement_key (new_agreements start (window_end ?c start) D) (worker_agreements (aggregation_of D)))" for a
    using that assms insert_all_new_mem [of agreement_key] new_agreements_range by blast
  then show ?thesis using assms by (simp add: ComputeWindow_def Let_def)
qed

section \<open>A settled window\<close>

definition demo_fleet :: "string \<Rightarrow> worker_row" where
  "demo_fleet wid = \<lparr>w_id = wid, w_operator_id = ''o'', w_name = ''n'', w_state = ''active'', w_state_reason = None,
     w_software_version = None, w_source_asn = None, w_enrolled_at = 0, w_approved_at = Some 0,
     w_retired_at = None, w_last_heartbeat_at = None, w_config = []\<rparr>"

definition demo_measured :: "string \<Rightarrow> observation_row" where
  "demo_measured wid = \<lparr>o_worker_id = wid, o_assignment_id = 0, o_provider_id = ''p1'', o_target = ''192.0.2.1'',
     o_probe_type = ''icmp'', o_measured_at = 10, o_ok = True, o_rtt_ms = None, o_packets_sent = 1, o_packets_lost = 0,
     o_metrics = [], o_signature = []\<rparr>"

definition demo_consensus :: db where
  "demo_consensus = \<lparr>
     registry_of = \<lparr>workers = map demo_fleet [''a'', ''b'', ''c''], worker_keys = [], enrollment_tokens = [], trust_scores = [],
       trust_events = [], replay_nonces = [], key_seq = 0, event_seq = 0\<rparr>,
     routing_of = \<lparr>snapshots = [], providers = [], asns = [], prefixes = [], probe_targets = [], provider_geo = [],
       snapshot_seq = 0, prefix_seq = 0, target_seq = 0\<rparr>,
     scheduling_of = \<lparr>assignments = [], leases = [], assignment_seq = 0, lease_seq = 0\<rparr>,
     measurements_of = \<lparr>observations = map demo_measured [''a'', ''b'', ''c''], upload_batches = []\<rparr>,
     aggregation_of = \<lparr>consensus_windows = [], worker_agreements = [], provider_statuses = [], target_statuses = [],
        anomalies = [], publication_outbox = [], outbox_seq = 0\<rparr>,
     audit_of = []\<rparr>"

definition demo_agg :: agg_config where
  "demo_agg = \<lparr>ac_window_seconds = 0, ac_min_workers = 0, ac_healthy = 0, ac_degraded = 0, ac_latency = 0,
     ac_target_window = 0, ac_raw_retention = 0, ac_window_retention = 0\<rparr>"

lemma demo_windows:
  "map (\<lambda>w. (cw_provider_id w, cw_region w, cw_verdict w)) (new_windows (agg_withDefaults demo_agg) 0 demo_consensus) =
     [(''p1'', ''global'', ''healthy''), (''p1'', ''ZZ'', ''healthy'')]"
  by code_simp

lemma demo_settled:
  obtains D' w where "ComputeWindow no_faults demo_agg 0 demo_consensus = (True, D')"
    "w \<in> set (consensus_windows (aggregation_of D'))" "w \<notin> set (consensus_windows (aggregation_of demo_consensus))"
    "cw_provider_id w = ''p1''" "cw_region w = ''global''" "cw_verdict w = ''healthy''"
proof -
  obtain D' where D': "ComputeWindow no_faults demo_agg 0 demo_consensus = (True, D')"
    by (simp add: ComputeWindow_def Let_def)
  obtain w ws where w: "new_windows (agg_withDefaults demo_agg) 0 demo_consensus = w # ws"
    "cw_provider_id w = ''p1''" "cw_region w = ''global''" "cw_verdict w = ''healthy''"
    using demo_windows by auto
  have e: "consensus_windows (aggregation_of demo_consensus) = []" by (simp add: demo_consensus_def)
  have "set (insert_if_new window_key w []) \<subseteq> set (insert_all_new window_key ws (insert_if_new window_key w []))"
    by (rule insert_all_new_old)
  then have "w \<in> set (consensus_windows (aggregation_of D'))"
    using D' by (auto simp: ComputeWindow_def Let_def w(1) e insert_if_new_def)
  then show thesis using that D' w(2-4) e by simp
qed

theorem settled_window_bounds_witness:
  "\<exists>D' w. ComputeWindow no_faults demo_agg 0 demo_consensus = (True, D') \<and>
     w \<in> set (consensus_windows (aggregation_of D')) \<and> 0 \<le> cw_confidence w \<and> cw_confidence w \<le> 1"
proof -
  obtain D' w where d: "ComputeWindow no_faults demo_agg 0 demo_consensus = (True, D')"
    "w \<in> set (consensus_windows (aggregation_of D'))" "w \<notin> set (consensus_windows (aggregation_of demo_consensus))"
    by (rule demo_settled)
  show ?thesis using d settled_window_bounds [OF d] by blast
qed

theorem verdict_has_evidence_witness:
  "\<exists>t W. finite W \<and> 3 \<le> int (card W) \<and>
     (\<forall>wid \<in> W. measured_by 0 (window_end (agg_withDefaults demo_agg) 0) demo_consensus ''p1'' t wid)"
proof -
  obtain D' w where d: "ComputeWindow no_faults demo_agg 0 demo_consensus = (True, D')"
    "w \<in> set (consensus_windows (aggregation_of D'))" "w \<notin> set (consensus_windows (aggregation_of demo_consensus))"
    and w: "cw_provider_id w = ''p1''" "cw_verdict w = ''healthy''"
    by (rule demo_settled)
  have "ac_min_workers (agg_withDefaults demo_agg) = 3" by (simp add: agg_withDefaults_def demo_agg_def default_pos_def)
  then show ?thesis using verdict_has_evidence [OF d] w by auto
qed

theorem compute_window_idempotent_witness:
  "\<exists>D'. ComputeWindow no_faults demo_agg 0 demo_consensus = (True, D') \<and> D' \<noteq> demo_consensus \<and>
     snd (ComputeWindow no_faults demo_agg 0 D') = D'"
proof -
  obtain D' w where d: "ComputeWindow no_faults demo_agg 0 demo_consensus = (True, D')"
    "w \<in> set (consensus_windows (aggregation_of D'))" "w \<notin> set (consensus_windows (aggregation_of demo_consensus))"
    by (rule demo_settled)
  show ?thesis using d compute_window_idempotent [OF d(1)] by blast
qed

end
