(* ===== verification/Status.thy ===== *)
theory Status
  imports Consensus "HOL-Library.Char_ord" "HOL-Library.List_Lexorder" "HOL-Library.Product_Lexorder"
begin

text \<open>
  Public provider status (\<^verbatim>\<open>internal/aggregate/aggregate.go\<close>, \<^verbatim>\<open>document.go\<close>): the newest settled
  windows become provider status, per-target health, anomalies and one status document per
  provider in the publication outbox; retention and the engine's loop. Texts are ordered by their
  bytes, which is what the ordering columns hold (identifiers and country codes).
\<close>

section \<open>Per-target health\<close>

definition newest_published :: "routing_schema \<Rightarrow> snapshot_row option" where
  "newest_published R =
     (let ps = filter (\<lambda>s. sn_status s = ''published'') (snapshots R) in
      case find (\<lambda>s. sn_published_at s = None) ps of
        Some s \<Rightarrow> Some s
      | None \<Rightarrow> (case rev (sort_key (\<lambda>s. the (sn_published_at s)) ps) of [] \<Rightarrow> None | s # _ \<Rightarrow> Some s))"

definition recent_obs :: "time \<Rightarrow> int \<Rightarrow> db \<Rightarrow> observation_row list" where
  "recent_obs now period D =
     [r. r \<leftarrow> filter (\<lambda>r. o_measured_at r \<ge> now - period) (observations (measurements_of D)),
         w \<leftarrow> filter (\<lambda>w. w_id w = o_worker_id r \<and> w_state w = ''active'') (workers (registry_of D))]"

definition target_verdict :: "agg_config \<Rightarrow> nat \<Rightarrow> rat \<Rightarrow> string" where
  "target_verdict c ws avail =
     (if int ws < ac_min_workers c then ''insufficient_data''
      else if avail \<ge> ac_healthy c then ''healthy''
      else if avail \<ge> ac_degraded c then ''degraded''
      else ''outage'')"

definition target_health :: "agg_config \<Rightarrow> time \<Rightarrow> routing_schema \<Rightarrow> string \<Rightarrow> string \<Rightarrow> observation_row list \<Rightarrow> target_row option \<Rightarrow> target_status_row" where
  "target_health c now R p t rs place =
     (let av = avg (map (indicator \<circ> o_ok) rs); xs = rtts (map o_rtt_ms rs); ws = count_distinct (map o_worker_id rs);
          px = Option.bind place (\<lambda>tg. lookup_by px_id (tg_prefix_id tg) (prefixes R)) in
      \<lparr>ts_provider_id = p, ts_target = t,
       ts_region = region_name (Option.bind place tg_geo_country),
       ts_prefix = map_option px_prefix px, ts_origin_asn = map_option px_origin_asn px, ts_city = Option.bind place tg_geo_city,
       ts_verdict = target_verdict c ws av, ts_availability = av, ts_loss_rate = avg (map (indicator \<circ> Not \<circ> o_ok) rs),
       ts_rtt_p50 = percentile_cont (1 / 2) xs, ts_rtt_p95 = percentile_cont (95 / 100) xs,
       ts_worker_count = ws, ts_last_measured_at = Max (o_measured_at ` set rs), ts_updated_at = now\<rparr>)"

definition places :: "routing_schema \<Rightarrow> string \<Rightarrow> string \<Rightarrow> target_row option list" where
  "places R p t =
     (let ts = filter (\<lambda>tg. tg_address tg = t \<and> tg_provider_id tg = p \<and>
                 map_option sn_id (newest_published R) = Some (tg_snapshot_id tg)) (probe_targets R) in
      if ts = [] then [None] else map Some ts)"

definition target_rows :: "agg_config \<Rightarrow> time \<Rightarrow> db \<Rightarrow> target_status_row list" where
  "target_rows c now D =
     [target_health c now (routing_of D) p t rs place.
      ((p, t), rs) \<leftarrow> group_by (\<lambda>r. (o_provider_id r, o_target r)) (recent_obs now (ac_target_window c) D),
      place \<leftarrow> places (routing_of D) p t]"

definition ts_key :: "target_status_row \<Rightarrow> string \<times> string" where
  "ts_key r = (ts_provider_id r, ts_target r)"

definition upsert_by :: "('r \<Rightarrow> 'k) \<Rightarrow> 'r \<Rightarrow> 'r list \<Rightarrow> 'r list" where
  "upsert_by key r rows =
     (if key r \<in> key ` set rows then update_where (\<lambda>x. key x = key r) (\<lambda>_. r) rows else rows @ [r])"

text \<open>An upsert statement that meets one key twice fails.\<close>

definition refreshTargetStatus :: "faults \<Rightarrow> agg_config \<Rightarrow> time \<Rightarrow> db \<Rightarrow> bool \<times> db" where
  "refreshTargetStatus F c now D =
     (let new = target_rows c now D; A = aggregation_of D in
      if F ''target.upsert'' \<or> \<not> distinct (map ts_key new) then (False, D)
      else
        (let A1 = A\<lparr>target_statuses := fold (upsert_by ts_key) new (target_statuses A)\<rparr> in
         if F ''target.expire'' then (False, D\<lparr>aggregation_of := A1\<rparr>)
         else (True, D\<lparr>aggregation_of := A1\<lparr>target_statuses :=
                filter (\<lambda>r. \<not> ts_updated_at r < now - 2 * ac_target_window c) (target_statuses A1)\<rparr>\<rparr>)))"

section \<open>Anomalies\<close>

definition open_anomaly :: "string \<Rightarrow> string \<Rightarrow> anomaly_row \<Rightarrow> bool" where
  "open_anomaly p k a \<longleftrightarrow> an_provider_id a = p \<and> an_kind a = k \<and> an_resolved_at a = None"

definition raise_anomaly :: "bool \<Rightarrow> string \<Rightarrow> string \<Rightarrow> string \<Rightarrow> time \<Rightarrow> (string \<times> json) list \<Rightarrow> anomaly_row list \<Rightarrow> anomaly_row list" where
  "raise_anomaly fault p k severity t0 evidence as =
     (if fault \<or> (\<exists>a \<in> set as. open_anomaly p k a) then as
      else as @ [\<lparr>an_provider_id = p, an_kind = k, an_region = ''global'', an_severity = severity, an_opened_at = t0, an_resolved_at = None,
                  an_evidence = evidence\<rparr>])"

definition resolve_anomaly :: "bool \<Rightarrow> string \<Rightarrow> string \<Rightarrow> time \<Rightarrow> anomaly_row list \<Rightarrow> anomaly_row list" where
  "resolve_anomaly fault p k t0 as =
     (if fault then as else update_where (open_anomaly p k) (\<lambda>a. a\<lparr>an_resolved_at := Some t0\<rparr>) as)"

definition handleTransition :: "faults \<Rightarrow> string \<Rightarrow> string \<Rightarrow> string \<Rightarrow> time \<Rightarrow> anomaly_row list \<Rightarrow> anomaly_row list" where
  "handleTransition F p prev v t0 as =
     (let as1 = (if v = ''outage'' \<or> v = ''degraded'' \<and> prev = ''healthy''
                 then raise_anomaly (F ''anomaly.open'') p ''reachability_loss'' (if v = ''degraded'' then ''warning'' else ''critical'')
                        t0 [(''from'', JStr prev), (''to'', JStr v)] as
                 else as) in
      if v = ''healthy'' then resolve_anomaly (F ''anomaly.resolve'') p ''reachability_loss'' t0 as1 else as1)"

definition latency_baseline :: "string \<Rightarrow> time \<Rightarrow> window_row list \<Rightarrow> rat option" where
  "latency_baseline p t0 ws =
     percentile_cont (1 / 2) (rtts (map cw_rtt_p50
       (filter (\<lambda>w. cw_provider_id w = p \<and> cw_region w = ''global'' \<and> t0 - 6 * hour \<le> cw_window_start w \<and> cw_window_start w < t0) ws)))"

definition checkLatencyAnomaly ::
  "faults \<Rightarrow> string \<Rightarrow> rat \<Rightarrow> time \<Rightarrow> rat \<Rightarrow> window_row list \<Rightarrow> anomaly_row list \<Rightarrow> anomaly_row list" where
  "checkLatencyAnomaly F p p50 t0 factor ws as =
     (if F ''latency.baseline'' then as
      else case latency_baseline p t0 ws of
        None \<Rightarrow> as
      | Some b \<Rightarrow>
          if b \<le> 0 then as
          else if p50 \<ge> b * factor
            then raise_anomaly (F ''latency.open'') p ''latency_regression'' ''warning'' t0
                   [(''p50_ms'', JNum p50), (''baseline_ms'', JNum b)] as
          else if p50 < b * (12 / 10) then resolve_anomaly (F ''latency.resolve'') p ''latency_regression'' t0 as
          else as)"

section \<open>The status document\<close>

definition opt_num :: "rat option \<Rightarrow> json" where
  "opt_num x = (case x of None \<Rightarrow> JNull | Some v \<Rightarrow> JNum v)"

definition win_metrics :: "window_row \<Rightarrow> json" where
  "win_metrics w = JObj
     [(''loss_rate'', opt_num (cw_loss_rate w)), (''rtt_p50_ms'', opt_num (cw_rtt_p50 w)), (''rtt_p95_ms'', opt_num (cw_rtt_p95 w)),
      (''worker_count'', JNum (of_nat (cw_worker_count w))), (''dissent_ratio'', JNum (cw_dissent_ratio w))]"

record countryDoc =
  cd_code :: string
  cd_name :: string
  cd_continent_code :: string
  cd_continent :: string
  cd_ipv4 :: int
  cd_share :: rat
  cd_net64s :: int
  cd_count_v4 :: nat
  cd_count_v6 :: nat
  cd_targets :: nat

record networkDoc =
  nd_version :: string
  nd_as_of :: "time option"
  nd_asns :: "int list"
  nd_ipv4 :: int
  nd_net64s :: int
  nd_count_v4 :: nat
  nd_count_v6 :: nat
  nd_countries :: "countryDoc list"

definition or_empty :: "string option \<Rightarrow> string" where
  "or_empty x = (case x of None \<Rightarrow> [] | Some s \<Rightarrow> s)"

definition unknownRegion :: string where
  "unknownRegion = ''ZZ''"

definition country_doc :: "geo_row \<Rightarrow> countryDoc" where
  "country_doc g = \<lparr>cd_code = gr_country_code g,
     cd_name = (if gr_country_code g = unknownRegion \<and> or_empty (gr_country_name g) = [] then ''Unknown'' else or_empty (gr_country_name g)),
     cd_continent_code = or_empty (gr_continent_code g), cd_continent = or_empty (gr_continent_name g),
     cd_ipv4 = gr_ipv4_addresses g, cd_share = gr_ipv4_share g, cd_net64s = gr_ipv6_net64s g,
     cd_count_v4 = gr_prefix_count_v4 g, cd_count_v6 = gr_prefix_count_v6 g, cd_targets = gr_target_count g\<rparr>"

definition empty_network :: networkDoc where
  "empty_network = \<lparr>nd_version = [], nd_as_of = None, nd_asns = [], nd_ipv4 = 0, nd_net64s = 0, nd_count_v4 = 0, nd_count_v6 = 0,
     nd_countries = []\<rparr>"

definition add_country :: "geo_row \<Rightarrow> networkDoc \<Rightarrow> networkDoc" where
  "add_country g nd = nd\<lparr>nd_countries := nd_countries nd @ [country_doc g], nd_ipv4 := nd_ipv4 nd + gr_ipv4_addresses g,
     nd_net64s := nd_net64s nd + gr_ipv6_net64s g, nd_count_v4 := nd_count_v4 nd + gr_prefix_count_v4 g,
     nd_count_v6 := nd_count_v6 nd + gr_prefix_count_v6 g\<rparr>"

definition geo_rows :: "nat \<Rightarrow> string \<Rightarrow> routing_schema \<Rightarrow> geo_row list" where
  "geo_rows sid p R = sort_key (\<lambda>g. (- gr_ipv4_addresses g, gr_country_code g))
     (filter (\<lambda>g. gr_snapshot_id g = sid \<and> gr_provider_id g = p) (provider_geo R))"

text \<open>\<^const>\<open>None\<close> when a query fails; a provider without a published snapshot has the empty footprint.\<close>

definition networkFootprint :: "faults \<Rightarrow> string \<Rightarrow> routing_schema \<Rightarrow> networkDoc option" where
  "networkFootprint F p R =
     (if F ''footprint.snapshot'' then None
      else case newest_published R of
        None \<Rightarrow> Some empty_network
      | Some s \<Rightarrow>
          if F ''footprint.asns'' \<or> F ''footprint.geo'' then None
          else Some (fold add_country (geo_rows (sn_id s) p R)
                 (empty_network\<lparr>nd_version := sn_version s, nd_as_of := sn_published_at s,
                    nd_asns := sort (map as_asn (filter (\<lambda>a. as_provider_id a = p) (asns R)))\<rparr>)))"

text \<open>The Go map from country code to its names, filled in row order.\<close>

definition country_meta :: "networkDoc \<Rightarrow> string \<Rightarrow> countryDoc option" where
  "country_meta nd code = map_of (rev (map (\<lambda>c. (cd_code c, c)) (nd_countries nd))) code"

definition field :: "string \<Rightarrow> string \<Rightarrow> (string \<times> json) list" where
  "field k v = (if v = [] then [] else [(k, JStr v)])"

definition place_fields :: "countryDoc option \<Rightarrow> (string \<times> json) list" where
  "place_fields m = (case m of None \<Rightarrow> []
     | Some c \<Rightarrow> field ''country'' (cd_name c) @ field ''continent_code'' (cd_continent_code c) @ field ''continent'' (cd_continent c))"

definition region_json :: "(time \<Rightarrow> json) \<Rightarrow> networkDoc \<Rightarrow> window_row \<Rightarrow> json" where
  "region_json tj nd w =
     (let m = country_meta nd (cw_region w) in
      JObj ([(''region'', JStr (cw_region w)), (''country_code'', JStr (cw_region w))] @ place_fields m @
        [(''verdict'', JStr (cw_verdict w)), (''confidence'', JNum (cw_confidence w)), (''metrics'', win_metrics w),
         (''coverage'', JObj [(''targets_total'', JNum (case m of None \<Rightarrow> 0 | Some c \<Rightarrow> of_nat (cd_targets c))),
            (''targets_measured'', JNum (of_nat (cw_measured_targets w))), (''targets_up'', JNum (of_nat (cw_up_targets w))),
            (''worker_count'', JNum (of_nat (cw_worker_count w)))]),
         (''as_of'', tj (cw_window_start w))]))"

definition monitored_json :: "(time \<Rightarrow> json) \<Rightarrow> networkDoc \<Rightarrow> target_status_row \<Rightarrow> json" where
  "monitored_json tj nd r =
     JObj (field ''prefix'' (or_empty (ts_prefix r)) @
       (case ts_origin_asn r of None \<Rightarrow> [] | Some a \<Rightarrow> [(''origin_asn'', JNum (of_int a))]) @
       [(''target'', JStr (ts_target r)), (''country_code'', JStr (ts_region r))] @
       (case country_meta nd (ts_region r) of
          Some c \<Rightarrow> place_fields (Some c)
        | None \<Rightarrow> if ts_region r = unknownRegion then field ''country'' ''Unknown'' else []) @
       field ''city'' (or_empty (ts_city r)) @
       [(''verdict'', JStr (ts_verdict r)), (''availability'', JNum (ts_availability r)), (''loss_rate'', JNum (ts_loss_rate r))] @
       (case ts_rtt_p50 r of None \<Rightarrow> [] | Some x \<Rightarrow> [(''rtt_p50_ms'', JNum x)]) @
       (case ts_rtt_p95 r of None \<Rightarrow> [] | Some x \<Rightarrow> [(''rtt_p95_ms'', JNum x)]) @
       [(''worker_count'', JNum (of_nat (ts_worker_count r))), (''last_measured_at'', tj (ts_last_measured_at r))])"

text \<open>The database orders networks as addresses; here their texts are compared.\<close>

definition monitoredNetworks :: "faults \<Rightarrow> (time \<Rightarrow> json) \<Rightarrow> string \<Rightarrow> networkDoc \<Rightarrow> target_status_row list \<Rightarrow> json list option" where
  "monitoredNetworks F tj p nd rows =
     (if F ''networks'' then None
      else Some (map (monitored_json tj nd)
        (sort_key (\<lambda>r. (ts_region r, ts_prefix r = None, or_empty (ts_prefix r), ts_target r)) (filter (\<lambda>r. ts_provider_id r = p) rows))))"

definition country_json :: "countryDoc \<Rightarrow> json" where
  "country_json c = JObj ([(''country_code'', JStr (cd_code c))] @ place_fields (Some c) @
     [(''ipv4_addresses'', JNum (of_int (cd_ipv4 c))), (''ipv4_share_pct'', JNum (cd_share c)), (''ipv6_net64s'', JNum (of_int (cd_net64s c))),
      (''prefix_count_v4'', JNum (of_nat (cd_count_v4 c))), (''prefix_count_v6'', JNum (of_nat (cd_count_v6 c))),
      (''monitored_targets'', JNum (of_nat (cd_targets c)))])"

definition network_json :: "(time \<Rightarrow> json) \<Rightarrow> networkDoc \<Rightarrow> json" where
  "network_json tj nd = JObj (field ''snapshot_version'' (nd_version nd) @
     (case nd_as_of nd of None \<Rightarrow> [] | Some t \<Rightarrow> [(''as_of'', tj t)]) @
     [(''asns'', JArr (map (\<lambda>a. JNum (of_int a)) (nd_asns nd))), (''ipv4_addresses'', JNum (of_int (nd_ipv4 nd))),
      (''ipv6_net64s'', JNum (of_int (nd_net64s nd))), (''prefix_count_v4'', JNum (of_nat (nd_count_v4 nd))),
      (''prefix_count_v6'', JNum (of_nat (nd_count_v6 nd))), (''countries'', JArr (map country_json (nd_countries nd)))])"

definition statusDocument :: "faults \<Rightarrow> (time \<Rightarrow> json) \<Rightarrow> string \<Rightarrow> window_row list \<Rightarrow> window_row \<Rightarrow> db \<Rightarrow> json option" where
  "statusDocument F tj p wins global D =
     Option.bind (networkFootprint F p (routing_of D)) (\<lambda>nd.
     Option.bind (monitoredNetworks F tj p nd (target_statuses (aggregation_of D))) (\<lambda>nets.
     Some (JObj
       [(''provider_id'', JStr p), (''as_of'', tj (cw_window_start global)),
        (''global'', JObj [(''verdict'', JStr (cw_verdict global)), (''confidence'', JNum (cw_confidence global)), (''metrics'', win_metrics global)]),
        (''regions'', JArr (map (region_json tj nd) (sort_key cw_region (filter (\<lambda>w. cw_region w \<noteq> ''global'') wins)))),
        (''network'', network_json tj nd), (''networks'', JArr nets)])))"

section \<open>The rollup\<close>

definition newest_window :: "window_row list \<Rightarrow> string \<Rightarrow> string \<Rightarrow> window_row option" where
  "newest_window ws p g =
     (case rev (sort_key cw_window_start (filter (\<lambda>w. cw_provider_id w = p \<and> cw_region w = g) ws)) of [] \<Rightarrow> None | w # _ \<Rightarrow> Some w)"

definition newest_windows :: "window_row list \<Rightarrow> window_row list" where
  "newest_windows ws =
     concat (map (\<lambda>(p, g). case newest_window ws p g of None \<Rightarrow> [] | Some w \<Rightarrow> [w])
       (sort (remdups (map (\<lambda>w. (cw_provider_id w, cw_region w)) ws))))"

definition upsert_status :: "time \<Rightarrow> window_row \<Rightarrow> status_row list \<Rightarrow> status_row list" where
  "upsert_status now w rows =
     (let row = (\<lambda>since. \<lparr>ps_provider_id = cw_provider_id w, ps_region = cw_region w, ps_verdict = cw_verdict w,
            ps_confidence = cw_confidence w, ps_since = since, ps_metrics = win_metrics w, ps_updated_at = now\<rparr>);
          same = (\<lambda>r. ps_provider_id r = cw_provider_id w \<and> ps_region r = cw_region w) in
      if \<exists>r \<in> set rows. same r
      then update_where same (\<lambda>r. row (if ps_verdict r = cw_verdict w then ps_since r else cw_window_start w)) rows
      else rows @ [row (cw_window_start w)])"

definition prev_verdict :: "string \<Rightarrow> status_row list \<Rightarrow> string" where
  "prev_verdict p rows =
     (case find (\<lambda>r. ps_provider_id r = p \<and> ps_region r = ''global'') rows of None \<Rightarrow> [] | Some r \<Rightarrow> ps_verdict r)"

definition upd_agg :: "(aggregation_schema \<Rightarrow> aggregation_schema) \<Rightarrow> db \<Rightarrow> db" where
  "upd_agg f D = D\<lparr>aggregation_of := f (aggregation_of D)\<rparr>"

definition enqueue :: "time \<Rightarrow> string \<Rightarrow> json \<Rightarrow> aggregation_schema \<Rightarrow> aggregation_schema" where
  "enqueue now kind payload A = A\<lparr>publication_outbox := publication_outbox A @
     [\<lparr>ob_id = outbox_seq A, ob_kind = kind, ob_payload = payload, ob_created_at = now, ob_attempts = 0,
       ob_next_attempt_at = now, ob_acked_at = None\<rparr>], outbox_seq := outbox_seq A + 1\<rparr>"

definition rollup_provider :: "faults \<Rightarrow> (time \<Rightarrow> json) \<Rightarrow> agg_config \<Rightarrow> time \<Rightarrow> string \<Rightarrow> window_row list \<Rightarrow> db \<Rightarrow> bool \<times> db" where
  "rollup_provider F tj c now p wins D =
     (if F ''rollup.prev'' then (False, D)
      else if F ''rollup.upsert'' \<and> wins \<noteq> [] then (False, D)
      else
        (let prev = prev_verdict p (provider_statuses (aggregation_of D));
             D1 = upd_agg (\<lambda>A. A\<lparr>provider_statuses := fold (upsert_status now) wins (provider_statuses A)\<rparr>) D in
         case find (\<lambda>w. cw_region w = ''global'') (rev wins) of
           None \<Rightarrow> (True, D1)
         | Some g \<Rightarrow>
             (let t0 = cw_window_start g;
                  D2 = (if prev \<noteq> cw_verdict g
                        then upd_agg (\<lambda>A. A\<lparr>anomalies := handleTransition F p prev (cw_verdict g) t0 (anomalies A)\<rparr>) D1 else D1);
                  D3 = (case cw_rtt_p50 g of
                          None \<Rightarrow> D2
                        | Some x \<Rightarrow> upd_agg (\<lambda>A. A\<lparr>anomalies := checkLatencyAnomaly F p x t0 (ac_latency c) (consensus_windows A) (anomalies A)\<rparr>) D2) in
              case statusDocument F tj p wins g D3 of
                None \<Rightarrow> (False, D3)
              | Some doc \<Rightarrow> if F ''rollup.enqueue'' then (False, D3) else (True, upd_agg (enqueue now ''provider_status'' doc) D3))))"

fun rollup_all :: "faults \<Rightarrow> (time \<Rightarrow> json) \<Rightarrow> agg_config \<Rightarrow> time \<Rightarrow> (string \<times> window_row list) list \<Rightarrow> db \<Rightarrow> bool \<times> db" where
  "rollup_all F tj c now [] D = (True, D)"
| "rollup_all F tj c now ((p, wins) # rest) D =
     (case rollup_provider F tj c now p wins D of
        (True, D') \<Rightarrow> rollup_all F tj c now rest D'
      | (False, D') \<Rightarrow> (False, D'))"

definition RollupStatus :: "faults \<Rightarrow> (time \<Rightarrow> json) \<Rightarrow> agg_config \<Rightarrow> time \<Rightarrow> db \<Rightarrow> bool \<times> db" where
  "RollupStatus F tj cfg now D =
     (let c = agg_withDefaults cfg in
      case refreshTargetStatus F c now D of
        (False, D1) \<Rightarrow> (False, D1)
      | (True, D1) \<Rightarrow>
          if F ''rollup.windows'' then (False, D1)
          else rollup_all F tj c now (group_by cw_provider_id (newest_windows (consensus_windows (aggregation_of D1)))) D1)"

section \<open>Retention and the engine's loop\<close>

definition Retention :: "faults \<Rightarrow> agg_config \<Rightarrow> time \<Rightarrow> db \<Rightarrow> bool \<times> db" where
  "Retention F cfg now D =
     (let c = agg_withDefaults cfg;
          M1 = (measurements_of D)\<lparr>observations := filter (\<lambda>r. \<not> o_measured_at r < now - ac_raw_retention c) (observations (measurements_of D))\<rparr>;
          A1 = (aggregation_of D)\<lparr>consensus_windows := filter (\<lambda>w. \<not> cw_window_start w < now - ac_window_retention c) (consensus_windows (aggregation_of D))\<rparr>;
          A2 = A1\<lparr>worker_agreements := filter (\<lambda>a. \<not> ag_window_start a < now - 30 * day) (worker_agreements A1)\<rparr>;
          M2 = M1\<lparr>upload_batches := filter (\<lambda>b. \<not> b_received_at b < now - 7 * day) (upload_batches M1)\<rparr> in
      if F ''retain.obs'' then (False, D)
      else if F ''retain.windows'' then (False, D\<lparr>measurements_of := M1\<rparr>)
      else if F ''retain.agreement'' then (False, D\<lparr>measurements_of := M1, aggregation_of := A1\<rparr>)
      else if F ''retain.batches'' then (False, D\<lparr>measurements_of := M1, aggregation_of := A2\<rparr>)
      else (True, D\<lparr>measurements_of := M2, aggregation_of := A2\<rparr>))"

datatype engine_event = WindowTick | RetentionTick

text \<open>\<^verbatim>\<open>Time.Truncate\<close> counts from the zero time, the first of January of the year 1.\<close>

definition truncated :: "int \<Rightarrow> time \<Rightarrow> time" where
  "truncated d t = t - (t + 62135596800 * second) mod d"

definition engine_step :: "(time \<Rightarrow> json) \<Rightarrow> agg_config \<Rightarrow> engine_event \<times> faults \<times> time \<Rightarrow> db \<Rightarrow> db" where
  "engine_step tj cfg ev D =
     (case ev of
        (WindowTick, F, now) \<Rightarrow>
          (let d = ac_window_seconds (agg_withDefaults cfg) * second in
           case ComputeWindow F cfg (truncated d (now - d)) D of
             (False, D1) \<Rightarrow> D1
           | (True, D1) \<Rightarrow> snd (RollupStatus F tj cfg now D1))
      | (RetentionTick, F, now) \<Rightarrow> snd (Retention F cfg now D))"

definition engine_Run :: "(time \<Rightarrow> json) \<Rightarrow> agg_config \<Rightarrow> (engine_event \<times> faults \<times> time) list \<Rightarrow> db \<Rightarrow> db" where
  "engine_Run tj cfg evs D = fold (engine_step tj cfg) evs D"

section \<open>Anomalies are not duplicated\<close>

definition anomalies_ok :: "anomaly_row list \<Rightarrow> bool" where
  "anomalies_ok as \<longleftrightarrow> (\<forall>p k. length (filter (open_anomaly p k) as) \<le> 1)"

lemma open_filter_append:
  "length (filter (open_anomaly p k) (as @ [a])) = length (filter (open_anomaly p k) as) + (if open_anomaly p k a then 1 else 0)"
  by simp

lemma raise_ok: "anomalies_ok as \<Longrightarrow> anomalies_ok (raise_anomaly fault p k sev t ev as)"
proof -
  assume ok: "anomalies_ok as"
  have "filter (open_anomaly p k) as = []" if "\<not> (\<exists>a \<in> set as. open_anomaly p k a)" using that by (simp add: filter_empty_conv)
  then show ?thesis using ok by (auto simp: anomalies_ok_def raise_anomaly_def open_filter_append) (auto simp: open_anomaly_def)
qed

lemma resolve_ok: "anomalies_ok as \<Longrightarrow> anomalies_ok (resolve_anomaly fault p k t as)"
proof -
  assume ok: "anomalies_ok as"
  have le: "length (filter (open_anomaly p' k') (update_where (open_anomaly p k) (\<lambda>a. a\<lparr>an_resolved_at := Some t\<rparr>) xs)) \<le>
      length (filter (open_anomaly p' k') xs)" for p' k' xs
    by (induction xs) (auto simp: open_anomaly_def)
  have "length (filter (open_anomaly p' k') (resolve_anomaly fault p k t as)) \<le> 1" for p' k'
    using ok order_trans [OF le [of p' k' as]] by (simp add: anomalies_ok_def resolve_anomaly_def)
  then show ?thesis by (simp add: anomalies_ok_def)
qed

lemma handleTransition_ok: "anomalies_ok as \<Longrightarrow> anomalies_ok (handleTransition F p prev v t as)"
  by (simp add: handleTransition_def Let_def raise_ok resolve_ok)

lemma checkLatency_ok: "anomalies_ok as \<Longrightarrow> anomalies_ok (checkLatencyAnomaly F p x t f ws as)"
  by (simp add: checkLatencyAnomaly_def raise_ok resolve_ok split: option.split)

abbreviation anoms :: "db \<Rightarrow> anomaly_row list" where
  "anoms D \<equiv> anomalies (aggregation_of D)"

lemma upd_agg_simps [simp]:
  "aggregation_of (upd_agg f D) = f (aggregation_of D)" "routing_of (upd_agg f D) = routing_of D"
  "registry_of (upd_agg f D) = registry_of D" "measurements_of (upd_agg f D) = measurements_of D"
  by (simp_all add: upd_agg_def)

lemma enqueue_simps [simp]:
  "anomalies (enqueue now k pl A) = anomalies A" "provider_statuses (enqueue now k pl A) = provider_statuses A"
  "consensus_windows (enqueue now k pl A) = consensus_windows A" "target_statuses (enqueue now k pl A) = target_statuses A"
  "length (publication_outbox (enqueue now k pl A)) = length (publication_outbox A) + 1"
  by (simp_all add: enqueue_def)

lemma rollup_provider_anomalies:
  "anomalies_ok (anoms D) \<Longrightarrow> anomalies_ok (anoms (snd (rollup_provider F tj c now p wins D)))"
  by (auto simp: rollup_provider_def Let_def handleTransition_ok checkLatency_ok split: option.split)

lemma rollup_all_anomalies:
  "anomalies_ok (anoms D) \<Longrightarrow> anomalies_ok (anoms (snd (rollup_all F tj c now gs D)))"
proof (induction gs arbitrary: D)
  case (Cons g gs)
  obtain p wins where g: "g = (p, wins)" by (cases g)
  show ?case
    using Cons.IH rollup_provider_anomalies [OF Cons.prems, of F tj c now p wins] by (auto simp: g split: prod.split bool.split)
qed simp

lemma refresh_anomalies [simp]: "anoms (snd (refreshTargetStatus F c now D)) = anoms D"
  "consensus_windows (aggregation_of (snd (refreshTargetStatus F c now D))) = consensus_windows (aggregation_of D)"
  "provider_statuses (aggregation_of (snd (refreshTargetStatus F c now D))) = provider_statuses (aggregation_of D)"
  "publication_outbox (aggregation_of (snd (refreshTargetStatus F c now D))) = publication_outbox (aggregation_of D)"
  by (simp_all add: refreshTargetStatus_def Let_def)

lemma refresh_frame:
  assumes "refreshTargetStatus F c now D = (ok, D1)"
  shows "anoms D1 = anoms D" "consensus_windows (aggregation_of D1) = consensus_windows (aggregation_of D)"
    "provider_statuses (aggregation_of D1) = provider_statuses (aggregation_of D)"
    "publication_outbox (aggregation_of D1) = publication_outbox (aggregation_of D)"
  using refresh_anomalies [of F c now D] assms by simp_all

lemma RollupStatus_anomalies: "anomalies_ok (anoms D) \<Longrightarrow> anomalies_ok (anoms (snd (RollupStatus F tj cfg now D)))"
  by (auto simp: RollupStatus_def Let_def rollup_all_anomalies refresh_frame split: prod.split bool.split)

lemma ComputeWindow_anomalies [simp]: "anoms (snd (ComputeWindow F cfg start D)) = anoms D"
  by (simp add: ComputeWindow_def Let_def)

lemma Retention_anomalies [simp]: "anoms (snd (Retention F cfg now D)) = anoms D"
  by (simp add: Retention_def Let_def)

lemma engine_step_anomalies: "anomalies_ok (anoms D) \<Longrightarrow> anomalies_ok (anoms (engine_step tj cfg ev D))"
proof -
  assume ok: "anomalies_ok (anoms D)"
  obtain e F now where ev: "ev = (e, F, now)" by (cases ev)
  let ?r = "ComputeWindow F cfg (truncated (ac_window_seconds (agg_withDefaults cfg) * second) (now - ac_window_seconds (agg_withDefaults cfg) * second)) D"
  have "anomalies_ok (anoms (snd ?r))" using ok by simp
  then have "anomalies_ok (anoms (snd (RollupStatus F tj cfg now (snd ?r))))" by (rule RollupStatus_anomalies)
  then show ?thesis
    using ok \<open>anomalies_ok (anoms (snd ?r))\<close> unfolding ev engine_step_def Let_def
    by (cases e) (auto simp del: ComputeWindow_anomalies split: prod.split bool.split)
qed

text \<open>
  C40. The engine never has two open anomalies of the same kind for a provider: however many windows
  are settled, rolled up and retired, with whatever statements failing, a reachability loss or a
  latency regression is opened only when none is open.
\<close>

theorem anomalies_not_duplicated:
  assumes "anomalies_ok (anoms D)"
  shows "anomalies_ok (anoms (engine_Run tj cfg evs D))"
  unfolding engine_Run_def using assms by (induction evs arbitrary: D) (auto simp: engine_step_anomalies)

theorem anomalies_not_duplicated_witness:
  "anomalies_ok (anoms (engine_Run (\<lambda>t. JNum (of_int t)) demo_agg [(WindowTick, no_faults, 300 * second), (RetentionTick, no_faults, 301 * second)] demo_consensus))"
proof -
  have "anomalies_ok (anoms demo_consensus)" by (simp add: anomalies_ok_def demo_consensus_def)
  then show ?thesis by (rule anomalies_not_duplicated)
qed

text \<open>
  A provider that degrades first and fails completely afterwards keeps the warning: the outage raises
  no critical anomaly while the reachability loss of the degradation is open.
\<close>

theorem outage_keeps_warning:
  "map an_severity (handleTransition no_faults p ''degraded'' ''outage'' t2
     (handleTransition no_faults p ''healthy'' ''degraded'' t1 [])) = [''warning'']"
  by (simp add: handleTransition_def raise_anomaly_def open_anomaly_def)

section \<open>What a rollup publishes\<close>

definition status_verdict :: "status_row list \<Rightarrow> string \<Rightarrow> string \<Rightarrow> string option" where
  "status_verdict rows p g = map_option ps_verdict (find (\<lambda>r. ps_provider_id r = p \<and> ps_region r = g) rows)"

lemma status_verdict_simps [simp]:
  "status_verdict [] p g = None"
  "status_verdict (r # rows) p g = (if ps_provider_id r = p \<and> ps_region r = g then Some (ps_verdict r) else status_verdict rows p g)"
  by (simp_all add: status_verdict_def)

lemma status_verdict_append:
  "status_verdict (rows @ [r]) p g =
     (case status_verdict rows p g of Some v \<Rightarrow> Some v
      | None \<Rightarrow> if ps_provider_id r = p \<and> ps_region r = g then Some (ps_verdict r) else None)"
  by (induction rows) auto

lemma status_verdict_None: "status_verdict rows p g = None \<longleftrightarrow> \<not> (\<exists>r \<in> set rows. ps_provider_id r = p \<and> ps_region r = g)"
  by (induction rows) auto

lemma upsert_status_verdict:
  "status_verdict (upsert_status now w rows) p g =
     (if cw_provider_id w = p \<and> cw_region w = g then Some (cw_verdict w) else status_verdict rows p g)"
proof (cases "\<exists>r \<in> set rows. ps_provider_id r = cw_provider_id w \<and> ps_region r = cw_region w")
  case True
  let ?row = "\<lambda>since. \<lparr>ps_provider_id = cw_provider_id w, ps_region = cw_region w, ps_verdict = cw_verdict w,
            ps_confidence = cw_confidence w, ps_since = since, ps_metrics = win_metrics w, ps_updated_at = now\<rparr>"
  have "status_verdict (update_where (\<lambda>r. ps_provider_id r = cw_provider_id w \<and> ps_region r = cw_region w)
      (\<lambda>r. ?row (if ps_verdict r = cw_verdict w then ps_since r else cw_window_start w)) xs) p g =
    (if cw_provider_id w = p \<and> cw_region w = g \<and> status_verdict xs p g \<noteq> None then Some (cw_verdict w) else status_verdict xs p g)" for xs
    by (induction xs) auto
  then show ?thesis using True status_verdict_None [of rows p g] by (auto simp: upsert_status_def Let_def)
next
  case False
  then show ?thesis
    using status_verdict_None [of rows p g] by (auto simp: upsert_status_def Let_def status_verdict_append split: option.split)
qed

lemma fold_upsert_keeps:
  assumes "status_verdict rows (cw_provider_id w) (cw_region w) = Some (cw_verdict w)"
    and "\<forall>v \<in> set ws. cw_provider_id v = cw_provider_id w \<and> cw_region v = cw_region w \<longrightarrow> v = w"
  shows "status_verdict (fold (upsert_status now) ws rows) (cw_provider_id w) (cw_region w) = Some (cw_verdict w)"
  using assms
proof (induction ws arbitrary: rows)
  case (Cons v ws)
  have "status_verdict (upsert_status now v rows) (cw_provider_id w) (cw_region w) = Some (cw_verdict w)"
    using Cons.prems by (auto simp: upsert_status_verdict)
  then show ?case using Cons.IH Cons.prems(2) by simp
qed simp

lemma fold_upsert_verdict:
  assumes "w \<in> set ws" and "\<forall>v \<in> set ws. cw_provider_id v = cw_provider_id w \<and> cw_region v = cw_region w \<longrightarrow> v = w"
  shows "status_verdict (fold (upsert_status now) ws rows) (cw_provider_id w) (cw_region w) = Some (cw_verdict w)"
  using assms
proof (induction ws arbitrary: rows)
  case (Cons v ws)
  show ?case
  proof (cases "v = w")
    case True
    then show ?thesis using Cons.prems(2) by (simp add: fold_upsert_keeps upsert_status_verdict)
  qed (use Cons in simp)
qed simp

definition has_global :: "window_row list \<Rightarrow> bool" where
  "has_global wins \<longleftrightarrow> (\<exists>w \<in> set wins. cw_region w = ''global'')"

lemma rollup_provider_ok:
  assumes "rollup_provider F tj c now p wins D = (True, D')"
  shows "provider_statuses (aggregation_of D') = fold (upsert_status now) wins (provider_statuses (aggregation_of D))"
    "length (publication_outbox (aggregation_of D')) = length (publication_outbox (aggregation_of D)) + (if has_global wins then 1 else 0)"
proof -
  have "find (\<lambda>w. cw_region w = ''global'') (rev wins) = None \<longleftrightarrow> \<not> has_global wins"
    by (auto simp: find_None_iff has_global_def)
  then show "provider_statuses (aggregation_of D') = fold (upsert_status now) wins (provider_statuses (aggregation_of D))"
    "length (publication_outbox (aggregation_of D')) = length (publication_outbox (aggregation_of D)) + (if has_global wins then 1 else 0)"
    using assms by (auto simp: rollup_provider_def Let_def split: if_split_asm option.split_asm)
qed

lemma rollup_all_ok:
  assumes "rollup_all F tj c now gs D = (True, D')"
  shows "provider_statuses (aggregation_of D') = fold (upsert_status now) (concat (map snd gs)) (provider_statuses (aggregation_of D)) \<and>
    length (publication_outbox (aggregation_of D')) = length (publication_outbox (aggregation_of D)) + count_where (has_global \<circ> snd) gs"
  using assms
proof (induction gs arbitrary: D)
  case (Cons g gs)
  obtain p wins where g: "g = (p, wins)" by (cases g)
  obtain D1 where 1: "rollup_provider F tj c now p wins D = (True, D1)" "rollup_all F tj c now gs D1 = (True, D')"
    using Cons.prems by (auto simp: g split: prod.split_asm bool.split_asm)
  show ?case using Cons.IH [OF 1(2)] rollup_provider_ok [OF 1(1)] by (simp add: g)
qed simp

lemma newest_windows_mem: "w \<in> set (newest_windows ws) \<longleftrightarrow> newest_window ws (cw_provider_id w) (cw_region w) = Some w"
proof -
  have key: "w' \<in> set ws \<and> cw_provider_id w' = p \<and> cw_region w' = g" if nw: "newest_window ws p g = Some w'" for w' p g
  proof -
    let ?L = "rev (sort_key cw_window_start (filter (\<lambda>w. cw_provider_id w = p \<and> cw_region w = g) ws))"
    obtain rest where "?L = w' # rest"
      using nw unfolding newest_window_def by (cases ?L) (simp_all del: rev_eq_Cons_iff)
    then have "w' \<in> set ?L" by (metis list.set_intros(1))
    then show ?thesis by simp
  qed
  show ?thesis
  proof
    assume "w \<in> set (newest_windows ws)"
    then obtain p g where "newest_window ws p g = Some w" by (auto simp: newest_windows_def split: option.split_asm)
    then show "newest_window ws (cw_provider_id w) (cw_region w) = Some w" using key by blast
  next
    assume n: "newest_window ws (cw_provider_id w) (cw_region w) = Some w"
    then have "(cw_provider_id w, cw_region w) \<in> (\<lambda>w. (cw_provider_id w, cw_region w)) ` set ws" using key by blast
    then show "w \<in> set (newest_windows ws)" using n unfolding newest_windows_def by (force simp: set_concat)
  qed
qed


definition demo_win :: window_row where
  "demo_win = \<lparr>cw_provider_id = ''p1'', cw_region = ''global'', cw_probe_type = ''icmp'', cw_window_start = 0, cw_window_seconds = 300,
     cw_verdict = ''healthy'', cw_confidence = 1, cw_worker_count = 6, cw_dissent_ratio = 0, cw_loss_rate = None,
     cw_rtt_p50 = None, cw_rtt_p95 = None, cw_rtt_p99 = None, cw_measured_targets = 1, cw_up_targets = 1\<rparr>"

definition demo_rolled :: db where
  "demo_rolled = upd_agg (\<lambda>A. A\<lparr>consensus_windows := [demo_win]\<rparr>) (demo_consensus\<lparr>measurements_of := \<lparr>observations = [], upload_batches = []\<rparr>\<rparr>)"


end
