(* ===== verification/Builder.thy ===== *)
theory Builder
  imports Targets Mrt Artifact Advisor Status
begin

text \<open>
  The snapshot pipeline (\<^verbatim>\<open>internal/builder/builder.go\<close>): provider sync, extraction of the monitored
  announcements from a routing table dump, geographic enrichment, the load into the database, the
  country distribution, the probe targets, the sanity gate, publication. Each step is a definition
  and \<open>Run\<close> composes them in the order of the code, with every error return.

  The GeoIP database, the website, the dump and its decoder, and the clock are parameters. Go's
  \<^verbatim>\<open>float64\<close> quotient of the sanity gate is a rational. The text of a prefix identifies it, so the map
  keyed by it is an association list keyed by the prefix and the origin. Rows of one prefix keep the order in which they were
  first seen; the code leaves it open.
\<close>

section \<open>Operations\<close>

record GeoSource =
  gs_Lookup :: "prefix \<Rightarrow> Info"
  gs_Ranges :: ranger

record build_config =
  bc_BviewPath :: string
  bc_CityMMDB :: string
  bc_MaxTargetsPerProvider :: int
  bc_MaxTargetsPerCountry :: int
  bc_SanityMaxDelta :: rat
  bc_SanityForce :: bool
  bc_RetainSnapshots :: nat
  bc_GeoSource :: "GeoSource option"

text \<open>The errors of \<open>Run\<close>, one per return; \<open>ErrSanityGate\<close> is the package's own.\<close>

datatype build_error =
    SyncError advisor_error | ExtractError | GeoError | LoadError | DistributionError | DeriveError | CountError
  | GateError | ErrSanityGate | ArtifactError | PublishError | PointerError | PruneError

subsection \<open>Extraction\<close>

type_synonym seen_rows = "((prefix \<times> nat) \<times> prefixRow) list"

definition row_flags :: "Record \<Rightarrow> nat \<Rightarrow> (string \<times> json) list" where
  "row_flags rec origin =
     [(''peer_count'', JNum (of_nat (peer_count (rc_peer_counts rec) origin)))] @
     (if length (rc_origins rec) > 1
      then [(''moas'', JBool True), (''other_origins'', JArr (map (JNum \<circ> of_nat) (filter (\<lambda>n. n \<noteq> origin) (rc_origins rec))))]
      else []) @
     (if TooLong (rc_prefix rec) then [(''long_prefix'', JBool True)] else [])"

definition extract_origin :: "(nat \<rightharpoonup> string) \<Rightarrow> Record \<Rightarrow> nat \<Rightarrow> seen_rows \<Rightarrow> seen_rows" where
  "extract_origin asnToProvider rec origin seen =
     (case asnToProvider origin of
        None \<Rightarrow> seen
      | Some provider \<Rightarrow>
          (let key = (rc_prefix rec, origin); pc = peer_count (rc_peer_counts rec) origin in
           case map_of seen key of
             Some row \<Rightarrow>
               if int pc > flag_int ''peer_count'' (pr_flags row)
               then AList.update key (row\<lparr>pr_flags := AList.update ''peer_count'' (JNum (of_nat pc)) (pr_flags row)\<rparr>) seen
               else seen
           | None \<Rightarrow>
               AList.update key \<lparr>pr_prefix = rc_prefix rec, pr_origin = origin, pr_provider = provider,
                 pr_flags = row_flags rec origin, pr_geo = no_info\<rparr> seen))"

text \<open>The callback: the number of dropped bogons and the rows so far.\<close>

definition extract_record :: "(nat \<rightharpoonup> string) \<Rightarrow> Record \<Rightarrow> nat \<times> seen_rows \<Rightarrow> nat \<times> seen_rows" where
  "extract_record asnToProvider rec acc =
     (if IsBogon (rc_prefix rec) then (fst acc + 1, snd acc)
      else (fst acc, fold (extract_origin asnToProvider rec) (rc_origins rec) (snd acc)))"

definition extract_rows :: "mrt_lib \<Rightarrow> (nat \<rightharpoonup> string) \<Rightarrow> (prefixRow list \<times> Stats) option" where
  "extract_rows L asnToProvider =
     (case Mrt.Stream L (\<lambda>n. asnToProvider n \<noteq> None) (\<lambda>rec acc. Some (extract_record asnToProvider rec acc)) (0, []) of
        None \<Rightarrow> None
      | Some (ok, stats, dropped, seen) \<Rightarrow>
          if \<not> ok then None else Some (sort_key (pkey \<circ> pr_prefix) (map snd seen), stats))"

definition enrich :: "prefixRow list \<Rightarrow> GeoSource \<Rightarrow> prefixRow list" where
  "enrich rows src = map (\<lambda>r. r\<lparr>pr_geo := gs_Lookup src (pr_prefix r)\<rparr>) rows"

subsection \<open>Load\<close>

text \<open>
  The version: \<^verbatim>\<open>20060102T1504Z\<close> of the dump's first timestamp in UTC, then the clock in milliseconds.
  The calendar counts from the first of March so that the leap day is the last of its year.
\<close>

definition two_digits :: "int \<Rightarrow> string" where
  "two_digits n = (if n < 10 then ''0'' else []) @ int_text n"

definition civil :: "int \<Rightarrow> int \<times> int \<times> int" where
  "civil days =
     (let z = days + 719468; era = z div 146097; doe = z mod 146097;
          yoe = (doe - doe div 1460 + doe div 36524 - doe div 146096) div 365;
          doy = doe - (365 * yoe + yoe div 4 - yoe div 100);
          mp = (5 * doy + 2) div 153;
          m = (if mp < 10 then mp + 3 else mp - 9) in
      (yoe + era * 400 + (if m \<le> 2 then 1 else 0), m, doy - (153 * mp + 2) div 5 + 1))"

definition utc_stamp :: "nat \<Rightarrow> string" where
  "utc_stamp unix =
     (let t = int unix; s = t mod 86400 in
      case civil (t div 86400) of
        (y, m, d) \<Rightarrow> int_text y @ two_digits m @ two_digits d @ ''T'' @ two_digits (s div 3600) @ two_digits (s mod 3600 div 60) @ ''Z'')"

definition snapshot_version :: "Stats \<Rightarrow> time \<Rightarrow> string" where
  "snapshot_version stats now = utc_stamp (ss_first_timestamp stats) @ ''-'' @ int_text (now div 1000000)"

definition loaded_prefix :: "nat \<Rightarrow> nat \<times> prefixRow \<Rightarrow> prefix_row" where
  "loaded_prefix sid e = (case e of (i, r) \<Rightarrow>
     \<lparr>px_id = i, px_snapshot_id = sid, px_prefix = prefix_String (pr_prefix r), px_origin_asn = int (pr_origin r),
      px_geo_country = (if in_ok (pr_geo r) then Some (in_country (pr_geo r)) else None),
      px_geo_city = (if in_ok (pr_geo r) \<and> in_city (pr_geo r) \<noteq> [] then Some (in_city (pr_geo r)) else None),
      px_geo_lat = (if in_ok (pr_geo r) then Some (in_lat (pr_geo r)) else None),
      px_geo_lon = (if in_ok (pr_geo r) then Some (in_lon (pr_geo r)) else None),
      px_flags = pr_flags r\<rparr>)"

definition new_snapshot :: "string \<Rightarrow> time \<Rightarrow> nat \<Rightarrow> prefixRow list \<Rightarrow> Stats \<Rightarrow> snapshot_row" where
  "new_snapshot path now sid rows stats =
     \<lparr>sn_id = sid, sn_version = snapshot_version stats now, sn_source_uri = path,
      sn_source_timestamp = int (ss_first_timestamp stats) * second, sn_status = ''building'', sn_created_at = now,
      sn_asn_count = length (remdups (map pr_origin rows)),
      sn_prefix_count_v4 = count_where (\<lambda>r. is4 (Addr (pr_prefix r))) rows,
      sn_prefix_count_v6 = count_where (\<lambda>r. \<not> is4 (Addr (pr_prefix r))) rows,
      sn_artifact = None, sn_built_at = Some now, sn_published_at = None\<rparr>"

text \<open>
  One transaction. The version is unique, a prefix and origin occur once in a snapshot, and the
  origin is a known AS number.
\<close>

definition load :: "faults \<Rightarrow> string \<Rightarrow> time \<Rightarrow> prefixRow list \<Rightarrow> Stats \<Rightarrow> routing_schema \<Rightarrow> (nat \<times> string \<times> routing_schema) option" where
  "load F path now rows stats R =
     (if F ''load.begin'' then None
      else
        (let sid = snapshot_seq R; sn = new_snapshot path now sid rows stats in
         if F ''load.snapshot'' \<or> sn_version sn \<in> sn_version ` set (snapshots R) then None
         else if F ''load.copy'' \<or> \<not> (\<forall>r \<in> set rows. int (pr_origin r) \<in> as_asn ` set (asns R)) \<or>
           \<not> distinct (map (\<lambda>r. (pr_prefix r, pr_origin r)) rows) then None
         else if F ''load.commit'' then None
         else Some (sid, sn_version sn,
           R\<lparr>snapshots := snapshots R @ [sn], snapshot_seq := snapshot_seq R + 1,
             prefixes := prefixes R @ map (loaded_prefix sid) (enumerate (prefix_seq R) rows),
             prefix_seq := prefix_seq R + length rows\<rparr>)))"

subsection \<open>Country distribution\<close>

definition nullable :: "string \<Rightarrow> string option" where
  "nullable s = (if s = [] then None else Some s)"

definition clampInt64 :: "nat \<Rightarrow> int" where
  "clampInt64 v = (if int v > 2 ^ 63 - 1 then 2 ^ 63 - 1 else int v)"

definition geo_row_of :: "nat \<Rightarrow> string \<Rightarrow> (string \<times> rat) list \<Rightarrow> string \<times> CountryStat \<Rightarrow> geo_row" where
  "geo_row_of sid provider pct e = (case e of (code, s) \<Rightarrow>
     \<lparr>gr_snapshot_id = sid, gr_provider_id = provider, gr_country_code = code, gr_country_name = nullable (cs_name s),
      gr_continent_code = nullable (cs_continent_code s), gr_continent_name = nullable (cs_continent_name s),
      gr_ipv4_addresses = clampInt64 (cs_ipv4 s), gr_ipv6_net64s = clampInt64 (cs_net64s s),
      gr_ipv4_share = (case map_of pct code of None \<Rightarrow> 0 | Some v \<Rightarrow> v),
      gr_prefix_count_v4 = cs_count_v4 s, gr_prefix_count_v6 = cs_count_v6 s, gr_target_count = 0\<rparr>)"

definition geo_key :: "geo_row \<Rightarrow> nat \<times> string \<times> string" where
  "geo_key g = (gr_snapshot_id g, gr_provider_id g, gr_country_code g)"

definition upsert_geo :: "geo_row \<Rightarrow> geo_row list \<Rightarrow> geo_row list" where
  "upsert_geo g gs =
     (if geo_key g \<in> geo_key ` set gs
      then update_where (\<lambda>h. geo_key h = geo_key g)
        (\<lambda>h. h\<lparr>gr_ipv4_addresses := gr_ipv4_addresses g, gr_ipv6_net64s := gr_ipv6_net64s g, gr_ipv4_share := gr_ipv4_share g,
           gr_prefix_count_v4 := gr_prefix_count_v4 g, gr_prefix_count_v6 := gr_prefix_count_v6 g\<rparr>) gs
      else gs @ [g])"

definition distribution_rows :: "nat \<Rightarrow> (string \<times> names) list \<Rightarrow> geo_row list" where
  "distribution_rows sid byProvider =
     [geo_row_of sid provider (shares stats) e. (provider, stats) \<leftarrow> byProvider, e \<leftarrow> stats]"

text \<open>\<open>keys\<close> is the order in which the groups of \<open>distribute\<close> are walked.\<close>

definition loadDistribution ::
  "faults \<Rightarrow> (string \<times> bool) list \<Rightarrow> nat \<Rightarrow> prefixRow list \<Rightarrow> GeoSource option \<Rightarrow> routing_schema \<Rightarrow> (nat \<times> routing_schema) option" where
  "loadDistribution F keys sid rows src R =
     (let new = distribution_rows sid (distribute keys rows (map_option gs_Ranges src)) in
      if F ''distribution.begin'' \<or> (F ''distribution.insert'' \<and> new \<noteq> []) \<or> F ''distribution.commit'' then None
      else Some (length new, R\<lparr>provider_geo := fold upsert_geo new (provider_geo R)\<rparr>))"

subsection \<open>Gate and publication\<close>

definition prefix_total :: "snapshot_row \<Rightarrow> int" where
  "prefix_total s = int (sn_prefix_count_v4 s) + int (sn_prefix_count_v6 s)"

definition sanityGate :: "faults \<Rightarrow> build_config \<Rightarrow> nat \<Rightarrow> routing_schema \<Rightarrow> build_error option" where
  "sanityGate F cfg sid R =
     (if F ''gate.previous'' then Some GateError
      else case newest_published R of
        None \<Rightarrow> None
      | Some prev \<Rightarrow>
          (case (if F ''gate.new'' then None else lookup_by sn_id sid (snapshots R)) of
             None \<Rightarrow> Some GateError
           | Some new \<Rightarrow>
               if prefix_total prev = 0 then None
               else
                 (let delta = of_int (prefix_total new - prefix_total prev) / of_int (prefix_total prev);
                      size = (if delta < 0 then - delta else delta) in
                  if size > bc_SanityMaxDelta cfg \<and> \<not> bc_SanityForce cfg then Some ErrSanityGate else None)))"

definition publish :: "faults \<Rightarrow> time \<Rightarrow> nat \<Rightarrow> routing_schema \<Rightarrow> routing_schema option" where
  "publish F now sid R =
     (if F ''flip.begin'' \<or> F ''flip.supersede'' \<or> F ''flip.publish'' \<or> F ''flip.commit'' then None
      else Some (flip_published now sid R))"

text \<open>The publisher the builder was made with; \<open>sqlite_file\<close> renders an export as a file.\<close>

record 's publisher =
  pb_crypto :: crypto
  pb_codec :: artifact_codec
  pb_store :: "'s store_ops"
  pb_sqlite_file :: "artifact_db \<Rightarrow> bytes"
  pb_key :: bytes
  pb_min_worker :: string

text \<open>What a run meets: the website, the dump, the GeoIP files, the failing statements, the clock at each step, the order of a map.\<close>

record build_env =
  be_faults :: faults
  be_site :: site
  be_rows_of :: "json \<Rightarrow> Provider list option"
  be_dump :: "string \<Rightarrow> mrt_lib"
  be_geo_open :: "string \<Rightarrow> GeoSource option"
  be_clock :: "string \<Rightarrow> time"
  be_order :: "prefixRow list \<Rightarrow> (string \<times> bool) list"

definition geo_source :: "build_env \<Rightarrow> build_config \<Rightarrow> build_error + GeoSource option" where
  "geo_source E cfg =
     (case bc_GeoSource cfg of
        Some src \<Rightarrow> Inr (Some src)
      | None \<Rightarrow>
          if bc_CityMMDB cfg \<noteq> [] then (case be_geo_open E (bc_CityMMDB cfg) of None \<Rightarrow> Inl GeoError | Some src \<Rightarrow> Inr (Some src))
          else Inr None)"

text \<open>
  From the sync to the sanity gate only the database changes. The result has the error and the tables at
  that point, or the new snapshot: \<open>gather\<close> ends before the load, \<open>store_snapshot\<close> before the gate.
\<close>

definition gather :: "build_env \<Rightarrow> build_config \<Rightarrow> routing_schema \<Rightarrow> (build_error + prefixRow list \<times> Stats \<times> GeoSource option) \<times> routing_schema" where
  "gather E cfg R =
     (case SyncProviders (be_faults E) (be_site E) (be_rows_of E) (be_clock E ''sync'') R of
        Inl e \<Rightarrow> (Inl (SyncError e), R)
      | Inr (m, R1) \<Rightarrow>
          (case extract_rows (be_dump E (bc_BviewPath cfg)) (\<lambda>n. m (int n)) of
             None \<Rightarrow> (Inl ExtractError, R1)
           | Some (rows, stats) \<Rightarrow>
               (case geo_source E cfg of
                  Inl e \<Rightarrow> (Inl e, R1)
                | Inr None \<Rightarrow> (Inr (rows, stats, None), R1)
                | Inr (Some src) \<Rightarrow> (Inr (enrich rows src, stats, Some src), R1))))"

definition store_snapshot ::
  "build_env \<Rightarrow> build_config \<Rightarrow> prefixRow list \<Rightarrow> Stats \<Rightarrow> GeoSource option \<Rightarrow> routing_schema \<Rightarrow> (build_error + nat \<times> string) \<times> routing_schema" where
  "store_snapshot E cfg rows stats src R =
     (let F = be_faults E in
      case load F (bc_BviewPath cfg) (be_clock E ''load'') rows stats R of
        None \<Rightarrow> (Inl LoadError, R)
      | Some (sid, version, R1) \<Rightarrow>
          (case loadDistribution F (be_order E rows) sid rows src R1 of
             None \<Rightarrow> (Inl DistributionError, R1)
           | Some (written, R2) \<Rightarrow>
               (case deriveTargets F (bc_MaxTargetsPerProvider cfg) (bc_MaxTargetsPerCountry cfg) sid R2 of
                  None \<Rightarrow> (Inl DeriveError, R2)
                | Some (targets, R3) \<Rightarrow>
                    (case countTargetsByCountry F sid R3 of
                       None \<Rightarrow> (Inl CountError, R3)
                     | Some R4 \<Rightarrow> (Inr (sid, version), R4)))))"

definition assemble :: "build_env \<Rightarrow> build_config \<Rightarrow> routing_schema \<Rightarrow> (build_error + nat \<times> string) \<times> routing_schema" where
  "assemble E cfg R =
     (case gather E cfg R of
        (Inl e, R1) \<Rightarrow> (Inl e, R1)
      | (Inr (rows, stats, src), R1) \<Rightarrow>
          (case store_snapshot E cfg rows stats src R1 of
             (Inl e, R2) \<Rightarrow> (Inl e, R2)
           | (Inr (sid, version), R2) \<Rightarrow>
               (case sanityGate (be_faults E) cfg sid R2 of
                  Some e \<Rightarrow> (Inl e, R2)
                | None \<Rightarrow> (Inr (sid, version), R2))))"

definition Run ::
  "build_env \<Rightarrow> build_config \<Rightarrow> 's publisher option \<Rightarrow> 's \<Rightarrow> routing_schema \<Rightarrow> scheduling_schema \<Rightarrow>
     build_error option \<times> 's \<times> routing_schema \<times> scheduling_schema" where
  "Run E cfg pub st R S =
     (let F = be_faults E in
      case assemble E cfg R of
        (Inl e, R1) \<Rightarrow> (Some e, st, R1, S)
      | (Inr (sid, version), R1) \<Rightarrow>
          (case pub of
             None \<Rightarrow>
               (case publish F (be_clock E ''publish'') sid R1 of
                  None \<Rightarrow> (Some PublishError, st, R1, S)
                | Some R2 \<Rightarrow> (None, st, R2, S))
           | Some p \<Rightarrow>
               (case Publish F (pb_crypto p) (pb_codec p) (pb_store p) (pb_sqlite_file p) (pb_key p) (pb_min_worker p)
                   (be_clock E ''artifact'') sid version st R1 of
                  (None, st1, R2) \<Rightarrow> (Some ArtifactError, st1, R2, S)
                | (Some man, st1, R2) \<Rightarrow>
                    (case publish F (be_clock E ''publish'') sid R2 of
                       None \<Rightarrow> (Some PublishError, st1, R2, S)
                     | Some R3 \<Rightarrow>
                         (case SetCurrent (pb_codec p) (pb_store p) (be_clock E ''pointer'') version st1 of
                            (ok, st2) \<Rightarrow>
                              if \<not> ok then (Some PointerError, st2, R3, S)
                              else
                                (case Prune F (pb_store p) (bc_RetainSnapshots cfg) st2 R3 S of
                                   (pruned, st3, R4, S4) \<Rightarrow> (if pruned then None else Some PruneError, st3, R4, S4)))))))"

section \<open>Extraction is exact\<close>

text \<open>The announcements that count: a record with a routable prefix, and one of its monitored origins.\<close>

definition announcements :: "(nat \<rightharpoonup> string) \<Rightarrow> Record list \<Rightarrow> (Record \<times> nat) list" where
  "announcements prov recs =
     [(rec, n). rec \<leftarrow> filter (\<lambda>rec. \<not> IsBogon (rc_prefix rec)) recs, n \<leftarrow> filter (\<lambda>n. prov n \<noteq> None) (rc_origins rec)]"

definition ad_key :: "Record \<times> nat \<Rightarrow> prefix \<times> nat" where
  "ad_key a = (rc_prefix (fst a), snd a)"

definition ad_peers :: "Record \<times> nat \<Rightarrow> int" where
  "ad_peers a = int (peer_count (rc_peer_counts (fst a)) (snd a))"

definition note_ad :: "(nat \<rightharpoonup> string) \<Rightarrow> Record \<times> nat \<Rightarrow> seen_rows \<Rightarrow> seen_rows" where
  "note_ad prov a = extract_origin prov (fst a) (snd a)"

lemma fold_extract_origin:
  "fold (extract_origin prov rec) ns seen = fold (note_ad prov) (map (Pair rec) (filter (\<lambda>n. prov n \<noteq> None) ns)) seen"
proof (induction ns arbitrary: seen)
  case (Cons n ns)
  have "prov n = None \<Longrightarrow> extract_origin prov rec n seen = seen" for seen by (simp add: extract_origin_def)
  then show ?case using Cons by (simp add: note_ad_def [of prov "(rec, n)"])
qed simp

lemma fold_extract_record:
  "snd (fold (extract_record prov) recs acc) = fold (note_ad prov) (announcements prov recs) (snd acc)"
proof (induction recs arbitrary: acc)
  case (Cons rec recs)
  have "snd (extract_record prov rec acc) = fold (note_ad prov) (announcements prov [rec]) (snd acc)"
    by (simp add: extract_record_def announcements_def fold_extract_origin)
  moreover have "announcements prov (rec # recs) = announcements prov [rec] @ announcements prov recs"
    by (simp add: announcements_def)
  ultimately show ?case using Cons by simp
qed (simp add: announcements_def)

text \<open>What is known of the row kept for a key after some announcements.\<close>

definition row_ok :: "(nat \<rightharpoonup> string) \<Rightarrow> (Record \<times> nat) list \<Rightarrow> prefix \<times> nat \<Rightarrow> prefixRow \<Rightarrow> bool" where
  "row_ok prov as key r \<longleftrightarrow> (pr_prefix r, pr_origin r) = key \<and> prov (snd key) = Some (pr_provider r) \<and> pr_geo r = no_info \<and>
     flag_int ''peer_count'' (pr_flags r) = Max (ad_peers ` {a \<in> set as. ad_key a = key}) \<and>
     flag_bool ''long_prefix'' (pr_flags r) = TooLong (fst key)"

lemma row_flags_get:
  "flag_int ''peer_count'' (row_flags rec n) = int (peer_count (rc_peer_counts rec) n)"
  "flag_bool ''long_prefix'' (row_flags rec n) = TooLong (rc_prefix rec)"
  by (simp_all add: row_flags_def flag_int_def flag_bool_def)

lemma flag_update:
  "flag_int k (AList.update k (JNum (of_nat n)) fl) = int n"
  "k' \<noteq> k \<Longrightarrow> flag_bool k' (AList.update k v fl) = flag_bool k' fl"
  by (simp_all add: flag_int_def flag_bool_def update_conv')

lemma note_ads:
  assumes "\<forall>a \<in> set as. prov (snd a) \<noteq> None"
  shows "distinct (map fst (fold (note_ad prov) as [])) \<and>
    (\<forall>key. map_of (fold (note_ad prov) as []) key = None \<longleftrightarrow> key \<notin> ad_key ` set as) \<and>
    (\<forall>key r. map_of (fold (note_ad prov) as []) key = Some r \<longrightarrow> row_ok prov as key r)"
  using assms
proof (induction as rule: rev_induct)
  case (snoc a as)
  let ?seen = "fold (note_ad prov) as []" and ?k = "ad_key a"
  obtain provider where p: "prov (snd a) = Some provider" using snoc.prems by auto
  have ih: "distinct (map fst ?seen)" "\<And>key. map_of ?seen key = None \<longleftrightarrow> key \<notin> ad_key ` set as"
    "\<And>key r. map_of ?seen key = Some r \<Longrightarrow> row_ok prov as key r" using snoc by auto
  have other: "row_ok prov (as @ [a]) key r = row_ok prov as key r" if "key \<noteq> ?k" for key r
  proof -
    have "{x \<in> set (as @ [a]). ad_key x = key} = {x \<in> set as. ad_key x = key}" using that by auto
    then show ?thesis by (simp add: row_ok_def)
  qed
  have ins: "{x \<in> set (as @ [a]). ad_key x = ?k} = insert a {x \<in> set as. ad_key x = ?k}" by auto
  show ?case
  proof (cases "map_of ?seen ?k")
    case None
    let ?row = "\<lparr>pr_prefix = rc_prefix (fst a), pr_origin = snd a, pr_provider = provider, pr_flags = row_flags (fst a) (snd a), pr_geo = no_info\<rparr>"
    have s: "fold (note_ad prov) (as @ [a]) [] = AList.update ?k ?row ?seen"
      using None p by (simp add: note_ad_def [of _ a] extract_origin_def ad_key_def Let_def)
    have "ad_key x \<noteq> ?k" if "x \<in> set as" for x using None ih(2) [of ?k] that by (metis image_eqI)
    then have "{x \<in> set (as @ [a]). ad_key x = ?k} = {a}" by auto
    then have "Max (ad_peers ` {x \<in> set (as @ [a]). ad_key x = ?k}) = ad_peers a" by (simp only: image_insert image_empty Max_singleton)
    then have "row_ok prov (as @ [a]) ?k ?row"
      using p unfolding row_ok_def by (simp add: row_flags_get ad_peers_def ad_key_def)
    then show ?thesis using ih other unfolding s by (auto simp: distinct_update update_conv')
  next
    case (Some row)
    note r = ih(3) [OF Some]
    let ?M = "ad_peers ` {x \<in> set as. ad_key x = ?k}"
    have "?k \<in> ad_key ` set as" using Some ih(2) [of ?k] by (metis option.distinct(1))
    then have ne: "?M \<noteq> {}" "finite ?M" by force+
    have mx: "Max (ad_peers ` {x \<in> set (as @ [a]). ad_key x = ?k}) = max (ad_peers a) (Max ?M)"
      unfolding ins image_insert by (rule Max_insert [OF ne(2,1)])
    let ?row = "if ad_peers a > flag_int ''peer_count'' (pr_flags row)
      then row\<lparr>pr_flags := AList.update ''peer_count'' (JNum (of_nat (nat (ad_peers a)))) (pr_flags row)\<rparr> else row"
    have s: "map_of (fold (note_ad prov) (as @ [a]) []) = (map_of ?seen)(?k \<mapsto> ?row)"
      "distinct (map fst (fold (note_ad prov) (as @ [a]) []))"
      using Some p ih(1)
      by (auto simp: note_ad_def [of _ a] extract_origin_def ad_key_def ad_peers_def Let_def update_conv distinct_update)
    have "row_ok prov (as @ [a]) ?k ?row"
      using r p unfolding row_ok_def mx by (auto simp: flag_update ad_peers_def)
    then show ?thesis using ih other s by auto
  qed
qed simp

lemma announcements_monitored: "a \<in> set (announcements prov recs) \<Longrightarrow> prov (snd a) \<noteq> None"
  by (auto simp: announcements_def)

lemma extract_rows_seen:
  assumes "extract_rows L prov = Some (rows, stats)"
  shows "rows = sort_key (pkey \<circ> pr_prefix)
    (map snd (fold (note_ad prov) (announcements prov (dump_records L (\<lambda>n. prov n \<noteq> None))) []))"
proof -
  obtain s dropped seen where s: "Mrt.Stream L (\<lambda>n. prov n \<noteq> None) (\<lambda>rec acc. Some (extract_record prov rec acc)) (0, []) = Some (True, s, dropped, seen)"
    "rows = sort_key (pkey \<circ> pr_prefix) (map snd seen)"
    using assms unfolding extract_rows_def by (auto split: option.split_asm if_split_asm)
  have "seen = snd (fold (extract_record prov) (dump_records L (\<lambda>n. prov n \<noteq> None)) (0, []))"
    using Stream_total [OF s(1)] by (metis snd_conv)
  then show ?thesis using s(2) fold_extract_record [of prov _ "(0, [])"] by simp
qed

lemma extract_rows_ok:
  assumes "extract_rows L prov = Some (rows, stats)"
  defines "as \<equiv> announcements prov (dump_records L (\<lambda>n. prov n \<noteq> None))"
  shows "distinct (map (\<lambda>r. (pr_prefix r, pr_origin r)) rows)" "(\<lambda>r. (pr_prefix r, pr_origin r)) ` set rows = ad_key ` set as"
    "r \<in> set rows \<Longrightarrow> row_ok prov as (pr_prefix r, pr_origin r) r" "sorted (map (pkey \<circ> pr_prefix) rows)"
proof -
  let ?seen = "fold (note_ad prov) as []"
  have all: "\<forall>a \<in> set as. prov (snd a) \<noteq> None" unfolding as_def using announcements_monitored by blast
  note na = note_ads [OF all]
  have n: "distinct (map fst ?seen)" "\<And>key. map_of ?seen key = None \<longleftrightarrow> key \<notin> ad_key ` set as"
    "\<And>key r. map_of ?seen key = Some r \<Longrightarrow> row_ok prov as key r"
    using na by blast+
  have rows: "rows = sort_key (pkey \<circ> pr_prefix) (map snd ?seen)" using extract_rows_seen [OF assms(1)] by (simp add: as_def)
  have key: "(pr_prefix r, pr_origin r) = k" if "(k, r) \<in> set ?seen" for k r
    using n(1,3) that by (auto simp: row_ok_def dest: map_of_is_SomeI)
  then have keys: "map (\<lambda>e. (pr_prefix (snd e), pr_origin (snd e))) ?seen = map fst ?seen" by (intro map_cong) auto
  have ms: "mset (map (\<lambda>r. (pr_prefix r, pr_origin r)) rows) = mset (map fst ?seen)"
  proof -
    have "mset (map (\<lambda>r. (pr_prefix r, pr_origin r)) rows) = mset (map (\<lambda>r. (pr_prefix r, pr_origin r)) (map snd ?seen))"
      unfolding rows mset_map mset_sort ..
    also have "map (\<lambda>r. (pr_prefix r, pr_origin r)) (map snd ?seen) = map fst ?seen" using keys by (simp only: map_map comp_def)
    finally show ?thesis .
  qed
  show "distinct (map (\<lambda>r. (pr_prefix r, pr_origin r)) rows)" using mset_eq_imp_distinct_iff [OF ms] n(1) by blast
  have "(\<lambda>r. (pr_prefix r, pr_origin r)) ` set rows = fst ` set ?seen"
    using mset_eq_setD [OF ms] by (simp only: set_map)
  also have "\<dots> = ad_key ` set as"
  proof (rule set_eqI)
    show "k \<in> fst ` set ?seen \<longleftrightarrow> k \<in> ad_key ` set as" for k using n(2) [of k] unfolding map_of_eq_None_iff by blast
  qed
  finally show "(\<lambda>r. (pr_prefix r, pr_origin r)) ` set rows = ad_key ` set as" .
  show "row_ok prov as (pr_prefix r, pr_origin r) r" if r: "r \<in> set rows"
  proof -
    have "r \<in> snd ` set ?seen" using r by (simp add: rows)
    then obtain k where "(k, r) \<in> set ?seen" by force
    then show ?thesis using n(1,3) key by (metis map_of_is_SomeI)
  qed
  show "sorted (map (pkey \<circ> pr_prefix) rows)" by (simp add: rows)
qed

lemma announcement_ok:
  assumes "a \<in> set (announcements prov (dump_records L monitored))"
  shows "prefix_ok (rc_prefix (fst a)) \<and> \<not> IsBogon (rc_prefix (fst a))"
  using assms dump_records_sound record_of_ok by (fastforce simp: announcements_def)

text \<open>
  C18. Extraction is exact: the rows are sorted, and there is one per pair of a routable prefix and a
  monitored origin announced for it in some record of the dump and none besides, attributed to the provider that
  owns the origin, with the visibility of the best record.
\<close>

theorem extraction_exact:
  assumes "extract_rows L prov = Some (rows, stats)"
  shows "sound_rows rows \<and> sorted (map (pkey \<circ> pr_prefix) rows) \<and> distinct (map (\<lambda>r. (pr_prefix r, pr_origin r)) rows) \<and>
    (\<forall>p n. (\<exists>r \<in> set rows. pr_prefix r = p \<and> pr_origin r = n) \<longleftrightarrow>
       \<not> IsBogon p \<and> prov n \<noteq> None \<and> (\<exists>rec \<in> set (dump_records L (\<lambda>n. prov n \<noteq> None)). rc_prefix rec = p \<and> n \<in> set (rc_origins rec))) \<and>
    (\<forall>r \<in> set rows. prov (pr_origin r) = Some (pr_provider r) \<and>
       flag_bool ''long_prefix'' (pr_flags r) = TooLong (pr_prefix r) \<and>
       flag_int ''peer_count'' (pr_flags r) = Max {int (peer_count (rc_peer_counts rec) (pr_origin r)) | rec.
         rec \<in> set (dump_records L (\<lambda>n. prov n \<noteq> None)) \<and> rc_prefix rec = pr_prefix r \<and> pr_origin r \<in> set (rc_origins rec)})"
proof -
  let ?recs = "dump_records L (\<lambda>n. prov n \<noteq> None)"
  let ?as = "announcements prov ?recs"
  note e = extract_rows_ok [OF assms]
  have in_as: "a \<in> set ?as \<longleftrightarrow> fst a \<in> set ?recs \<and> \<not> IsBogon (rc_prefix (fst a)) \<and> snd a \<in> set (rc_origins (fst a)) \<and> prov (snd a) \<noteq> None" for a
    by (cases a) (auto simp: announcements_def)
  have mem: "(\<exists>r \<in> set rows. pr_prefix r = p \<and> pr_origin r = n) \<longleftrightarrow> (\<exists>a \<in> set ?as. ad_key a = (p, n))" for p n
  proof -
    have "(\<exists>r \<in> set rows. pr_prefix r = p \<and> pr_origin r = n) \<longleftrightarrow> (p, n) \<in> (\<lambda>r. (pr_prefix r, pr_origin r)) ` set rows" by auto
    then show ?thesis unfolding e(2) by (auto simp: image_iff eq_commute)
  qed
  have "prefix_ok (pr_prefix r) \<and> \<not> IsBogon (pr_prefix r)" if "r \<in> set rows" for r
  proof -
    have "\<exists>a \<in> set ?as. ad_key a = (pr_prefix r, pr_origin r)" using mem [of "pr_prefix r" "pr_origin r"] that by blast
    then obtain a where "a \<in> set ?as" "ad_key a = (pr_prefix r, pr_origin r)" by blast
    then show ?thesis using announcement_ok [of a] by (simp add: ad_key_def)
  qed
  then have "sound_rows rows" by (simp add: sound_rows_def)
  moreover have "(\<exists>a \<in> set ?as. ad_key a = (p, n)) \<longleftrightarrow>
      \<not> IsBogon p \<and> prov n \<noteq> None \<and> (\<exists>rec \<in> set ?recs. rc_prefix rec = p \<and> n \<in> set (rc_origins rec))" (is "?l \<longleftrightarrow> ?r") for p n
  proof
    show "?r" if "?l" using that in_as unfolding ad_key_def by blast
    show "?l" if r: "?r"
    proof -
      obtain rec where "rec \<in> set ?recs" "rc_prefix rec = p" "n \<in> set (rc_origins rec)" using r by blast
      then have "(rec, n) \<in> set ?as" "ad_key (rec, n) = (p, n)" using r in_as [of "(rec, n)"] by (simp_all add: ad_key_def)
      then show ?thesis by blast
    qed
  qed
  moreover have "prov (pr_origin r) = Some (pr_provider r) \<and> flag_bool ''long_prefix'' (pr_flags r) = TooLong (pr_prefix r) \<and>
       flag_int ''peer_count'' (pr_flags r) = Max {int (peer_count (rc_peer_counts rec) (pr_origin r)) | rec.
         rec \<in> set ?recs \<and> rc_prefix rec = pr_prefix r \<and> pr_origin r \<in> set (rc_origins rec)}" if r: "r \<in> set rows" for r
  proof -
    have b: "\<not> IsBogon (pr_prefix r)" "prov (pr_origin r) \<noteq> None"
      using r \<open>sound_rows rows\<close> e(3) [OF r] by (auto simp: sound_rows_def row_ok_def)
    have "ad_peers ` {a \<in> set ?as. ad_key a = (pr_prefix r, pr_origin r)} = {int (peer_count (rc_peer_counts rec) (pr_origin r)) | rec.
         rec \<in> set ?recs \<and> rc_prefix rec = pr_prefix r \<and> pr_origin r \<in> set (rc_origins rec)}" (is "?A = ?B")
    proof
      show "?A \<subseteq> ?B" by (auto simp: in_as ad_key_def ad_peers_def simp del: not_None_eq)
      show "?B \<subseteq> ?A"
      proof
        fix x assume "x \<in> ?B"
        then obtain rec where "x = ad_peers (rec, pr_origin r)" "(rec, pr_origin r) \<in> set ?as" "ad_key (rec, pr_origin r) = (pr_prefix r, pr_origin r)"
          using b by (auto simp: in_as ad_key_def ad_peers_def simp del: not_None_eq)
        then show "x \<in> ?A" by blast
      qed
    qed
    then show ?thesis using e(3) [OF r] by (simp add: row_ok_def)
  qed
  ultimately show ?thesis using e(1,4) mem by blast
qed

section \<open>The tables under a run\<close>

text \<open>Keys are unique, identities come from the counters, prefixes and targets belong to known snapshots.\<close>

definition routing_ok :: "routing_schema \<Rightarrow> bool" where
  "routing_ok R \<longleftrightarrow>
     distinct (map sn_id (snapshots R)) \<and> (\<forall>s \<in> set (snapshots R). sn_id s < snapshot_seq R) \<and>
     distinct (map sn_version (snapshots R)) \<and>
     distinct (map px_id (prefixes R)) \<and> (\<forall>p \<in> set (prefixes R). px_id p < prefix_seq R \<and> px_snapshot_id p < snapshot_seq R) \<and>
     distinct (map tg_id (probe_targets R)) \<and> (\<forall>t \<in> set (probe_targets R). tg_id t < target_seq R \<and> tg_snapshot_id t < snapshot_seq R) \<and>
     distinct (map as_asn (asns R)) \<and> distinct (map p_provider_id (providers R))"

text \<open>What a failed build may do to the tables: only append, and only a snapshot that is not published.\<close>

definition appends :: "routing_schema \<Rightarrow> routing_schema \<Rightarrow> bool" where
  "appends R R' \<longleftrightarrow>
     (\<exists>new. snapshots R' = snapshots R @ new \<and> (\<forall>s \<in> set new. sn_status s = ''building'' \<and> snapshot_seq R \<le> sn_id s)) \<and>
     (\<exists>ps. prefixes R' = prefixes R @ ps) \<and> (\<exists>ts. probe_targets R' = probe_targets R @ ts) \<and> snapshot_seq R \<le> snapshot_seq R'"

definition grows :: "routing_schema \<Rightarrow> routing_schema \<Rightarrow> bool" where
  "grows R R' \<longleftrightarrow> (routing_ok R \<longrightarrow> routing_ok R') \<and> appends R R'"

lemma grows_refl [simp]: "grows R R"
  by (simp add: grows_def appends_def)

lemma grows_trans [trans]: "grows R1 R2 \<Longrightarrow> grows R2 R3 \<Longrightarrow> grows R1 R3"
  unfolding grows_def appends_def by (fastforce intro: order_trans)

text \<open>The provider sync writes providers and AS numbers only.\<close>

definition same_data :: "routing_schema \<Rightarrow> routing_schema \<Rightarrow> bool" where
  "same_data R R' \<longleftrightarrow> snapshots R' = snapshots R \<and> prefixes R' = prefixes R \<and> probe_targets R' = probe_targets R \<and>
     snapshot_seq R' = snapshot_seq R \<and> prefix_seq R' = prefix_seq R \<and> target_seq R' = target_seq R"

lemma upsert_provider_same [simp]: "same_data R (upsert_provider now p R)" "asns (upsert_provider now p R) = asns R"
  by (simp_all add: same_data_def upsert_provider_def Let_def)

lemma upsert_asn_same:
  "same_data R (upsert_asn now asn pid R)"
  "distinct (map as_asn (asns R)) \<Longrightarrow> distinct (map as_asn (asns (upsert_asn now asn pid R)))"
  by (auto simp: same_data_def upsert_asn_def update_where_proj)

lemma sync_asns_same:
  "sync_asns F now pid as (m, R) = Inr (m', R') \<Longrightarrow>
   same_data R R' \<and> (distinct (map as_asn (asns R)) \<longrightarrow> distinct (map as_asn (asns R')))"
proof (induction as arbitrary: m R)
  case (Cons asn as)
  let ?m = "m(asn mod 2 ^ 32 \<mapsto> pid)" and ?R = "upsert_asn now asn pid R"
  have "sync_asns F now pid as (?m, ?R) = Inr (m', R')" using Cons.prems by (auto simp: Let_def split: option.split_asm if_split_asm)
  from Cons.IH [OF this] show ?case using upsert_asn_same [where R = R and now = now and asn = asn and pid = pid] by (auto simp: same_data_def)
qed (simp add: same_data_def)

lemma sync_each_same:
  "sync_each F now ps (m, R) = Inr (m', R') \<Longrightarrow>
   same_data R R' \<and> (distinct (map as_asn (asns R)) \<longrightarrow> distinct (map as_asn (asns R')))"
proof (induction ps arbitrary: m R)
  case (Cons p ps)
  obtain m1 R1 where 1: "sync_asns F now (pr_id p) (pr_asns p) (m, upsert_provider now p R) = Inr (m1, R1)"
    "sync_each F now ps (m1, R1) = Inr (m', R')"
    using Cons.prems by (auto simp: and_then_Inr_iff split: if_split_asm)
  show ?case using Cons.IH [OF 1(2)] sync_asns_same [OF 1(1)] upsert_provider_same [where R = R and now = now and p = p] by (auto simp: same_data_def)
qed (simp add: same_data_def)

lemma SyncProviders_grows:
  assumes "SyncProviders F site rows_of now R = Inr (m, R')"
  shows "grows R R'" "same_data R R'"
proof -
  obtain ps R1 where e: "sync_each F now ps (\<lambda>_. None, R) = Inr (m, R1)" "R' = delist_missing now (map pr_id ps) R1"
    using assms by (auto simp: SyncProviders_def and_then_Inr_iff split: if_split_asm prod.split_asm)
  have d: "same_data R1 R'" "asns R' = asns R1" "map p_provider_id (providers R') = map p_provider_id (providers R1)"
    by (simp_all add: e(2) delist_missing_def same_data_def update_where_proj)
  have "distinct (map p_provider_id (providers R)) \<Longrightarrow> distinct (map p_provider_id (providers R1))"
    using sync_each_ok [OF e(1), of "{}"] by simp
  then show "same_data R R'" "grows R R'"
    using sync_each_same [OF e(1)] d by (auto simp: same_data_def grows_def appends_def routing_ok_def)
qed

lemma load_facts:
  assumes "load F path now rows stats R = Some (sid, version, R')"
  shows "grows R R'" "sid = snapshot_seq R" "version \<notin> sn_version ` set (snapshots R)"
    "snapshots R' = snapshots R @ [new_snapshot path now sid rows stats]" "version = sn_version (new_snapshot path now sid rows stats)"
    "probe_targets R' = probe_targets R" "snapshot_seq R' = sid + 1" "asns R' = asns R"
    "prefixes R' = prefixes R @ map (loaded_prefix sid) (enumerate (prefix_seq R) rows)"
proof -
  have s: "sid = snapshot_seq R" "version \<notin> sn_version ` set (snapshots R)" "version = sn_version (new_snapshot path now sid rows stats)"
    "R' = R\<lparr>snapshots := snapshots R @ [new_snapshot path now sid rows stats], snapshot_seq := sid + 1,
       prefixes := prefixes R @ map (loaded_prefix sid) (enumerate (prefix_seq R) rows), prefix_seq := prefix_seq R + length rows\<rparr>"
    using assms by (auto simp: load_def Let_def split: if_split_asm)
  have ids: "map px_id (map (loaded_prefix sid) (enumerate (prefix_seq R) rows)) = [prefix_seq R ..< prefix_seq R + length rows]"
    by (simp add: loaded_prefix_def comp_def case_prod_beta)
  have row: "px_id p < prefix_seq R + length rows \<and> prefix_seq R \<le> px_id p \<and> px_snapshot_id p = sid"
    if "p \<in> set (map (loaded_prefix sid) (enumerate (prefix_seq R) rows))" for p
    using that by (auto simp: loaded_prefix_def in_set_enumerate_eq)
  have "routing_ok R'" if "routing_ok R"
  proof -
    have "distinct (map px_id (prefixes R'))"
    proof -
      have "map px_id (prefixes R') = map px_id (prefixes R) @ [prefix_seq R ..< prefix_seq R + length rows]" using ids by (simp add: s(4))
      moreover have "\<forall>p \<in> set (prefixes R). px_id p < prefix_seq R" "distinct (map px_id (prefixes R))" using that by (auto simp: routing_ok_def)
      ultimately show ?thesis by auto
    qed
    moreover have "px_id p < prefix_seq R' \<and> px_snapshot_id p < snapshot_seq R'" if "p \<in> set (prefixes R')" for p
    proof (cases "p \<in> set (prefixes R)")
      case True
      then have "px_id p < prefix_seq R \<and> px_snapshot_id p < snapshot_seq R" using \<open>routing_ok R\<close> by (simp add: routing_ok_def)
      then show ?thesis by (simp add: s)
    next
      case False
      then have "p \<in> set (map (loaded_prefix sid) (enumerate (prefix_seq R) rows))" using that by (simp add: s)
      from row [OF this] show ?thesis by (simp add: s)
    qed
    moreover have "distinct (map sn_id (snapshots R'))" "\<forall>x \<in> set (snapshots R'). sn_id x < snapshot_seq R'" "distinct (map sn_version (snapshots R'))"
      using that s by (auto simp: routing_ok_def new_snapshot_def)
    moreover have "\<forall>t \<in> set (probe_targets R'). tg_id t < target_seq R' \<and> tg_snapshot_id t < snapshot_seq R'"
      using that s(1) by (auto simp: routing_ok_def s(4))
    ultimately show ?thesis using that by (simp add: routing_ok_def s(4))
  qed
  then show "grows R R'" using s by (simp add: grows_def appends_def new_snapshot_def)
qed (use assms in \<open>auto simp: load_def Let_def split: if_split_asm\<close>)

lemma loadDistribution_facts:
  assumes "loadDistribution F keys sid rows src R = Some (written, R')"
  shows "grows R R'" "R' = R\<lparr>provider_geo := provider_geo R'\<rparr>"
proof -
  have e: "R' = R\<lparr>provider_geo := fold upsert_geo (distribution_rows sid (distribute keys rows (map_option gs_Ranges src))) (provider_geo R)\<rparr>"
    using assms by (auto simp: loadDistribution_def Let_def split: if_split_asm)
  then show "R' = R\<lparr>provider_geo := provider_geo R'\<rparr>" by simp
  show "grows R R'" by (simp add: e grows_def appends_def routing_ok_def)
qed

lemma deriveTargets_facts:
  assumes "deriveTargets F mp mc sid R = Some (n, R')" "routing_ok R \<Longrightarrow> sid < snapshot_seq R"
  shows "grows R R'" "snapshots R' = snapshots R" "prefixes R' = prefixes R" "snapshot_seq R' = snapshot_seq R"
    "probe_targets R' = probe_targets R @ map (target_of sid) (enumerate (target_seq R) (chosen mp mc sid R))"
proof -
  let ?cs = "chosen mp mc sid R"
  have e: "R' = R\<lparr>probe_targets := probe_targets R @ map (target_of sid) (enumerate (target_seq R) ?cs), target_seq := target_seq R + length ?cs\<rparr>"
    using assms by (auto simp: deriveTargets_def Let_def split: if_split_asm)
  have ids: "map tg_id (map (target_of sid) (enumerate (target_seq R) ?cs)) = [target_seq R ..< target_seq R + length ?cs]"
    by (simp add: target_of_def comp_def case_prod_beta)
  have row: "tg_id t < target_seq R + length ?cs \<and> tg_snapshot_id t = sid" if "t \<in> set (map (target_of sid) (enumerate (target_seq R) ?cs))" for t
    using that by (auto simp: target_of_def in_set_enumerate_eq)
  have "routing_ok R'" if "routing_ok R"
  proof -
    have "distinct (map tg_id (probe_targets R'))"
    proof -
      have "map tg_id (probe_targets R') = map tg_id (probe_targets R) @ [target_seq R ..< target_seq R + length ?cs]" using ids by (simp add: e)
      moreover have "\<forall>t \<in> set (probe_targets R). tg_id t < target_seq R" "distinct (map tg_id (probe_targets R))" using that by (auto simp: routing_ok_def)
      ultimately show ?thesis by auto
    qed
    moreover have "tg_id t < target_seq R' \<and> tg_snapshot_id t < snapshot_seq R'" if "t \<in> set (probe_targets R')" for t
    proof (cases "t \<in> set (probe_targets R)")
      case True
      then have "tg_id t < target_seq R \<and> tg_snapshot_id t < snapshot_seq R" using \<open>routing_ok R\<close> by (simp add: routing_ok_def)
      then show ?thesis by (simp add: e)
    next
      case False
      then have "t \<in> set (map (target_of sid) (enumerate (target_seq R) ?cs))" using that by (simp add: e)
      from row [OF this] show ?thesis using assms(2) \<open>routing_ok R\<close> by (simp add: e)
    qed
    ultimately show ?thesis using that by (simp add: routing_ok_def e)
  qed
  then show "grows R R'" by (simp add: grows_def appends_def e)
  show "snapshots R' = snapshots R" "prefixes R' = prefixes R" "snapshot_seq R' = snapshot_seq R"
    "probe_targets R' = probe_targets R @ map (target_of sid) (enumerate (target_seq R) ?cs)" by (simp_all add: e)
qed

lemma countTargets_facts:
  assumes "countTargetsByCountry F sid R = Some R'"
  shows "grows R R'" "R' = R\<lparr>provider_geo := provider_geo R'\<rparr>"
  using assms by (auto simp: countTargetsByCountry_def grows_def appends_def routing_ok_def split: if_split_asm)

lemma gather_grows: "gather E cfg R = (r, R') \<Longrightarrow> grows R R' \<and> (\<forall>e. r = Inl e \<longrightarrow> e \<noteq> PointerError \<and> e \<noteq> PruneError)"
  using SyncProviders_grows(1)
  by (auto simp: gather_def geo_source_def split: sum.split_asm option.split_asm if_split_asm prod.split_asm)

text \<open>The snapshot, the prefixes and the targets that a successful load leaves.\<close>

definition stored :: "build_env \<Rightarrow> build_config \<Rightarrow> prefixRow list \<Rightarrow> Stats \<Rightarrow> routing_schema \<Rightarrow> nat \<Rightarrow> string \<Rightarrow> routing_schema \<Rightarrow> bool" where
  "stored E cfg rows stats R sid version R' \<longleftrightarrow>
     sid = snapshot_seq R \<and> version \<notin> sn_version ` set (snapshots R) \<and>
     version = sn_version (new_snapshot (bc_BviewPath cfg) (be_clock E ''load'') sid rows stats) \<and>
     snapshots R' = snapshots R @ [new_snapshot (bc_BviewPath cfg) (be_clock E ''load'') sid rows stats] \<and>
     prefixes R' = prefixes R @ map (loaded_prefix sid) (enumerate (prefix_seq R) rows) \<and>
     (\<exists>R2. grows R R2 \<and> prefixes R2 = prefixes R' \<and> probe_targets R' = probe_targets R @ map (target_of sid)
        (enumerate (target_seq R2) (chosen (bc_MaxTargetsPerProvider cfg) (bc_MaxTargetsPerCountry cfg) sid R2)))"

lemma store_grows:
  assumes "store_snapshot E cfg rows stats src R = (r, R')"
  shows "grows R R' \<and> (case r of Inl e \<Rightarrow> e \<noteq> PointerError \<and> e \<noteq> PruneError | Inr (sid, version) \<Rightarrow> stored E cfg rows stats R sid version R')"
proof (cases "load (be_faults E) (bc_BviewPath cfg) (be_clock E ''load'') rows stats R")
  case None
  then show ?thesis using assms by (auto simp: store_snapshot_def Let_def)
next
  case load: (Some l)
  obtain sid version R1 where l: "l = (sid, version, R1)" by (cases l)
  note lf = load_facts [OF load [unfolded l]]
  show ?thesis
  proof (cases "loadDistribution (be_faults E) (be_order E rows) sid rows src R1")
    case None
    then show ?thesis using assms load l lf(1) by (auto simp: store_snapshot_def Let_def)
  next
    case dist: (Some d)
    obtain k R2 where d: "d = (k, R2)" by (cases d)
    note df = loadDistribution_facts [OF dist [unfolded d]]
    have g2: "grows R R2" using grows_trans [OF lf(1) df(1)] .
    have f2: "snapshots R2 = snapshots R1" "prefixes R2 = prefixes R1" "probe_targets R2 = probe_targets R1" "snapshot_seq R2 = snapshot_seq R1"
      by (subst df(2), simp)+
    show ?thesis
    proof (cases "deriveTargets (be_faults E) (bc_MaxTargetsPerProvider cfg) (bc_MaxTargetsPerCountry cfg) sid R2")
      case None
      then show ?thesis using assms load l dist d g2 by (auto simp: store_snapshot_def Let_def)
    next
      case der: (Some t)
      obtain n R3 where t: "t = (n, R3)" by (cases t)
      have "sid < snapshot_seq R2" using lf(7) f2(4) by simp
      note tf = deriveTargets_facts [OF der [unfolded t] this]
      have g3: "grows R R3" using grows_trans [OF g2 tf(1)] .
      show ?thesis
      proof (cases "countTargetsByCountry (be_faults E) sid R3")
        case None
        then show ?thesis using assms load l dist d der t g3 by (auto simp: store_snapshot_def Let_def)
      next
        case cnt: (Some R4)
        have r: "r = Inr (sid, version)" "R' = R4" using assms load l dist d der t cnt by (auto simp: store_snapshot_def Let_def)
        note cf = countTargets_facts [OF cnt]
        have "snapshots R4 = snapshots R3" "prefixes R4 = prefixes R3" "probe_targets R4 = probe_targets R3"
          by (subst cf(2), simp)+
        then have "stored E cfg rows stats R sid version R4" using lf tf f2 g2 unfolding stored_def by (intro conjI exI [of _ R2]) simp_all
        then show ?thesis using r grows_trans [OF g3 cf(1)] by simp
      qed
    qed
  qed
qed

lemma assemble_grows:
  assumes "assemble E cfg R = (r, R')"
  shows "grows R R' \<and> (case r of Inl e \<Rightarrow> e \<noteq> PointerError \<and> e \<noteq> PruneError
    | Inr (sid, version) \<Rightarrow> \<exists>rows stats src R1. gather E cfg R = (Inr (rows, stats, src), R1) \<and> stored E cfg rows stats R1 sid version R' \<and>
        grows R R1 \<and> sanityGate (be_faults E) cfg sid R' = None)"
proof (cases "gather E cfg R")
  case (Pair g R1)
  note gg = gather_grows [OF Pair]
  show ?thesis
  proof (cases g)
    case (Inl e)
    then show ?thesis using assms Pair gg by (auto simp: assemble_def)
  next
    case (Inr x)
    obtain rows stats src where x: "x = (rows, stats, src)" by (cases x)
    obtain r2 R2 where s: "store_snapshot E cfg rows stats src R1 = (r2, R2)" by fastforce
    note sg = store_grows [OF s]
    have g: "grows R R2" using grows_trans gg sg by blast
    have ne: "sanityGate F cfg sid R2 = Some e \<Longrightarrow> e \<noteq> PointerError \<and> e \<noteq> PruneError" for F sid e
      by (auto simp: sanityGate_def Let_def split: option.split_asm if_split_asm)
    show ?thesis
      using assms Pair Inr x s sg gg g ne by (auto simp: assemble_def split: sum.split_asm option.split_asm)
  qed
qed

section \<open>Publication\<close>

lemma Publish_tables:
  assumes "Publish F C J ops sqlite_file key minv now sid version st R = (r, st', R')"
  shows "R' = (case r of None \<Rightarrow> R | Some m \<Rightarrow> set_artifact sid m R)"
proof (cases r)
  case None
  then show ?thesis using assms by (auto simp: Publish_def Let_def split: if_split_asm option.split_asm prod.split_asm)
next
  case (Some m)
  with assms show ?thesis by (auto elim: Publish_ok)
qed

lemma man_Sign_key: "man_Sign C J key m = Some m' \<Longrightarrow> m_object_key m' = m_object_key m"
  by (auto simp: man_Sign_def split: option.split_asm)

lemma Publish_pointer:
  assumes "Publish F C J (FSStore F' dir) sqlite_file key minv now sid version st R = (r, st', R')"
  shows "fs_get dir PointerKey st' = fs_get dir PointerKey st"
proof -
  have get: "st_get (FSStore F' dir) = fs_get dir" by (simp add: FSStore_def)
  have keep: "fs_get dir PointerKey (snd (st_put (FSStore F' dir) k b s)) = fs_get dir PointerKey s"
    if "k = ObjectKeySQLite version \<or> k = ObjectKeyManifest version" for k b s
  proof -
    have "PointerKey \<noteq> k" using that by (auto simp: PointerKey_def ObjectKeySQLite_def ObjectKeyManifest_def)
    then show ?thesis using that fs.put_other [of k PointerKey F' dir b s] unfolding get by auto
  qed
  have put: "fs_get dir PointerKey s' = fs_get dir PointerKey s"
    if "st_put (FSStore F' dir) k b s = (ok, s')" "k = ObjectKeySQLite version \<or> k = ObjectKeyManifest version" for k b s ok s'
    using keep [OF that(2), of b s] that(1) by simp
  show ?thesis
    using assms
    by (auto simp: Publish_def Let_def put man_Sign_key split: if_split_asm option.split_asm prod.split_asm dest!: man_Sign_key put)
qed

lemma routing_ok_snapshots:
  assumes "routing_ok R" "map sn_id ss = map sn_id (snapshots R)" "map sn_version ss = map sn_version (snapshots R)"
  shows "routing_ok (R\<lparr>snapshots := ss\<rparr>)"
proof -
  have "sn_id ` set ss = sn_id ` set (snapshots R)" using assms(2) by (metis set_map)
  then have "\<forall>s \<in> set ss. sn_id s < snapshot_seq R" using assms(1) unfolding routing_ok_def by (metis image_iff)
  then show ?thesis using assms by (simp add: routing_ok_def)
qed

lemma routing_ok_artifact: "routing_ok R \<Longrightarrow> routing_ok (set_artifact sid m R)"
  unfolding set_artifact_def by (rule routing_ok_snapshots) (simp_all add: update_where_proj)

lemma routing_ok_flip: "routing_ok R \<Longrightarrow> routing_ok (flip_published now sid R)"
  unfolding flip_published_def by (rule routing_ok_snapshots) (simp_all add: update_where_proj)

text \<open>Pruning removes rows and nothing else.\<close>

definition thins :: "routing_schema \<Rightarrow> routing_schema \<Rightarrow> bool" where
  "thins R R' \<longleftrightarrow> snapshots R' = snapshots R \<and> asns R' = asns R \<and> providers R' = providers R \<and>
     snapshot_seq R' = snapshot_seq R \<and> prefix_seq R' = prefix_seq R \<and> target_seq R' = target_seq R \<and>
     (\<exists>P. prefixes R' = filter P (prefixes R)) \<and> (\<exists>Q. probe_targets R' = filter Q (probe_targets R))"

lemma some_filter [simp]: "\<exists>P. xs = filter P xs"
  by (rule exI [of _ "\<lambda>_. True"]) simp

lemma thins_refl: "thins R R"
  by (simp add: thins_def)

lemma thins_trans: "thins R1 R2 \<Longrightarrow> thins R2 R3 \<Longrightarrow> thins R1 R3"
  by (auto simp: thins_def)

lemma thins_prune:
  "thins R (prune_targets sid R)" "thins R (prune_geo sid R)" "thins R (prune_prefixes sid R)"
  by (auto simp: thins_def prune_targets_def prune_geo_def prune_prefixes_def)

lemma prune_each_thins: "prune_each F ops vs (st, R, S) = (ok, st', R', S') \<Longrightarrow> thins R R'"
proof (induction vs arbitrary: st R S)
  case (Cons v vs)
  let ?R1 = "prune_targets (sn_id v) R" let ?R2 = "prune_geo (sn_id v) ?R1" let ?R3 = "prune_prefixes (sn_id v) ?R2"
  have t1: "thins R ?R1" by (rule thins_prune)
  have t2: "thins R ?R2" by (rule thins_trans [OF t1 thins_prune(2)])
  have t3: "thins R ?R3" by (rule thins_trans [OF t2 thins_prune(3)])
  show ?case
  proof (cases "R' \<in> {R, ?R1, ?R2}")
    case False
    then obtain st2 S2 where "prune_each F ops vs (st2, ?R3, S2) = (ok, st', R', S')" using Cons.prems by (auto simp: Let_def split: if_split_asm)
    from thins_trans [OF t3 Cons.IH [OF this]] show ?thesis .
  qed (use t1 t2 thins_refl in auto)
qed (simp add: thins_refl)

lemma routing_ok_thins: "thins R R' \<Longrightarrow> routing_ok R \<Longrightarrow> routing_ok R'"
  by (auto simp: thins_def routing_ok_def distinct_map_filter)

lemma Prune_thins: "Prune F ops retain st R S = (ok, st', R', S') \<Longrightarrow> thins R R'"
  using prune_each_thins by (auto simp: Prune_def thins_refl split: if_split_asm)

lemma pointer_not_object [simp]: "PointerKey \<noteq> ObjectKeySQLite v" "PointerKey \<noteq> ObjectKeyManifest v"
  by (auto simp: PointerKey_def ObjectKeySQLite_def ObjectKeyManifest_def)

lemma prune_each_pointer:
  "prune_each F (FSStore F' dir) vs (st, R, S) = (ok, st', R', S') \<Longrightarrow> fs_get dir PointerKey st' = fs_get dir PointerKey st"
proof (induction vs arbitrary: st R S)
  case (Cons v vs)
  let ?ops = "FSStore F' dir"
  let ?st2 = "snd (st_delete ?ops (ObjectKeyManifest (sn_version v)) (snd (st_delete ?ops (ObjectKeySQLite (sn_version v)) st)))"
  have "st_get ?ops = fs_get dir" by (simp add: FSStore_def)
  then have d: "fs_get dir PointerKey ?st2 = fs_get dir PointerKey st"
    using fs.get_delete [of _ PointerKey F' dir] by simp
  show ?case
  proof (cases "st' = st")
    case False
    then obtain R2 S2 where "prune_each F ?ops vs (?st2, R2, S2) = (ok, st', R', S')" using Cons.prems by (auto simp: Let_def split: if_split_asm)
    from Cons.IH [OF this] d show ?thesis by simp
  qed simp
qed simp

definition is_published :: "snapshot_row \<Rightarrow> bool" where
  "is_published s \<longleftrightarrow> sn_status s = ''published''"

lemma grows_published: "grows R R' \<Longrightarrow> filter is_published (snapshots R') = filter is_published (snapshots R)"
  by (auto simp: grows_def appends_def is_published_def filter_empty_conv)

lemma artifact_published:
  assumes "\<forall>s \<in> set (snapshots R). sn_id s = sid \<longrightarrow> \<not> is_published s"
  shows "filter is_published (snapshots (set_artifact sid m R)) = filter is_published (snapshots R)"
proof -
  have "filter is_published (update_where (\<lambda>s. sn_id s = sid) (\<lambda>s. s\<lparr>sn_artifact := a\<rparr>) ss) = filter is_published ss"
    if "\<forall>s \<in> set ss. sn_id s = sid \<longrightarrow> \<not> is_published s" for ss a
    using that by (induction ss) (auto simp: is_published_def)
  then show ?thesis using assms by (simp add: set_artifact_def)
qed

lemma stored_new:
  assumes "stored E cfg rows stats R sid version R'" "routing_ok R" "s \<in> set (snapshots R')"
  shows "sn_id s = sid \<longleftrightarrow> s = last (snapshots R')"
  using assms by (auto simp: stored_def routing_ok_def new_snapshot_def)

lemma flip_published_ids:
  assumes "distinct (map sn_id (snapshots R))" and "sn \<in> set (snapshots R)"
  shows "map sn_id (filter is_published (snapshots (flip_published now (sn_id sn) R))) = [sn_id sn]"
proof -
  have "map sn_id (filter is_published
      (update_where (\<lambda>s. sn_id s = i) (\<lambda>s. s\<lparr>sn_status := ''published'', sn_published_at := Some now\<rparr>)
       (update_where (\<lambda>s. sn_status s = ''published'' \<and> sn_id s \<noteq> i) (\<lambda>s. s\<lparr>sn_status := ''superseded''\<rparr>) ss))) =
    map sn_id (filter (\<lambda>s. sn_id s = i) ss)" for i and ss :: "snapshot_row list"
    by (induction ss) (auto simp: is_published_def)
  then show ?thesis using filter_unique [OF assms] by (simp add: flip_published_def)
qed

text \<open>Where a failed run leaves the tables: after the gate only the artifact may have been recorded.\<close>

lemma run_failed:
  fixes st st' :: filesystem
  assumes "Run E cfg pub st R S = (Some e, st', R', S')" "e \<noteq> PointerError" "e \<noteq> PruneError"
    "\<forall>p \<in> set_option pub. pb_store p = FSStore F dir" "assemble E cfg R = (r, R1)"
  shows "S' = S \<and> fs_get dir PointerKey st' = fs_get dir PointerKey st \<and>
    (R' = R1 \<or> (\<exists>sid version m. r = Inr (sid, version) \<and> R' = set_artifact sid m R1))"
proof (cases r)
  case (Inl x)
  then show ?thesis using assms by (simp add: Run_def)
next
  case (Inr x)
  obtain sid version where x: "x = (sid, version)" by (cases x)
  show ?thesis
  proof (cases pub)
    case None
    then show ?thesis using assms Inr x by (auto simp: Run_def Let_def split: option.split_asm)
  next
    case (Some p)
    obtain man st1 R2 where p: "Publish (be_faults E) (pb_crypto p) (pb_codec p) (FSStore F dir) (pb_sqlite_file p) (pb_key p) (pb_min_worker p)
        (be_clock E ''artifact'') sid version st R1 = (man, st1, R2)" by (metis prod_cases3)
    have st: "pb_store p = FSStore F dir" using assms(4) Some by simp
    have "R' = R2 \<and> st' = st1 \<and> S' = S"
      using assms(1-3,5) Inr x Some p st by (auto simp: Run_def Let_def split: option.split_asm if_split_asm prod.split_asm)
    then show ?thesis using Publish_tables [OF p] Publish_pointer [OF p] Inr x by (cases man) auto
  qed
qed


lemma target_of_filter:
  "length (filter (\<lambda>t. tg_snapshot_id t = sid \<and> tg_provider_id t = provider) (map (target_of sid) (enumerate k cs))) =
   length (filter (\<lambda>c. ca_provider c = provider) cs)"
  by (induction cs arbitrary: k) (auto simp: target_of_def)

lemma stored_budget:
  assumes "stored E cfg rows stats R sid version R'" "routing_ok R"
  shows "int (length (filter (\<lambda>t. tg_snapshot_id t = sid \<and> tg_provider_id t = provider) (probe_targets R')))
    \<le> 2 * max 0 (bc_MaxTargetsPerProvider cfg)"
proof -
  let ?P = "\<lambda>t. tg_snapshot_id t = sid \<and> tg_provider_id t = provider"
  obtain R2 where r: "grows R R2" "probe_targets R' = probe_targets R @ map (target_of sid)
      (enumerate (target_seq R2) (chosen (bc_MaxTargetsPerProvider cfg) (bc_MaxTargetsPerCountry cfg) sid R2))" "sid = snapshot_seq R"
    using assms(1) by (auto simp: stored_def)
  have "filter ?P (probe_targets R) = []" using assms(2) r(3) by (auto simp: routing_ok_def filter_empty_conv)
  then have "length (filter ?P (probe_targets R')) =
      length (filter (\<lambda>c. ca_provider c = provider) (chosen (bc_MaxTargetsPerProvider cfg) (bc_MaxTargetsPerCountry cfg) sid R2))"
    using r(2) target_of_filter by simp
  moreover have "keyed R2" using r(1) assms(2) by (simp add: grows_def routing_ok_def keyed_def)
  ultimately show ?thesis using provider_budget by simp
qed

lemma run_succeeded:
  fixes st st' :: filesystem
  assumes "Run E cfg (Some p) st R S = (None, st', R', S')" "pb_store p = FSStore F dir"
  obtains sid version R1 m R2 raw where "assemble E cfg R = (Inr (sid, version), R1)"
    "thins (flip_published (be_clock E ''publish'') sid (set_artifact sid m R1)) R'"
    "ptr_marshal (pb_codec p) \<lparr>ptr_version = version, ptr_manifest_key = ObjectKeyManifest version, ptr_updated_at = be_clock E ''pointer''\<rparr> = Some raw"
    "fs_get dir PointerKey st' = Some raw"
proof -
  obtain sid version R1 where a: "assemble E cfg R = (Inr (sid, version), R1)"
    using assms(1) by (auto simp: Run_def Let_def split: prod.split_asm sum.split_asm)
  obtain man st1 R2 where p: "Publish (be_faults E) (pb_crypto p) (pb_codec p) (FSStore F dir) (pb_sqlite_file p) (pb_key p) (pb_min_worker p)
        (be_clock E ''artifact'') sid version st R1 = (man, st1, R2)" by (metis prod_cases3)
  obtain m where m: "man = Some m" using assms a p by (auto simp: Run_def Let_def split: option.split_asm)
  obtain R3 where f: "publish (be_faults E) (be_clock E ''publish'') sid R2 = Some R3"
    using assms a p m by (auto simp: Run_def Let_def split: option.split_asm)
  obtain ok st2 where c: "SetCurrent (pb_codec p) (FSStore F dir) (be_clock E ''pointer'') version st1 = (ok, st2)" by fastforce
  have pr: "ok" "Prune (be_faults E) (FSStore F dir) (bc_RetainSnapshots cfg) st2 R3 S = (True, st', R', S')"
    using assms a p m f c by (auto simp: Run_def Let_def split: if_split_asm prod.split_asm)
  have "R3 = flip_published (be_clock E ''publish'') sid (set_artifact sid m R1)"
    using f Publish_tables [OF p] m by (auto simp: publish_def split: if_split_asm)
  then have t: "thins (flip_published (be_clock E ''publish'') sid (set_artifact sid m R1)) R'" using Prune_thins [OF pr(2)] by simp
  have get: "st_get (FSStore F dir) = fs_get dir" by (simp add: FSStore_def)
  obtain raw where raw: "ptr_marshal (pb_codec p) \<lparr>ptr_version = version, ptr_manifest_key = ObjectKeyManifest version, ptr_updated_at = be_clock E ''pointer''\<rparr> = Some raw"
    "st_put (FSStore F dir) PointerKey raw st1 = (True, st2)"
    using c pr(1) by (auto simp: SetCurrent_def split: option.split_asm)
  then have "fs_get dir PointerKey st2 = Some raw" using fs.put_ok [of PointerKey F dir raw st1] unfolding get by simp
  moreover have "fs_get dir PointerKey st' = fs_get dir PointerKey st2"
    using pr(2) prune_each_pointer by (auto simp: Prune_def split: if_split_asm)
  ultimately show ?thesis using that a t raw(1) by simp
qed

text \<open>
  C8. A build that succeeds publishes exactly the snapshot it built: one snapshot is published, its
  version is new, the pointer of the store names it, and in it no provider has more targets than the
  configured budget of the two address families. The keys of all tables stay unique.
\<close>

theorem build_publishes:
  fixes st st' :: filesystem
  assumes "routing_ok R" and "Run E cfg (Some p) st R S = (None, st', R', S')" and "pb_store p = FSStore F dir"
  shows "routing_ok R' \<and>
    (\<exists>version raw. version \<notin> sn_version ` set (snapshots R) \<and> published_versions R' = [version] \<and>
       map sn_id (filter is_published (snapshots R')) = [snapshot_seq R] \<and>
       ptr_marshal (pb_codec p) \<lparr>ptr_version = version, ptr_manifest_key = ObjectKeyManifest version, ptr_updated_at = be_clock E ''pointer''\<rparr> = Some raw \<and>
       fs_get dir PointerKey st' = Some raw) \<and>
    (\<forall>provider. int (length (filter (\<lambda>t. tg_snapshot_id t = snapshot_seq R \<and> tg_provider_id t = provider) (probe_targets R')))
       \<le> 2 * max 0 (bc_MaxTargetsPerProvider cfg))"
  using assms(2,3)
proof (rule run_succeeded)
  fix sid version R1 m raw
  let ?R2 = "set_artifact sid m R1" let ?R3 = "flip_published (be_clock E ''publish'') sid ?R2"
  assume a: "assemble E cfg R = (Inr (sid, version), R1)" and t: "thins ?R3 R'"
    and raw: "ptr_marshal (pb_codec p) \<lparr>ptr_version = version, ptr_manifest_key = ObjectKeyManifest version, ptr_updated_at = be_clock E ''pointer''\<rparr> = Some raw"
    "fs_get dir PointerKey st' = Some raw"
  obtain rows stats src R0 where s: "stored E cfg rows stats R0 sid version R1" "grows R R0" "grows R R1" "gather E cfg R = (Inr (rows, stats, src), R0)"
    using assemble_grows [OF a] by auto
  have ok: "routing_ok R0" "routing_ok R1" "routing_ok ?R2" "routing_ok ?R3" using s assms(1) routing_ok_artifact routing_ok_flip by (auto simp: grows_def)
  have same: "same_data R R0" using s(4) SyncProviders_grows(2)
    by (auto simp: gather_def split: sum.split_asm option.split_asm prod.split_asm)
  then have sid: "sid = snapshot_seq R" "version \<notin> sn_version ` set (snapshots R)" using s(1) by (auto simp: stored_def same_data_def)
  let ?sn = "(last (snapshots R1))\<lparr>sn_artifact := Some (m_sha256 m, m_size_bytes m, m_signature m)\<rparr>"
  have sn: "?sn \<in> set (snapshots ?R2)" "sn_id ?sn = sid" "sn_version ?sn = version"
    using s(1) by (auto simp: stored_def new_snapshot_def set_artifact_def in_update_where)
  have "published_versions ?R3 = [version]"
    using flip_published_versions [of ?R2 ?sn] ok(3) sn by (simp add: routing_ok_def)
  moreover have "map sn_id (filter is_published (snapshots ?R3)) = [sid]"
    using flip_published_ids [of ?R2 ?sn] ok(3) sn by (simp add: routing_ok_def)
  moreover have "snapshots R' = snapshots ?R3" using t by (simp add: thins_def)
  moreover have "int (length (filter (\<lambda>t. tg_snapshot_id t = snapshot_seq R \<and> tg_provider_id t = provider) (probe_targets R')))
       \<le> 2 * max 0 (bc_MaxTargetsPerProvider cfg)" for provider
  proof -
    let ?P = "\<lambda>t. tg_snapshot_id t = sid \<and> tg_provider_id t = provider"
    obtain Q where q: "probe_targets R' = filter Q (probe_targets ?R3)" using t by (auto simp: thins_def)
    have "probe_targets ?R3 = probe_targets R1" by (simp add: flip_published_def set_artifact_def)
    then have "length (filter ?P (probe_targets R')) \<le> length (filter ?P (probe_targets R1))"
      by (simp add: q) (intro length_filter_le_filter, simp)
    then show ?thesis using stored_budget [OF s(1) ok(1), of provider] sid(1) by simp
  qed
  ultimately show ?thesis using sid raw routing_ok_thins [OF t ok(4)] by (simp add: published_versions_def)
qed

section \<open>Concrete builds\<close>

text \<open>A dump with one announcement, and a truncated one.\<close>

definition demo_rib :: rib where
  "demo_rib = \<lparr>rib_prefix = ''1.2.0.0/16'', rib_entries = [[AsPathAttr [As4PathParam 2 [174, 64500]]], [OtherAttr, AsPathAttr [As4PathParam 2 [64500]]]]\<rparr>"

definition demo_dump :: "bytes list \<Rightarrow> mrt_lib" where
  "demo_dump bufs = \<lparr>ml_file = Some ''bview'', ml_gunzip = (\<lambda>_. None), ml_scan = (\<lambda>_. (bufs, True)),
     ml_header = (\<lambda>_. Some \<lparr>mh_timestamp = 86400, mh_type = 13, mh_subtype = 2\<rparr>), ml_body = (\<lambda>_ _. Some (RibBody demo_rib))\<rparr>"

definition demo_owner :: "nat \<rightharpoonup> string" where
  "demo_owner n = (if n = 64500 then Some ''p1'' else None)"

definition demo_row :: prefixRow where
  "demo_row = \<lparr>pr_prefix = \<lparr>Addr = V4 16908288, Bits = 16\<rparr>, pr_origin = 64500, pr_provider = ''p1'', pr_flags = [(''peer_count'', JNum 2)], pr_geo = no_info\<rparr>"

lemma demo_origins: "origins_of_entries (rib_entries demo_rib) = ([64500], [(64500, 2)])"
  by (simp add: origins_of_entries_def demo_rib_def segment_origins_def as_set_def add_origin_def peer_count_def)

lemma demo_record_read: "read_record (demo_dump bufs) (\<lambda>n. demo_owner n \<noteq> None) buf s =
  (bump_matched (bump_records (note_timestamp \<lparr>mh_timestamp = 86400, mh_type = 13, mh_subtype = 2\<rparr> s)),
   Some \<lparr>rc_prefix = \<lparr>Addr = V4 16908288, Bits = 16\<rparr>, rc_origins = [64500], rc_peer_counts = [(64500, 2)]\<rparr>)"
proof -
  have p: "ParsePrefix (rib_prefix demo_rib) = Some \<lparr>Addr = V4 16908288, Bits = 16\<rparr>" by (simp add: demo_rib_def demo_parse)
  have m: "Masked \<lparr>Addr = V4 16908288, Bits = 16\<rparr> = \<lparr>Addr = V4 16908288, Bits = 16\<rparr>" by (simp add: Masked_def block_def)
  show ?thesis
    by (simp add: read_record_def demo_dump_def demo_origins p m TABLE_DUMPv2_def rib_subtypes_def demo_owner_def Let_def)
qed

lemma demo_routable: "\<not> IsBogon \<lparr>Addr = V4 16908288, Bits = 16\<rparr>"
  by (simp add: IsBogon_def bogons_eq parsed_bogons_def Overlaps_def is6_def)

lemma demo_extract_origin: "extract_origin demo_owner \<lparr>rc_prefix = \<lparr>Addr = V4 16908288, Bits = 16\<rparr>, rc_origins = [64500], rc_peer_counts = [(64500, 2)]\<rparr>
    64500 [] = [((\<lparr>Addr = V4 16908288, Bits = 16\<rparr>, 64500), demo_row)]"
  by (simp add: extract_origin_def demo_owner_def row_flags_def demo_row_def peer_count_def TooLong_def)

lemma demo_extract: "\<exists>stats. extract_rows (demo_dump [''r'']) demo_owner = Some ([demo_row], stats) \<and> ss_first_timestamp stats = 86400"
proof -
  have "Option.bind (ml_file (demo_dump [''r''])) (plain (demo_dump [''r''])) = Some ''bview''" "ml_scan (demo_dump [''r'']) ''bview'' = ([''r''], True)"
    by (simp_all add: demo_dump_def plain_def)
  then show ?thesis
    unfolding extract_rows_def Mrt.Stream_def
    by (simp add: demo_record_read demo_extract_origin extract_record_def demo_routable bump_matched_def bump_records_def note_timestamp_def no_stats_def
        del: not_None_eq)
qed

theorem extraction_exact_witness:
  "\<exists>rows stats. extract_rows (demo_dump [''r'']) demo_owner = Some (rows, stats) \<and> sound_rows rows \<and>
     (\<exists>r \<in> set rows. pr_prefix r = \<lparr>Addr = V4 16908288, Bits = 16\<rparr> \<and> pr_origin r = 64500)"
proof -
  obtain stats where "extract_rows (demo_dump [''r'']) demo_owner = Some ([demo_row], stats)" using demo_extract by blast
  from this extraction_exact [OF this] show ?thesis by (auto simp: demo_row_def)
qed

text \<open>A first build over an empty database, and a build over the published snapshot from a truncated dump.\<close>

definition demo_build_env :: "faults \<Rightarrow> bytes list \<Rightarrow> build_env" where
  "demo_build_env F bufs = \<lparr>be_faults = F, be_site = demo_catalog, be_rows_of = (\<lambda>_. Some [demo_provider]), be_dump = (\<lambda>_. demo_dump bufs),
     be_geo_open = (\<lambda>_. None), be_clock = (\<lambda>_. 7000000), be_order = grouped\<rparr>"

definition demo_build_config :: build_config where
  "demo_build_config = \<lparr>bc_BviewPath = ''bview'', bc_CityMMDB = [], bc_MaxTargetsPerProvider = 10, bc_MaxTargetsPerCountry = 0,
     bc_SanityMaxDelta = 1 / 2, bc_SanityForce = False, bc_RetainSnapshots = 2, bc_GeoSource = None\<rparr>"

definition demo_publisher :: "filesystem publisher" where
  "demo_publisher = \<lparr>pb_crypto = \<lparr>sha256 = (\<lambda>_. []), ed_public = (\<lambda>k. k), ed_sign = (\<lambda>_ _. ''s''), ed_verify = (\<lambda>_ _ _. True)\<rparr>,
     pb_codec = \<lparr>man_marshal = (\<lambda>_. Some ''m''), man_unmarshal = (\<lambda>_. Some (demo_manifest\<lparr>m_signature := b64_encode ''s''\<rparr>)),
       ptr_marshal = (\<lambda>p. Some (ptr_version p)), ptr_unmarshal = (\<lambda>_. None)\<rparr>,
     pb_store = FSStore no_faults ''/d'', pb_sqlite_file = (\<lambda>_. []), pb_key = ''k'', pb_min_worker = ''0''\<rparr>"

definition empty_routing :: routing_schema where
  "empty_routing = \<lparr>snapshots = [], providers = [], asns = [], prefixes = [], probe_targets = [], provider_geo = [],
     snapshot_seq = 0, prefix_seq = 0, target_seq = 0\<rparr>"

definition demo_synced :: "routing_schema \<Rightarrow> routing_schema" where
  "demo_synced R = delist_missing 7000000 [''p1''] (upsert_asn 7000000 64500 ''p1'' (upsert_provider 7000000 demo_provider R))"

lemma demo_sync:
  "SyncProviders no_faults demo_catalog (\<lambda>_. Some [demo_provider]) 7000000 R = Inr (\<lambda>n. if n = 64500 then Some ''p1'' else None, demo_synced R)"
proof -
  have "ListProviders demo_catalog (\<lambda>_. Some [demo_provider]) True = Inr [demo_provider]"
    by (simp add: ListProviders_def fetchPages_def maxPages_def numeral_eq_Suc doJSON_def demo_catalog_def)
  then show ?thesis by (auto simp: SyncProviders_def demo_provider_def fun_eq_iff demo_synced_def Let_def)
qed

lemma demo_synced_tables:
  "snapshots (demo_synced R) = snapshots R" "prefixes (demo_synced R) = prefixes R" "probe_targets (demo_synced R) = probe_targets R"
  "snapshot_seq (demo_synced R) = snapshot_seq R" "prefix_seq (demo_synced R) = prefix_seq R" "provider_geo (demo_synced R) = provider_geo R"
  "asns (demo_synced empty_routing) =
     [\<lparr>as_asn = 64500, as_provider_id = ''p1'', as_registry_name = None, as_registry_country = None, as_synced_at = 7000000\<rparr>]"
  by (simp_all add: demo_synced_def delist_missing_def upsert_asn_def upsert_provider_def Let_def empty_routing_def)

lemma demo_gather:
  "\<exists>stats. gather (demo_build_env no_faults [''r'']) demo_build_config R = (Inr ([demo_row], stats, None), demo_synced R) \<and> ss_first_timestamp stats = 86400"
  "gather (demo_build_env no_faults []) demo_build_config R = (Inr ([], no_stats, None), demo_synced R)"
proof -
  have o: "(\<lambda>n. if n = 64500 then Some ''p1'' else None) = demo_owner" by (auto simp: demo_owner_def fun_eq_iff)
  have e: "extract_rows (demo_dump []) demo_owner = Some ([], no_stats)"
    by (simp add: extract_rows_def Mrt.Stream_def demo_dump_def plain_def)
  show "\<exists>stats. gather (demo_build_env no_faults [''r'']) demo_build_config R = (Inr ([demo_row], stats, None), demo_synced R) \<and> ss_first_timestamp stats = 86400"
    using demo_extract by (auto simp: gather_def demo_build_env_def demo_build_config_def demo_sync o geo_source_def)
  show "gather (demo_build_env no_faults []) demo_build_config R = (Inr ([], no_stats, None), demo_synced R)"
    by (simp add: gather_def demo_build_env_def demo_build_config_def demo_sync o geo_source_def e)
qed

lemma demo_routing_ok: "routing_ok demo_routing" "routing_ok empty_routing"
  by (simp_all add: routing_ok_def demo_routing_def empty_routing_def)

lemma version_dash: "CHR ''-'' \<in> set (snapshot_version stats now)"
  by (simp add: snapshot_version_def)

lemma demo_gate:
  "\<exists>R'. Run (demo_build_env no_faults []) demo_build_config (Some demo_publisher) (\<lambda>_. None) demo_routing demo_scheduling =
     (Some ErrSanityGate, \<lambda>_. None, R', demo_scheduling)"
proof -
  let ?E = "demo_build_env no_faults []" and ?R = "demo_synced demo_routing" and ?v = "snapshot_version no_stats 7000000"
  have fresh: "?v \<notin> sn_version ` set (snapshots demo_routing)"
    using version_dash [of no_stats 7000000] by (auto simp: demo_routing_def)
  obtain R2 where l: "load no_faults ''bview'' 7000000 [] no_stats ?R = Some (2, ?v, R2)"
    using fresh by (simp add: load_def Let_def demo_synced_tables new_snapshot_def) (simp add: demo_routing_def)
  note lf = load_facts [OF l]
  obtain sid version R5 where s: "store_snapshot ?E demo_build_config [] no_stats None ?R = (Inr (sid, version), R5)"
    using l by (auto simp: store_snapshot_def demo_build_env_def demo_build_config_def loadDistribution_def deriveTargets_def countTargetsByCountry_def Let_def)
  then have st: "stored ?E demo_build_config [] no_stats ?R sid version R5" using store_grows [OF s] by simp
  then have sn: "sid = 2" "snapshots R5 = snapshots demo_routing @ [new_snapshot ''bview'' 7000000 2 [] no_stats]"
    by (auto simp: stored_def demo_synced_tables demo_build_config_def demo_build_env_def demo_routing_def)
  have "sanityGate no_faults demo_build_config sid R5 = Some ErrSanityGate"
    unfolding sanityGate_def newest_published_def sn
    by (simp add: demo_routing_def new_snapshot_def count_where_def prefix_total_def demo_build_config_def)
  then show ?thesis
    by (simp add: Run_def assemble_def demo_gather s) (simp add: demo_build_env_def)
qed


lemma decimal_digit: "n < 10 \<Longrightarrow> decimal n = [char_of (48 + n)]" "10 \<le> n \<Longrightarrow> decimal n = decimal (n div 10) @ [char_of (48 + n mod 10)]"
  by (subst decimal.simps, simp)+

lemma demo_printed: "prefix_String \<lparr>Addr = V4 16908288, Bits = 16\<rparr> = ''1.2.0.0/16''"
  by (simp add: prefix_String_def v4_text_def fields_of_def decimal_digit upt_rec char_of_eq_iff)

definition demo_loaded :: prefix_row where
  "demo_loaded = \<lparr>px_id = 0, px_snapshot_id = 0, px_prefix = ''1.2.0.0/16'', px_origin_asn = 64500, px_geo_country = None, px_geo_city = None,
     px_geo_lat = None, px_geo_lon = None, px_flags = [(''peer_count'', JNum 2)]\<rparr>"

lemma demo_loaded_prefix: "loaded_prefix 0 (0, demo_row) = demo_loaded"
  by (simp add: loaded_prefix_def demo_row_def demo_loaded_def demo_printed no_info_def)

lemma demo_chosen:
  assumes "prefixes R = [demo_loaded]" "map as_asn (asns R) = [64500]" "map as_provider_id (asns R) = [''p1'']"
  shows "\<exists>c. chosen 10 0 0 R = [c]"
proof -
  obtain a where "asns R = [a]" "as_asn a = 64500" using assms(2) by (auto simp: map_eq_Cons_conv)
  then have "\<exists>c. target_candidates 0 R = [c]"
    using assms(1) by (simp add: target_candidates_def demo_loaded_def demo_parse flag_bool_def)
  then show ?thesis by (auto simp: chosen_def ranked_def per_country_def deduped_def country_limit_def country_rank_def row_number_def Let_def)
qed

lemma demo_stored:
  "\<exists>version R5 a t. store_snapshot (demo_build_env no_faults [''r'']) demo_build_config [demo_row] stats None (demo_synced empty_routing) =
     (Inr (0, version), R5) \<and> prefixes R5 = [demo_loaded] \<and> asns R5 = [a] \<and> probe_targets R5 = [t]"
proof -
  let ?R1 = "demo_synced empty_routing"
  have "load no_faults ''bview'' 7000000 [demo_row] stats ?R1 \<noteq> None"
    by (simp add: load_def Let_def demo_synced_tables demo_row_def) (simp add: empty_routing_def)
  then obtain sid v R2 where l: "load no_faults ''bview'' 7000000 [demo_row] stats ?R1 = Some (sid, v, R2)" by auto
  note lf = load_facts [OF l]
  have sid: "sid = 0" using lf(2) by (simp add: demo_synced_tables empty_routing_def)
  have "prefixes R2 = [demo_loaded]" "map as_asn (asns R2) = [64500]" "map as_provider_id (asns R2) = [''p1'']" "probe_targets R2 = []"
    using lf(6,8,9) demo_loaded_prefix by (simp_all add: demo_synced_tables sid) (simp_all add: empty_routing_def)
  moreover obtain n R3 where d: "loadDistribution no_faults (grouped [demo_row]) 0 [demo_row] None R2 = Some (n, R3)"
    by (simp add: loadDistribution_def Let_def)
  moreover have "prefixes R3 = prefixes R2" "asns R3 = asns R2" "probe_targets R3 = probe_targets R2"
    by (subst loadDistribution_facts(2) [OF d], simp)+
  ultimately show ?thesis
    using l demo_chosen [of R3]
    by (auto simp: store_snapshot_def demo_build_env_def demo_build_config_def deriveTargets_def countTargetsByCountry_def sid Let_def map_eq_Cons_conv)
qed

lemma demo_publication:
  assumes "prefixes R = [p]" "asns R = [a]" "probe_targets R = [t]" "snapshots R = [sn]" "sn_id sn = sid"
  shows "\<exists>m st1 R1. Publish no_faults (pb_crypto demo_publisher) (pb_codec demo_publisher) (pb_store demo_publisher) (pb_sqlite_file demo_publisher)
     (pb_key demo_publisher) (pb_min_worker demo_publisher) now sid version (\<lambda>_. None) R = (Some m, st1, R1)"
proof -
  have "distinct (map (\<lambda>(p, o1, r). (p, o1)) (export_prefixes R sid))" "distinct (map fst (export_targets R sid))"
    using assms by (simp_all add: export_prefixes_def export_targets_def)
  then obtain targets ar where e: "ExportSQLite no_faults R sid version ''0'' = Some (targets, ar)"
    by (simp add: ExportSQLite_def Let_def)
  have sig: "b64_encode ''s'' \<noteq> []" "b64_decode (b64_encode ''s'') = Some ''s''" by (simp_all add: b64_roundtrip) (code_simp)
  show ?thesis
    using assms(4,5) sig
    by (simp add: Publish_def demo_publisher_def e man_Sign_def man_payload_def FSStore_def fs_put_def fs_get_def fs_path_def verifyReadback_def
        man_Verify_def VerifyFile_def HashFile_def ObjectKeySQLite_def ObjectKeyManifest_def demo_manifest_def lookup_by_def hex_encode_def Let_def)
qed

lemma demo_first_build:
  "\<exists>st' R' S'. Run (demo_build_env no_faults [''r'']) demo_build_config (Some demo_publisher) (\<lambda>_. None) empty_routing demo_scheduling = (None, st', R', S')"
proof -
  let ?E = "demo_build_env no_faults [''r'']"
  obtain stats where g: "gather ?E demo_build_config empty_routing = (Inr ([demo_row], stats, None), demo_synced empty_routing)" using demo_gather(1) by blast
  obtain version R5 a t where s: "store_snapshot ?E demo_build_config [demo_row] stats None (demo_synced empty_routing) = (Inr (0, version), R5)"
    "prefixes R5 = [demo_loaded]" "asns R5 = [a]" "probe_targets R5 = [t]" using demo_stored by blast
  obtain sn where sn: "snapshots R5 = [sn]" "sn_id sn = 0" "sn_status sn = ''building''"
    using store_grows [OF s(1)] by (auto simp: stored_def demo_synced_tables new_snapshot_def) (simp add: empty_routing_def)
  have "sanityGate no_faults demo_build_config 0 R5 = None" by (simp add: sanityGate_def newest_published_def sn)
  then have as: "assemble ?E demo_build_config empty_routing = (Inr (0, version), R5)"
    using g s(1) by (simp add: assemble_def) (simp add: demo_build_env_def)
  obtain m st1 R1 where p: "Publish no_faults (pb_crypto demo_publisher) (pb_codec demo_publisher) (pb_store demo_publisher) (pb_sqlite_file demo_publisher)
     (pb_key demo_publisher) (pb_min_worker demo_publisher) 7000000 0 version (\<lambda>_. None) R5 = (Some m, st1, R1)"
    using demo_publication [OF s(2-4) sn(1,2)] by blast
  have R1: "snapshots (flip_published 7000000 0 R1) = [sn\<lparr>sn_artifact := Some (m_sha256 m, m_size_bytes m, m_signature m), sn_status := ''published'', sn_published_at := Some 7000000\<rparr>]"
    using Publish_tables [OF p] sn by (simp add: set_artifact_def flip_published_def)
  have pr: "prune_victims 2 (flip_published 7000000 0 R1) = []" by (simp add: prune_victims_def R1)
  obtain st2 where c: "SetCurrent (pb_codec demo_publisher) (pb_store demo_publisher) 7000000 version st1 = (True, st2)"
    by (simp add: SetCurrent_def demo_publisher_def FSStore_def fs_put_def Let_def)
  show ?thesis
    using as p c pr by (simp add: Run_def demo_build_env_def demo_build_config_def publish_def Prune_def)
qed

theorem build_publishes_witness:
  "\<exists>st' R' S' version. Run (demo_build_env no_faults [''r'']) demo_build_config (Some demo_publisher) (\<lambda>_. None) empty_routing demo_scheduling =
     (None, st', R', S') \<and> published_versions R' = [version] \<and> fs_get ''/d'' PointerKey st' = Some version"
proof -
  obtain st' R' S' where r: "Run (demo_build_env no_faults [''r'']) demo_build_config (Some demo_publisher) (\<lambda>_. None) empty_routing demo_scheduling =
    (None, st', R', S')" using demo_first_build by blast
  have "pb_store demo_publisher = FSStore no_faults ''/d''" "\<And>x. ptr_marshal (pb_codec demo_publisher) x = Some (ptr_version x)"
    by (simp_all add: demo_publisher_def)
  then show ?thesis using r build_publishes [OF demo_routing_ok(2) r] by fastforce
qed

end
