(* ===== verification/HostTool.thy ===== *)
theory HostTool
  imports HostConfig AdvisorSync Builder
begin

text \<open>
  The command line tool on the host of a worker (\<^verbatim>\<open>cmd/vapn/main.go\<close>): install, reconfigure, doctor,
  update with health gate and rollback, backup, unregister, uninstall. Docker, the operator's shell, the
  container that runs meanwhile and the network are parameters: a command is run by \<open>mc_exec\<close>, which
  may change the host in any way, and so may two seconds of waiting. What is printed is not modelled.
\<close>

section \<open>The host\<close>

record Status =
  st_worker_id :: string
  st_state :: string
  st_software :: string
  st_coordinator :: string
  st_snapshot :: string
  st_heartbeat_at :: time
  st_assignments :: int
  st_submitted :: nat
  st_last_upload :: time
  st_last_ms :: int
  st_queue :: int
  st_updated_at :: time

record 'd host =
  hs_fs :: filesystem
  hs_now :: time
  hs_input :: "string list"
  hs_docker :: 'd

record 'd machine =
  mc_getenv_home :: string
  mc_user_home :: "string option"
  mc_getenv_image :: string
  mc_hostname :: string
  mc_uid :: nat
  mc_gid :: nat
  mc_exec :: "string list \<Rightarrow> 'd host \<Rightarrow> (bool \<times> string) \<times> 'd host"
  mc_sleep :: "'d host \<Rightarrow> 'd host"
  mc_get :: "string \<Rightarrow> 'd host \<Rightarrow> (nat \<times> time option) option"
  mc_statfs :: "(nat \<times> nat) option"
  mc_status :: "bytes \<Rightarrow> Status option"

definition vapn_home :: "'d machine \<Rightarrow> string" where
  "vapn_home M =
     (if mc_getenv_home M \<noteq> [] then mc_getenv_home M
      else case mc_user_home M of None \<Rightarrow> ''.vapn'' | Some u \<Rightarrow> u @ ''/.vapn'')"

definition stateDir :: "'d machine \<Rightarrow> string" where "stateDir M = vapn_home M @ ''/state''"
definition configPath :: "'d machine \<Rightarrow> string" where "configPath M = vapn_home M @ ''/config.env''"
definition composePath :: "'d machine \<Rightarrow> string" where "composePath M = vapn_home M @ ''/docker-compose.yml''"

definition quote :: char where "quote = CHR 0x22"

definition composeTemplate :: "string \<Rightarrow> nat \<Rightarrow> nat \<Rightarrow> string list" where
  "composeTemplate img uid gid =
     [''# Generated by vapn '' @ [CHR 0xE2, CHR 0x80, CHR 0x94] @ '' edit config.env, not this file.'',
      ''name: vapn-worker'', ''services:'', ''  worker:'', ''    image: '' @ img, ''    restart: unless-stopped'',
      ''    user: '' @ [quote] @ nat_text uid @ '':'' @ nat_text gid @ [quote], ''    cap_add: [NET_RAW]'', ''    sysctls:'',
      ''      net.ipv4.ping_group_range: '' @ [quote] @ ''0 2147483647'' @ [quote], ''    env_file: config.env'', ''    environment:'',
      ''      VAPN_STATE_DIR: /state'', ''    extra_hosts:'', ''      - '' @ [quote] @ ''host.docker.internal:host-gateway'' @ [quote],
      ''    volumes:'', ''      - ./state:/state'', ''    logging:'', ''      driver: json-file'',
      ''      options: { max-size: '' @ [quote] @ ''10m'' @ [quote] @ '', max-file: '' @ [quote] @ ''3'' @ [quote] @ '' }'']"

definition compose_text :: "'d machine \<Rightarrow> string \<Rightarrow> bytes" where
  "compose_text M img = concat (map (\<lambda>l. l @ newline) (composeTemplate img (mc_uid M) (mc_gid M)))"

definition writeCompose :: "'d machine \<Rightarrow> faults \<Rightarrow> conf \<Rightarrow> 'd host \<Rightarrow> bool \<times> 'd host" where
  "writeCompose M F c h =
     (case write_file F (composePath M) (compose_text M (conf_get c ''VAPN_WORKER_IMAGE'')) (hs_fs h) of
        (ok, fs) \<Rightarrow> (ok, h\<lparr>hs_fs := fs\<rparr>))"

definition save_config :: "'d machine \<Rightarrow> faults \<Rightarrow> conf \<Rightarrow> 'd host \<Rightarrow> bool \<times> 'd host" where
  "save_config M F c h = (case conf_save F (configPath M) c (hs_fs h) of (ok, fs) \<Rightarrow> (ok, h\<lparr>hs_fs := fs\<rparr>))"

text \<open>Standard output and error together, trimmed.\<close>

definition compose :: "'d machine \<Rightarrow> string list \<Rightarrow> 'd host \<Rightarrow> (bool \<times> string) \<times> 'd host" where
  "compose M args h =
     (case mc_exec M ([''docker'', ''compose'', ''-f'', composePath M] @ args) h of ((ok, out), h') \<Rightarrow> ((ok, TrimSpace out), h'))"

definition imageID :: "'d machine \<Rightarrow> string \<Rightarrow> 'd host \<Rightarrow> string \<times> 'd host" where
  "imageID M img h =
     (case mc_exec M [''docker'', ''image'', ''inspect'', ''--format'', ''{{.Id}}'', img] h of ((ok, out), h') \<Rightarrow> (TrimSpace out, h'))"

section \<open>Questions\<close>

text \<open>At the end of the input every answer is empty.\<close>

definition read_line :: "'d host \<Rightarrow> string \<times> 'd host" where
  "read_line h = (case hs_input h of [] \<Rightarrow> ([], h) | l # ls \<Rightarrow> (TrimSpace l, h\<lparr>hs_input := ls\<rparr>))"

definition prompt :: "string \<Rightarrow> 'd host \<Rightarrow> string \<times> 'd host" where
  "prompt def h = (case read_line h of (line, h') \<Rightarrow> (if line = [] then def else line, h'))"

text \<open>The stored value is shown masked and kept on an empty answer.\<close>

definition promptSecret :: "string \<Rightarrow> 'd host \<Rightarrow> string \<times> 'd host" where
  "promptSecret current h = (case read_line h of (line, h') \<Rightarrow> (if line = [] then current else line, h'))"

definition promptConfig :: "'d machine \<Rightarrow> conf \<Rightarrow> bool \<Rightarrow> 'd host \<Rightarrow> conf \<times> 'd host" where
  "promptConfig M c askToken h =
     (case prompt (orDefault (conf_get c ''VAPN_COORDINATOR_URL'') ''https://probes.vpsadvisor.com'') h of
        (url, h1) \<Rightarrow>
      case prompt (orDefault (conf_get c ''VAPN_WORKER_NAME'') (mc_hostname M)) h1 of
        (name, h2) \<Rightarrow>
      case promptSecret (conf_get c ''VAPN_SNAPSHOT_PUBLIC_KEY'') h2 of
        (key, h3) \<Rightarrow>
      let img = orDefault (mc_getenv_image M) (orDefault (conf_get c ''VAPN_WORKER_IMAGE'') ''ghcr.io/hummingbytedev/vapn-worker:latest'');
          c1 = AList.update ''VAPN_WORKER_IMAGE'' img (AList.update ''VAPN_SNAPSHOT_PUBLIC_KEY'' key
                 (AList.update ''VAPN_WORKER_NAME'' name (AList.update ''VAPN_COORDINATOR_URL'' url c))) in
      if askToken
      then (case promptSecret (conf_get c ''VAPN_ENROLLMENT_TOKEN'') h3 of (tok, h4) \<Rightarrow> (AList.update ''VAPN_ENROLLMENT_TOKEN'' tok c1, h4))
      else (c1, h3))"

definition registered :: "'d machine \<Rightarrow> faults \<Rightarrow> 'd host \<Rightarrow> bool" where
  "registered M F h \<longleftrightarrow> \<not> F ''stat worker.id'' \<and> hs_fs h (idPath (stateDir M)) \<noteq> None"

section \<open>The system checks\<close>

text \<open>The product of blocks and block size wraps at 64 bits.\<close>

definition diskFree :: "'d machine \<Rightarrow> faults \<Rightarrow> nat \<Rightarrow> bool" where
  "diskFree M F need =
     (if F ''mkdir home'' then False
      else case mc_statfs M of None \<Rightarrow> False | Some (bavail, bsize) \<Rightarrow> need \<le> (bavail * bsize) mod 2 ^ 64)"

definition state_writable :: "'d machine \<Rightarrow> faults \<Rightarrow> 'd host \<Rightarrow> bool \<times> 'd host" where
  "state_writable M F h =
     (if F ''mkdir state'' then (False, h)
      else let f = stateDir M @ ''/.probe'' in
        case write_file F f [] (hs_fs h) of
          (False, fs) \<Rightarrow> (False, h\<lparr>hs_fs := fs\<rparr>)
        | (True, fs) \<Rightarrow> if F (f @ '':remove'') then (False, h\<lparr>hs_fs := fs\<rparr>) else (True, h\<lparr>hs_fs := fs(f := None)\<rparr>))"

definition TrimRight :: "char \<Rightarrow> string \<Rightarrow> string" where
  "TrimRight c s = rev (dropWhile (\<lambda>x. x = c) (rev s))"

definition reachCoordinator :: "'d machine \<Rightarrow> string \<Rightarrow> 'd host \<Rightarrow> bool" where
  "reachCoordinator M url h =
     (url \<noteq> [] \<and> (case mc_get M (TrimRight (CHR ''/'') url @ ''/api/v1/workers/me'') h of None \<Rightarrow> False | Some (code, date) \<Rightarrow> code < 500))"

text \<open>An answer without a date is not fatal.\<close>

definition clockSkew :: "'d machine \<Rightarrow> string \<Rightarrow> 'd host \<Rightarrow> bool" where
  "clockSkew M url h =
     (url \<noteq> [] \<and> (case mc_get M url h of
        None \<Rightarrow> False
      | Some (code, None) \<Rightarrow> True
      | Some (code, Some srv) \<Rightarrow> \<bar>hs_now h - srv\<bar> \<le> 90 * second))"

definition runDoctor :: "'d machine \<Rightarrow> faults \<Rightarrow> conf \<Rightarrow> 'd host \<Rightarrow> bool \<times> 'd host" where
  "runDoctor M F c h =
     (let cli = \<not> F ''docker not found'' in
      case mc_exec M [''docker'', ''info''] h of
        ((daemon, _), h1) \<Rightarrow>
      case mc_exec M [''docker'', ''compose'', ''version''] h1 of
        ((plugin, _), h2) \<Rightarrow>
      let disk = diskFree M F (2 ^ 31) in
      case state_writable M F h2 of
        (writable, h3) \<Rightarrow>
      let key = ParsePublicKey (conf_get c ''VAPN_SNAPSHOT_PUBLIC_KEY'') \<noteq> None;
          reach = reachCoordinator M (conf_get c ''VAPN_COORDINATOR_URL'') h3;
          clock = clockSkew M (conf_get c ''VAPN_COORDINATOR_URL'') h3 in
      (cli \<and> daemon \<and> plugin \<and> disk \<and> writable \<and> key \<and> reach \<and> clock, h3))"

section \<open>Waiting for the container\<close>

text \<open>The container is asked every two seconds until the deadline; \<open>n\<close> bounds the number of rounds.\<close>

fun wait_loop :: "nat \<Rightarrow> 'd machine \<Rightarrow> faults \<Rightarrow> time \<Rightarrow> time \<Rightarrow> 'd host \<Rightarrow> Status option \<times> 'd host" where
  "wait_loop 0 M F deadline newerThan h = (None, h)"
| "wait_loop (Suc n) M F deadline newerThan h =
     (if \<not> hs_now h < deadline then (None, h)
      else case ReadStatus F (mc_status M) (stateDir M) (hs_fs h) of
        Some st \<Rightarrow>
          if st_worker_id st \<noteq> [] \<and> newerThan < st_updated_at st then (Some st, h)
          else wait_loop n M F deadline newerThan (mc_sleep M h)
      | None \<Rightarrow> wait_loop n M F deadline newerThan (mc_sleep M h))"

text \<open>Rounds are at least two seconds apart, so there are at most half as many as seconds, and the last look at the clock.\<close>

definition waitStatus :: "'d machine \<Rightarrow> faults \<Rightarrow> time \<Rightarrow> time \<Rightarrow> 'd host \<Rightarrow> Status option \<times> 'd host" where
  "waitStatus M F timeout newerThan h =
     wait_loop (nat (timeout div (2 * second)) + 2) M F (hs_now h + timeout) newerThan h"

section \<open>Commands\<close>

text \<open>The token is dropped from the file once it is spent; a failure to do so is ignored.\<close>

definition drop_token :: "'d machine \<Rightarrow> faults \<Rightarrow> Status \<Rightarrow> conf \<Rightarrow> 'd host \<Rightarrow> 'd host" where
  "drop_token M F st c h =
     (if st_worker_id st \<noteq> [] \<and> conf_get c ''VAPN_ENROLLMENT_TOKEN'' \<noteq> []
      then snd (save_config M F (AList.delete ''VAPN_ENROLLMENT_TOKEN'' c) h) else h)"

definition cmdInstall :: "'d machine \<Rightarrow> faults \<Rightarrow> 'd host \<Rightarrow> bool \<times> 'd host" where
  "cmdInstall M F h =
     (let c0 = (case loadConfig F False (configPath M) (hs_fs h) of None \<Rightarrow> [] | Some c \<Rightarrow> c) in
      case promptConfig M c0 (\<not> registered M F h) h of
        (c, h1) \<Rightarrow>
      case runDoctor M F c h1 of
        (False, h2) \<Rightarrow> (False, h2)
      | (True, h2) \<Rightarrow>
      case save_config M F c h2 of
        (False, h3) \<Rightarrow> (False, h3)
      | (True, h3) \<Rightarrow>
      if F ''mkdir state'' then (False, h3)
      else case writeCompose M F c h3 of
        (False, h4) \<Rightarrow> (False, h4)
      | (True, h4) \<Rightarrow>
      case compose M [''pull''] h4 of
        (_, h5) \<Rightarrow>
      case compose M [''up'', ''-d''] h5 of
        ((False, _), h6) \<Rightarrow> (False, h6)
      | ((True, _), h6) \<Rightarrow>
      case waitStatus M F (120 * second) zero_time h6 of
        (None, h7) \<Rightarrow> (True, h7)
      | (Some st, h7) \<Rightarrow> (True, drop_token M F st c h7))"

definition cmdReconfigure :: "'d machine \<Rightarrow> faults \<Rightarrow> 'd host \<Rightarrow> bool \<times> 'd host" where
  "cmdReconfigure M F h =
     (case loadConfig F True (configPath M) (hs_fs h) of
        None \<Rightarrow> (False, h)
      | Some c0 \<Rightarrow>
      case promptConfig M c0 (\<not> registered M F h) h of
        (c, h1) \<Rightarrow>
      case runDoctor M F c h1 of
        (False, h2) \<Rightarrow> (False, h2)
      | (True, h2) \<Rightarrow>
      case save_config M F c h2 of
        (False, h3) \<Rightarrow> (False, h3)
      | (True, h3) \<Rightarrow>
      case writeCompose M F c h3 of
        (False, h4) \<Rightarrow> (False, h4)
      | (True, h4) \<Rightarrow>
      let h5 = (if conf_get c ''VAPN_WORKER_IMAGE'' \<noteq> conf_get c0 ''VAPN_WORKER_IMAGE'' then snd (compose M [''pull''] h4) else h4) in
      case compose M [''up'', ''-d''] h5 of
        ((False, _), h6) \<Rightarrow> (False, h6)
      | ((True, _), h6) \<Rightarrow>
      case waitStatus M F (120 * second) (hs_now h5) h6 of
        (None, h7) \<Rightarrow> (True, h7)
      | (Some st, h7) \<Rightarrow> (True, drop_token M F st c h7))"

definition healthy_state :: "string \<Rightarrow> bool" where
  "healthy_state s \<longleftrightarrow> s = ''active'' \<or> s = ''pending'' \<or> s = ''quarantined''"

definition roll_back :: "'d machine \<Rightarrow> faults \<Rightarrow> string \<Rightarrow> string \<Rightarrow> 'd host \<Rightarrow> bool \<times> 'd host" where
  "roll_back M F img before h =
     (if before = [] then (False, h)
      else case mc_exec M [''docker'', ''tag'', before, img] h of
        ((False, _), h1) \<Rightarrow> (False, h1)
      | ((True, _), h1) \<Rightarrow>
      case compose M [''up'', ''-d'', ''--force-recreate''] h1 of
        ((False, _), h2) \<Rightarrow> (False, h2)
      | ((True, _), h2) \<Rightarrow>
      case waitStatus M F (120 * second) (hs_now h2) h2 of
        (None, h3) \<Rightarrow> (False, h3)
      | (Some st, h3) \<Rightarrow> (True, h3))"

definition cmdUpdate :: "'d machine \<Rightarrow> faults \<Rightarrow> 'd host \<Rightarrow> bool \<times> 'd host" where
  "cmdUpdate M F h =
     (case loadConfig F True (configPath M) (hs_fs h) of
        None \<Rightarrow> (False, h)
      | Some c \<Rightarrow>
      let img = conf_get c ''VAPN_WORKER_IMAGE'' in
      case imageID M img h of
        (before, h1) \<Rightarrow>
      case compose M [''pull''] h1 of
        ((False, _), h2) \<Rightarrow> (before \<noteq> [], h2)
      | ((True, _), h2) \<Rightarrow>
      case imageID M img h2 of
        (after, h3) \<Rightarrow>
      if before = after \<and> before \<noteq> [] then (True, h3)
      else case compose M [''up'', ''-d''] h3 of
        ((False, _), h4) \<Rightarrow> (False, h4)
      | ((True, _), h4) \<Rightarrow>
      case waitStatus M F (120 * second) (hs_now h3) h4 of
        (Some st, h5) \<Rightarrow> if healthy_state (st_state st) then (True, h5) else roll_back M F img before h5
      | (None, h5) \<Rightarrow> roll_back M F img before h5)"

text \<open>What \<^verbatim>\<open>vapn status\<close> shows: texts, numbers, and ages rounded to seconds.\<close>

datatype cell = Text string | Number int | Ago int | AgoIn int int

definition renderState :: "string \<Rightarrow> string" where
  "renderState s = (if s = ''active'' then ''Healthy'' else if s = ''pending'' then ''Awaiting approval'' else s)"

text \<open>Rounding to seconds, halves away from zero.\<close>

definition round_second :: "int \<Rightarrow> int" where
  "round_second d = (if d \<ge> 0 then (d + second div 2) div second * second else - ((- d + second div 2) div second * second))"

definition status_lines :: "time \<Rightarrow> Status \<Rightarrow> (string \<times> cell) list" where
  "status_lines now st =
     (let ago = (\<lambda>t. round_second (now - t)) in
      [(''Worker'', if now - st_updated_at st > 2 * minute then Ago (ago (st_updated_at st)) else Text (renderState (st_state st))),
       (''Worker ID'', Text (st_worker_id st)), (''Software'', Text (st_software st)), (''Coordinator'', Text (st_coordinator st)),
       (''Routing snapshot'', Text (orDefault (st_snapshot st) ''not yet installed'')), (''Last heartbeat'', Ago (ago (st_heartbeat_at st))),
       (''Assignments'', Number (st_assignments st)), (''Measurements submitted'', Number (int (st_submitted st)))] @
      (if st_last_upload st = zero_time then [] else [(''Last upload'', AgoIn (ago (st_last_upload st)) (st_last_ms st))]))"

definition cmdStatus :: "'d machine \<Rightarrow> faults \<Rightarrow> 'd host \<Rightarrow> (string \<times> cell) list option \<times> 'd host" where
  "cmdStatus M F h =
     (case loadConfig F True (configPath M) (hs_fs h) of
        None \<Rightarrow> (None, h)
      | Some c \<Rightarrow>
      case ReadStatus F (mc_status M) (stateDir M) (hs_fs h) of
        None \<Rightarrow> (None, snd (compose M [''ps'', ''--format'', ''{{.State}}''] h))
      | Some st \<Rightarrow> (Some (status_lines (hs_now h) st), h))"

definition backup_stamp :: "time \<Rightarrow> string" where
  "backup_stamp now =
     (let t = now div second; s = t mod 86400 in
      case civil (t div 86400) of
        (y, m, d) \<Rightarrow> int_text y @ two_digits m @ two_digits d @ ''T'' @ two_digits (s div 3600) @ two_digits (s mod 3600 div 60) @ two_digits (s mod 60) @ ''Z'')"

text \<open>\<^verbatim>\<open>filepath.Base\<close> and \<^verbatim>\<open>filepath.Dir\<close> of a clean path.\<close>

definition path_base :: "string \<Rightarrow> string" where
  "path_base p = rev (takeWhile (\<lambda>c. c \<noteq> CHR ''/'') (rev p))"

definition path_dir :: "string \<Rightarrow> string" where
  "path_dir p =
     (let d = rev (dropWhile (\<lambda>c. c \<noteq> CHR ''/'') (rev p)) in
      if d = [] then ''.'' else if d = ''/'' then d else butlast d)"

definition cmdBackup :: "'d machine \<Rightarrow> faults \<Rightarrow> 'd host \<Rightarrow> bool \<times> 'd host" where
  "cmdBackup M F h =
     (case loadConfig F True (configPath M) (hs_fs h) of
        None \<Rightarrow> (False, h)
      | Some c \<Rightarrow>
      let out = ''vapn-worker-backup-'' @ backup_stamp (hs_now h) @ ''.tar.gz'' in
      case mc_exec M [''tar'', ''czf'', out, ''-C'', path_dir (vapn_home M), path_base (vapn_home M)] h of
        ((ok, _), h1) \<Rightarrow> (ok, h1))"

text \<open>The network may change the host as well. A key is generated when there is none.\<close>

definition cmdUnregister ::
  "worker_env \<Rightarrow> 'd host net \<Rightarrow> call \<Rightarrow> bytes option \<Rightarrow> 'd machine \<Rightarrow> faults \<Rightarrow> bool \<Rightarrow> 'd host \<Rightarrow> bool \<times> 'd host" where
  "cmdUnregister E net cal rnd M F confirm h =
     (case loadConfig F True (configPath M) (hs_fs h) of
        None \<Rightarrow> (False, h)
      | Some c \<Rightarrow>
      case (if confirm then read_line h else (''retire'', h)) of
        (line, h1) \<Rightarrow>
      if line \<noteq> ''retire'' then (False, h1)
      else case state_Key E F rnd (stateDir M) (hs_fs h1) of
        (None, fs) \<Rightarrow> (False, h1\<lparr>hs_fs := fs\<rparr>)
      | (Some key, fs) \<Rightarrow>
      case state_WorkerID F (stateDir M) fs of
        None \<Rightarrow> (False, h1\<lparr>hs_fs := fs\<rparr>)
      | Some wid \<Rightarrow>
      if wid = [] then (False, h1\<lparr>hs_fs := fs\<rparr>)
      else case client_Retire E net cal ((NewClient (conf_get c ''VAPN_COORDINATOR_URL'') key)\<lparr>cl_worker_id := wid\<rparr>) (h1\<lparr>hs_fs := fs\<rparr>) of
        (Inl e, h2) \<Rightarrow> (False, h2)
      | (Inr _, h2) \<Rightarrow> (True, snd (compose M [''stop'', ''worker''] h2)))"

definition to_lower :: "string \<Rightarrow> string" where
  "to_lower s = map (\<lambda>c. let n = (of_char c :: nat) in if 65 \<le> n \<and> n \<le> 90 then char_of (n + 32) else c) s"

definition says_yes :: "string \<Rightarrow> bool" where
  "says_yes ans \<longleftrightarrow> (let a = to_lower ans in a = [] \<or> a = ''y'' \<or> a = ''yes'')"

definition below :: "string \<Rightarrow> string \<Rightarrow> bool" where
  "below dir p \<longleftrightarrow> take (length dir + 1) p = dir @ ''/''"

text \<open>A removal that fails may have removed some of the files.\<close>

definition RemoveAll :: "faults \<Rightarrow> string \<Rightarrow> filesystem \<Rightarrow> bool \<times> filesystem" where
  "RemoveAll F dir fs =
     (\<not> F ''removeall'', \<lambda>p. if (p = dir \<or> below dir p) \<and> \<not> (F ''removeall'' \<and> F (p @ '':remove'')) then None else fs p)"

definition cmdUninstall :: "worker_env \<Rightarrow> 'd host net \<Rightarrow> call \<Rightarrow> bytes option \<Rightarrow> 'd machine \<Rightarrow> faults \<Rightarrow> 'd host \<Rightarrow> bool \<times> 'd host" where
  "cmdUninstall E net cal rnd M F h =
     (case loadConfig F True (configPath M) (hs_fs h) of
        None \<Rightarrow> (False, h)
      | Some c \<Rightarrow>
      case read_line h of
        (ans, h1) \<Rightarrow>
      let h2 = (if says_yes ans then snd (cmdUnregister E net cal rnd M F False h1) else h1) in
      case read_line h2 of
        (ans2, h3) \<Rightarrow>
      case (if says_yes ans2 then cmdBackup M F h3 else (True, h3)) of
        (False, h4) \<Rightarrow> (False, h4)
      | (True, h4) \<Rightarrow>
      case compose M [''down'', ''--rmi'', ''all''] h4 of
        (_, h5) \<Rightarrow>
      case RemoveAll F (vapn_home M) (hs_fs h5) of
        (ok, fs) \<Rightarrow> (ok, h5\<lparr>hs_fs := fs\<rparr>))"

text \<open>The exit code of the process: 2 for a wrong command line, 1 for an error.\<close>

definition vapn_main ::
  "worker_env \<Rightarrow> 'd host net \<Rightarrow> call \<Rightarrow> bytes option \<Rightarrow> 'd machine \<Rightarrow> faults \<Rightarrow> string list \<Rightarrow> 'd host \<Rightarrow> nat \<times> 'd host" where
  "vapn_main E net cal rnd M F args h =
     (let code = (\<lambda>(ok, h'). (if ok then 0 else 1, h')) in
      case args of
        [] \<Rightarrow> (2, h)
      | cmd # rest \<Rightarrow>
          if cmd = ''install'' then code (cmdInstall M F h)
          else if cmd = ''reconfigure'' then code (cmdReconfigure M F h)
          else if cmd = ''status'' then code (map_prod (\<lambda>r. r \<noteq> None) id (cmdStatus M F h))
          else if cmd = ''doctor'' then (0, snd (runDoctor M F (case loadConfig F False (configPath M) (hs_fs h) of None \<Rightarrow> [] | Some c \<Rightarrow> c) h))
          else if cmd = ''logs'' then code (map_prod fst id (compose M (''logs'' # rest) h))
          else if cmd = ''pause'' then code (map_prod fst id (compose M [''stop'', ''worker''] h))
          else if cmd = ''resume'' then code (map_prod fst id (compose M [''start'', ''worker''] h))
          else if cmd = ''update'' then code (cmdUpdate M F h)
          else if cmd = ''backup'' then code (cmdBackup M F h)
          else if cmd = ''unregister'' then code (cmdUnregister E net cal rnd M F True h)
          else if cmd = ''uninstall'' then code (cmdUninstall E net cal rnd M F h)
          else if cmd = ''version'' then (0, h)
          else (2, h))"

section \<open>Waiting\<close>

lemma wait_loop_Some:
  "wait_loop n M F deadline newer h = (Some st, h') \<Longrightarrow>
     ReadStatus F (mc_status M) (stateDir M) (hs_fs h') = Some st \<and> st_worker_id st \<noteq> [] \<and> newer < st_updated_at st"
  by (induction n arbitrary: h) (auto split: if_split_asm option.split_asm)

lemma wait_loop_keeps:
  assumes "\<And>h. f (mc_sleep M h) = f h"
  shows "wait_loop n M F deadline newer h = (r, h') \<Longrightarrow> f h' = f h"
  by (induction n arbitrary: h) (auto simp: assms split: if_split_asm option.split_asm)

lemma wait_loop_mono:
  assumes "\<And>h. hs_now h \<le> hs_now (mc_sleep M h)"
  shows "wait_loop n M F deadline newer h = (r, h') \<Longrightarrow> hs_now h \<le> hs_now h'"
  by (induction n arbitrary: h) (force intro: order_trans [OF assms] split: if_split_asm option.split_asm)+

lemma wait_loop_enough:
  assumes "\<And>h. hs_now h + 2 * second \<le> hs_now (mc_sleep M h)"
  shows "wait_loop n M F deadline newer h = (None, h') \<Longrightarrow> deadline \<le> hs_now h + int n * (2 * second) \<Longrightarrow> deadline \<le> hs_now h'"
proof (induction n arbitrary: h)
  case (Suc n)
  have "deadline \<le> hs_now (mc_sleep M h) + int n * (2 * second)" using Suc.prems(2) assms [of h] by (simp add: algebra_simps)
  then show ?case using Suc.prems(1) Suc.IH by (auto split: if_split_asm option.split_asm)
qed simp

text \<open>
  The bound on the rounds is never what ends the wait: when no status came, the timeout is over.
\<close>

lemma div_rounds:
  assumes "0 < (d :: int)" "0 \<le> t"
  shows "t \<le> int (nat (t div d) + 2) * d"
proof -
  have "t = t div d * d + t mod d" "t mod d < d" "0 \<le> t div d" using assms by (simp_all add: pos_imp_zdiv_nonneg_iff)
  then show ?thesis using assms(1) by (simp only: of_nat_add int_nat_eq if_True distrib_right)
qed

lemma waitStatus_times_out:
  assumes "\<And>h. hs_now h + 2 * second \<le> hs_now (mc_sleep M h)" "waitStatus M F timeout newer h = (None, h')" "0 \<le> timeout"
  shows "hs_now h + timeout \<le> hs_now h'"
proof -
  have "timeout \<le> int (nat (timeout div (2 * second)) + 2) * (2 * second)"
    using assms(3) by (intro div_rounds) simp_all
  then have "hs_now h + timeout \<le> hs_now h + int (nat (timeout div (2 * second)) + 2) * (2 * second)" by (rule add_left_mono)
  from wait_loop_enough [OF assms(1) assms(2) [unfolded waitStatus_def] this] show ?thesis .
qed

section \<open>The identity of the worker\<close>

definition identity_files :: "'d machine \<Rightarrow> string set" where
  "identity_files M = {keyPath (stateDir M), idPath (stateDir M)}"

text \<open>Of the files of the worker the running container may change every other one.\<close>

definition keeps_identity :: "'d machine \<Rightarrow> bool" where
  "keeps_identity M \<longleftrightarrow> (\<forall>p \<in> identity_files M. (\<forall>cmd h. hs_fs (snd (mc_exec M cmd h)) p = hs_fs h p) \<and> (\<forall>h. hs_fs (mc_sleep M h) p = hs_fs h p))"

lemma identity_paths:
  "p \<in> identity_files M \<Longrightarrow> p \<noteq> configPath M" "p \<in> identity_files M \<Longrightarrow> p \<noteq> composePath M"
  "p \<in> identity_files M \<Longrightarrow> p \<noteq> stateDir M @ ''/.probe''"
  by (auto simp: identity_files_def configPath_def composePath_def stateDir_def keyPath_def idPath_def)

lemma exec_identity: "keeps_identity M \<Longrightarrow> p \<in> identity_files M \<Longrightarrow> mc_exec M cmd h = (r, h') \<Longrightarrow> hs_fs h' p = hs_fs h p"
  by (metis keeps_identity_def snd_conv)

lemma compose_identity: "keeps_identity M \<Longrightarrow> p \<in> identity_files M \<Longrightarrow> compose M args h = (r, h') \<Longrightarrow> hs_fs h' p = hs_fs h p"
  by (auto simp: compose_def dest: exec_identity split: prod.split_asm)

lemma imageID_identity: "keeps_identity M \<Longrightarrow> p \<in> identity_files M \<Longrightarrow> imageID M x h = (r, h') \<Longrightarrow> hs_fs h' p = hs_fs h p"
  by (auto simp: imageID_def dest: exec_identity split: prod.split_asm)

lemma wait_identity:
  assumes "keeps_identity M" "p \<in> identity_files M" "waitStatus M F t newer h = (r, h')"
  shows "hs_fs h' p = hs_fs h p"
proof -
  have "hs_fs (mc_sleep M h) p = hs_fs h p" for h using assms(1,2) by (simp add: keeps_identity_def)
  from wait_loop_keeps [where f = "\<lambda>h. hs_fs h p", OF this] show ?thesis using assms(3) unfolding waitStatus_def by blast
qed

lemma read_line_fs: "read_line h = (r, h') \<Longrightarrow> hs_fs h' = hs_fs h"
  by (auto simp: read_line_def split: list.split_asm)

lemma prompt_fs: "prompt d h = (r, h') \<Longrightarrow> hs_fs h' = hs_fs h" "promptSecret d h = (r, h') \<Longrightarrow> hs_fs h' = hs_fs h"
  by (auto simp: prompt_def promptSecret_def dest: read_line_fs split: prod.split_asm)

lemma promptConfig_fs: "promptConfig M c ask h = (c', h') \<Longrightarrow> hs_fs h' = hs_fs h"
  by (auto simp: promptConfig_def Let_def dest!: prompt_fs split: prod.split_asm if_split_asm)

lemma write_identity:
  assumes "p \<in> identity_files M"
  shows "save_config M F c h = (ok, h') \<Longrightarrow> hs_fs h' p = hs_fs h p" "writeCompose M F c h = (ok, h') \<Longrightarrow> hs_fs h' p = hs_fs h p"
    "state_writable M F h = (ok, h') \<Longrightarrow> hs_fs h' p = hs_fs h p"
  using identity_paths [OF assms]
  by (auto simp: save_config_def conf_save_def writeCompose_def state_writable_def write_file_def Let_def split: if_split_asm bool.split_asm)

lemma doctor_identity:
  assumes "keeps_identity M" "p \<in> identity_files M" "runDoctor M F c h = (ok, h')"
  shows "hs_fs h' p = hs_fs h p"
proof -
  obtain a1 b1 h1 where e1: "mc_exec M [''docker'', ''info''] h = ((a1, b1), h1)" by (metis surj_pair)
  obtain a2 b2 h2 where e2: "mc_exec M [''docker'', ''compose'', ''version''] h1 = ((a2, b2), h2)" by (metis surj_pair)
  obtain a3 h3 where e3: "state_writable M F h2 = (a3, h3)" by (metis surj_pair)
  have "h' = h3" using assms(3) by (simp add: runDoctor_def Let_def e1 e2 e3)
  then show ?thesis using exec_identity [OF assms(1,2) e1] exec_identity [OF assms(1,2) e2] write_identity(3) [OF assms(2) e3] by simp
qed

lemma drop_token_identity: "p \<in> identity_files M \<Longrightarrow> hs_fs (drop_token M F st c h) p = hs_fs h p"
  by (cases "save_config M F (AList.delete ''VAPN_ENROLLMENT_TOKEN'' c) h") (auto simp: drop_token_def dest: write_identity(1))

lemma roll_back_identity:
  assumes "keeps_identity M" "p \<in> identity_files M" "roll_back M F x before h = (ok, h')"
  shows "hs_fs h' p = hs_fs h p"
  using assms(3)
  by (auto simp: roll_back_def split: if_split_asm prod.split_asm bool.split_asm option.split_asm
      dest!: exec_identity [OF assms(1,2)] compose_identity [OF assms(1,2)] wait_identity [OF assms(1,2)])

lemma install_identity:
  assumes "keeps_identity M" "p \<in> identity_files M" "cmdInstall M F h = (ok, h')"
  shows "hs_fs h' p = hs_fs h p"
  using assms(3)
  by (auto simp: cmdInstall_def Let_def drop_token_identity [OF assms(2)] split: if_split_asm prod.split_asm bool.split_asm option.split_asm
      dest!: promptConfig_fs compose_identity [OF assms(1,2)] wait_identity [OF assms(1,2)] doctor_identity [OF assms(1,2)] write_identity(1,2) [OF assms(2)])

lemma reconfigure_identity:
  assumes "keeps_identity M" "p \<in> identity_files M" "cmdReconfigure M F h = (ok, h')"
  shows "hs_fs h' p = hs_fs h p"
proof -
  have pull: "hs_fs (snd (compose M args h)) p = hs_fs h p" for args h using compose_identity [OF assms(1,2)] by (metis surjective_pairing)
  show ?thesis
    using assms(3)
    by (auto simp: cmdReconfigure_def Let_def pull drop_token_identity [OF assms(2)] split: if_split_asm prod.split_asm bool.split_asm option.split_asm
        dest!: promptConfig_fs compose_identity [OF assms(1,2)] wait_identity [OF assms(1,2)] doctor_identity [OF assms(1,2)] write_identity(1,2) [OF assms(2)])
qed

lemma update_identity:
  assumes "keeps_identity M" "p \<in> identity_files M" "cmdUpdate M F h = (ok, h')"
  shows "hs_fs h' p = hs_fs h p"
  using assms(3)
  by (auto simp: cmdUpdate_def Let_def split: if_split_asm prod.split_asm bool.split_asm option.split_asm
      dest!: compose_identity [OF assms(1,2)] imageID_identity [OF assms(1,2)] wait_identity [OF assms(1,2)] roll_back_identity [OF assms(1,2)])

lemma map_prod_idD: "map_prod f id x = (r, h') \<Longrightarrow> \<exists>y. x = (y, h')"
  by (cases x) simp

lemma other_identity:
  assumes "keeps_identity M" "p \<in> identity_files M"
  shows "cmdBackup M F h = (ok, h') \<Longrightarrow> hs_fs h' p = hs_fs h p" "cmdStatus M F h = (r, h') \<Longrightarrow> hs_fs h' p = hs_fs h p"
proof -
  show "cmdBackup M F h = (ok, h') \<Longrightarrow> hs_fs h' p = hs_fs h p"
    by (auto simp: cmdBackup_def Let_def split: prod.split_asm option.split_asm dest!: exec_identity [OF assms])
  have "hs_fs (snd (compose M args h)) p = hs_fs h p" for args using compose_identity [OF assms] by (metis surjective_pairing)
  then show "cmdStatus M F h = (r, h') \<Longrightarrow> hs_fs h' p = hs_fs h p" by (auto simp: cmdStatus_def split: option.split_asm)
qed


section \<open>The health gate of an update\<close>

text \<open>
  What docker documents, for the image \<open>tag h x\<close> a name refers to and the image \<open>created h\<close> of the worker's
  container: inspecting changes nothing and prints the id; pulling leaves the container alone; a successful tag
  and a successful start do what they say; and no command and no waiting changes the compose file or turns the
  clock back.
\<close>

definition docker_ok :: "'d machine \<Rightarrow> ('d host \<Rightarrow> string \<Rightarrow> string option) \<Rightarrow> ('d host \<Rightarrow> string option) \<Rightarrow> bool" where
  "docker_ok M tag created \<longleftrightarrow>
     (\<forall>h x. imageID M x h = ((case tag h x of None \<Rightarrow> [] | Some i \<Rightarrow> i), h) \<and> tag h x \<noteq> Some []) \<and>
     (\<forall>h. created (snd (compose M [''pull''] h)) = created h) \<and>
     (\<forall>h h' out i x. mc_exec M [''docker'', ''tag'', i, x] h = ((True, out), h') \<longrightarrow> tag h' x = Some i) \<and>
     (\<forall>h h' out x extra. hs_fs h (composePath M) = Some (compose_text M x) \<and> compose M ([''up'', ''-d''] @ extra) h = ((True, out), h') \<longrightarrow>
        created h' = tag h' x \<and> (tag h x \<noteq> None \<longrightarrow> tag h' x = tag h x)) \<and>
     (\<forall>h. tag (mc_sleep M h) = tag h \<and> created (mc_sleep M h) = created h) \<and>
     (\<forall>h cmd. hs_fs (snd (mc_exec M cmd h)) (composePath M) = hs_fs h (composePath M) \<and> hs_now h \<le> hs_now (snd (mc_exec M cmd h))) \<and>
     (\<forall>h. hs_fs (mc_sleep M h) (composePath M) = hs_fs h (composePath M) \<and> hs_now h \<le> hs_now (mc_sleep M h))"

lemma docker_exec:
  assumes "docker_ok M tag created" "mc_exec M cmd h = (r, h')"
  shows "hs_fs h' (composePath M) = hs_fs h (composePath M)" "hs_now h \<le> hs_now h'"
  using assms unfolding docker_ok_def by (metis snd_conv)+

lemma docker_compose:
  assumes "docker_ok M tag created" "compose M args h = (r, h')"
  shows "hs_fs h' (composePath M) = hs_fs h (composePath M)" "hs_now h \<le> hs_now h'"
  using assms(2) docker_exec [OF assms(1)] by (auto simp: compose_def split: prod.split_asm)

lemma docker_wait:
  assumes "docker_ok M tag created" "waitStatus M F t newer h = (r, h')"
  shows "tag h' = tag h" "created h' = created h" "hs_fs h' (composePath M) = hs_fs h (composePath M)" "hs_now h \<le> hs_now h'"
proof -
  have "tag (mc_sleep M h) = tag h" "created (mc_sleep M h) = created h" "hs_fs (mc_sleep M h) (composePath M) = hs_fs h (composePath M)"
    "hs_now h \<le> hs_now (mc_sleep M h)" for h using assms(1) unfolding docker_ok_def by blast+
  note keeps = this
  note w = assms(2) [unfolded waitStatus_def]
  show "tag h' = tag h" by (rule wait_loop_keeps [where f = tag, OF keeps(1) w])
  show "created h' = created h" by (rule wait_loop_keeps [where f = created, OF keeps(2) w])
  show "hs_fs h' (composePath M) = hs_fs h (composePath M)" by (rule wait_loop_keeps [where f = "\<lambda>h. hs_fs h (composePath M)", OF keeps(3) w])
  show "hs_now h \<le> hs_now h'" by (rule wait_loop_mono [OF keeps(4) w])
qed

text \<open>The worker reported itself in a status file written after \<open>t\<close>.\<close>

definition reported_since :: "'d machine \<Rightarrow> faults \<Rightarrow> time \<Rightarrow> 'd host \<Rightarrow> Status \<Rightarrow> bool" where
  "reported_since M F t h st \<longleftrightarrow>
     ReadStatus F (mc_status M) (stateDir M) (hs_fs h) = Some st \<and> st_worker_id st \<noteq> [] \<and> t < st_updated_at st"

lemma waitStatus_reported: "waitStatus M F t newer h = (Some st, h') \<Longrightarrow> reported_since M F newer h' st"
  unfolding waitStatus_def reported_since_def by (rule wait_loop_Some)

lemma reported_earlier: "reported_since M F t h st \<Longrightarrow> s \<le> t \<Longrightarrow> reported_since M F s h st"
  by (simp add: reported_since_def)

lemma roll_back_ok:
  assumes "docker_ok M tag created" "hs_fs h (composePath M) = Some (compose_text M x)" "roll_back M F x before h = (True, h')"
  shows "tag h' x = Some before \<and> created h' = Some before \<and> before \<noteq> [] \<and> (\<exists>st. reported_since M F (hs_now h) h' st)"
proof -
  obtain o1 h1 o2 h2 st where e: "mc_exec M [''docker'', ''tag'', before, x] h = ((True, o1), h1)"
    "compose M ([''up'', ''-d''] @ [''--force-recreate'']) h1 = ((True, o2), h2)"
    "waitStatus M F (120 * second) (hs_now h2) h2 = (Some st, h')" "before \<noteq> []"
    using assms(3) by (auto simp: roll_back_def split: if_split_asm prod.split_asm bool.split_asm option.split_asm)
  have t: "tag h1 x = Some before" using assms(1) e(1) unfolding docker_ok_def by blast
  have c: "hs_fs h1 (composePath M) = Some (compose_text M x)" using docker_exec [OF assms(1) e(1)] assms(2) by simp
  have up: "created h2 = tag h2 x \<and> (tag h1 x \<noteq> None \<longrightarrow> tag h2 x = tag h1 x)" using assms(1) c e(2) unfolding docker_ok_def by blast
  have "hs_now h \<le> hs_now h2" using docker_exec(2) [OF assms(1) e(1)] docker_compose(2) [OF assms(1) e(2)] by linarith
  then have "reported_since M F (hs_now h) h' st" using reported_earlier [OF waitStatus_reported [OF e(3)]] by blast
  then show ?thesis using up t docker_wait(1,2) [OF assms(1) e(3)] e(4) by auto
qed

lemma restart_gate:
  assumes "docker_ok M tag created" "hs_fs h (composePath M) = Some (compose_text M x)"
    "compose M [''up'', ''-d''] h = ((True, out), h1)" "waitStatus M F (120 * second) (hs_now h) h1 = (r, h2)"
    "(case r of None \<Rightarrow> roll_back M F x before h2
      | Some st \<Rightarrow> if healthy_state (st_state st) then (True, h2) else roll_back M F x before h2) = (True, h')"
  shows "\<exists>st. reported_since M F (hs_now h) h' st \<and>
     (created h' = tag h' x \<and> healthy_state (st_state st) \<or> before \<noteq> [] \<and> created h' = Some before \<and> tag h' x = Some before)"
proof (cases "\<exists>st. r = Some st \<and> healthy_state (st_state st)")
  case True
  then obtain st where st: "r = Some st" "healthy_state (st_state st)" by blast
  have "compose M ([''up'', ''-d''] @ []) h = ((True, out), h1)" using assms(3) by simp
  then have "created h1 = tag h1 x" using assms(1,2) unfolding docker_ok_def by blast
  moreover have "h' = h2" using assms(5) st by simp
  moreover have "reported_since M F (hs_now h) h2 st" using waitStatus_reported [OF assms(4) [unfolded st(1)]] .
  ultimately show ?thesis using docker_wait(1,2) [OF assms(1,4)] st(2) by auto
next
  case False
  then have rb: "roll_back M F x before h2 = (True, h')" using assms(5) by (cases r) auto
  have "hs_fs h2 (composePath M) = Some (compose_text M x)" "hs_now h \<le> hs_now h2"
    using docker_compose [OF assms(1,3)] docker_wait(3,4) [OF assms(1,4)] assms(2) by simp_all
  then show ?thesis using roll_back_ok [OF assms(1) _ rb] reported_earlier [of M F "hs_now h2" h' _ "hs_now h"] by blast
qed


text \<open>An update whose restart failed is not made up for: the next one finds the image unchanged and reports success.\<close>

theorem stalled_update_not_retried:
  assumes "docker_ok M tag created" and "loadConfig F True (configPath M) (hs_fs h) = Some c" and "x = conf_get c ''VAPN_WORKER_IMAGE''"
    and "compose M [''pull''] h = ((True, out), h2)" and "tag h2 x = tag h x" and "tag h x = Some i" and "created h \<noteq> Some i"
  shows "cmdUpdate M F h = (True, h2) \<and> created h2 \<noteq> tag h2 x"
proof -
  have "imageID M x h = (i, h)" "imageID M x h2 = (i, h2)" "i \<noteq> []"
    using assms(1,5,6) unfolding docker_ok_def by (metis option.simps(5))+
  then have "cmdUpdate M F h = (True, h2)"
    unfolding cmdUpdate_def assms(2) option.case Let_def assms(3) [symmetric] by (simp add: assms(4))
  moreover have "created h2 = created h" using assms(1,4) unfolding docker_ok_def by (metis snd_conv)
  ultimately show ?thesis using assms by simp
qed

section \<open>Removal\<close>

text \<open>When the operator wants a backup and it fails, nothing below the home directory is removed.\<close>

theorem uninstall_needs_backup:
  assumes "loadConfig F True (configPath M) (hs_fs h) = Some c" and "hs_input h = ''n'' # ''y'' # rest"
    and "cmdBackup M F (h\<lparr>hs_input := rest\<rparr>) = (False, g)"
  shows "cmdUninstall E net cal rnd M F h = (False, g)"
proof -
  have "TrimSpace ''n'' = ''n''" "TrimSpace ''y'' = ''y''" by (simp_all add: TrimSpace_def white_def)
  moreover have "\<not> says_yes ''n''" "says_yes ''y''" by (simp_all add: says_yes_def to_lower_def)
  ultimately show ?thesis using assms by (simp add: cmdUninstall_def read_line_def)
qed

text \<open>The exit code of the doctor command tells nothing: the outcome of the checks is dropped.\<close>

theorem doctor_exit_code: "fst (vapn_main E net cal rnd M F [''doctor''] h) = 0"
  by (simp add: vapn_main_def)

section \<open>A concrete host\<close>

type_synonym demo_docker = "(string \<rightharpoonup> string) \<times> string option"

definition demo_tag :: "demo_docker host \<Rightarrow> string \<Rightarrow> string option" where
  "demo_tag h x = (case fst (hs_docker h) x of None \<Rightarrow> None | Some i \<Rightarrow> if TrimSpace i = [] then None else Some (TrimSpace i))"

definition demo_created :: "demo_docker host \<Rightarrow> string option" where
  "demo_created h = snd (hs_docker h)"

definition demo_compose :: bytes where
  "demo_compose = concat (map (\<lambda>l. l @ newline) (composeTemplate ''img'' 0 0))"

definition demo_exec :: "string list \<Rightarrow> demo_docker host \<Rightarrow> (bool \<times> string) \<times> demo_docker host" where
  "demo_exec cmd h =
     (let tags = fst (hs_docker h); cr = snd (hs_docker h) in
      if take 5 cmd = [''docker'', ''image'', ''inspect'', ''--format'', ''{{.Id}}''] then ((True, case tags (last cmd) of None \<Rightarrow> [] | Some i \<Rightarrow> i), h)
      else if take 2 cmd = [''docker'', ''tag''] then
        (let i = cmd ! 2; x = cmd ! 3 in if i \<noteq> [] \<and> TrimSpace i = i then ((True, []), h\<lparr>hs_docker := (tags(x \<mapsto> i), cr)\<rparr>) else ((False, []), h))
      else if drop 4 cmd = [''pull''] then ((True, []), h\<lparr>hs_docker := (tags(''img'' \<mapsto> ''new''), cr)\<rparr>)
      else if take 2 (drop 4 cmd) = [''up'', ''-d''] \<and> hs_fs h ''/v/docker-compose.yml'' = Some demo_compose
        then ((True, []), h\<lparr>hs_docker := (tags, demo_tag h ''img'')\<rparr>)
      else ((False, []), h))"

definition demo_sleep :: "demo_docker host \<Rightarrow> demo_docker host" where
  "demo_sleep h = h\<lparr>hs_now := hs_now h + 2 * second, hs_fs := (hs_fs h)(''/v/state/status.json'' \<mapsto> ''ok'')\<rparr>"

definition demo_status :: Status where
  "demo_status = \<lparr>st_worker_id = ''w1'', st_state = ''active'', st_software = [], st_coordinator = [], st_snapshot = [], st_heartbeat_at = 0,
     st_assignments = 0, st_submitted = 0, st_last_upload = 0, st_last_ms = 0, st_queue = 0, st_updated_at = 10\<rparr>"

definition demo_machine :: "demo_docker machine" where
  "demo_machine = \<lparr>mc_getenv_home = ''/v'', mc_user_home = None, mc_getenv_image = [], mc_hostname = [], mc_uid = 0, mc_gid = 0,
     mc_exec = demo_exec, mc_sleep = demo_sleep, mc_get = (\<lambda>_ _. None), mc_statfs = None, mc_status = (\<lambda>b. if b = ''ok'' then Some demo_status else None)\<rparr>"

definition demo_host :: "demo_docker host" where
  "demo_host = \<lparr>hs_fs = [''/v/config.env'' \<mapsto> ''VAPN_WORKER_IMAGE=img'' @ newline, ''/v/docker-compose.yml'' \<mapsto> demo_compose,
       ''/v/state/worker.key'' \<mapsto> ''k'', ''/v/state/worker.id'' \<mapsto> ''w1''],
     hs_now = 0, hs_input = [], hs_docker = ([''img'' \<mapsto> ''old''], Some ''old'')\<rparr>"

lemma demo_paths:
  "vapn_home demo_machine = ''/v''" "configPath demo_machine = ''/v/config.env''" "composePath demo_machine = ''/v/docker-compose.yml''"
  "stateDir demo_machine = ''/v/state''" "mc_exec demo_machine = demo_exec" "mc_sleep demo_machine = demo_sleep"
  by (simp_all add: demo_machine_def vapn_home_def configPath_def composePath_def stateDir_def)

lemma demo_compose_text: "compose_text demo_machine x = demo_compose \<longleftrightarrow> x = ''img''"
  by (simp add: compose_text_def demo_compose_def composeTemplate_def demo_machine_def)

lemma demo_config: "loadConfig no_faults True ''/v/config.env'' (hs_fs demo_host) = Some [(''VAPN_WORKER_IMAGE'', ''img'')]"
  by (simp add: loadConfig_def read_file_def demo_host_def parse_conf_def load_line_def TrimSpace_def white_def)

lemma demo_inspect: "imageID demo_machine x h = ((case demo_tag h x of None \<Rightarrow> [] | Some i \<Rightarrow> i), h)"
  by (simp add: imageID_def demo_paths demo_exec_def demo_tag_def TrimSpace_def split: option.split)

lemma demo_up:
  assumes "hs_fs h ''/v/docker-compose.yml'' = Some (compose_text demo_machine x)" "compose demo_machine ([''up'', ''-d''] @ extra) h = ((True, out), h')"
  shows "demo_created h' = demo_tag h' x \<and> demo_tag h' x = demo_tag h x"
proof -
  have "demo_compose = compose_text demo_machine x \<and> h' = h\<lparr>hs_docker := (fst (hs_docker h), demo_tag h ''img'')\<rparr>"
    using assms by (auto simp: compose_def demo_paths demo_exec_def split: if_split_asm)
  then have "x = ''img''" "h' = h\<lparr>hs_docker := (fst (hs_docker h), demo_tag h ''img'')\<rparr>" using demo_compose_text by metis+
  then show ?thesis by (simp add: demo_created_def demo_tag_def)
qed

lemma demo_exec_frame: "hs_fs (snd (demo_exec cmd h)) = hs_fs h" "hs_now (snd (demo_exec cmd h)) = hs_now h"
  by (auto simp: demo_exec_def Let_def)

lemma demo_docker_ok: "docker_ok demo_machine demo_tag demo_created"
proof -
  have "demo_tag h x \<noteq> Some []" for h x by (auto simp: demo_tag_def split: option.split)
  moreover have "demo_created (snd (compose demo_machine [''pull''] h)) = demo_created h" for h
    by (simp add: compose_def demo_paths demo_exec_def demo_created_def)
  moreover have "demo_tag h' x = Some i" if "demo_exec [''docker'', ''tag'', i, x] h = ((True, out), h')" for h h' out i x
    using that by (auto simp: demo_exec_def demo_tag_def split: if_split_asm)
  moreover have "demo_tag (demo_sleep h) = demo_tag h" "demo_created (demo_sleep h) = demo_created h"
    "hs_fs (demo_sleep h) ''/v/docker-compose.yml'' = hs_fs h ''/v/docker-compose.yml''" "hs_now h \<le> hs_now (demo_sleep h)" for h
    by (simp_all add: demo_sleep_def demo_tag_def demo_created_def fun_eq_iff)
  ultimately show ?thesis
    unfolding docker_ok_def demo_paths by (auto simp: demo_inspect demo_exec_frame dest: demo_up)
qed

lemma demo_update: "\<exists>h'. cmdUpdate demo_machine no_faults demo_host = (True, h') \<and> demo_created h' = Some ''new''"
proof -
  have t: "TrimSpace ''old'' = ''old''" "TrimSpace ''new'' = ''new''" "TrimSpace [] = []" by (simp_all add: TrimSpace_def white_def)
  let ?h2 = "demo_host\<lparr>hs_docker := ([''img'' \<mapsto> ''new''], Some ''old'')\<rparr>" and ?h4 = "demo_host\<lparr>hs_docker := ([''img'' \<mapsto> ''new''], Some ''new'')\<rparr>"
  have i: "imageID demo_machine ''img'' demo_host = (''old'', demo_host)" "imageID demo_machine ''img'' ?h2 = (''new'', ?h2)"
    by (simp_all add: demo_inspect demo_tag_def demo_host_def t)
  have p: "compose demo_machine [''pull''] demo_host = ((True, []), ?h2)" "compose demo_machine [''up'', ''-d''] ?h2 = ((True, []), ?h4)"
    by (simp_all add: compose_def demo_paths demo_exec_def demo_host_def t demo_tag_def)
  obtain n where n: "nat (120 * second div (2 * second)) + 2 = Suc (Suc n)" by (metis add_2_eq_Suc')
  have w: "waitStatus demo_machine no_faults (120 * second) 0 ?h4 = (Some demo_status, demo_sleep ?h4)"
    unfolding waitStatus_def n
    by (simp add: demo_paths ReadStatus_def read_file_def StatusPath_def demo_host_def demo_sleep_def)
      (simp add: demo_machine_def demo_status_def)
  have "cmdUpdate demo_machine no_faults demo_host = (True, demo_sleep ?h4)"
    unfolding cmdUpdate_def demo_paths demo_config option.case Let_def
    by (simp add: conf_get_def i p) (use w in \<open>simp add: demo_host_def healthy_state_def demo_status_def\<close>)
  then show ?thesis by (simp add: demo_created_def demo_sleep_def)
qed


theorem stalled_update_witness:
  "\<exists>h2. cmdUpdate demo_machine no_faults (demo_host\<lparr>hs_docker := ([''img'' \<mapsto> ''new''], Some ''old'')\<rparr>) = (True, h2) \<and> demo_created h2 \<noteq> demo_tag h2 ''img''"
proof -
  let ?h = "demo_host\<lparr>hs_docker := ([''img'' \<mapsto> ''new''], Some ''old'')\<rparr>"
  have t: "TrimSpace ''new'' = ''new''" "TrimSpace [] = []" by (simp_all add: TrimSpace_def white_def)
  have c: "loadConfig no_faults True (configPath demo_machine) (hs_fs ?h) = Some [(''VAPN_WORKER_IMAGE'', ''img'')]"
    using demo_config by (simp add: demo_paths)
  have p: "compose demo_machine [''pull''] ?h = ((True, []), ?h)" by (simp add: compose_def demo_paths demo_exec_def demo_host_def t)
  show ?thesis
    using stalled_update_not_retried [OF demo_docker_ok c _ p, of "''img''" "''new''"]
    by (simp add: conf_get_def demo_tag_def t demo_created_def)
qed


end
