(* ===== verification/AdminTool.thy ===== *)
theory AdminTool
  imports Fleet HostTool
begin

text \<open>
  The operator's command line \<^verbatim>\<open>vapnctl\<close> (\<^verbatim>\<open>cmd/vapnctl/main.go\<close>): the flags, the request helper, every
  command with its errors and exit codes, and what a command does to a coordinator behind the network. What is printed is
  a list of rows of cells; their alignment is left out. The decoders of the answers, the local rendering of times and scores
  and \<^verbatim>\<open>strconv.ParseInt\<close> in base 0 are parameters.
\<close>

section \<open>Addresses\<close>

text \<open>Unescaping of \<^verbatim>\<open>net/url\<close>; in a query a plus sign stands for a blank.\<close>

fun unescape :: "bool \<Rightarrow> string \<Rightarrow> string option" where
  "unescape query [] = Some []"
| "unescape query (c # cs) =
     (if c = CHR ''%'' then
        (case cs of
           a # b # rest \<Rightarrow>
             (case (hex_val a, hex_val b, unescape query rest) of
                (Some h, Some l, Some r) \<Rightarrow> Some (char_of (16 * h + l) # r)
              | _ \<Rightarrow> None)
         | _ \<Rightarrow> None)
      else map_option (Cons (if query \<and> c = CHR ''+'' then CHR '' '' else c)) (unescape query cs))"

text \<open>The text before the first \<open>c\<close> and the text behind it, which is empty when there is none.\<close>

definition cut_at :: "char \<Rightarrow> string \<Rightarrow> string \<times> string" where
  "cut_at c s = (case Cut c s of None \<Rightarrow> (s, []) | Some ab \<Rightarrow> ab)"

definition query_pair :: "string \<Rightarrow> (string \<times> string) list" where
  "query_pair piece =
     (if piece = [] \<or> CHR '';'' \<in> set piece then []
      else case cut_at (CHR ''='') piece of
        (k, v) \<Rightarrow> (case (unescape True k, unescape True v) of (Some k', Some v') \<Rightarrow> [(k', v')] | _ \<Rightarrow> []))"

definition ParseQuery :: "string \<Rightarrow> (string \<times> string) list" where
  "ParseQuery q = concat (map query_pair (split_on (CHR ''&'') q))"

definition control_char :: "char \<Rightarrow> bool" where
  "control_char c \<longleftrightarrow> (of_char c :: nat) < 32 \<or> (of_char c :: nat) = 127"

text \<open>
  Path and raw query of an absolute address; an address that cannot be parsed or has no host is
  \<^const>\<open>None\<close>. Which characters a host may have is left to the network.
\<close>

definition url_target :: "string \<Rightarrow> (string \<times> string) option" where
  "url_target u =
     (case cut_at (CHR ''#'') u of
        (main, frag) \<Rightarrow>
      (case cut_at (CHR ''?'') main of
        (addr, q) \<Rightarrow>
      (case Cut (CHR '':'') addr of
        None \<Rightarrow> None
      | Some (scheme, rest) \<Rightarrow>
          if list_ex control_char u \<or> to_lower scheme \<notin> {''http'', ''https''} \<or> take 2 rest \<noteq> ''//'' \<or> unescape False frag = None then None
          else (let host = takeWhile (\<lambda>c. c \<noteq> CHR ''/'') (drop 2 rest); path = dropWhile (\<lambda>c. c \<noteq> CHR ''/'') (drop 2 rest) in
            if host = [] then None else map_option (\<lambda>p. (if p = [] then ''/'' else p, q)) (unescape False path)))))"

section \<open>Requests\<close>

datatype ctl_error = CtlAddress | CtlTransport | CtlStatus nat string | CtlDecode | CtlUsage string

record ctl_client =
  ct_url :: string
  ct_token :: string

record feed_status =
  fd_last_success :: "time option"
  fd_last_error :: string
  fd_streak :: int

record overview =
  ov_states :: "(string \<times> int) list"
  ov_versions :: "(string \<times> int) list"
  ov_snapshot :: "(string \<times> int \<times> time) option"
  ov_open :: int
  ov_leases :: int
  ov_outbox :: int
  ov_events :: "(string \<times> int) list"
  ov_paused :: bool
  ov_feeds :: "(string \<times> feed_status) list"

record worker_item =
  wi_id :: string
  wi_name :: string
  wi_state :: string
  wi_reason :: string
  wi_version :: string
  wi_heartbeat :: "time option"

record worker_detail =
  wd_id :: string
  wd_name :: string
  wd_state :: string
  wd_reason :: "string option"
  wd_version :: "string option"
  wd_asn :: "int option"
  wd_enrolled :: time
  wd_heartbeat :: "time option"
  wd_score :: "rat option"
  wd_leases :: int
  wd_events :: "(string \<times> string \<times> time) list"

record snapshot_item =
  si_version :: string
  si_status :: string
  si_published :: "time option"
  si_v4 :: int
  si_v6 :: int
  si_has_data :: bool

record audit_item =
  ai_category :: string
  ai_actor :: string
  ai_action :: string
  ai_subject :: "string option"
  ai_detail :: "(string \<times> json) list"
  ai_created :: time

record ctl_env =
  ce_create :: "string \<Rightarrow> string \<Rightarrow> bytes"
  ce_state :: "string \<Rightarrow> string \<Rightarrow> bytes"
  ce_overview :: "json \<Rightarrow> overview option"
  ce_workers :: "json \<Rightarrow> worker_item list option"
  ce_detail :: "json \<Rightarrow> worker_detail option"
  ce_created :: "json \<Rightarrow> (string \<times> string) option"
  ce_snapshots :: "json \<Rightarrow> snapshot_item list option"
  ce_audit :: "json \<Rightarrow> audit_item list option"
  ce_fits :: "json \<Rightarrow> bool"
  ce_raw :: "response \<Rightarrow> string"
  ce_json_text :: "(string \<times> json) list \<Rightarrow> string"
  ce_time :: "string \<Rightarrow> time \<Rightarrow> string"
  ce_score :: "rat \<Rightarrow> string"
  ce_int :: "string \<Rightarrow> int option"

text \<open>The detail of a problem document; the raw body when there is none.\<close>

definition failure_text :: "ctl_env \<Rightarrow> response \<Rightarrow> string" where
  "failure_text E resp =
     (let detail = (case resp of
          Problem n d \<Rightarrow> d
        | JsonBody n (JObj fs) \<Rightarrow> json_string (map_of fs ''detail'')
        | _ \<Rightarrow> []) in
      if detail \<noteq> [] then detail else TrimSpace (ce_raw E resp))"

text \<open>Without a decoder the body of the answer is ignored. A body beyond four megabytes is cut off and does not decode.\<close>

definition decode_body :: "ctl_env \<Rightarrow> (json \<Rightarrow> 'a option) \<Rightarrow> response \<Rightarrow> ctl_error + 'a" where
  "decode_body E dec resp =
     (case resp of
        JsonBody n j \<Rightarrow> if \<not> ce_fits E j then Inl CtlDecode else (case dec j of None \<Rightarrow> Inl CtlDecode | Some x \<Rightarrow> Inr x)
      | _ \<Rightarrow> Inl CtlDecode)"

text \<open>A server answers a request line with a blank in the query by status 400, before any handler runs.\<close>

definition ctl_send :: "ctl_env \<Rightarrow> 'w net \<Rightarrow> ctl_client \<Rightarrow> string \<Rightarrow> string \<Rightarrow> bytes option \<Rightarrow> 'w \<Rightarrow> (ctl_error + response) \<times> 'w" where
  "ctl_send E net c method path body w =
     (case url_target (TrimRight (CHR ''/'') (ct_url c) @ path) of
        None \<Rightarrow> (Inl CtlAddress, w)
      | Some (p, q) \<Rightarrow>
          if list_ex (\<lambda>ch. control_char ch \<and> ch \<noteq> CHR 0x09) (ct_token c) then (Inl CtlTransport, w)
          else if CHR '' '' \<in> set q then (Inl (CtlStatus 400 []), w)
          else (case net \<lparr>req_method = method, req_path = p, req_query = ParseQuery q,
                  req_header = (''Authorization'', ''Bearer '' @ ct_token c) #
                    (if body = None then [] else [(''Content-Type'', ''application/json'')]),
                  req_body = Some (case body of None \<Rightarrow> [] | Some b \<Rightarrow> b), req_remote = []\<rparr> w of
             (None, w') \<Rightarrow> (Inl CtlTransport, w')
           | (Some resp, w') \<Rightarrow>
               (if status_of resp \<ge> 300 then Inl (CtlStatus (status_of resp) (failure_text E resp)) else Inr resp, w')))"

definition ctl_do :: "ctl_env \<Rightarrow> 'w net \<Rightarrow> ctl_client \<Rightarrow> string \<Rightarrow> string \<Rightarrow> bytes option \<Rightarrow> 'w \<Rightarrow> (ctl_error + unit) \<times> 'w" where
  "ctl_do E net c method path body w =
     (case ctl_send E net c method path body w of (r, w') \<Rightarrow> (and_then r (\<lambda>_. Inr ()), w'))"

definition ctl_get ::
  "ctl_env \<Rightarrow> 'w net \<Rightarrow> ctl_client \<Rightarrow> (json \<Rightarrow> 'a option) \<Rightarrow> string \<Rightarrow> string \<Rightarrow> bytes option \<Rightarrow> 'w \<Rightarrow> (ctl_error + 'a) \<times> 'w" where
  "ctl_get E net c dec method path body w =
     (case ctl_send E net c method path body w of (r, w') \<Rightarrow> (and_then r (decode_body E dec), w'))"

section \<open>Flags\<close>

datatype flag_result = Flags "(string \<times> string) list" "string list" | FlagHelp | FlagBad

text \<open>\<^verbatim>\<open>flag.Parse\<close> for flags that take a value; a later setting of a flag wins. \<open>ok\<close> says which texts its
  type accepts.\<close>

function parse_flags :: "string list \<Rightarrow> (string \<Rightarrow> string \<Rightarrow> bool) \<Rightarrow> (string \<times> string) list \<Rightarrow> string list \<Rightarrow> flag_result" where
  "parse_flags names ok vs args =
     (case args of
        [] \<Rightarrow> Flags vs []
      | s # rest \<Rightarrow>
          if length s < 2 \<or> hd s \<noteq> CHR ''-'' then Flags vs args
          else if s = ''--'' then Flags vs rest
          else let body = (if s ! 1 = CHR ''-'' then drop 2 s else tl s) in
            if body = [] \<or> hd body = CHR ''-'' \<or> hd body = CHR ''='' then FlagBad
            else case Cut (CHR ''='') body of
              Some (name, v) \<Rightarrow>
                if name \<in> set names then if ok name v then parse_flags names ok (obj_set name v vs) rest else FlagBad
                else if name = ''help'' \<or> name = ''h'' then FlagHelp else FlagBad
            | None \<Rightarrow>
                if body \<notin> set names then if body = ''help'' \<or> body = ''h'' then FlagHelp else FlagBad
                else (case rest of [] \<Rightarrow> FlagBad | v # left \<Rightarrow> if ok body v then parse_flags names ok (obj_set body v vs) left else FlagBad))"
  by pat_completeness auto
termination by (relation "measure (\<lambda>(_, _, _, args). length args)") auto

declare parse_flags.simps [simp del]

abbreviation any_text :: "string \<Rightarrow> string \<Rightarrow> bool" where "any_text \<equiv> (\<lambda>_ _. True)"

definition flag_value :: "string \<Rightarrow> (string \<times> string) list \<Rightarrow> string" where
  "flag_value k vs = (case map_of vs k of None \<Rightarrow> [] | Some v \<Rightarrow> v)"

section \<open>Commands\<close>

type_synonym rows = "string list list"

datatype ctl_outcome = Printed rows | Refused ctl_error | Exit nat

type_synonym 'w command = "'w \<Rightarrow> ctl_outcome \<times> 'w"

definition show_rows :: "('a \<Rightarrow> rows) \<Rightarrow> (ctl_error + 'a) \<times> 'w \<Rightarrow> ctl_outcome \<times> 'w" where
  "show_rows f rw = (case rw of (Inl e, w) \<Rightarrow> (Refused e, w) | (Inr x, w) \<Rightarrow> (Printed (f x), w))"

definition fmtTime :: "ctl_env \<Rightarrow> time option \<Rightarrow> string" where
  "fmtTime E t = (case t of None \<Rightarrow> ''-'' | Some x \<Rightarrow> ce_time E ''2006-01-02 15:04:05'' x)"

abbreviation rfc3339_layout :: string where "rfc3339_layout \<equiv> ''2006-01-02T15:04:05Z07:00''"

fun join :: "string \<Rightarrow> string list \<Rightarrow> string" where
  "join sep [] = []"
| "join sep [x] = x"
| "join sep (x # xs) = x @ sep @ join sep xs"

definition kv :: "(string \<times> int) list \<Rightarrow> string" where
  "kv m = (if m = [] then ''none''
     else join ''  '' (map (\<lambda>(k, n). k @ ''='' @ int_text n) (sort_key fst m)))"

definition feed_row :: "ctl_env \<Rightarrow> string \<times> feed_status \<Rightarrow> string list" where
  "feed_row E nf =
     (case nf of (name, f) \<Rightarrow>
       [''Advisor '' @ name @ '':'',
        (if fd_streak f > 0 then ''FAILING ('' @ int_text (fd_streak f) @ '' in a row): '' @ fd_last_error f
         else case fd_last_success f of
           Some t \<Rightarrow> ''ok (last success '' @ ce_time E rfc3339_layout t @ '')''
         | None \<Rightarrow> ''no pass yet'')])"

definition overview_rows :: "ctl_env \<Rightarrow> overview \<Rightarrow> rows" where
  "overview_rows E ov =
     [[''Workers:'', kv (ov_states ov)],
      [''Versions:'', kv (ov_versions ov)],
      [''Snapshot:'', (case ov_snapshot ov of
          None \<Rightarrow> ''none published''
        | Some (v, n, t) \<Rightarrow> v @ '' ('' @ int_text n @ '' targets, published '' @ ce_time E rfc3339_layout t @ '')'')],
      [''Assignments:'', int_text (ov_open ov) @ '' open/leased, '' @ int_text (ov_leases ov) @ '' live leases''],
      [''Outbox:'', int_text (ov_outbox ov) @ '' queued''],
      [''Security (24h):'', kv (ov_events ov)],
      [''Scheduler:'', if ov_paused ov then ''PAUSED'' else ''running'']] @
     map (feed_row E) (sort_key fst (ov_feeds ov))"

definition ctl_cmdStatus :: "ctl_env \<Rightarrow> 'w net \<Rightarrow> ctl_client \<Rightarrow> 'w command" where
  "ctl_cmdStatus E net c w = show_rows (overview_rows E) (ctl_get E net c (ce_overview E) ''GET'' ''/admin/v1/overview'' None w)"

definition worker_row_text :: "ctl_env \<Rightarrow> worker_item \<Rightarrow> string list" where
  "worker_row_text E wk = [wi_id wk, wi_name wk, wi_state wk, wi_version wk, fmtTime E (wi_heartbeat wk), wi_reason wk]"

definition detail_rows :: "ctl_env \<Rightarrow> worker_detail \<Rightarrow> rows" where
  "detail_rows E d =
     [[''ID:'', wd_id d], [''Name:'', wd_name d],
      [''State:'', wd_state d @ (case wd_reason d of None \<Rightarrow> [] | Some r \<Rightarrow> if r = [] then [] else '' ('' @ r @ '')'')]] @
     (case wd_version d of None \<Rightarrow> [] | Some v \<Rightarrow> [[''Version:'', v]]) @
     (case wd_asn d of None \<Rightarrow> [] | Some a \<Rightarrow> [[''Source ASN:'', int_text a]]) @
     [[''Enrolled:'', ce_time E ''2006-01-02 15:04:05'' (wd_enrolled d)],
      [''Heartbeat:'', fmtTime E (wd_heartbeat d)],
      [''Trust:'', (case wd_score d of None \<Rightarrow> ''not yet scored'' | Some s \<Rightarrow> ce_score E s)],
      [''Live leases:'', int_text (wd_leases d)]] @
     (if wd_events d = [] then []
      else [''Recent trust events:''] #
        map (\<lambda>(act, who, t). [''  '' @ ce_time E ''01-02 15:04'' t, act, ''by '' @ who]) (wd_events d))"

definition state_of_verb :: "(string \<times> string) list" where
  "state_of_verb = [(''approve'', ''active''), (''suspend'', ''suspended''), (''quarantine'', ''quarantined''), (''retire'', ''retired'')]"

definition set_worker_state :: "ctl_env \<Rightarrow> 'w net \<Rightarrow> ctl_client \<Rightarrow> string \<Rightarrow> string list \<Rightarrow> 'w command" where
  "set_worker_state E net c sub args w =
     (case args of
        [] \<Rightarrow> (Refused (CtlUsage (''workers '' @ sub @ '': worker id required'')), w)
      | wid # rest \<Rightarrow>
          (case parse_flags [''reason''] any_text [] rest of
             FlagHelp \<Rightarrow> (Exit 0, w)
           | FlagBad \<Rightarrow> (Exit 2, w)
           | Flags vs _ \<Rightarrow>
               (let st = (case map_of state_of_verb sub of None \<Rightarrow> [] | Some x \<Rightarrow> x) in
                show_rows (\<lambda>_. [[''worker '' @ wid, st]])
                  (ctl_do E net c ''POST'' (''/admin/v1/workers/'' @ wid @ ''/state'') (Some (ce_state E st (flag_value ''reason'' vs))) w))))"

definition create_worker :: "ctl_env \<Rightarrow> 'w net \<Rightarrow> ctl_client \<Rightarrow> string list \<Rightarrow> 'w command" where
  "create_worker E net c args w =
     (case parse_flags [''name'', ''operator''] any_text [] args of
        FlagHelp \<Rightarrow> (Exit 0, w)
      | FlagBad \<Rightarrow> (Exit 2, w)
      | Flags vs _ \<Rightarrow>
          if flag_value ''name'' vs = [] then (Refused (CtlUsage ''workers create: --name required''), w)
          else show_rows (\<lambda>(wid, token). [[''Worker ID:'', wid], [''Enrollment token:'', token]])
            (ctl_get E net c (ce_created E) ''POST'' ''/admin/v1/workers'' (Some (ce_create E (flag_value ''name'' vs) (flag_value ''operator'' vs))) w))"

definition ctl_cmdWorkers :: "ctl_env \<Rightarrow> 'w net \<Rightarrow> ctl_client \<Rightarrow> string list \<Rightarrow> 'w command" where
  "ctl_cmdWorkers E net c args w =
     (case args of
        [] \<Rightarrow> (Refused (CtlUsage ''workers: subcommand required''), w)
      | sub # rest \<Rightarrow>
          if sub = ''list'' then
            show_rows (\<lambda>ws. [''ID'', ''NAME'', ''STATE'', ''VERSION'', ''LAST HEARTBEAT'', ''REASON''] # map (worker_row_text E) ws)
              (ctl_get E net c (ce_workers E) ''GET'' ''/admin/v1/workers'' None w)
          else if sub = ''show'' then
            (case rest of
               [] \<Rightarrow> (Refused (CtlUsage ''workers show: worker id required''), w)
             | wid # _ \<Rightarrow> show_rows (detail_rows E) (ctl_get E net c (ce_detail E) ''GET'' (''/admin/v1/workers/'' @ wid) None w))
          else if sub = ''create'' then create_worker E net c rest w
          else if sub \<in> fst ` set state_of_verb then set_worker_state E net c sub rest w
          else if sub = ''rotate-key'' then
            (case rest of
               [] \<Rightarrow> (Refused (CtlUsage ''workers rotate-key: worker id required''), w)
             | wid # _ \<Rightarrow> show_rows (\<lambda>_. [[''rotation demanded; the worker rotates at its next heartbeat'']])
                 (ctl_do E net c ''POST'' (''/admin/v1/workers/'' @ wid @ ''/rotate-key'') (Some ''{}'') w))
          else (Refused (CtlUsage (''workers: unknown subcommand '' @ sub)), w))"

definition snapshot_row_text :: "ctl_env \<Rightarrow> snapshot_item \<Rightarrow> string list" where
  "snapshot_row_text E sn =
     [si_version sn, si_status sn, int_text (si_v4 sn) @ ''/'' @ int_text (si_v6 sn), fmtTime E (si_published sn),
      if si_has_data sn then ''yes'' else ''pruned'']"

definition ctl_cmdSnapshots :: "ctl_env \<Rightarrow> 'w net \<Rightarrow> ctl_client \<Rightarrow> string list \<Rightarrow> 'w command" where
  "ctl_cmdSnapshots E net c args w =
     (case args of
        [] \<Rightarrow> (Refused (CtlUsage ''snapshots: subcommand required (list|rollback)''), w)
      | sub # rest \<Rightarrow>
          if sub = ''list'' then
            show_rows (\<lambda>sns. [''VERSION'', ''STATUS'', ''PREFIXES(v4/v6)'', ''PUBLISHED'', ''ROLLBACK?''] # map (snapshot_row_text E) sns)
              (ctl_get E net c (ce_snapshots E) ''GET'' ''/admin/v1/snapshots'' None w)
          else if sub = ''rollback'' then
            (case rest of
               [] \<Rightarrow> (Refused (CtlUsage ''snapshots rollback: version required''), w)
             | version # _ \<Rightarrow> show_rows (\<lambda>_. [[''published '' @ version @ ''; workers converge on their next heartbeat'']])
                 (ctl_do E net c ''POST'' (''/admin/v1/snapshots/'' @ version @ ''/rollback'') (Some ''{}'') w))
          else (Refused (CtlUsage (''snapshots: unknown subcommand '' @ sub)), w))"

definition ctl_cmdScheduler :: "ctl_env \<Rightarrow> 'w net \<Rightarrow> ctl_client \<Rightarrow> string list \<Rightarrow> 'w command" where
  "ctl_cmdScheduler E net c args w =
     (case args of
        [] \<Rightarrow> (Refused (CtlUsage ''scheduler: pause or resume required''), w)
      | sub # _ \<Rightarrow>
          if sub \<noteq> ''pause'' \<and> sub \<noteq> ''resume'' then (Refused (CtlUsage ''scheduler: pause or resume required''), w)
          else show_rows (\<lambda>_. [[if sub = ''pause''
                 then ''scheduler paused: lease requests return empty; the fleet idles within one lease interval''
                 else ''scheduler resumed'']])
            (ctl_do E net c ''POST'' (''/admin/v1/scheduler/'' @ sub) (Some ''{}'') w))"

definition audit_query :: "int \<Rightarrow> string \<Rightarrow> string \<Rightarrow> string" where
  "audit_query limit category since =
     ''?limit='' @ int_text limit @ (if category \<noteq> [] then ''&category='' @ category else []) @
     (if since \<noteq> [] then ''&since='' @ since else [])"

definition audit_row_text :: "ctl_env \<Rightarrow> audit_item \<Rightarrow> string list" where
  "audit_row_text E e =
     [ce_time E ''01-02 15:04:05'' (ai_created e), ai_category e, ai_actor e, ai_action e,
      (case ai_subject e of None \<Rightarrow> ''-'' | Some s \<Rightarrow> s), if ai_detail e = [] then [] else ce_json_text E (ai_detail e)]"

definition ctl_cmdAudit :: "ctl_env \<Rightarrow> 'w net \<Rightarrow> ctl_client \<Rightarrow> string list \<Rightarrow> 'w command" where
  "ctl_cmdAudit E net c args w =
     (case parse_flags [''category'', ''since'', ''limit''] (\<lambda>k v. k = ''limit'' \<longrightarrow> ce_int E v \<noteq> None) [] args of
        FlagHelp \<Rightarrow> (Exit 0, w)
      | FlagBad \<Rightarrow> (Exit 2, w)
      | Flags vs _ \<Rightarrow>
          (case (case map_of vs ''limit'' of None \<Rightarrow> Some 100 | Some v \<Rightarrow> ce_int E v) of
             None \<Rightarrow> (Exit 2, w)
           | Some limit \<Rightarrow>
               show_rows (\<lambda>es. [''TIME'', ''CATEGORY'', ''ACTOR'', ''ACTION'', ''SUBJECT'', ''DETAIL''] # map (audit_row_text E) es)
                 (ctl_get E net c (ce_audit E) ''GET''
                    (''/admin/v1/audit'' @ audit_query limit (flag_value ''category'' vs) (flag_value ''since'' vs)) None w)))"

text \<open>\<open>getenv\<close> reads the environment; the result is the exit code and what was printed or reported.\<close>

definition exit_code :: "ctl_outcome \<Rightarrow> nat" where
  "exit_code oc = (case oc of Printed _ \<Rightarrow> 0 | Refused _ \<Rightarrow> 1 | Exit n \<Rightarrow> n)"

definition vapnctl_main :: "ctl_env \<Rightarrow> 'w net \<Rightarrow> (string \<Rightarrow> string) \<Rightarrow> string list \<Rightarrow> 'w command" where
  "vapnctl_main E net getenv argv w =
     (case parse_flags [''url'', ''token''] any_text [(''url'', getenv ''VAPN_COORDINATOR_URL''), (''token'', getenv ''VAPN_ADMIN_TOKEN'')] argv of
        FlagHelp \<Rightarrow> (Exit 0, w)
      | FlagBad \<Rightarrow> (Exit 2, w)
      | Flags vs [] \<Rightarrow> (Exit 2, w)
      | Flags vs (cmd # rest) \<Rightarrow>
          if flag_value ''url'' vs = [] \<or> flag_value ''token'' vs = [] then (Refused (CtlUsage ''coordinator URL and admin token required''), w)
          else let c = \<lparr>ct_url = flag_value ''url'' vs, ct_token = flag_value ''token'' vs\<rparr> in
            if cmd = ''status'' then ctl_cmdStatus E net c w
            else if cmd = ''workers'' then ctl_cmdWorkers E net c rest w
            else if cmd = ''snapshots'' then ctl_cmdSnapshots E net c rest w
            else if cmd = ''scheduler'' then ctl_cmdScheduler E net c rest w
            else if cmd = ''audit'' then ctl_cmdAudit E net c rest w
            else (Exit 2, w))"

section \<open>What reaches the coordinator\<close>

text \<open>A base address as operators write it: scheme and host, without a path.\<close>

definition origin :: "string \<Rightarrow> bool" where
  "origin u \<longleftrightarrow> (\<exists>scheme host. u = scheme @ ''://'' @ host \<and> scheme \<in> {''http'', ''https''} \<and> host \<noteq> [] \<and>
     (\<forall>c \<in> set host. c \<notin> set ''/?#'' \<and> \<not> control_char c))"

text \<open>Paths of the admin API: unreserved characters between slashes.\<close>

definition plain_path :: "string \<Rightarrow> bool" where
  "plain_path p \<longleftrightarrow> p \<noteq> [] \<and> hd p = CHR ''/'' \<and> (\<forall>c \<in> set p. unreserved c \<or> c = CHR ''/'')"

definition plain_id :: "string \<Rightarrow> bool" where
  "plain_id s \<longleftrightarrow> s \<noteq> [] \<and> (\<forall>c \<in> set s. unreserved c)"

lemma unreserved_neq:
  assumes "unreserved c"
  shows "c \<noteq> CHR ''/''" "c \<noteq> CHR ''%''" "c \<noteq> CHR ''?''" "c \<noteq> CHR ''#''" "c \<noteq> CHR '':''" "\<not> control_char c" "c \<noteq> CHR ''=''"
  using assms by (auto simp: unreserved_def control_char_def Let_def)

lemma plain_path_chars: "plain_path p \<Longrightarrow> c \<in> set p \<Longrightarrow> c \<noteq> CHR ''%'' \<and> c \<noteq> CHR ''?'' \<and> c \<noteq> CHR ''#'' \<and> \<not> control_char c"
proof -
  assume "plain_path p" "c \<in> set p"
  then have "unreserved c \<or> c = CHR ''/''" unfolding plain_path_def by blast
  then show ?thesis using unreserved_neq [of c] by (elim disjE) (simp_all add: control_char_def)
qed

lemma unescape_plain: "\<forall>c \<in> set s. c \<noteq> CHR ''%'' \<Longrightarrow> unescape False s = Some s"
  by (induction s) auto

lemma Cut_none: "c \<notin> set a \<Longrightarrow> Cut c a = None"
  by (induction a) auto

lemma cut_at_simps: "c \<notin> set a \<Longrightarrow> cut_at c a = (a, [])" "c \<notin> set a \<Longrightarrow> cut_at c (a @ c # b) = (a, b)"
  by (simp_all add: cut_at_def Cut_line Cut_none)

lemma url_target_origin:
  assumes "origin u" "plain_path p" "q = [] \<or> q = CHR ''?'' # r" "\<forall>c \<in> set q. c \<noteq> CHR ''#'' \<and> \<not> control_char c"
  shows "url_target (u @ p @ q) = Some (p, tl q)"
proof -
  obtain scheme host where u: "u = scheme @ ''://'' @ host" "scheme \<in> {''http'', ''https''}" "host \<noteq> []"
    and h: "\<And>c. c \<in> set host \<Longrightarrow> c \<notin> set ''/?#'' \<and> \<not> control_char c" using assms(1) unfolding origin_def by blast
  note pc = plain_path_chars [OF assms(2)]
  have hash: "CHR ''#'' \<notin> set (u @ p @ q)" using u h pc assms(4) by auto
  have "CHR ''?'' \<notin> set (u @ p)" using u h pc by auto
  then have q: "cut_at (CHR ''?'') (u @ p @ q) = (u @ p, tl q)"
    using assms(3) cut_at_simps(2) [of "CHR ''?''" "u @ p" r] by (auto simp: cut_at_simps(1))
  have c: "Cut (CHR '':'') (u @ p) = Some (scheme, ''//'' @ host @ p)"
    using u(2) Cut_line [of "CHR '':''" scheme "''//'' @ host @ p"] by (auto simp: u(1))
  have ctl: "\<not> list_ex control_char (u @ p @ q)"
    using u(2) h pc assms(4) by (auto simp: u(1) list_ex_iff control_char_def)
  have "takeWhile (\<lambda>c. c \<noteq> CHR ''/'') (host @ p) = host" "dropWhile (\<lambda>c. c \<noteq> CHR ''/'') (host @ p) = p"
    using h assms(2) by (auto simp: plain_path_def takeWhile_append dropWhile_append neq_Nil_conv)
  moreover have "unescape False p = Some p" using pc by (intro unescape_plain) auto
  ultimately show ?thesis
    using u(2,3) assms(2) ctl c
    by (auto simp: url_target_def cut_at_simps(1) [OF hash] q to_lower_def plain_path_def)
qed

lemma origin_not_Nil: "origin u \<Longrightarrow> u \<noteq> []"
  unfolding origin_def by force

lemma TrimRight_origin: "origin u \<Longrightarrow> TrimRight (CHR ''/'') u = u"
proof -
  assume "origin u"
  then obtain scheme host where u: "u = scheme @ ''://'' @ host" "host \<noteq> []" and h: "\<forall>c \<in> set host. c \<notin> set ''/?#'' \<and> \<not> control_char c"
    unfolding origin_def by blast
  obtain hs c where "host = hs @ [c]" using u(2) by (metis append_butlast_last_id)
  then show ?thesis using u h by (simp add: TrimRight_def)
qed

lemma segments_plain: "\<forall>c \<in> set s. c \<noteq> CHR ''/'' \<Longrightarrow> segments s = [s]"
  by (induction s) auto

lemma segments_not_Nil: "segments s \<noteq> []"
  by (cases s) (auto split: list.split)

lemma segments_slash: "segments (a @ CHR ''/'' # b) = segments a @ segments b"
proof (induction a)
  case (Cons c a)
  then show ?case using segments_not_Nil [of a] by (cases "segments a") auto
qed simp

lemma worker_path_segments:
  assumes "plain_id wid"
  shows "segments (''/admin/v1/workers/'' @ wid @ ''/'' @ s) = [[], ''admin'', ''v1'', ''workers'', wid] @ segments s"
proof -
  have "segments wid = [wid]" using assms unreserved_neq by (intro segments_plain) (auto simp: plain_id_def)
  then show ?thesis
    using segments_slash [of "''/admin/v1/workers''" "wid @ ''/'' @ s"] segments_slash [of wid s] by simp
qed

lemma state_route:
  assumes "plain_id wid"
  shows "route_of ''POST'' (''/admin/v1/workers/'' @ wid @ ''/state'') = Some (ASetState, [wid])"
  using worker_path_segments [OF assms, of "''state''"] assms
  by (simp add: route_of_def routes_def worker_base_def admin_base_def method_matches_def plain_id_def)

lemma plain_id_path:
  assumes "plain_id wid" shows "plain_path (''/admin/v1/workers/'' @ wid @ ''/state'')"
  using assms by (auto simp: plain_path_def plain_id_def unreserved_def)

text \<open>The operator's tool is set up for this coordinator, and token and answers travel as they are.\<close>

definition ctl_ready :: "(string \<Rightarrow> string) \<Rightarrow> 's deployment \<Rightarrow> bool" where
  "ctl_ready getenv dp \<longleftrightarrow> origin (getenv ''VAPN_COORDINATOR_URL'') \<and> getenv ''VAPN_ADMIN_TOKEN'' = cf_admin_token (dp_cfg dp) \<and>
     cf_admin_token (dp_cfg dp) \<noteq> [] \<and> \<not> list_ex (\<lambda>ch. control_char ch \<and> ch \<noteq> CHR 0x09) (cf_admin_token (dp_cfg dp))"

definition ctl_request :: "'s deployment \<Rightarrow> string \<Rightarrow> string \<Rightarrow> (string \<times> string) list \<Rightarrow> bytes option \<Rightarrow> request" where
  "ctl_request dp method path q body =
     \<lparr>req_method = method, req_path = path, req_query = q,
      req_header = (''Authorization'', ''Bearer '' @ cf_admin_token (dp_cfg dp)) # (if body = None then [] else [(''Content-Type'', ''application/json'')]),
      req_body = Some (case body of None \<Rightarrow> [] | Some b \<Rightarrow> b), req_remote = []\<rparr>"

lemma ctl_send_served:
  assumes "ctl_ready getenv dp" "plain_path p" "q = [] \<or> q = CHR ''?'' # r" "\<forall>c \<in> set q. c \<noteq> CHR ''#'' \<and> c \<noteq> CHR '' '' \<and> \<not> control_char c"
    "c = \<lparr>ct_url = getenv ''VAPN_COORDINATOR_URL'', ct_token = getenv ''VAPN_ADMIN_TOKEN''\<rparr>"
    "serve dp tx (ticks n) (ctl_request dp method p (ParseQuery (tl q)) body) sv = (resp, sv')"
  shows "ctl_send E (coordinator_net dp tx ticks lost) c method (p @ q) body (n, sv) =
    (if lost n then Inl CtlTransport else if status_of resp \<ge> 300 then Inl (CtlStatus (status_of resp) (failure_text E resp)) else Inr resp, (n + 1, sv'))"
proof -
  have "url_target (TrimRight (CHR ''/'') (ct_url c) @ p @ q) = Some (p, tl q)"
    using assms(1,5) url_target_origin [OF _ assms(2,3)] assms(4) by (simp add: ctl_ready_def TrimRight_origin)
  moreover have "CHR '' '' \<notin> set (tl q)" using assms(4) by (cases q) auto
  ultimately show ?thesis
    using assms(1,5,6) by (simp add: ctl_send_def ctl_ready_def coordinator_net_def ctl_request_def)
qed

lemma parse_flags_Nil: "parse_flags names ok vs [] = Flags vs []"
  using parse_flags.simps [of names ok vs "[]"] by (simp only: list.case)

lemma parse_flags_stop:
  assumes "length s < 2 \<or> hd s \<noteq> CHR ''-''" shows "parse_flags names ok vs (s # rest) = Flags vs (s # rest)"
  using parse_flags.simps [of names ok vs "s # rest"] by (simp only: list.case assms if_True)

lemma parse_flags_value:
  assumes "k \<in> set names" "\<forall>c \<in> set k. unreserved c \<and> c \<noteq> CHR ''-''" "k \<noteq> []" "ok k v"
  shows "parse_flags names ok vs ((''--'' @ k) # v # rest) = parse_flags names ok (obj_set k v vs) rest"
proof -
  have "CHR ''='' \<notin> set k" using assms(2) unreserved_neq(7) by blast
  moreover have "hd k \<noteq> CHR ''-''" "hd k \<noteq> CHR ''=''" using assms(2,3) unreserved_neq(7) hd_in_set by metis+
  moreover have "''--'' @ k \<noteq> ''--''" "(''--'' @ k) ! 1 = CHR ''-''" "drop 2 (''--'' @ k) = k" "\<not> length (''--'' @ k) < 2" "hd (''--'' @ k) = CHR ''-''"
    using assms(3) by simp_all
  ultimately show ?thesis using assms(1,3,4) parse_flags.simps [of names ok vs "(''--'' @ k) # v # rest"]
    by (simp only: list.case option.case Let_def Cut_none if_True if_False simp_thms)
qed

section \<open>Changing the state of a worker\<close>

lemma server_audit_registry [simp]: "reg (server_audit dp tk a b c d e sv) = reg sv"
  by (simp add: server_audit_def upd_db_def)

lemma exit_code_show: "exit_code (fst (show_rows f (r, w))) = (if is_ok r then 0 else 1)" "snd (show_rows f (r, w)) = w"
  by (cases r; simp add: show_rows_def exit_code_def)+

lemma served_state:
  assumes "plain_id wid" "cf_admin_token (dp_cfg dp) \<noteq> []" "dec_state (dp_dec dp) (take max_small b) = Some (st, reason)"
  shows "serve dp tx tk (ctl_request dp ''POST'' (''/admin/v1/workers/'' @ wid @ ''/state'') q (Some b)) sv =
    adminSetState dp wid tk (ctl_request dp ''POST'' (''/admin/v1/workers/'' @ wid @ ''/state'') q (Some b)) sv"
  using state_route [OF assms(1)] assms(2)
  by (simp add: serve_def endpoint_handler_def admin_def path_value_def ctl_request_def header_get_def)

lemma cmdWorkers_state:
  assumes "sub \<in> fst ` set state_of_verb" shows "ctl_cmdWorkers E net c (sub # rest) w = set_worker_state E net c sub rest w"
proof -
  have "sub \<noteq> ''list'' \<and> sub \<noteq> ''show'' \<and> sub \<noteq> ''create''" using assms by (auto simp: state_of_verb_def)
  then show ?thesis using assms by (simp add: ctl_cmdWorkers_def)
qed

text \<open>
  C28. A command of the operator is one transition of the registry: \<open>vapnctl workers <verb> <id> --reason R\<close> changes
  the registry exactly as \<open>SetState\<close> does with the state the verb stands for and the given reason, on behalf of the admin, and changes
  nothing when \<open>SetState\<close> refuses. The exit code is 0 only when the transition was made, and exactly then unless the answer was lost.
\<close>

theorem vapnctl_sets_state:
  assumes "ctl_ready getenv dp" and "(sub, st) \<in> {(''approve'', ''active''), (''suspend'', ''suspended''), (''quarantine'', ''quarantined''), (''retire'', ''retired'')}"
    and "plain_id wid"
    and "dec_state (dp_dec dp) (take max_small (ce_state E st reason)) = Some (st, reason)"
    and "vapnctl_main E (coordinator_net dp tx ticks lost) getenv [''workers'', sub, wid, ''--reason'', reason] (n, sv) = (oc, (n', sv'))"
  shows "(case SetState (tk_faults (ticks n)) (tk_now (ticks n)) wid st reason ''admin'' (reg sv) of
      Inr R \<Rightarrow> reg sv' = R \<and> (exit_code oc = 0 \<longleftrightarrow> \<not> lost n)
    | Inl e \<Rightarrow> sv' = sv \<and> exit_code oc = 1)"
proof -
  let ?path = "''/admin/v1/workers/'' @ wid @ ''/state''" and ?body = "Some (ce_state E st reason)" and ?tk = "ticks n"
  let ?c = "\<lparr>ct_url = getenv ''VAPN_COORDINATOR_URL'', ct_token = getenv ''VAPN_ADMIN_TOKEN''\<rparr>"
  let ?req = "ctl_request dp ''POST'' ?path (ParseQuery (tl [])) ?body"
  have verb: "map_of state_of_verb sub = Some st" "sub \<in> fst ` set state_of_verb"
    using assms(2) by (auto simp: state_of_verb_def)
  obtain resp sv1 where served: "serve dp tx ?tk ?req sv = (resp, sv1)" by (metis surj_pair)
  have nonempty: "getenv ''VAPN_COORDINATOR_URL'' \<noteq> []" "getenv ''VAPN_ADMIN_TOKEN'' \<noteq> []"
    using assms(1) origin_not_Nil by (simp_all add: ctl_ready_def)
  have flags: "parse_flags [''reason''] any_text [] [''--reason'', reason] = Flags [(''reason'', reason)] []"
    using parse_flags_value [of "''reason''" "[''reason'']" any_text reason "[]" "[]"] by (simp add: unreserved_def parse_flags_Nil obj_set_def)
  have "vapnctl_main E (coordinator_net dp tx ticks lost) getenv [''workers'', sub, wid, ''--reason'', reason] (n, sv) =
      set_worker_state E (coordinator_net dp tx ticks lost) ?c sub [wid, ''--reason'', reason] (n, sv)"
    using nonempty verb(2) by (simp add: vapnctl_main_def parse_flags_stop flag_value_def cmdWorkers_state)
  also have "\<dots> = show_rows (\<lambda>_. [[''worker '' @ wid, st]]) (ctl_do E (coordinator_net dp tx ticks lost) ?c ''POST'' ?path ?body (n, sv))"
    by (simp add: set_worker_state_def flags verb(1) flag_value_def)
  finally have run: "(oc, (n', sv')) = show_rows (\<lambda>_. [[''worker '' @ wid, st]]) (ctl_do E (coordinator_net dp tx ticks lost) ?c ''POST'' ?path ?body (n, sv))"
    using assms(5) by simp
  have sent: "ctl_send E (coordinator_net dp tx ticks lost) ?c ''POST'' ?path ?body (n, sv) =
      (if lost n then Inl CtlTransport else if status_of resp \<ge> 300 then Inl (CtlStatus (status_of resp) (failure_text E resp)) else Inr resp, (n + 1, sv1))"
    using ctl_send_served [OF assms(1) plain_id_path [OF assms(3)], of "[]" "[]" ?c tx ticks n "''POST''" ?body sv resp sv1 E lost] served by simp
  have ok: "sv' = sv1" "exit_code oc = (if lost n \<or> status_of resp \<ge> 300 then 1 else 0)"
    using run unfolding ctl_do_def sent show_rows_def exit_code_def by (auto split: if_split_asm)
  have "serve dp tx ?tk ?req sv = adminSetState dp wid ?tk ?req sv"
    using assms(1,4) by (intro served_state [OF assms(3)]) (auto simp: ctl_ready_def)
  then have "(resp, sv1) = (case SetState (tk_faults ?tk) (tk_now ?tk) wid st reason ''admin'' (reg sv) of
      Inl ErrUnknownWorker \<Rightarrow> (problem 404 ''unknown worker'', sv)
    | Inl (ErrBadTransition a b) \<Rightarrow> (problem 409 (dp_error_text dp (ErrBadTransition a b)), sv)
    | Inl _ \<Rightarrow> (problem 500 ''transition failed'', sv)
    | Inr R \<Rightarrow> (Empty 204, server_audit dp ?tk ''admin'' ''admin'' (''worker_state:'' @ st) wid [(''reason'', JStr reason)] (upd_registry R sv)))"
    using served assms(4) by (simp add: adminSetState_def limited_def ctl_request_def)
  then show ?thesis using ok by (auto split: sum.split reg_error.split_asm)
qed

section \<open>The kill switch\<close>

lemma pause_route:
  "route_of ''POST'' ''/admin/v1/scheduler/pause'' = Some (APause, [])" "route_of ''POST'' ''/admin/v1/scheduler/resume'' = Some (AResume, [])"
  by code_simp+

text \<open>
  The kill switch works also when its answer is lost: the coordinator is paused or running as the command says,
  and the exit code is 0 exactly when the answer arrived.
\<close>

theorem scheduler_command:
  assumes "ctl_ready getenv dp" and "sub = ''pause'' \<or> sub = ''resume''"
    and "vapnctl_main E (coordinator_net dp tx ticks lost) getenv [''scheduler'', sub] (n, sv) = (oc, (n', sv'))"
  shows "sv_paused sv' = (sub = ''pause'') \<and> (exit_code oc = 0 \<longleftrightarrow> \<not> lost n) \<and> reg sv' = reg sv"
proof -
  let ?path = "''/admin/v1/scheduler/'' @ sub" and ?body = "Some ''{}''" and ?net = "coordinator_net dp tx ticks lost"
  let ?c = "\<lparr>ct_url = getenv ''VAPN_COORDINATOR_URL'', ct_token = getenv ''VAPN_ADMIN_TOKEN''\<rparr>"
  let ?req = "ctl_request dp ''POST'' ?path (ParseQuery (tl [])) ?body"
  have nonempty: "getenv ''VAPN_COORDINATOR_URL'' \<noteq> []" "getenv ''VAPN_ADMIN_TOKEN'' \<noteq> []"
    using assms(1) origin_not_Nil by (simp_all add: ctl_ready_def)
  have path: "plain_path ?path" using assms(2) by (elim disjE) (simp_all add: plain_path_def unreserved_def)
  have "serve dp tx (ticks n) ?req sv = adminPause (sub = ''pause'') dp (ticks n) ?req sv"
    using assms(1,2) pause_route
    by (elim disjE) (simp_all add: serve_def endpoint_handler_def admin_def ctl_request_def header_get_def ctl_ready_def)
  then obtain sv1 where served: "serve dp tx (ticks n) ?req sv = (Empty 204, sv1)" "sv_paused sv1 = (sub = ''pause'')" "reg sv1 = reg sv"
    by (simp add: adminPause_def server_audit_def upd_db_def)
  have sent: "ctl_send E ?net ?c ''POST'' ?path ?body (n, sv) = (if lost n then Inl CtlTransport else Inr (Empty 204), (n + 1, sv1))"
    using ctl_send_served [OF assms(1) path, of "[]" "[]" ?c tx ticks n "''POST''" ?body sv "Empty 204" sv1 E lost] served(1) by simp
  have "vapnctl_main E ?net getenv [''scheduler'', sub] (n, sv) = ctl_cmdScheduler E ?net ?c [sub] (n, sv)"
    using nonempty by (simp add: vapnctl_main_def parse_flags_stop flag_value_def)
  also have "\<dots> = show_rows (\<lambda>_. [[if sub = ''pause''
       then ''scheduler paused: lease requests return empty; the fleet idles within one lease interval'' else ''scheduler resumed'']])
     (if lost n then Inl CtlTransport else Inr (), (n + 1, sv1))"
    using assms(2) by (auto simp only: ctl_cmdScheduler_def ctl_do_def sent list.case prod.case if_False simp_thms and_then_simps split: if_split)
  finally have "oc = (if lost n then Refused CtlTransport else Printed [[if sub = ''pause''
       then ''scheduler paused: lease requests return empty; the fleet idles within one lease interval'' else ''scheduler resumed'']])" "sv' = sv1"
    using assms(3) by (auto simp: show_rows_def split: if_split_asm)
  then show ?thesis using served(2,3) by (simp add: exit_code_def)
qed

section \<open>The lower bound of an audit query\<close>

definition query_char :: "char \<Rightarrow> bool" where
  "query_char c \<longleftrightarrow> unreserved c \<or> c \<in> set '':+''"

lemma query_char_neq:
  assumes "query_char c" shows "c \<noteq> CHR ''%''" "c \<noteq> CHR ''&''" "c \<noteq> CHR '';''" "c \<noteq> CHR ''=''"
  using assms by (auto simp: query_char_def unreserved_def)

lemma int_text_chars: "c \<in> set (int_text i) \<Longrightarrow> query_char c"
  using nat_text_digits by (fastforce simp: int_text_def query_char_def unreserved_def Let_def split: if_split_asm)

lemma unescape_query: "\<forall>c \<in> set s. query_char c \<Longrightarrow> unescape True s = Some (map (\<lambda>c. if c = CHR ''+'' then CHR '' '' else c) s)"
  using query_char_neq(1) by (induction s) auto

lemma split_on_single: "c \<notin> set s \<Longrightarrow> split_on c s = [s]"
  by (induction s) auto

lemma query_pair_plain:
  assumes "k \<noteq> []" "\<forall>c \<in> set k. unreserved c" "\<forall>c \<in> set v. query_char c"
  shows "query_pair (k @ CHR ''='' # v) = [(k, map (\<lambda>c. if c = CHR ''+'' then CHR '' '' else c) v)]"
proof -
  have q: "\<forall>c \<in> set k. query_char c" using assms(2) by (simp add: query_char_def)
  have "CHR '';'' \<notin> set (k @ CHR ''='' # v)" using q assms(3) query_char_neq(3) by auto
  moreover have "CHR ''='' \<notin> set k" using q query_char_neq(4) by blast
  moreover have "map (\<lambda>c. if c = CHR ''+'' then CHR '' '' else c) k = k"
    using assms(2) by (intro map_idI) (auto simp: unreserved_def)
  ultimately show ?thesis using assms(1,3) q by (simp add: query_pair_def cut_at_simps unescape_query)
qed

lemma audit_query_parsed:
  assumes "\<forall>c \<in> set since. query_char c" "since \<noteq> []"
  shows "\<exists>lim. ParseQuery (tl (audit_query limit [] since)) =
    [(''limit'', lim), (''since'', map (\<lambda>c. if c = CHR ''+'' then CHR '' '' else c) since)]"
proof -
  have no: "CHR ''&'' \<notin> set (''limit='' @ int_text limit)" "CHR ''&'' \<notin> set (''since='' @ since)"
    using int_text_chars query_char_neq(2) assms(1) by auto
  have "tl (audit_query limit [] since) = (''limit='' @ int_text limit) @ CHR ''&'' # (''since='' @ since)"
    using assms(2) by (simp add: audit_query_def)
  then have "split_on (CHR ''&'') (tl (audit_query limit [] since)) = [''limit='' @ int_text limit, ''since='' @ since]"
    by (simp only: split_on_line [OF no(1)] split_on_single [OF no(2)])
  moreover have "query_pair (''limit='' @ int_text limit) = [(''limit'', map (\<lambda>c. if c = CHR ''+'' then CHR '' '' else c) (int_text limit))]"
    using query_pair_plain [of "''limit''" "int_text limit"] int_text_chars by (simp add: unreserved_def)
  moreover have "query_pair (''since='' @ since) = [(''since'', map (\<lambda>c. if c = CHR ''+'' then CHR '' '' else c) since)]"
    using query_pair_plain [of "''since''" since] assms(1) by (simp add: unreserved_def)
  ultimately show ?thesis by (simp add: ParseQuery_def)
qed

text \<open>
  A lower bound with an offset east of Greenwich is lost on the way: the plus sign arrives as a blank, which no RFC 3339
  time contains, and the coordinator falls back to the last 24 hours without a word.
\<close>

theorem audit_offset_lost:
  assumes "\<forall>c \<in> set since. query_char c" and "CHR ''+'' \<in> set since" and "\<And>s. CHR '' '' \<in> set s \<Longrightarrow> parse s = None"
  shows "audit_since parse now (ParseQuery (tl (audit_query limit [] since))) = now - 24 * hour"
proof -
  have "since \<noteq> []" using assms(2) by auto
  then obtain lim where q: "ParseQuery (tl (audit_query limit [] since)) =
    [(''limit'', lim), (''since'', map (\<lambda>c. if c = CHR ''+'' then CHR '' '' else c) since)]"
    using audit_query_parsed [OF assms(1)] by blast
  have "CHR '' '' \<in> set (map (\<lambda>c. if c = CHR ''+'' then CHR '' '' else c) since)" using assms(2) by force
  from assms(3) [OF this] show ?thesis by (simp add: audit_since_def q header_get_def)
qed

text \<open>Any other time in that form arrives as it was typed.\<close>

theorem audit_since_sent:
  assumes "\<forall>c \<in> set since. query_char c" and "CHR ''+'' \<notin> set since" and "parse since = Some t"
    and "parse [] = None"
  shows "audit_since parse now (ParseQuery (tl (audit_query limit [] since))) = t"
proof -
  have "since \<noteq> []" using assms(3,4) by auto
  then obtain lim where q: "ParseQuery (tl (audit_query limit [] since)) =
    [(''limit'', lim), (''since'', map (\<lambda>c. if c = CHR ''+'' then CHR '' '' else c) since)]"
    using audit_query_parsed [OF assms(1)] by blast
  have "map (\<lambda>c. if c = CHR ''+'' then CHR '' '' else c) since = since" using assms(2) by (intro map_idI) auto
  then show ?thesis using assms(3) by (simp add: audit_since_def q header_get_def)
qed

section \<open>Witness\<close>

definition demo_getenv :: "string \<Rightarrow> string" where
  "demo_getenv k = (if k = ''VAPN_COORDINATOR_URL'' then ''http://c'' else ''adm'')"

definition demo_ctl :: ctl_env where
  "demo_ctl = \<lparr>ce_create = (\<lambda>_ _. []), ce_state = (\<lambda>_ _. []), ce_overview = (\<lambda>_. None), ce_workers = (\<lambda>_. None),
     ce_detail = (\<lambda>_. None), ce_created = (\<lambda>_. None), ce_snapshots = (\<lambda>_. None), ce_audit = (\<lambda>_. None), ce_fits = (\<lambda>_. True),
     ce_raw = (\<lambda>_. []), ce_json_text = (\<lambda>_. []), ce_time = (\<lambda>_ _. []), ce_score = (\<lambda>_. []), ce_int = (\<lambda>_. None)\<rparr>"

lemma demo_ctl_ready: "ctl_ready demo_getenv demo_dp"
proof -
  have "origin ''http://c''"
    unfolding origin_def by (intro exI [of _ "''http''"] exI [of _ "''c''"]) (simp add: control_char_def)
  then show ?thesis by (simp add: ctl_ready_def demo_getenv_def demo_dp_def control_char_def)
qed

lemma demo_set_active: "\<exists>R. SetState no_faults 20 ''w1'' ''active'' [] ''admin'' (reg demo_server) = Inr R"
  by (simp add: demo_server_def demo_db_def demo_registered_def demo_eval SetState_def transitions_def apply_state_def)

theorem vapnctl_sets_state_witness:
  "\<exists>oc sv' R. vapnctl_main demo_ctl (coordinator_net demo_dp demo_texts (\<lambda>_. demo_tick 20) (\<lambda>_. False)) demo_getenv
      [''workers'', ''approve'', ''w1'', ''--reason'', []] (0, demo_server) = (oc, sv') \<and>
    SetState no_faults 20 ''w1'' ''active'' [] ''admin'' (reg demo_server) = Inr R \<and> reg (snd sv') = R \<and> exit_code oc = 0"
proof -
  obtain R where R: "SetState no_faults 20 ''w1'' ''active'' [] ''admin'' (reg demo_server) = Inr R" using demo_set_active by blast
  obtain oc n' sv' where run: "vapnctl_main demo_ctl (coordinator_net demo_dp demo_texts (\<lambda>_. demo_tick 20) (\<lambda>_. False)) demo_getenv
      [''workers'', ''approve'', ''w1'', ''--reason'', []] (0, demo_server) = (oc, (n', sv'))" by (metis surj_pair)
  have "(case SetState (tk_faults (demo_tick 20)) (tk_now (demo_tick 20)) ''w1'' ''active'' [] ''admin'' (reg demo_server) of
      Inr R \<Rightarrow> reg sv' = R \<and> (exit_code oc = 0 \<longleftrightarrow> \<not> False) | Inl e \<Rightarrow> sv' = demo_server \<and> exit_code oc = 1)"
    by (rule vapnctl_sets_state [OF demo_ctl_ready _ _ _ run])
      (simp_all add: plain_id_def unreserved_def demo_dp_def demo_decoders_def)
  then show ?thesis using R run by (simp add: demo_tick_def)
qed

theorem audit_offset_lost_witness:
  "audit_since (\<lambda>s. if s = ''2026-01-01T00:00:00+02:00'' then Some 5 else None) 100 (ParseQuery (tl (audit_query 100 [] ''2026-01-01T00:00:00+02:00''))) = 100 - 24 * hour"
  by (rule audit_offset_lost) (auto simp: query_char_def unreserved_def)

end
