(* ===== verification/Website.thy ===== *)
theory Website
  imports AdminTool AdvisorSync
begin

text \<open>
  The website from both sides: the address check of the client (\<open>New\<close>, \<open>Validate\<close> and \<open>Ping\<close> of
  \<^verbatim>\<open>internal/advisor/client.go\<close>) and the stand-in for the site that development and contract tests use
  (\<^verbatim>\<open>internal/mockadvisor/server.go\<close>), with what the client gets from it. Times in JSON are a parameter, and so are the decoders of the client.
\<close>

section \<open>Addresses\<close>

text \<open>\<^verbatim>\<open>net/url.Parse\<close>; which hosts are well formed is the parameter \<open>host_ok\<close>.\<close>

record url =
  ur_scheme :: string
  ur_user :: "string option"
  ur_host :: string
  ur_path :: string
  ur_query :: string
  ur_fragment :: string

definition letter :: "char \<Rightarrow> bool" where
  "letter c \<longleftrightarrow> (let n = (of_char c :: nat) in 65 \<le> n \<and> n \<le> 90 \<or> 97 \<le> n \<and> n \<le> 122)"

fun scheme_scan :: "string \<Rightarrow> string \<Rightarrow> string \<Rightarrow> (string \<times> string) option" where
  "scheme_scan raw acc [] = Some ([], raw)"
| "scheme_scan raw acc (c # cs) =
     (if letter c then scheme_scan raw (acc @ [c]) cs
      else if is_digit c \<or> c \<in> set ''+-.'' then if acc = [] then Some ([], raw) else scheme_scan raw (acc @ [c]) cs
      else if c = CHR '':'' then if acc = [] then None else Some (acc, cs)
      else Some ([], raw))"

definition getScheme :: "string \<Rightarrow> (string \<times> string) option" where
  "getScheme raw = scheme_scan raw [] raw"

definition parse_authority :: "(string \<Rightarrow> bool) \<Rightarrow> string \<Rightarrow> (string option \<times> string) option" where
  "parse_authority host_ok a =
     (let host = rev (takeWhile (\<lambda>c. c \<noteq> CHR ''@'') (rev a)) in
      if \<not> host_ok host then None
      else if length host = length a then Some (None, host)
      else case unescape False (take (length a - length host - 1) a) of None \<Rightarrow> None | Some u \<Rightarrow> Some (Some u, host))"

definition parse_rest :: "(string \<Rightarrow> bool) \<Rightarrow> string \<Rightarrow> string \<Rightarrow> string \<Rightarrow> string \<Rightarrow> url option" where
  "parse_rest host_ok scheme rest q frag =
     (let empty = \<lparr>ur_scheme = scheme, ur_user = None, ur_host = [], ur_path = [], ur_query = q, ur_fragment = frag\<rparr> in
      if (rest = [] \<or> hd rest \<noteq> CHR ''/'') \<and> scheme \<noteq> [] then Some empty
      else if (rest = [] \<or> hd rest \<noteq> CHR ''/'') \<and> CHR '':'' \<in> set (takeWhile (\<lambda>c. c \<noteq> CHR ''/'') rest) then None
      else if take 2 rest = ''//'' \<and> (scheme \<noteq> [] \<or> take 3 rest \<noteq> ''///'') then
        (case parse_authority host_ok (takeWhile (\<lambda>c. c \<noteq> CHR ''/'') (drop 2 rest)) of
           None \<Rightarrow> None
         | Some (user, host) \<Rightarrow>
             map_option (\<lambda>p. empty\<lparr>ur_user := user, ur_host := host, ur_path := p\<rparr>)
               (unescape False (dropWhile (\<lambda>c. c \<noteq> CHR ''/'') (drop 2 rest))))
      else map_option (\<lambda>p. empty\<lparr>ur_path := p\<rparr>) (unescape False rest))"

definition url_Parse :: "(string \<Rightarrow> bool) \<Rightarrow> string \<Rightarrow> url option" where
  "url_Parse host_ok raw =
     (case cut_at (CHR ''#'') raw of (main, frag) \<Rightarrow>
       if list_ex control_char main then None
       else (case getScheme main of
           None \<Rightarrow> None
         | Some (scheme, rest) \<Rightarrow>
             (case cut_at (CHR ''?'') rest of (hier, q) \<Rightarrow>
               (case parse_rest host_ok (to_lower scheme) hier q [] of
                  None \<Rightarrow> None
                | Some u \<Rightarrow> map_option (\<lambda>f. u\<lparr>ur_fragment := f\<rparr>) (unescape False frag)))))"

section \<open>The client\<close>

definition advisor_New :: "string \<Rightarrow> string" where
  "advisor_New baseURL = TrimRight (CHR ''/'') baseURL"

datatype url_fault = UrlEmpty | UrlBad | UrlScheme | UrlHost | UrlPath | UrlExtra

definition trim_slashes :: "string \<Rightarrow> string" where
  "trim_slashes p = TrimRight (CHR ''/'') (dropWhile (\<lambda>c. c = CHR ''/'') p)"

definition Validate :: "(string \<Rightarrow> bool) \<Rightarrow> string \<Rightarrow> url_fault option" where
  "Validate host_ok baseURL =
     (if baseURL = [] then Some UrlEmpty
      else case url_Parse host_ok baseURL of
        None \<Rightarrow> Some UrlBad
      | Some u \<Rightarrow>
          if ur_scheme u \<noteq> ''http'' \<and> ur_scheme u \<noteq> ''https'' then Some UrlScheme
          else if ur_host u = [] then Some UrlHost
          else if trim_slashes (ur_path u) \<noteq> [] then Some UrlPath
          else if ur_query u \<noteq> [] \<or> ur_fragment u \<noteq> [] then Some UrlExtra
          else None)"

definition Ping :: "site \<Rightarrow> (json \<Rightarrow> bool) \<Rightarrow> advisor_error + unit" where
  "Ping site decodes =
     and_then (doJSON site ''GET'' ''/api/v1/monitoring/providers?enabled=true&limit=1'' None True)
       (\<lambda>j. if decodes j then Inr () else Inl Decode)"

section \<open>The stand-in for the website\<close>

record mock_provider =
  mp_id :: string
  mp_name :: string
  mp_asns :: "int list"
  mp_enabled :: bool
  mp_priority :: int
  mp_updated :: time

record Fixtures =
  fx_providers :: "mock_provider list"
  fx_enrollments :: "PendingEnrollment list"
  fx_decisions :: "Decision list"

text \<open>\<open>given\<close> is the fixture file of the caller, \<open>builtin\<close> the one compiled into the program.\<close>

definition LoadFixtures :: "(bytes \<Rightarrow> Fixtures option) \<Rightarrow> bytes \<Rightarrow> bytes option \<Rightarrow> Fixtures option" where
  "LoadFixtures decode builtin given = decode (case given of None \<Rightarrow> builtin | Some raw \<Rightarrow> raw)"

record mock_env =
  mo_time_json :: "time \<Rightarrow> json"
  mo_parse_time :: "string \<Rightarrow> time option"

definition provider_json :: "mock_env \<Rightarrow> mock_provider \<Rightarrow> json" where
  "provider_json M p = JObj
     [(''provider_id'', JStr (mp_id p)), (''name'', JStr (mp_name p)), (''asns'', JArr (map (JNum \<circ> of_int) (mp_asns p))),
      (''monitoring_enabled'', JBool (mp_enabled p)), (''priority'', JNum (of_int (mp_priority p))), (''updated_at'', mo_time_json M (mp_updated p))]"

definition enrollment_json :: "mock_env \<Rightarrow> PendingEnrollment \<Rightarrow> json" where
  "enrollment_json M e = JObj
     [(''enrollment_id'', JStr (en_id e)), (''worker_id'', JStr (en_worker e)), (''worker_name'', JStr (en_worker_name e)),
      (''operator_id'', JStr (en_operator e)), (''token_hash'', JStr (en_token_hash e)), (''expires_at'', mo_time_json M (en_expires e))]"

definition decision_json :: "mock_env \<Rightarrow> Decision \<Rightarrow> json" where
  "decision_json M d = JObj
     [(''decision_id'', JStr (de_id d)), (''worker_id'', JStr (de_worker d)), (''state'', JStr (de_state d)),
      (''reason'', JStr (de_reason d)), (''decided_at'', mo_time_json M (de_decided_at d))]"

definition page_json :: "string \<Rightarrow> json list \<Rightarrow> response" where
  "page_json key rows = writeJSON 200 (JObj [(key, JArr rows), (''next_cursor'', JNull)])"

definition listProviders :: "mock_env \<Rightarrow> Fixtures \<Rightarrow> (string \<times> string) list \<Rightarrow> response" where
  "listProviders M fx q =
     (let onlyEnabled = (header_get q ''enabled'' = ''true''); v = header_get q ''updated_since'' in
      case (if v = [] then Some zero_time else mo_parse_time M v) of
        None \<Rightarrow> problem 400 ''updated_since must be RFC 3339''
      | Some since \<Rightarrow>
          page_json ''providers'' (map (provider_json M)
            (filter (\<lambda>p. (onlyEnabled \<longrightarrow> mp_enabled p) \<and> (since \<noteq> zero_time \<longrightarrow> mp_updated p > since)) (fx_providers fx))))"

definition getProvider :: "mock_env \<Rightarrow> Fixtures \<Rightarrow> string \<Rightarrow> response" where
  "getProvider M fx pid =
     (case lookup_by mp_id pid (fx_providers fx) of
        Some p \<Rightarrow> writeJSON 200 (provider_json M p)
      | None \<Rightarrow> problem 404 ''unknown provider'')"

definition listASNs :: "mock_env \<Rightarrow> Fixtures \<Rightarrow> response" where
  "listASNs M fx = page_json ''asns'' (concat (map (\<lambda>p. map (\<lambda>asn. JObj
     [(''asn'', JNum (of_int asn)), (''provider_id'', JStr (mp_id p)), (''monitoring_enabled'', JBool (mp_enabled p)),
      (''updated_at'', mo_time_json M (mp_updated p))]) (mp_asns p)) (fx_providers fx)))"

definition listEnrollments :: "mock_env \<Rightarrow> Fixtures \<Rightarrow> response" where
  "listEnrollments M fx = page_json ''enrollments'' (map (enrollment_json M) (fx_enrollments fx))"

definition listDecisions :: "mock_env \<Rightarrow> Fixtures \<Rightarrow> (string \<times> string) list \<Rightarrow> response" where
  "listDecisions M fx q =
     (let v = header_get q ''since'';
          since = (if v = [] then zero_time else case mo_parse_time M v of Some t \<Rightarrow> t | None \<Rightarrow> zero_time) in
      page_json ''decisions'' (map (decision_json M) (filter (\<lambda>d. de_decided_at d > since) (fx_decisions fx))))"

definition mock_accept :: "nat \<Rightarrow> response" where
  "mock_accept status = Empty status"

text \<open>The body must decode into an object.\<close>

definition acceptResults :: "json option \<Rightarrow> response" where
  "acceptResults body =
     (case body of
        Some (JObj fs) \<Rightarrow> Empty 202
      | Some JNull \<Rightarrow> Empty 202
      | _ \<Rightarrow> problem 400 ''invalid JSON body'')"

datatype mock_endpoint = MProviders | MProvider | MAsns | MEnrollments | MRegistered | MDecisions | MResults | MAnomalies | MHistory | MTelemetry

definition mock_base :: "pattern_part list" where
  "mock_base = [Lit [], Lit ''api'', Lit ''v1'', Lit ''monitoring'']"

definition mock_routes :: "(string \<times> pattern_part list \<times> mock_endpoint) list" where
  "mock_routes =
     [(''GET'', mock_base @ [Lit ''providers''], MProviders),
      (''GET'', mock_base @ [Lit ''providers'', Wild], MProvider),
      (''GET'', mock_base @ [Lit ''asns''], MAsns),
      (''GET'', mock_base @ [Lit ''enrollments'', Lit ''pending''], MEnrollments),
      (''POST'', mock_base @ [Lit ''enrollments'', Wild, Lit ''registered''], MRegistered),
      (''GET'', mock_base @ [Lit ''admin'', Lit ''decisions''], MDecisions),
      (''PUT'', mock_base @ [Lit ''results'', Lit ''providers'', Wild], MResults),
      (''POST'', mock_base @ [Lit ''results'', Lit ''anomalies''], MAnomalies),
      (''POST'', mock_base @ [Lit ''results'', Lit ''history''], MHistory),
      (''POST'', mock_base @ [Lit ''telemetry'', Lit ''fleet''], MTelemetry)]"

definition mock_route :: "string \<Rightarrow> string \<Rightarrow> (mock_endpoint \<times> string list) option" where
  "mock_route method path =
     (case concat (map (\<lambda>(m, pat, e). case match_parts pat (segments path) of
                          Some vs \<Rightarrow> if method_matches m method then [(e, vs)] else []
                        | None \<Rightarrow> []) mock_routes) of
        [] \<Rightarrow> None
      | r # _ \<Rightarrow> Some r)"

definition mock_handler :: "mock_env \<Rightarrow> Fixtures \<Rightarrow> mock_endpoint \<Rightarrow> string list \<Rightarrow> (string \<times> string) list \<Rightarrow> json option \<Rightarrow> response" where
  "mock_handler M fx e vs q body =
     (case e of
        MProviders \<Rightarrow> listProviders M fx q
      | MProvider \<Rightarrow> getProvider M fx (path_value vs)
      | MAsns \<Rightarrow> listASNs M fx
      | MEnrollments \<Rightarrow> listEnrollments M fx
      | MRegistered \<Rightarrow> mock_accept 204
      | MDecisions \<Rightarrow> listDecisions M fx q
      | MResults \<Rightarrow> acceptResults body
      | MAnomalies \<Rightarrow> mock_accept 202
      | MHistory \<Rightarrow> mock_accept 202
      | MTelemetry \<Rightarrow> mock_accept 202)"

definition mock_auth :: "string \<Rightarrow> string \<Rightarrow> response \<Rightarrow> response" where
  "mock_auth token got next = (if got \<noteq> ''Bearer '' @ token then problem 401 ''invalid or missing service credential'' else next)"

definition mock_NewServer :: "mock_env \<Rightarrow> Fixtures \<Rightarrow> string \<Rightarrow> string \<Rightarrow> string \<Rightarrow> string \<Rightarrow> (string \<times> string) list \<Rightarrow> json option \<Rightarrow> response" where
  "mock_NewServer M fx token got method path q body =
     mock_auth token got (case mock_route method path of None \<Rightarrow> Empty 404 | Some (e, vs) \<Rightarrow> mock_handler M fx e vs q body)"

section \<open>The client against the stand-in\<close>

definition answer_of :: "response \<Rightarrow> nat \<times> json option" where
  "answer_of r = (status_of r, case r of JsonBody n j \<Rightarrow> Some j | Problem n d \<Rightarrow> Some (JObj [(''status'', JNum (of_nat n)), (''detail'', JStr d)]) | _ \<Rightarrow> None)"

definition mock_site :: "mock_env \<Rightarrow> Fixtures \<Rightarrow> string \<Rightarrow> string \<Rightarrow> string \<Rightarrow> site" where
  "mock_site M fx token base ctoken method path body =
     (case url_target (base @ path) of
        None \<Rightarrow> None
      | Some (p, q) \<Rightarrow> Some (answer_of (mock_NewServer M fx token (''Bearer '' @ ctoken) method p (ParseQuery q) body)))"

definition to_provider :: "mock_provider \<Rightarrow> Provider" where
  "to_provider p = \<lparr>pr_id = mp_id p, pr_name = mp_name p, pr_asns = mp_asns p, pr_enabled = mp_enabled p, pr_priority = mp_priority p\<rparr>"

text \<open>The decoders of the client read what the encoder of the site writes.\<close>

definition site_codec ::
  "mock_env \<Rightarrow> (json \<Rightarrow> Provider list option) \<Rightarrow> (json \<Rightarrow> PendingEnrollment list option) \<Rightarrow> (json \<Rightarrow> Decision list option) \<Rightarrow> (time \<Rightarrow> string) \<Rightarrow> bool" where
  "site_codec M rp re rd fmt \<longleftrightarrow> (\<forall>ps. rp (JArr (map (provider_json M) ps)) = Some (map to_provider ps)) \<and>
     (\<forall>es. re (JArr (map (enrollment_json M) es)) = Some es) \<and> (\<forall>ds. rd (JArr (map (decision_json M) ds)) = Some ds) \<and>
     (\<forall>t. fmt t \<noteq> [] \<and> mo_parse_time M (fmt t) = Some t)"

lemma hex_val_upper: "n < 16 \<Longrightarrow> hex_val (upper_hex n) = Some n"
  by (simp add: hex_val_def upper_hex_def Let_def)

lemma QueryEscape_Cons: "QueryEscape (c # cs) = (if unreserved c then [c] else if c = CHR '' '' then ''+''
     else [CHR ''%'', upper_hex (of_char c div 16), upper_hex (of_char c mod 16)]) @ QueryEscape cs"
  by (simp add: QueryEscape_def)

lemma unescape_QueryEscape: "unescape True (QueryEscape s) = Some s"
proof (induction s)
  case (Cons c s)
  have "unreserved c \<Longrightarrow> c \<noteq> CHR ''%'' \<and> c \<noteq> CHR ''+''" by (auto simp: unreserved_def)
  moreover have "char_of (16 * (of_char c div 16) + of_char c mod 16 :: nat) = c" by simp
  ultimately show ?case using Cons by (auto simp: QueryEscape_Cons hex_val_upper)
qed (simp add: QueryEscape_def)

lemma upper_hex_chars: "n < 16 \<Longrightarrow> unreserved (upper_hex n)"
  by (simp add: upper_hex_def unreserved_def Let_def)

lemma QueryEscape_chars: "c \<in> set (QueryEscape s) \<Longrightarrow> unreserved c \<or> c = CHR ''%'' \<or> c = CHR ''+''"
proof (induction s)
  case (Cons x s)
  have "of_char x mod 16 < (16 :: nat)" by simp
  note hex = upper_hex_chars [OF this] upper_hex_chars [OF of_char_div_less(2) [of x]]
  from Cons.prems consider "c \<in> set (QueryEscape s)" | "unreserved x" "c = x" | "c = CHR ''+''"
    | "c = CHR ''%'' \<or> c = upper_hex (of_char x div 16) \<or> c = upper_hex (of_char x mod 16)"
    unfolding QueryEscape_Cons by (auto split: if_split_asm)
  then show ?case using Cons.IH hex by cases auto
qed (simp add: QueryEscape_def)

lemma QueryEscape_safe:
  assumes "c \<in> set (QueryEscape s)"
  shows "c \<noteq> CHR ''#'' \<and> c \<noteq> CHR ''&'' \<and> c \<noteq> CHR '';'' \<and> c \<noteq> CHR ''='' \<and> c \<noteq> CHR '' '' \<and> \<not> control_char c"
proof -
  have "unreserved c \<Longrightarrow> c \<noteq> CHR ''&'' \<and> c \<noteq> CHR '';'' \<and> c \<noteq> CHR '' ''" by (auto simp: unreserved_def)
  then show ?thesis using QueryEscape_chars [OF assms] unreserved_neq [of c] by (elim disjE) (simp_all add: control_char_def)
qed

lemma ParseQuery_escaped:
  assumes "\<forall>c \<in> set k. unreserved c" "k \<noteq> []"
  shows "ParseQuery (k @ CHR ''='' # QueryEscape v) = [(k, v)]"
proof -
  have k: "CHR ''='' \<notin> set k \<and> CHR ''&'' \<notin> set k \<and> CHR '';'' \<notin> set k \<and> CHR ''+'' \<notin> set k" "\<forall>c \<in> set k. query_char c"
    using assms(1) by (auto simp: unreserved_def query_char_def)
  have "map (\<lambda>c. if c = CHR ''+'' then CHR '' '' else c) k = k" using k(1) by (intro map_idI) auto
  then have "unescape True k = Some k" using unescape_query [OF k(2)] by simp
  moreover have "CHR ''&'' \<notin> set (k @ CHR ''='' # QueryEscape v)" "CHR '';'' \<notin> set (k @ CHR ''='' # QueryEscape v)"
    using k(1) QueryEscape_safe by auto
  ultimately show ?thesis using k(1) assms(2)
    by (simp add: ParseQuery_def split_on_single query_pair_def cut_at_simps unescape_QueryEscape)
qed

lemma fetch_one_page:
  assumes "site ''GET'' path None = Some (answer_of (page_json key rows))" "rows_of (JArr rows) = Some xs" "key \<noteq> ''next_cursor''"
  shows "fetchPages site path key rows_of = Inr xs"
proof -
  obtain n where n: "maxPages = Suc n" by (simp add: maxPages_def numeral_eq_Suc)
  show ?thesis unfolding fetchPages_def n using assms
    by (simp add: doJSON_def answer_of_def page_json_def writeJSON_def)
qed

lemma mock_site_get:
  assumes "origin base" "plain_path p" "q = [] \<or> q = CHR ''?'' # r" "\<forall>c \<in> set q. c \<noteq> CHR ''#'' \<and> \<not> control_char c" "mock_route method p = Some (e, vs)"
  shows "mock_site M fx token base token method (p @ q) body = Some (answer_of (mock_handler M fx e vs (ParseQuery (tl q)) body))"
  using url_target_origin [OF assms(1-4)] assms(5) by (simp add: mock_site_def mock_NewServer_def mock_auth_def)

lemma mock_paths:
  "mock_route ''GET'' ''/api/v1/monitoring/providers'' = Some (MProviders, [])"
  "mock_route ''GET'' ''/api/v1/monitoring/enrollments/pending'' = Some (MEnrollments, [])"
  "mock_route ''GET'' ''/api/v1/monitoring/admin/decisions'' = Some (MDecisions, [])"
  "plain_path ''/api/v1/monitoring/providers''" "plain_path ''/api/v1/monitoring/enrollments/pending''" "plain_path ''/api/v1/monitoring/admin/decisions''"
  by code_simp+

lemma ParseQuery_Nil: "ParseQuery [] = []" "ParseQuery ''enabled=true'' = [(''enabled'', ''true'')]"
  by code_simp+

text \<open>
  Client and stand-in agree on the contract: with the service credential the client reads exactly the (enabled)
  providers, all pending enrollments and the decisions after the given time, each in the order of the fixtures; with
  another credential every feed is refused with status 401.
\<close>

theorem mock_serves_contract:
  assumes "site_codec M rp re rd fmt" and "origin base"
  shows "ListProviders (mock_site M fx token base token) rp enabledOnly =
      Inr (map to_provider (filter (\<lambda>p. enabledOnly \<longrightarrow> mp_enabled p) (fx_providers fx))) \<and>
    ListPendingEnrollments (mock_site M fx token base token) re = Inr (fx_enrollments fx) \<and>
    ListDecisions (mock_site M fx token base token) fmt rd since =
      Inr (filter (\<lambda>d. de_decided_at d > (case since of None \<Rightarrow> zero_time | Some t \<Rightarrow> t)) (fx_decisions fx)) \<and>
    (ctoken \<noteq> token \<longrightarrow> ListProviders (mock_site M fx token base ctoken) rp enabledOnly = Inl (Status 401))"
proof (intro conjI impI)
  let ?site = "mock_site M fx token base token"
  note codec = assms(1) [unfolded site_codec_def]
  have get: "?site ''GET'' (''/api/v1/monitoring/providers'' @ q) None = Some (answer_of (listProviders M fx (ParseQuery (tl q))))"
    if "q = [] \<or> q = ''?enabled=true''" for q
    using mock_site_get [OF assms(2) mock_paths(4) _ _ mock_paths(1), of q "tl q" M fx token None] that
    by (auto simp: mock_handler_def control_char_def)
  have "listProviders M fx (ParseQuery (tl (if enabledOnly then ''?enabled=true'' else []))) =
      page_json ''providers'' (map (provider_json M) (filter (\<lambda>p. enabledOnly \<longrightarrow> mp_enabled p) (fx_providers fx)))"
    by (simp add: listProviders_def ParseQuery_Nil header_get_def zero_time_def)
  then show "ListProviders ?site rp enabledOnly = Inr (map to_provider (filter (\<lambda>p. enabledOnly \<longrightarrow> mp_enabled p) (fx_providers fx)))"
    unfolding ListProviders_def using codec get [of "if enabledOnly then ''?enabled=true'' else []"] by (intro fetch_one_page) (auto split: if_split_asm)
  have "?site ''GET'' ''/api/v1/monitoring/enrollments/pending'' None = Some (answer_of (listEnrollments M fx))"
    using mock_site_get [OF assms(2) mock_paths(5) _ _ mock_paths(2), of "[]" "[]" M fx token None] by (simp add: mock_handler_def)
  then show "ListPendingEnrollments ?site re = Inr (fx_enrollments fx)"
    unfolding ListPendingEnrollments_def listEnrollments_def using codec by (intro fetch_one_page) auto
  let ?q = "case since of None \<Rightarrow> [] | Some t \<Rightarrow> ''?since='' @ QueryEscape (fmt t)"
  have "\<forall>c \<in> set ?q. c \<noteq> CHR ''#'' \<and> \<not> control_char c" using QueryEscape_safe by (auto simp: control_char_def split: option.split_asm)
  moreover have "?q = [] \<or> ?q = CHR ''?'' # tl ?q" by (cases since) simp_all
  ultimately have "?site ''GET'' (''/api/v1/monitoring/admin/decisions'' @ ?q) None = Some (answer_of (listDecisions M fx (ParseQuery (tl ?q))))"
    using mock_site_get [OF assms(2) mock_paths(6) _ _ mock_paths(3), of ?q "tl ?q" M fx token None]
    unfolding mock_handler_def mock_endpoint.case by blast
  moreover have "ParseQuery (tl ?q) = (case since of None \<Rightarrow> [] | Some t \<Rightarrow> [(''since'', fmt t)])"
    using ParseQuery_escaped [of "''since''"] by (auto simp: ParseQuery_Nil unreserved_def split: option.split)
  then have "listDecisions M fx (ParseQuery (tl ?q)) = page_json ''decisions'' (map (decision_json M)
      (filter (\<lambda>d. de_decided_at d > (case since of None \<Rightarrow> zero_time | Some t \<Rightarrow> t)) (fx_decisions fx)))"
    using codec by (cases since) (simp_all add: listDecisions_def header_get_def)
  ultimately show "ListDecisions ?site fmt rd since =
      Inr (filter (\<lambda>d. de_decided_at d > (case since of None \<Rightarrow> zero_time | Some t \<Rightarrow> t)) (fx_decisions fx))"
    unfolding ListDecisions_def using codec by (intro fetch_one_page) auto
  assume "ctoken \<noteq> token"
  then have "mock_site M fx token base ctoken ''GET'' (''/api/v1/monitoring/providers'' @ q) None = Some (answer_of (problem 401 ''invalid or missing service credential''))"
    if "q = [] \<or> q = ''?enabled=true''" for q
    using url_target_origin [OF assms(2) mock_paths(4), of q "tl q"] that by (auto simp: mock_site_def mock_NewServer_def mock_auth_def control_char_def)
  from this [of "if enabledOnly then ''?enabled=true'' else []"]
  show "ListProviders (mock_site M fx token base ctoken) rp enabledOnly = Inl (Status 401)"
    by (auto simp: ListProviders_def fetchPages_def maxPages_def numeral_eq_Suc doJSON_def answer_of_def split: if_split_asm)
qed

section \<open>What the address check buys\<close>

lemma scheme_scan_append:
  "scheme_scan raw acc cs = Some (s, rest) \<Longrightarrow> s \<noteq> [] \<Longrightarrow> scheme_scan (raw @ p) acc (cs @ p) = Some (s, rest @ p)"
  by (induction raw acc cs rule: scheme_scan.induct) (auto split: if_split_asm)

lemma scheme_scan_set: "scheme_scan raw acc cs = Some (s, rest) \<Longrightarrow> s \<noteq> [] \<Longrightarrow> \<exists>a. cs = a @ rest"
proof (induction raw acc cs rule: scheme_scan.induct)
  case (2 raw acc c cs)
  then have "\<exists>a. cs = a @ rest" by (auto split: if_split_asm)
  then show ?case by (metis append_Cons)
qed simp

lemma TrimRight_last: "TrimRight c s \<noteq> [] \<Longrightarrow> last (TrimRight c s) \<noteq> c"
  unfolding TrimRight_def using hd_dropWhile [of "\<lambda>x. x = c" "rev s"] by (simp add: last_rev)

lemma only_slashes: "trim_slashes p = [] \<Longrightarrow> set p \<subseteq> {CHR ''/''}"
proof -
  assume "trim_slashes p = []"
  then have "dropWhile (\<lambda>x. x = CHR ''/'') (rev (dropWhile (\<lambda>c. c = CHR ''/'') p)) = []"
    unfolding trim_slashes_def TrimRight_def rev_is_Nil_conv .
  then have "\<forall>c \<in> set (dropWhile (\<lambda>c. c = CHR ''/'') p). c = CHR ''/''" unfolding dropWhile_eq_Nil_conv set_rev .
  then have "dropWhile (\<lambda>c. c = CHR ''/'') p = []"
    using hd_dropWhile [of "\<lambda>c. c = CHR ''/''" p] hd_in_set [of "dropWhile (\<lambda>c. c = CHR ''/'') p"] by blast
  then show ?thesis unfolding dropWhile_eq_Nil_conv by blast
qed

lemma parse_rest_authority:
  assumes "parse_rest host_ok scheme rest q frag = Some u" "ur_host u \<noteq> []"
  shows "\<exists>user. take 2 rest = ''//'' \<and> (scheme \<noteq> [] \<or> take 3 rest \<noteq> ''///'') \<and>
    parse_authority host_ok (takeWhile (\<lambda>c. c \<noteq> CHR ''/'') (drop 2 rest)) = Some (user, ur_host u) \<and>
    unescape False (dropWhile (\<lambda>c. c \<noteq> CHR ''/'') (drop 2 rest)) = Some (ur_path u) \<and>
    ur_scheme u = scheme \<and> ur_user u = user \<and> ur_query u = q \<and> ur_fragment u = frag"
  using assms by (auto simp: parse_rest_def Let_def split: if_split_asm option.split_asm prod.split_asm)

lemma url_Parse_parts:
  assumes "url_Parse host_ok b = Some u" "CHR ''#'' \<notin> set b" "CHR ''?'' \<notin> set b" "ur_scheme u \<noteq> []" "ur_host u \<noteq> []"
  obtains scheme a rest where "getScheme b = Some (scheme, rest)" "\<not> list_ex control_char b" "scheme \<noteq> []" "b = a @ rest" "take 2 rest = ''//''"
    "parse_authority host_ok (takeWhile (\<lambda>c. c \<noteq> CHR ''/'') (drop 2 rest)) = Some (ur_user u, ur_host u)"
    "unescape False (dropWhile (\<lambda>c. c \<noteq> CHR ''/'') (drop 2 rest)) = Some (ur_path u)"
    "ur_scheme u = to_lower scheme" "ur_query u = []" "ur_fragment u = []"
proof -
  obtain scheme rest u0 where g: "getScheme b = Some (scheme, rest)" "\<not> list_ex control_char b"
    and u0: "parse_rest host_ok (to_lower scheme) (fst (cut_at (CHR ''?'') rest)) (snd (cut_at (CHR ''?'') rest)) [] = Some u0" "u = u0\<lparr>ur_fragment := []\<rparr>"
    using assms(1) by (auto simp: url_Parse_def cut_at_simps(1) [OF assms(2)] split: if_split_asm option.split_asm prod.split_asm)
  note a0 = parse_rest_authority [OF u0(1)]
  have ne: "scheme \<noteq> []" using assms(4,5) a0 u0(2) by (auto simp: to_lower_def)
  then obtain a where a: "b = a @ rest" using g(1) scheme_scan_set unfolding getScheme_def by blast
  then have "cut_at (CHR ''?'') rest = (rest, [])" using assms(3) by (simp add: cut_at_simps)
  then show ?thesis using that [OF g ne a] a0 assms(5) u0(2) by auto
qed

lemma no_raw_path:
  assumes "b = a @ rest" "unescape False (dropWhile (\<lambda>c. c \<noteq> CHR ''/'') (drop 2 rest)) = Some path" "trim_slashes path = []"
    "CHR ''%'' \<notin> set b" "last b \<noteq> CHR ''/''"
  shows "\<forall>c \<in> set (drop 2 rest). c \<noteq> CHR ''/''"
proof -
  define d where "d = dropWhile (\<lambda>c. c \<noteq> CHR ''/'') (drop 2 rest)"
  have sub: "set d \<subseteq> set b" using assms(1) set_dropWhileD set_drop_subset unfolding d_def by fastforce
  have "unescape False d = Some d" using sub assms(4) by (intro unescape_plain) auto
  then have slashes: "set d \<subseteq> {CHR ''/''}" using only_slashes [OF assms(3)] assms(2) unfolding d_def by simp
  have "d = []"
  proof (rule ccontr)
    assume d: "d \<noteq> []"
    have "rest = take 2 rest @ takeWhile (\<lambda>c. c \<noteq> CHR ''/'') (drop 2 rest) @ d" unfolding d_def by (simp only: takeWhile_dropWhile_id append_take_drop_id)
    then have "b = (a @ take 2 rest @ takeWhile (\<lambda>c. c \<noteq> CHR ''/'') (drop 2 rest)) @ d" using assms(1) by (simp only: append_assoc)
    then have "last b = last d" using d last_appendR by blast
    moreover have "last d = CHR ''/''" using d slashes last_in_set by fastforce
    ultimately show False using assms(5) by simp
  qed
  then show ?thesis unfolding d_def dropWhile_eq_Nil_conv .
qed

text \<open>
  An address that passes the check and has no question mark, number sign or percent sign is a bare base address: every call of
  the client goes to the same host with exactly the path of the contract.
\<close>

theorem validated_address:
  assumes "Validate host_ok (advisor_New base) = None" and "\<forall>c \<in> set base. c \<notin> set ''?#%''" and "plain_path p"
  shows "\<exists>u. url_Parse host_ok (advisor_New base) = Some u \<and> url_Parse host_ok (advisor_New base @ p) = Some (u\<lparr>ur_path := p\<rparr>)"
proof -
  define b where "b = advisor_New base"
  have "set b \<subseteq> set base" using set_dropWhileD by (fastforce simp: b_def advisor_New_def TrimRight_def)
  then have noq: "CHR ''#'' \<notin> set b" "CHR ''?'' \<notin> set b" "CHR ''%'' \<notin> set b" using assms(2) by auto
  have p: "CHR ''#'' \<notin> set p" "CHR ''?'' \<notin> set p" "\<not> list_ex control_char p" "CHR ''%'' \<notin> set p"
    using plain_path_chars [OF assms(3)] by (auto simp: list_ex_iff)
  obtain u where u: "url_Parse host_ok b = Some u" and ok: "ur_scheme u = ''http'' \<or> ur_scheme u = ''https''" "ur_host u \<noteq> []"
    "trim_slashes (ur_path u) = []" "b \<noteq> []"
    using assms(1) unfolding b_def [symmetric] by (auto simp: Validate_def split: if_split_asm option.split_asm)
  have "ur_scheme u \<noteq> []" using ok(1) by auto
  then obtain scheme a rest where g: "getScheme b = Some (scheme, rest)" "\<not> list_ex control_char b" "scheme \<noteq> []" "b = a @ rest" "take 2 rest = ''//''"
    and pr: "parse_authority host_ok (takeWhile (\<lambda>c. c \<noteq> CHR ''/'') (drop 2 rest)) = Some (ur_user u, ur_host u)"
      "unescape False (dropWhile (\<lambda>c. c \<noteq> CHR ''/'') (drop 2 rest)) = Some (ur_path u)"
      "ur_scheme u = to_lower scheme" "ur_query u = []" "ur_fragment u = []"
    using url_Parse_parts [OF u noq(1,2) _ ok(2)] by metis
  have "last b \<noteq> CHR ''/''" using TrimRight_last ok(4) unfolding b_def advisor_New_def by metis
  then have whole: "\<forall>c \<in> set (drop 2 rest). c \<noteq> CHR ''/''" using no_raw_path [OF g(4) pr(2) ok(3) noq(3)] by blast
  obtain h where h: "rest = ''//'' @ h" "\<forall>c \<in> set h. c \<noteq> CHR ''/''" using whole g(5) append_take_drop_id [of 2 rest] by metis
  obtain p' where p': "p = CHR ''/'' # p'" using assms(3) unfolding plain_path_def by (cases p) simp_all
  have hp: "takeWhile (\<lambda>c. c \<noteq> CHR ''/'') (h @ p) = h" "dropWhile (\<lambda>c. c \<noteq> CHR ''/'') (h @ p) = p"
    using h(2) unfolding p' by (simp_all add: takeWhile_append2 dropWhile_append2)
  have "unescape False p = Some p" using p(4) by (intro unescape_plain) auto
  then have "parse_rest host_ok (to_lower scheme) (rest @ p) [] [] = Some (u\<lparr>ur_path := p\<rparr>)"
    using pr(1,3-5) h hp g(3) by (cases u) (simp add: parse_rest_def to_lower_def takeWhile_eq_all_conv [THEN iffD2])
  moreover have "getScheme (b @ p) = Some (scheme, rest @ p)" using g(1,3) scheme_scan_append unfolding getScheme_def by blast
  moreover have "cut_at (CHR ''#'') (b @ p) = (b @ p, [])" "cut_at (CHR ''?'') (rest @ p) = (rest @ p, [])" "\<not> list_ex control_char (b @ p)"
    using noq p g(2,4) by (simp_all add: cut_at_simps)
  ultimately have "url_Parse host_ok (b @ p) = Some (u\<lparr>ur_path := p\<rparr>)" using pr(5) by (cases u) (simp add: url_Parse_def)
  then show ?thesis using u unfolding b_def by blast
qed

text \<open>
  Without that proviso the check is too weak: an empty query or fragment leaves no trace in the parsed address, yet
  everything appended afterwards lands behind it.
\<close>

theorem validate_accepts_empty_query:
  "Validate (\<lambda>_. True) (advisor_New ''https://x?'') = None \<and> Validate (\<lambda>_. True) (advisor_New ''https://x#'') = None \<and>
   map_option ur_path (url_Parse (\<lambda>_. True) (advisor_New ''https://x?'' @ ''/api/v1/monitoring/providers'')) = Some [] \<and>
   map_option ur_path (url_Parse (\<lambda>_. True) (advisor_New ''https://x#'' @ ''/api/v1/monitoring/providers'')) = Some []"
  by code_simp

theorem validated_address_witness:
  "\<exists>u. url_Parse (\<lambda>_. True) (advisor_New ''https://x/'') = Some u \<and>
     url_Parse (\<lambda>_. True) (advisor_New ''https://x/'' @ ''/api/v1/monitoring/providers'') = Some (u\<lparr>ur_path := ''/api/v1/monitoring/providers''\<rparr>)"
proof (rule validated_address)
  show "Validate (\<lambda>_. True) (advisor_New ''https://x/'') = None" by code_simp
qed (simp_all add: mock_paths(4))

section \<open>Witness\<close>

text \<open>A decoder for the providers, enrollments and decisions of the stand-in, with times as numbers.\<close>

fun demo_rows :: "(json \<Rightarrow> 'a option) \<Rightarrow> json list \<Rightarrow> 'a list option" where
  "demo_rows f [] = Some []"
| "demo_rows f (j # js) = (case (f j, demo_rows f js) of (Some x, Some xs) \<Rightarrow> Some (x # xs) | _ \<Rightarrow> None)"

fun demo_int :: "json \<Rightarrow> int" where "demo_int (JNum r) = \<lfloor>r\<rfloor>" | "demo_int j = 0"
fun demo_str :: "json \<Rightarrow> string" where "demo_str (JStr s) = s" | "demo_str j = []"

fun demo_provider :: "json \<Rightarrow> Provider option" where
  "demo_provider (JObj [a, b, (_, JArr ns), (_, JBool e), d, f]) = Some \<lparr>pr_id = demo_str (snd a), pr_name = demo_str (snd b),
     pr_asns = map demo_int ns, pr_enabled = e, pr_priority = demo_int (snd d)\<rparr>"
| "demo_provider j = None"

fun demo_enrollment :: "json \<Rightarrow> PendingEnrollment option" where
  "demo_enrollment (JObj [a, b, c, d, e, f]) = Some \<lparr>en_id = demo_str (snd a), en_worker = demo_str (snd b), en_worker_name = demo_str (snd c),
     en_operator = demo_str (snd d), en_token_hash = demo_str (snd e), en_expires = demo_int (snd f)\<rparr>"
| "demo_enrollment j = None"

fun demo_decision :: "json \<Rightarrow> Decision option" where
  "demo_decision (JObj [a, b, c, d, e]) = Some \<lparr>de_id = demo_str (snd a), de_worker = demo_str (snd b), de_state = demo_str (snd c),
     de_reason = demo_str (snd d), de_decided_at = demo_int (snd e)\<rparr>"
| "demo_decision j = None"

fun demo_array :: "(json \<Rightarrow> 'a option) \<Rightarrow> json \<Rightarrow> 'a list option" where
  "demo_array f (JArr js) = demo_rows f js"
| "demo_array f j = None"

definition demo_mock :: mock_env where
  "demo_mock = \<lparr>mo_time_json = (\<lambda>t. JNum (of_int t)), mo_parse_time = (\<lambda>s. Some (if hd s = CHR ''-'' then - int (length s - 1) else int (length s - 1)))\<rparr>"

definition demo_clock :: "time \<Rightarrow> string" where
  "demo_clock t = (if t < 0 then CHR ''-'' else CHR ''0'') # replicate (nat \<bar>t\<bar>) (CHR ''1'')"

lemma demo_rows_map: "(\<And>x. f (g x) = Some (h x)) \<Longrightarrow> demo_rows f (map g xs) = Some (map h xs)"
  by (induction xs) auto

lemma demo_site_codec: "site_codec demo_mock (demo_array demo_provider) (demo_array demo_enrollment) (demo_array demo_decision) demo_clock"
proof -
  have "demo_provider (provider_json demo_mock p) = Some (to_provider p)" for p
    by (simp add: provider_json_def to_provider_def demo_mock_def comp_def)
  moreover have "demo_enrollment (enrollment_json demo_mock e) = Some e" "demo_decision (decision_json demo_mock d) = Some d" for e d
    by (simp_all add: enrollment_json_def decision_json_def demo_mock_def)
  moreover have "mo_parse_time demo_mock (demo_clock t) = Some t" for t by (simp add: demo_mock_def demo_clock_def)
  ultimately show ?thesis
    using demo_rows_map [of demo_enrollment "enrollment_json demo_mock" id] demo_rows_map [of demo_decision "decision_json demo_mock" id]
    by (simp add: site_codec_def demo_rows_map demo_clock_def)
qed

definition demo_fixtures :: Fixtures where
  "demo_fixtures = \<lparr>fx_providers = [\<lparr>mp_id = ''a'', mp_name = ''A'', mp_asns = [1], mp_enabled = True, mp_priority = 1, mp_updated = 0\<rparr>,
       \<lparr>mp_id = ''b'', mp_name = ''B'', mp_asns = [2], mp_enabled = False, mp_priority = 1, mp_updated = 0\<rparr>],
     fx_enrollments = [], fx_decisions = [\<lparr>de_id = ''d'', de_worker = ''w'', de_state = ''active'', de_reason = [], de_decided_at = 5\<rparr>]\<rparr>"

theorem mock_serves_contract_witness:
  "ListProviders (mock_site demo_mock demo_fixtures ''t'' ''http://c'' ''t'') (demo_array demo_provider) True =
     Inr [\<lparr>pr_id = ''a'', pr_name = ''A'', pr_asns = [1], pr_enabled = True, pr_priority = 1\<rparr>] \<and>
   ListDecisions (mock_site demo_mock demo_fixtures ''t'' ''http://c'' ''t'') demo_clock (demo_array demo_decision) (Some 5) = Inr [] \<and>
   ListProviders (mock_site demo_mock demo_fixtures ''t'' ''http://c'' ''x'') (demo_array demo_provider) True = Inl (Status 401)"
proof -
  have "origin ''http://c''" using demo_ctl_ready by (simp add: ctl_ready_def demo_getenv_def)
  from mock_serves_contract [OF demo_site_codec this, of demo_fixtures "''t''" True "Some 5" "''x''"]
  show ?thesis by (simp add: demo_fixtures_def to_provider_def)
qed

end
