(* ===== verification/Trust.thy ===== *)
theory Trust
  imports Registry Statistics
begin

text \<open>
  Worker trust scores (\<^verbatim>\<open>internal/trust/trust.go\<close>): the single statement that recomputes every
  non-retired worker's score from heartbeat recency, tenure, consensus agreement and security
  events, and the loop that runs it.
\<close>

section \<open>Operations\<close>

definition availability_of :: "time \<Rightarrow> worker_row \<Rightarrow> rat" where
  "availability_of now w =
     (case w_last_heartbeat_at w of
        None \<Rightarrow> 0
      | Some t \<Rightarrow> if t > now - 5 * minute then 1 else if t > now - hour then 1 / 2 else 0)"

definition days_since :: "time \<Rightarrow> time \<Rightarrow> rat" where
  "days_since now t = of_int (now - t) / of_int second / 86400"

text \<open>\<^const>\<open>None\<close> is the division by zero of a worker approved exactly two weeks in the future.\<close>

definition tenure_of :: "time \<Rightarrow> worker_row \<Rightarrow> rat option" where
  "tenure_of now w =
     (case w_approved_at w of
        None \<Rightarrow> Some 0
      | Some t \<Rightarrow> (let d = days_since now t in if d + 14 = 0 then None else Some (d / (d + 14))))"

definition agreement_of :: "time \<Rightarrow> agreement_row list \<Rightarrow> worker_row \<Rightarrow> rat" where
  "agreement_of now ags w =
     (case avg_opt (map ag_agreement (filter (\<lambda>a. ag_worker_id a = w_id w \<and> ag_window_start a > now - 24 * hour) ags)) of
        None \<Rightarrow> 1 / 2
      | Some x \<Rightarrow> x)"

definition security_events :: "time \<Rightarrow> event_row list \<Rightarrow> worker_row \<Rightarrow> nat" where
  "security_events now es w =
     count_where (\<lambda>e. e_worker_id e = w_id w \<and> e_created_at e > now - 7 * day \<and>
                      e_event_type e \<in> {''bad_signature'', ''replay''}) es"

definition penalty_of :: "time \<Rightarrow> event_row list \<Rightarrow> worker_row \<Rightarrow> rat" where
  "penalty_of now es w = min (1 / 2) (1 / 10 * of_nat (security_events now es w))"

definition score_formula :: "rat \<Rightarrow> rat \<Rightarrow> rat \<Rightarrow> rat \<Rightarrow> rat" where
  "score_formula avail ten agree pen = max 0 (min 1 (avail * (2 / 10 + 3 / 10 * ten) + 5 / 10 * agree - pen))"

definition score_worker :: "time \<Rightarrow> agreement_row list \<Rightarrow> event_row list \<Rightarrow> worker_row \<Rightarrow> score_row option" where
  "score_worker now ags es w =
     map_option (\<lambda>ten.
       (let av = availability_of now w; ag = agreement_of now ags w; pen = penalty_of now es w in
        \<lparr>s_worker_id = w_id w, s_score = score_formula av ten ag pen,
         s_components = \<lparr>availability = round3 av, tenure = round3 ten, agreement = round3 ag, penalty = round3 pen\<rparr>,
         s_computed_at = now\<rparr>)) (tenure_of now w)"

definition upsert_score :: "score_row \<Rightarrow> score_row list \<Rightarrow> score_row list" where
  "upsert_score s rows =
     (if s_worker_id s \<in> s_worker_id ` set rows
      then update_where (\<lambda>r. s_worker_id r = s_worker_id s) (\<lambda>_. s) rows
      else rows @ [s])"

definition scored :: "time \<Rightarrow> agreement_row list \<Rightarrow> registry_schema \<Rightarrow> score_row option list" where
  "scored now ags R = map (score_worker now ags (trust_events R)) (filter (\<lambda>w. w_state w \<noteq> ''retired'') (workers R))"

definition ComputeAll :: "faults \<Rightarrow> time \<Rightarrow> db \<Rightarrow> bool \<times> db" where
  "ComputeAll F now D =
     (let R = registry_of D; rows = scored now (worker_agreements (aggregation_of D)) R in
      if F ''trust.compute'' \<or> None \<in> set rows then (False, D)
      else (True, D\<lparr>registry_of := R\<lparr>trust_scores := fold upsert_score (map the rows) (trust_scores R)\<rparr>\<rparr>))"

fun trust_Run :: "(faults \<times> time) list \<Rightarrow> db \<Rightarrow> db" where
  "trust_Run [] D = D"
| "trust_Run ((F, now) # ticks) D = trust_Run ticks (snd (ComputeAll F now D))"

section \<open>Lemmas\<close>

lemma upsert_score_other: "s_worker_id s \<noteq> wid \<Longrightarrow>
    lookup_by s_worker_id wid (upsert_score s rows) = lookup_by s_worker_id wid rows"
proof -
  assume n: "s_worker_id s \<noteq> wid"
  have "lookup_by s_worker_id wid (update_where (\<lambda>r. s_worker_id r = s_worker_id s) (\<lambda>_. s) rows) = lookup_by s_worker_id wid rows"
    using n by (induction rows) auto
  then show ?thesis using n by (simp add: upsert_score_def lookup_by_append split: option.split)
qed

lemma upsert_score_same: "lookup_by s_worker_id (s_worker_id s) (upsert_score s rows) = Some s"
proof -
  have "s_worker_id s \<in> s_worker_id ` set rows \<Longrightarrow>
      lookup_by s_worker_id (s_worker_id s) (update_where (\<lambda>r. s_worker_id r = s_worker_id s) (\<lambda>_. s) rows) = Some s"
    by (induction rows) auto
  moreover have "s_worker_id s \<notin> s_worker_id ` set rows \<Longrightarrow> lookup_by s_worker_id (s_worker_id s) rows = None"
    by (simp add: lookup_by_None_iff)
  ultimately show ?thesis by (auto simp: upsert_score_def lookup_by_append)
qed

lemma fold_upsert_other: "wid \<notin> s_worker_id ` set ss \<Longrightarrow>
    lookup_by s_worker_id wid (fold upsert_score ss rows) = lookup_by s_worker_id wid rows"
  by (induction ss arbitrary: rows) (auto simp: upsert_score_other)

lemma fold_upsert_mem: "distinct (map s_worker_id ss) \<Longrightarrow> s \<in> set ss \<Longrightarrow>
    lookup_by s_worker_id (s_worker_id s) (fold upsert_score ss rows) = Some s"
proof (induction ss arbitrary: rows)
  case (Cons a ss)
  then show ?case
    by (cases "s = a") (auto simp: fold_upsert_other upsert_score_same)
qed simp

lemma tenure_range:
  assumes "tenure_of now w = Some t" and "\<And>a. w_approved_at w = Some a \<Longrightarrow> a \<le> now"
  shows "0 \<le> t \<and> t \<le> 1"
proof (cases "w_approved_at w")
  case (Some a)
  have "0 \<le> days_since now a" using assms(2) [OF Some] by (simp add: days_since_def)
  then show ?thesis using assms(1) Some by (auto simp: tenure_of_def Let_def divide_le_eq split: if_split_asm)
qed (use assms(1) in \<open>simp add: tenure_of_def\<close>)

lemma availability_range: "0 \<le> availability_of now w \<and> availability_of now w \<le> 1"
  by (simp add: availability_of_def split: option.split)

lemma agreement_range:
  assumes "\<And>a. a \<in> set ags \<Longrightarrow> 0 \<le> ag_agreement a \<and> ag_agreement a \<le> 1"
  shows "0 \<le> agreement_of now ags w \<and> agreement_of now ags w \<le> 1"
proof -
  have "0 \<le> avg xs \<and> avg xs \<le> 1"
    if "xs = map ag_agreement (filter (\<lambda>a. ag_worker_id a = w_id w \<and> ag_window_start a > now - 24 * hour) ags)" "xs \<noteq> []" for xs
    using that assms by (intro avg_range) auto
  then show ?thesis by (simp add: agreement_of_def avg_opt_def)
qed

lemma image_no_None: "None \<notin> f ` S \<Longrightarrow> x \<in> S \<Longrightarrow> f x \<noteq> None"
  by (metis imageI)

lemma score_formula_le:
  assumes "0 \<le> avail" "avail \<le> 1" "0 \<le> ten" "agree \<le> 1" "0 \<le> c" "2 / 10 + 3 / 10 * ten + 5 / 10 - pen \<le> c"
  shows "score_formula avail ten agree pen \<le> c"
proof -
  define x where "x = avail * (2 / 10 + 3 / 10 * ten)"
  have "x \<le> 1 * (2 / 10 + 3 / 10 * ten)" unfolding x_def using assms(2,3) by (intro mult_right_mono) auto
  then have "x \<le> 2 / 10 + 3 / 10 * ten" by simp
  then have "x + 5 / 10 * agree - pen \<le> c" using assms(4,6) by (simp add: field_simps)
  then show ?thesis using assms(5) by (simp add: score_formula_def x_def min.coboundedI2)
qed

lemma score_worker_Some:
  assumes "score_worker now ags es w = Some s"
  obtains ten where "tenure_of now w = Some ten" "s_worker_id s = w_id w" "s_computed_at s = now"
    "s_score s = score_formula (availability_of now w) ten (agreement_of now ags w) (penalty_of now es w)"
  using assms by (auto simp: score_worker_def Let_def)

text \<open>What the statement leaves in the score table.\<close>

lemma ComputeAll_ok:
  assumes "ComputeAll F now D = (True, D')" and "distinct (map w_id (workers (registry_of D)))"
    and "w \<in> set (workers (registry_of D))"
  shows "lookup_by s_worker_id (w_id w) (trust_scores (registry_of D')) =
    (if w_state w = ''retired'' then lookup_by s_worker_id (w_id w) (trust_scores (registry_of D))
     else score_worker now (worker_agreements (aggregation_of D)) (trust_events (registry_of D)) w)"
proof -
  let ?R = "registry_of D" and ?sc = "score_worker now (worker_agreements (aggregation_of D)) (trust_events (registry_of D))"
  let ?ws = "filter (\<lambda>w. w_state w \<noteq> ''retired'') (workers ?R)"
  have rows: "scored now (worker_agreements (aggregation_of D)) ?R = map ?sc ?ws" by (simp add: scored_def)
  have some: "None \<notin> set (map ?sc ?ws)"
    and D': "trust_scores (registry_of D') = fold upsert_score (map the (map ?sc ?ws)) (trust_scores ?R)"
    using assms(1) by (auto simp: ComputeAll_def Let_def rows split: if_split_asm)
  have some': "?sc v \<noteq> None" if "v \<in> set ?ws" for v
    using some that unfolding set_map by (rule image_no_None)
  have ids: "s_worker_id (the (?sc v)) = w_id v" if v: "v \<in> set ?ws" for v
  proof -
    obtain s where s: "?sc v = Some s" using some' [OF v] by blast
    from score_worker_Some [OF s] show ?thesis using s by simp
  qed
  have keys: "map s_worker_id (map the (map ?sc ?ws)) = map w_id ?ws" using ids by simp
  show ?thesis
  proof (cases "w_state w = ''retired''")
    case True
    then have "w_id w \<notin> w_id ` set ?ws" using assms(2,3) by (auto simp: distinct_map dest: inj_onD)
    then have "w_id w \<notin> s_worker_id ` set (map the (map ?sc ?ws))" using keys by (metis set_map)
    from fold_upsert_other [OF this] show ?thesis using True by (simp only: D' if_P)
  next
    case False
    then have w: "w \<in> set ?ws" using assms(3) by simp
    have d: "distinct (map s_worker_id (map the (map ?sc ?ws)))"
      unfolding keys using assms(2) by (simp add: distinct_map_filter)
    obtain s where s: "?sc w = Some s" using some' [OF w] by blast
    have "the (?sc w) \<in> set (map the (map ?sc ?ws))" unfolding list.map_comp using w by (force simp: comp_def)
    from fold_upsert_mem [OF d this] ids [OF w] False s show ?thesis by (simp add: D')
  qed
qed

section \<open>Properties\<close>

text \<open>
  A successful trust pass gives every worker that is not retired a fresh score between 0 and 1
  and leaves the scores of retired workers alone. Each security event of the last week costs a
  tenth, up to a half: with \<open>n\<close> of them the score is at most \<open>1 - min (1/2) (n/10)\<close>; and a worker that
  was never approved gets at most \<open>7/10\<close>, however available and agreeable it is.
\<close>

theorem trust_score_bounds:
  assumes "ComputeAll F now D = (True, D')" and "reg_inv (registry_of D)"
    and "w \<in> set (workers (registry_of D))" and "w_state w \<noteq> ''retired''"
    and "\<And>a. a \<in> set (worker_agreements (aggregation_of D)) \<Longrightarrow> 0 \<le> ag_agreement a \<and> ag_agreement a \<le> 1"
    and "\<And>a. w_approved_at w = Some a \<Longrightarrow> a \<le> now"
  shows "\<exists>s. lookup_by s_worker_id (w_id w) (trust_scores (registry_of D')) = Some s \<and> s_computed_at s = now \<and>
    0 \<le> s_score s \<and> s_score s \<le> 1 - penalty_of now (trust_events (registry_of D)) w \<and>
    (w_approved_at w = None \<longrightarrow> s_score s \<le> 7 / 10)"
proof -
  let ?ags = "worker_agreements (aggregation_of D)" and ?es = "trust_events (registry_of D)"
  have "distinct (map w_id (workers (registry_of D)))" using assms(2) by (simp add: reg_inv_def worker_inv_def)
  from ComputeAll_ok [OF assms(1) this assms(3)] assms(4)
  have l: "lookup_by s_worker_id (w_id w) (trust_scores (registry_of D')) = score_worker now ?ags ?es w" by simp
  have "None \<notin> score_worker now ?ags ?es ` {w \<in> set (workers (registry_of D)). w_state w \<noteq> ''retired''}"
    using assms(1) by (auto simp: ComputeAll_def scored_def Let_def split: if_split_asm)
  then have "score_worker now ?ags ?es w \<noteq> None" by (rule image_no_None) (use assms(3,4) in simp)
  then obtain s where s: "score_worker now ?ags ?es w = Some s" by blast
  from s obtain ten where t: "tenure_of now w = Some ten" "s_computed_at s = now"
    "s_score s = score_formula (availability_of now w) ten (agreement_of now ?ags w) (penalty_of now ?es w)"
    by (rule score_worker_Some)
  have r: "0 \<le> ten" "ten \<le> 1" "0 \<le> availability_of now w" "availability_of now w \<le> 1" "agreement_of now ?ags w \<le> 1"
    using tenure_range [OF t(1) assms(6)] availability_range [of now w] agreement_range [of ?ags now w] assms(5) by auto
  have p: "0 \<le> penalty_of now ?es w" "penalty_of now ?es w \<le> 1 / 2" by (simp_all add: penalty_of_def)
  have u: "w_approved_at w = None \<Longrightarrow> ten = 0" using t(1) by (simp add: tenure_of_def)
  have "s_score s \<le> 1 - penalty_of now ?es w" unfolding t(3) by (rule score_formula_le) (use r p in linarith)+
  moreover have "s_score s \<le> 7 / 10" if "w_approved_at w = None"
    unfolding t(3) by (rule score_formula_le) (use r p u [OF that] in linarith)+
  moreover have "0 \<le> s_score s" by (simp add: t(3) score_formula_def)
  ultimately show ?thesis using l s t(2) by auto
qed

definition demo_scored :: db where
  "demo_scored = \<lparr>registry_of = demo_registered, routing_of = undefined, scheduling_of = undefined,
     measurements_of = \<lparr>observations = [], upload_batches = []\<rparr>,
     aggregation_of = \<lparr>consensus_windows = [], worker_agreements = [], provider_statuses = [], target_statuses = [],
        anomalies = [], publication_outbox = [], outbox_seq = 0\<rparr>,
     audit_of = []\<rparr>"

theorem trust_score_bounds_witness:
  "\<exists>D' s. ComputeAll no_faults 20 demo_scored = (True, D') \<and>
     lookup_by s_worker_id ''w1'' (trust_scores (registry_of D')) = Some s \<and> s_score s \<le> 7 / 10"
proof -
  obtain w where w: "w \<in> set (workers demo_registered)" "w_id w = ''w1''" "w_state w = ''pending''" "w_approved_at w = None"
    "workers demo_registered = [w]"
    by (simp add: demo_registered_def demo_eval)
  have r: "registry_of demo_scored = demo_registered" by (simp add: demo_scored_def)
  have "fst (ComputeAll no_faults 20 demo_scored)"
    using w by (auto simp: ComputeAll_def scored_def score_worker_def tenure_of_def r Let_def)
  then obtain D' where c: "ComputeAll no_faults 20 demo_scored = (True, D')" by (metis prod.collapse)
  have "\<exists>s. lookup_by s_worker_id (w_id w) (trust_scores (registry_of D')) = Some s \<and> s_computed_at s = 20 \<and>
    0 \<le> s_score s \<and> s_score s \<le> 1 - penalty_of 20 (trust_events (registry_of demo_scored)) w \<and>
    (w_approved_at w = None \<longrightarrow> s_score s \<le> 7 / 10)"
    by (rule trust_score_bounds [OF c])
      (use w registry.reachable_inv [OF demo_registered_reachable demo_registry_inv] in \<open>simp_all add: r demo_scored_def\<close>)
  then show ?thesis using c w by auto
qed

end
