(* ===== verification/Outbox.thy ===== *)
theory Outbox
  imports Advisor Status
begin

text \<open>
  The publication outbox (\<^verbatim>\<open>internal/publisher/publisher.go\<close>): draining due rows to VPS Advisor inside
  one transaction with acknowledgement or exponential backoff, the fleet telemetry document, and
  the publisher's loop.
\<close>

section \<open>Operations\<close>

definition push :: "site \<Rightarrow> string \<Rightarrow> json \<Rightarrow> bool" where
  "push site kind payload =
     (if kind = ''provider_status'' then
        (let p = json_string (json_field ''provider_id'' payload) in
         if p = [] then False else is_ok (PutProviderStatus site p payload))
      else if kind = ''anomaly'' then is_ok (PostAnomaly site payload)
      else if kind = ''telemetry'' then is_ok (PostFleetTelemetry site payload)
      else False)"

text \<open>
  \<^verbatim>\<open>least(power(2, attempts) * interval '1 second', interval '5 minutes')\<close>: an interval counts
  microseconds in a signed 64-bit integer, and the product raises an error when it does not fit,
  before \<^verbatim>\<open>least\<close> is taken.
\<close>

definition backoff :: "nat \<Rightarrow> int option" where
  "backoff attempts =
     (if 2 ^ attempts * 1000000 \<ge> (2 ^ 63 :: int) then None else Some (min (2 ^ attempts * second) (5 * minute)))"

definition due :: "time \<Rightarrow> outbox_row \<Rightarrow> bool" where
  "due now r \<longleftrightarrow> ob_acked_at r = None \<and> ob_next_attempt_at r \<le> now"

definition drain_items :: "(nat \<Rightarrow> bool) \<Rightarrow> time \<Rightarrow> outbox_row list \<Rightarrow> outbox_row list" where
  "drain_items locked now rows = take 100 (sort_key ob_id (filter (\<lambda>r. due now r \<and> \<not> locked (ob_id r)) rows))"

definition set_row :: "nat \<Rightarrow> (outbox_row \<Rightarrow> outbox_row) \<Rightarrow> outbox_row list \<Rightarrow> outbox_row list" where
  "set_row i f rows = update_where (\<lambda>r. ob_id r = i) f rows"

definition ack_row :: "time \<Rightarrow> outbox_row \<Rightarrow> outbox_row" where
  "ack_row now r = r\<lparr>ob_acked_at := Some now, ob_attempts := ob_attempts r + 1\<rparr>"

definition delay_row :: "time \<Rightarrow> int \<Rightarrow> outbox_row \<Rightarrow> outbox_row" where
  "delay_row now d r = r\<lparr>ob_attempts := ob_attempts r + 1, ob_next_attempt_at := now + d\<rparr>"

text \<open>The result: whether the loop came to its end, the ids delivered in order, the rows.\<close>

fun drain_loop :: "faults \<Rightarrow> site \<Rightarrow> time \<Rightarrow> outbox_row list \<Rightarrow> outbox_row list \<Rightarrow> bool \<times> nat list \<times> outbox_row list" where
  "drain_loop F site now [] rows = (True, [], rows)"
| "drain_loop F site now (it # items) rows =
     (if push site (ob_kind it) (ob_payload it) then
        (if F ''drain.ack'' then (False, [ob_id it], rows)
         else case drain_loop F site now items (set_row (ob_id it) (ack_row now) rows) of
                (ok, done_ids, rows') \<Rightarrow> (ok, ob_id it # done_ids, rows'))
      else
        (case backoff (ob_attempts it) of
           None \<Rightarrow> (False, [], rows)
         | Some d \<Rightarrow>
             if F ''drain.delay'' then (False, [], rows)
             else drain_loop F site now items (set_row (ob_id it) (delay_row now d) rows)))"

text \<open>A failing statement rolls the transaction back, but what was delivered stays delivered.\<close>

definition DrainOnce :: "faults \<Rightarrow> site \<Rightarrow> (nat \<Rightarrow> bool) \<Rightarrow> time \<Rightarrow> db \<Rightarrow> bool \<times> nat list \<times> db" where
  "DrainOnce F site locked now D =
     (let rows = publication_outbox (aggregation_of D) in
      if F ''drain.begin'' \<or> F ''drain.query'' then (False, [], D)
      else case drain_loop F site now (drain_items locked now rows) rows of
        (ok, done_ids, rows') \<Rightarrow>
          if ok \<and> \<not> F ''drain.commit''
          then (True, done_ids, upd_agg (\<lambda>A. A\<lparr>publication_outbox := rows'\<rparr>) D)
          else (False, done_ids, D))"

definition telemetry_json :: "(time \<Rightarrow> json) \<Rightarrow> time \<Rightarrow> db \<Rightarrow> json" where
  "telemetry_json tj now D =
     (let R = registry_of D in
      JObj [(''as_of'', tj now),
        (''workers_by_state'', JObj (count_groups (map w_state (workers R)))),
        (''software_versions'', JObj (count_groups (map (\<lambda>w. case w_software_version w of None \<Rightarrow> ''unknown'' | Some v \<Rightarrow> v)
           (filter (\<lambda>w. w_state w = ''active'') (workers R))))),
        (''published_snapshot'', (case rev (sort_key sn_id (filter (\<lambda>s. sn_status s = ''published'') (snapshots (routing_of D)))) of
           [] \<Rightarrow> JNull | s # _ \<Rightarrow> JStr (sn_version s))),
        (''security_events_24h'', JObj (count_groups (map e_event_type
           (filter (\<lambda>e. e_created_at e > now - 24 * hour \<and> e_event_type e \<in> {''bad_signature'', ''replay''}) (trust_events R)))))])"

definition EnqueueFleetTelemetry :: "faults \<Rightarrow> (time \<Rightarrow> json) \<Rightarrow> time \<Rightarrow> db \<Rightarrow> bool \<times> db" where
  "EnqueueFleetTelemetry F tj now D =
     (if F ''telemetry.query'' \<or> F ''telemetry.insert'' then (False, D)
      else (True, upd_agg (enqueue now ''telemetry'' (telemetry_json tj now D)) D))"

datatype publisher_event = DrainTick site "nat \<Rightarrow> bool" | TelemetryTick

definition publisher_step :: "(time \<Rightarrow> json) \<Rightarrow> publisher_event \<times> faults \<times> time \<Rightarrow> nat list \<times> db \<Rightarrow> nat list \<times> db" where
  "publisher_step tj ev = (\<lambda>(done_ids, D).
     case ev of
       (DrainTick site locked, F, now) \<Rightarrow> (case DrainOnce F site locked now D of (_, l, D') \<Rightarrow> (done_ids @ l, D'))
     | (TelemetryTick, F, now) \<Rightarrow> (done_ids, snd (EnqueueFleetTelemetry F tj now D)))"

definition publisher_Run :: "(time \<Rightarrow> json) \<Rightarrow> (publisher_event \<times> faults \<times> time) list \<Rightarrow> db \<Rightarrow> nat list \<times> db" where
  "publisher_Run tj evs D = fold (publisher_step tj) evs ([], D)"

section \<open>Delivery\<close>

lemma set_row_ids [simp]: "(\<And>r. ob_id (f r) = ob_id r) \<Longrightarrow> map ob_id (set_row i f rows) = map ob_id rows"
  by (simp add: set_row_def update_where_proj)

lemma row_fields [simp]:
  "ob_id (ack_row now r) = ob_id r" "ob_id (delay_row now d r) = ob_id r" "ob_payload (ack_row now r) = ob_payload r"
  "ob_payload (delay_row now d r) = ob_payload r" "ob_kind (ack_row now r) = ob_kind r" "ob_kind (delay_row now d r) = ob_kind r"
  "ob_acked_at (delay_row now d r) = ob_acked_at r" "ob_acked_at (ack_row now r) = Some now"
  by (simp_all add: ack_row_def delay_row_def)

lemma row_lookup: "(\<And>r. ob_id (f r) = ob_id r) \<Longrightarrow>
    lookup_by ob_id j (set_row i f rows) = (if j = i then map_option f (lookup_by ob_id j rows) else lookup_by ob_id j rows)"
  by (induction rows) (auto simp: set_row_def)

text \<open>What a completed loop delivered and what it did to the rows.\<close>

definition delivered :: "site \<Rightarrow> outbox_row \<Rightarrow> bool" where
  "delivered site it \<longleftrightarrow> push site (ob_kind it) (ob_payload it)"

definition outcome :: "site \<Rightarrow> time \<Rightarrow> outbox_row \<Rightarrow> outbox_row \<Rightarrow> outbox_row" where
  "outcome site now it =
     (if delivered site it then ack_row now else delay_row now (case backoff (ob_attempts it) of None \<Rightarrow> 0 | Some d \<Rightarrow> d))"

definition settle :: "site \<Rightarrow> time \<Rightarrow> outbox_row list \<Rightarrow> outbox_row list \<Rightarrow> outbox_row list" where
  "settle site now items rows = fold (\<lambda>it. set_row (ob_id it) (outcome site now it)) items rows"

lemma outcome_id [simp]: "ob_id (outcome site now it r) = ob_id r"
  by (simp add: outcome_def)

lemma drain_loop_True:
  assumes "drain_loop F site now items rows = (True, done_ids, rows')"
  shows "done_ids = map ob_id (filter (delivered site) items) \<and> rows' = settle site now items rows \<and>
    (\<forall>it \<in> set items. \<not> delivered site it \<longrightarrow> backoff (ob_attempts it) \<noteq> None)"
  using assms
  by (induction items arbitrary: rows done_ids)
    (auto simp: settle_def outcome_def delivered_def split: if_split_asm option.split_asm prod.split_asm)

lemma settle_ids [simp]: "map ob_id (settle site now items rows) = map ob_id rows"
  by (induction items arbitrary: rows) (auto simp: settle_def)

lemma settle_other: "j \<notin> ob_id ` set items \<Longrightarrow> lookup_by ob_id j (settle site now items rows) = lookup_by ob_id j rows"
  by (induction items arbitrary: rows) (auto simp: settle_def row_lookup)

lemma settle_item: "distinct (map ob_id items) \<Longrightarrow> it \<in> set items \<Longrightarrow>
    lookup_by ob_id (ob_id it) (settle site now items rows) = map_option (outcome site now it) (lookup_by ob_id (ob_id it) rows)"
proof (induction items arbitrary: rows)
  case (Cons x items)
  have s: "settle site now (x # items) rows = settle site now items (set_row (ob_id x) (outcome site now x) rows)" by (simp add: settle_def)
  show ?case
  proof (cases "it = x")
    case True
    then show ?thesis using Cons.prems(1) by (simp add: s settle_other row_lookup)
  next
    case False
    then have "it \<in> set items" using Cons.prems by auto
    moreover from this have "ob_id it \<noteq> ob_id x" using Cons.prems(1) by (force simp: image_iff)
    ultimately have "it \<in> set items" "ob_id it \<noteq> ob_id x" .
    then show ?thesis using Cons by (simp add: s row_lookup)
  qed
qed simp

lemma drain_items_sub: "it \<in> set (drain_items locked now rows) \<Longrightarrow> it \<in> set rows \<and> due now it"
  by (auto simp: drain_items_def dest!: in_set_takeD)

lemma drain_items_distinct: "distinct (map ob_id rows) \<Longrightarrow> distinct (map ob_id (drain_items locked now rows))"
  by (simp add: drain_items_def take_map [symmetric] distinct_map_filter distinct_take inj_on_def distinct_map)

lemma backoff_range: "backoff n = Some d \<Longrightarrow> 0 < d \<and> d \<le> 5 * minute"
  by (auto simp: backoff_def split: if_split_asm)


section \<open>Properties\<close>

lemma DrainOnce_True:
  assumes "DrainOnce F site locked now D = (True, ids, D')"
  obtains items where "items = drain_items locked now (publication_outbox (aggregation_of D))"
    "ids = map ob_id (filter (delivered site) items)"
    "publication_outbox (aggregation_of D') = settle site now items (publication_outbox (aggregation_of D))"
    "\<forall>it \<in> set items. \<not> delivered site it \<longrightarrow> backoff (ob_attempts it) \<noteq> None"
proof -
  let ?rows = "publication_outbox (aggregation_of D)"
  obtain rows' where l: "drain_loop F site now (drain_items locked now ?rows) ?rows = (True, ids, rows')"
    "publication_outbox (aggregation_of D') = rows'"
    using assms by (auto simp: DrainOnce_def Let_def split: if_split_asm prod.split_asm)
  show thesis using that [OF refl] drain_loop_True [OF l(1)] l(2) by auto
qed

text \<open>
  C16. Publication is at-least-once: a drain that commits loses no row and changes no document; a row it
  acknowledges was delivered in this drain; a row it tried and could not deliver becomes due again
  after at least a moment and at most five minutes.
\<close>

theorem drain_at_least_once:
  assumes "DrainOnce F site locked now D = (True, ids, D')" and "distinct (map ob_id (publication_outbox (aggregation_of D)))"
    and "r \<in> set (publication_outbox (aggregation_of D))"
  shows "\<exists>r'. lookup_by ob_id (ob_id r) (publication_outbox (aggregation_of D')) = Some r' \<and>
    ob_kind r' = ob_kind r \<and> ob_payload r' = ob_payload r \<and>
    (r' = r \<or>
     ob_acked_at r' = Some now \<and> ob_id r \<in> set ids \<and> push site (ob_kind r) (ob_payload r) \<or>
     ob_acked_at r' = None \<and> now < ob_next_attempt_at r' \<and> ob_next_attempt_at r' \<le> now + 5 * minute)"
proof -
  from assms(1) obtain items where i: "items = drain_items locked now (publication_outbox (aggregation_of D))"
    "ids = map ob_id (filter (delivered site) items)"
    "publication_outbox (aggregation_of D') = settle site now items (publication_outbox (aggregation_of D))"
    "\<forall>it \<in> set items. \<not> delivered site it \<longrightarrow> backoff (ob_attempts it) \<noteq> None" by (rule DrainOnce_True)
  have l: "lookup_by ob_id (ob_id r) (publication_outbox (aggregation_of D)) = Some r" by (rule lookup_by_unique [OF assms(2,3)])
  show ?thesis
  proof (cases "r \<in> set items")
    case True
    have "lookup_by ob_id (ob_id r) (publication_outbox (aggregation_of D')) = Some (outcome site now r r)"
      using settle_item [OF drain_items_distinct [OF assms(2)]] True l by (simp add: i(1,3))
    moreover have "ob_acked_at r = None" using True drain_items_sub by (auto simp: i(1) due_def)
    moreover obtain d where d: "\<not> delivered site r \<Longrightarrow> backoff (ob_attempts r) = Some d" using i(4) True by blast
    moreover have "\<not> delivered site r \<Longrightarrow> 0 < d \<and> d \<le> 5 * minute" using d backoff_range [of "ob_attempts r" d] by blast
    ultimately show ?thesis
      using True by (auto simp: i(2) outcome_def delivered_def ack_row_def delay_row_def)
  next
    case False
    have "ob_id r \<notin> ob_id ` set items"
    proof
      assume "ob_id r \<in> ob_id ` set items"
      then obtain x where x: "x \<in> set items" "ob_id x = ob_id r" by auto
      then have "x \<in> set (publication_outbox (aggregation_of D))" using drain_items_sub i(1) by blast
      then have "x = r" using assms(2,3) x(2) by (meson distinct_map inj_onD)
      then show False using x(1) False by simp
    qed
    then show ?thesis using l by (simp add: i(3) settle_other)
  qed
qed

lemma backoff_overflow: "44 \<le> n \<Longrightarrow> backoff n = None"
proof -
  assume n: "44 \<le> n"
  have "(2 :: int) ^ 44 \<le> 2 ^ n" using n by (intro power_increasing) auto
  then have "(2 ^ 63 :: int) \<le> 2 ^ n * 1000000" by simp
  then show ?thesis by (simp add: backoff_def)
qed

text \<open>
  A document the website keeps rejecting stops the outbox: once a due row has failed 44 times,
  the backoff of its next failure overflows, the statement fails, and the whole drain is rolled
  back. Acknowledgements made before it are lost and everything behind it waits, at every drain.
\<close>

theorem rejected_document_blocks_outbox:
  assumes "it \<in> set (drain_items locked now (publication_outbox (aggregation_of D)))" and "44 \<le> ob_attempts it"
    and "\<not> push site (ob_kind it) (ob_payload it)"
  shows "\<exists>ids. DrainOnce F site locked now D = (False, ids, D)"
proof -
  obtain ok ids D' where d: "DrainOnce F site locked now D = (ok, ids, D')" by (metis prod.exhaust)
  have "\<not> ok"
  proof
    assume ok
    then show False using d assms backoff_overflow by (auto simp: delivered_def elim!: DrainOnce_True)
  qed
  then show ?thesis using d by (auto simp: DrainOnce_def Let_def split: if_split_asm prod.split_asm)
qed

definition demo_row :: "nat \<Rightarrow> string \<Rightarrow> nat \<Rightarrow> outbox_row" where
  "demo_row i p n = \<lparr>ob_id = i, ob_kind = ''provider_status'', ob_payload = JObj [(''provider_id'', JStr p)], ob_created_at = 0,
     ob_attempts = n, ob_next_attempt_at = 0, ob_acked_at = None\<rparr>"

definition demo_outbox :: "outbox_row list \<Rightarrow> db" where
  "demo_outbox rows = upd_agg (\<lambda>A. A\<lparr>publication_outbox := rows\<rparr>) demo_consensus"

text \<open>A website that refuses the documents of one provider.\<close>

definition demo_refusing :: "string \<Rightarrow> site" where
  "demo_refusing p method path body = (if body = Some (JObj [(''provider_id'', JStr p)]) then Some (422, None) else Some (200, None))"

lemma demo_push: "push (demo_refusing p) ''provider_status'' (JObj [(''provider_id'', JStr q)]) = (q \<noteq> [] \<and> q \<noteq> p)"
  by (simp add: push_def PutProviderStatus_def doJSON_def demo_refusing_def)

lemma demo_outbox_rows: "publication_outbox (aggregation_of (demo_outbox rows)) = rows"
  by (simp add: demo_outbox_def)

theorem drain_at_least_once_witness:
  "\<exists>ids D' r'. DrainOnce no_faults (demo_refusing ''bad'') (\<lambda>_. False) 7 (demo_outbox [demo_row 0 ''bad'' 3, demo_row 1 ''p1'' 0]) = (True, ids, D') \<and>
     lookup_by ob_id 1 (publication_outbox (aggregation_of D')) = Some r' \<and> ob_payload r' = JObj [(''provider_id'', JStr ''p1'')]"
proof -
  let ?D = "demo_outbox [demo_row 0 ''bad'' 3, demo_row 1 ''p1'' 0]"
  have "fst (DrainOnce no_faults (demo_refusing ''bad'') (\<lambda>_. False) 7 ?D)"
    by (simp add: DrainOnce_def demo_outbox_rows drain_items_def due_def demo_row_def demo_push backoff_def Let_def)
  then obtain ids D' where d: "DrainOnce no_faults (demo_refusing ''bad'') (\<lambda>_. False) 7 ?D = (True, ids, D')"
    by (metis (full_types) prod.collapse)
  have "\<exists>r'. lookup_by ob_id (ob_id (demo_row 1 ''p1'' 0)) (publication_outbox (aggregation_of D')) = Some r' \<and>
    ob_kind r' = ob_kind (demo_row 1 ''p1'' 0) \<and> ob_payload r' = ob_payload (demo_row 1 ''p1'' 0) \<and>
    (r' = demo_row 1 ''p1'' 0 \<or>
     ob_acked_at r' = Some 7 \<and> ob_id (demo_row 1 ''p1'' 0) \<in> set ids \<and>
       push (demo_refusing ''bad'') (ob_kind (demo_row 1 ''p1'' 0)) (ob_payload (demo_row 1 ''p1'' 0)) \<or>
     ob_acked_at r' = None \<and> 7 < ob_next_attempt_at r' \<and> ob_next_attempt_at r' \<le> 7 + 5 * minute)"
    by (rule drain_at_least_once [OF d]) (simp_all add: demo_outbox_rows demo_row_def)
  then show ?thesis using d by (auto simp: demo_row_def)
qed

theorem rejected_document_blocks_outbox_witness:
  "\<exists>ids. DrainOnce no_faults (demo_refusing ''bad'') (\<lambda>_. False) 7 (demo_outbox [demo_row 0 ''bad'' 44, demo_row 1 ''p1'' 0]) =
     (False, ids, demo_outbox [demo_row 0 ''bad'' 44, demo_row 1 ''p1'' 0])"
  by (rule rejected_document_blocks_outbox [where it = "demo_row 0 ''bad'' 44"])
    (simp_all add: demo_outbox_rows drain_items_def due_def demo_row_def demo_push)

text \<open>
  A failed row is retried behind later ones, so an older document can reach the website after a
  newer one.
\<close>

theorem outbox_reorders:
  "fst (publisher_Run (\<lambda>t. JNull)
     [(DrainTick (demo_refusing ''bad'') (\<lambda>_. False), no_faults, 1), (DrainTick (demo_refusing []) (\<lambda>_. False), no_faults, 2 * second)]
     (demo_outbox [demo_row 0 ''bad'' 0, demo_row 1 ''p1'' 0])) = [1, 0]"
  by (simp add: publisher_Run_def publisher_step_def DrainOnce_def demo_outbox_rows drain_items_def due_def demo_row_def demo_push
      backoff_def set_row_def ack_row_def delay_row_def)

end
