(* ===== verification/Services.thy ===== *)
theory Services
  imports Platform Website Builder Trust Outbox "HOL-Library.State_Monad"
begin

text \<open>
  The processes (\<^verbatim>\<open>cmd/*/main.go\<close>): which settings each reads and with which defaults, what makes it refuse to
  start, how its parts are wired, its exit codes; and the gauges the coordinator exports (\<^verbatim>\<open>internal/coordinator/metrics.go\<close>). Log lines and signals are left out: the
  loops of the parts are modelled where the parts are.
\<close>

section \<open>Settings\<close>

text \<open>Reading a setting is a step on the source of the configuration.\<close>

abbreviation get_string :: "conf_env \<Rightarrow> string \<Rightarrow> string \<Rightarrow> (Source, string) state" where
  "get_string V key def \<equiv> State (src_String V key def)"
abbreviation get_required :: "conf_env \<Rightarrow> string \<Rightarrow> (Source, string) state" where
  "get_required V key \<equiv> State (src_Require V key)"
abbreviation get_int :: "conf_env \<Rightarrow> string \<Rightarrow> int \<Rightarrow> (Source, int) state" where
  "get_int V key def \<equiv> State (src_Int V key def)"
abbreviation get_bool :: "conf_env \<Rightarrow> string \<Rightarrow> bool \<Rightarrow> (Source, bool) state" where
  "get_bool V key def \<equiv> State (src_Bool V key def)"
abbreviation get_duration :: "conf_env \<Rightarrow> string \<Rightarrow> int \<Rightarrow> (Source, int) state" where
  "get_duration V key def \<equiv> State (src_Duration V key def)"

text \<open>The world outside a process at start: the database, the GeoIP file, the S3 client.\<close>

record boot_env =
  bo_conf :: conf_env
  bo_s3 :: "S3Config \<Rightarrow> bool"
  bo_attempt :: "string \<Rightarrow> time \<Rightarrow> bool \<times> time"
  bo_now :: time
  bo_open_asn :: "string \<Rightarrow> (addr \<Rightarrow> int option) option"
  bo_health :: "string \<Rightarrow> nat option"

definition connected :: "boot_env \<Rightarrow> string \<Rightarrow> time \<Rightarrow> bool" where
  "connected B dsn wait \<longleftrightarrow> WaitAndConnect (bo_attempt B dsn) wait (bo_now B) \<noteq> None"

section \<open>The coordinator\<close>

record coord_settings =
  cs_addr :: string
  cs_dsn :: string
  cs_db_wait :: int
  cs_admin_token :: string
  cs_dev_token :: string
  cs_sched_interval :: int
  cs_redundancy :: int
  cs_max_per_worker :: int
  cs_asn_mmdb :: string
  cs_advisor_url :: string
  cs_advisor_token :: string
  cs_sync_interval :: int
  cs_store :: "store_error + store_choice option"

definition coordinator_settings :: "boot_env \<Rightarrow> (Source, coord_settings) state" where
  "coordinator_settings B =
     (let V = bo_conf B in do {
        addr \<leftarrow> get_string V ''HTTP_ADDR'' '':8080'';
        dsn \<leftarrow> get_required V ''DB_DSN'';
        dbWait \<leftarrow> get_duration V ''DB_WAIT'' (60 * second);
        adminToken \<leftarrow> get_required V ''ADMIN_TOKEN'';
        devToken \<leftarrow> get_string V ''DEV_ENROLLMENT_TOKEN'' [];
        schedInterval \<leftarrow> get_duration V ''SCHEDULER_INTERVAL'' (30 * second);
        redundancy \<leftarrow> get_int V ''REDUNDANCY'' 3;
        maxPerWorker \<leftarrow> get_int V ''MAX_ASSIGNMENTS_PER_WORKER'' 64;
        asnMMDB \<leftarrow> get_string V ''GEOIP_ASN_MMDB'' [];
        advisorURL \<leftarrow> get_string V ''ADVISOR_URL'' [];
        advisorToken \<leftarrow> get_string V ''ADVISOR_TOKEN'' [];
        syncInterval \<leftarrow> get_duration V ''ADVISOR_SYNC_INTERVAL'' (2 * minute);
        store \<leftarrow> State (StoreFromConfig V (bo_s3 B));
        State_Monad.return \<lparr>cs_addr = addr, cs_dsn = dsn, cs_db_wait = dbWait, cs_admin_token = adminToken, cs_dev_token = devToken,
          cs_sched_interval = schedInterval, cs_redundancy = redundancy, cs_max_per_worker = maxPerWorker, cs_asn_mmdb = asnMMDB,
          cs_advisor_url = advisorURL, cs_advisor_token = advisorToken, cs_sync_interval = syncInterval, cs_store = store\<rparr>
      })"

record coord_parts =
  cp_config :: coord_config
  cp_store :: store_choice
  cp_advisor :: "(string \<times> string) option"
  cp_sync_interval :: int
  cp_scheduler :: sched_config
  cp_sched_interval :: int
  cp_addr :: string
  cp_dump :: "(string \<times> string) list"

datatype 'a boot = ExitCode nat | Started 'a

definition coordinator_main :: "boot_env \<Rightarrow> string list \<Rightarrow> coord_parts boot" where
  "coordinator_main B args =
     (if args \<noteq> [] \<and> hd args = ''-healthcheck''
      then ExitCode (SelfCheck (bo_health B) (case ev_lookup (bo_conf B) ''VAPN_HTTP_ADDR'' of None \<Rightarrow> [] | Some a \<Rightarrow> a) '':8080'')
      else case run_state (coordinator_settings B) Source_New of (cs, src) \<Rightarrow>
        if src_Err src \<noteq> None \<or> \<not> connected B (cs_dsn cs) (cs_db_wait cs) then ExitCode 1
        else case cs_store cs of
          Inl _ \<Rightarrow> ExitCode 1
        | Inr None \<Rightarrow> ExitCode 1
        | Inr (Some store) \<Rightarrow>
            if cs_asn_mmdb cs \<noteq> [] \<and> bo_open_asn B (cs_asn_mmdb cs) = None then ExitCode 1
            else Started \<lparr>
              cp_config = \<lparr>cf_admin_token = cs_admin_token cs, cf_audit = True, cf_dev_token = cs_dev_token cs, cf_poll_ttl = 0, cf_lease_ttl = 0,
                cf_resolve_asn = (if cs_asn_mmdb cs = [] then None else bo_open_asn B (cs_asn_mmdb cs)), cf_max_assignments = cs_max_per_worker cs\<rparr>,
              cp_store = store,
              cp_advisor = (if cs_advisor_url cs = [] then None else Some (advisor_New (cs_advisor_url cs), cs_advisor_token cs)),
              cp_sync_interval = cs_sync_interval cs,
              cp_scheduler = \<lparr>Redundancy = cs_redundancy cs, FastInterval = 0, MidInterval = 0, SlowInterval = 0, MinInterval = 0\<rparr>,
              cp_sched_interval = cs_sched_interval cs, cp_addr = cs_addr cs, cp_dump = src_Dump src\<rparr>)"

section \<open>The aggregator\<close>

record agg_settings =
  as_addr :: string
  as_dsn :: string
  as_db_wait :: int
  as_trust_interval :: int
  as_window :: int
  as_min_workers :: int
  as_target_window :: int
  as_advisor_url :: string
  as_advisor_token :: string

definition aggregator_settings :: "boot_env \<Rightarrow> (Source, agg_settings) state" where
  "aggregator_settings B =
     (let V = bo_conf B in do {
        addr \<leftarrow> get_string V ''HTTP_ADDR'' '':8082'';
        dsn \<leftarrow> get_required V ''DB_DSN'';
        dbWait \<leftarrow> get_duration V ''DB_WAIT'' (60 * second);
        trustInterval \<leftarrow> get_duration V ''TRUST_INTERVAL'' minute;
        windowSeconds \<leftarrow> get_int V ''WINDOW_SECONDS'' 300;
        minWorkers \<leftarrow> get_int V ''MIN_WORKERS'' 3;
        targetWindow \<leftarrow> get_duration V ''TARGET_HEALTH_WINDOW'' (24 * hour);
        advisorURL \<leftarrow> get_string V ''ADVISOR_URL'' [];
        advisorToken \<leftarrow> get_string V ''ADVISOR_TOKEN'' [];
        State_Monad.return \<lparr>as_addr = addr, as_dsn = dsn, as_db_wait = dbWait, as_trust_interval = trustInterval, as_window = windowSeconds,
          as_min_workers = minWorkers, as_target_window = targetWindow, as_advisor_url = advisorURL, as_advisor_token = advisorToken\<rparr>
      })"

record agg_parts =
  ap_engine :: agg_config
  ap_trust_interval :: int
  ap_advisor :: "(string \<times> string) option"
  ap_publish_interval :: int
  ap_telemetry_interval :: int

definition aggregator_main :: "boot_env \<Rightarrow> string list \<Rightarrow> agg_parts boot" where
  "aggregator_main B args =
     (if args \<noteq> [] \<and> hd args = ''-healthcheck''
      then ExitCode (SelfCheck (bo_health B) (case ev_lookup (bo_conf B) ''VAPN_HTTP_ADDR'' of None \<Rightarrow> [] | Some a \<Rightarrow> a) '':8082'')
      else case run_state (aggregator_settings B) Source_New of (a, src) \<Rightarrow>
        if src_Err src \<noteq> None \<or> \<not> connected B (as_dsn a) (as_db_wait a) then ExitCode 1
        else Started \<lparr>
          ap_engine = \<lparr>ac_window_seconds = as_window a, ac_min_workers = as_min_workers a, ac_healthy = 0, ac_degraded = 0, ac_latency = 0,
            ac_target_window = as_target_window a, ac_raw_retention = 0, ac_window_retention = 0\<rparr>,
          ap_trust_interval = as_trust_interval a,
          ap_advisor = (if as_advisor_url a = [] then None else Some (advisor_New (as_advisor_url a), as_advisor_token a)),
          ap_publish_interval = 15 * second, ap_telemetry_interval = 5 * minute\<rparr>)"

section \<open>The builder\<close>

record build_settings =
  bs_dsn :: string
  bs_advisor_url :: string
  bs_advisor_token :: string
  bs_db_wait :: int
  bs_bview_url :: string
  bs_bview_max_age :: int
  bs_config :: build_config
  bs_store :: "store_error + store_choice option"
  bs_signing_key :: string
  bs_min_worker :: string

text \<open>The number of snapshots to retain is a natural number in \<^verbatim>\<open>Builder\<close>; a negative setting is outside the model.\<close>

definition builder_settings :: "boot_env \<Rightarrow> (Source, build_settings) state" where
  "builder_settings B =
     (let V = bo_conf B in do {
        dsn \<leftarrow> get_required V ''DB_DSN'';
        advisorURL \<leftarrow> get_string V ''ADVISOR_URL'' ''http://localhost:8081'';
        advisorToken \<leftarrow> get_required V ''ADVISOR_TOKEN'';
        dbWait \<leftarrow> get_duration V ''DB_WAIT'' (60 * second);
        bviewURL \<leftarrow> get_string V ''RIS_BVIEW_URL'' [];
        bviewMaxAge \<leftarrow> get_duration V ''RIS_BVIEW_MAX_AGE'' (6 * hour);
        bviewPath \<leftarrow> get_string V ''RIS_BVIEW_PATH'' ''data/ripe/latest-bview.gz'';
        cityMMDB \<leftarrow> get_string V ''GEOIP_CITY_MMDB'' [];
        perProvider \<leftarrow> get_int V ''MAX_TARGETS_PER_PROVIDER'' 100;
        perCountry \<leftarrow> get_int V ''MAX_TARGETS_PER_COUNTRY'' 10;
        deltaPct \<leftarrow> get_int V ''SANITY_MAX_DELTA_PCT'' 50;
        force \<leftarrow> get_bool V ''SANITY_FORCE'' False;
        retain \<leftarrow> get_int V ''RETAIN_SNAPSHOTS'' 5;
        store \<leftarrow> State (StoreFromConfig V (bo_s3 B));
        signingKey \<leftarrow> get_string V ''SNAPSHOT_SIGNING_KEY'' [];
        minWorker \<leftarrow> get_string V ''MIN_WORKER_VERSION'' ''0.1.0'';
        State_Monad.return \<lparr>bs_dsn = dsn, bs_advisor_url = advisorURL, bs_advisor_token = advisorToken, bs_db_wait = dbWait,
          bs_bview_url = bviewURL, bs_bview_max_age = bviewMaxAge,
          bs_config = \<lparr>bc_BviewPath = bviewPath, bc_CityMMDB = cityMMDB, bc_MaxTargetsPerProvider = perProvider,
            bc_MaxTargetsPerCountry = perCountry, bc_SanityMaxDelta = of_int deltaPct / 100, bc_SanityForce = force,
            bc_RetainSnapshots = nat retain, bc_GeoSource = None\<rparr>,
          bs_store = store, bs_signing_key = signingKey, bs_min_worker = minWorker\<rparr>
      })"

type_synonym 's build_world = "filesystem \<times> 's \<times> routing_schema \<times> scheduling_schema"

text \<open>
  \<open>site_of\<close> is the website behind an address and a credential, \<open>env_of\<close> what the build meets once the dump is in place, \<open>publisher_of\<close> the publisher for
  a store, a key and a version. A misconfigured website address is only logged.
\<close>

definition builder_main ::
  "boot_env \<Rightarrow> faults \<Rightarrow> download option \<Rightarrow> string \<Rightarrow> (string \<Rightarrow> time) \<Rightarrow> (bytes \<Rightarrow> bytes) \<Rightarrow> (string \<Rightarrow> string \<Rightarrow> site) \<Rightarrow>
     (site \<Rightarrow> filesystem \<Rightarrow> build_env) \<Rightarrow> (store_choice \<Rightarrow> bytes \<Rightarrow> string \<Rightarrow> 's publisher) \<Rightarrow> 's build_world \<Rightarrow> nat \<times> 's build_world" where
  "builder_main B F answer tmp mtime from_seed site_of env_of publisher_of world =
     (case world of (fs, st, R, S) \<Rightarrow>
      case run_state (builder_settings B) Source_New of (b, src) \<Rightarrow>
        if src_Err src \<noteq> None \<or> \<not> connected B (bs_dsn b) (bs_db_wait b) then (1, world)
        else case bs_store b of
          Inl _ \<Rightarrow> (1, world)
        | Inr store \<Rightarrow>
            (case (case store of None \<Rightarrow> Some None
                   | Some choice \<Rightarrow> map_option (\<lambda>key. Some (publisher_of choice key (bs_min_worker b))) (ParseSigningKey from_seed (bs_signing_key b))) of
               None \<Rightarrow> (1, world)
             | Some pub \<Rightarrow>
                 (case EnsureBview F (bo_now B) answer (bs_bview_url b) (bc_BviewPath (bs_config b)) (bs_bview_max_age b) tmp mtime fs of
                    (ok, states) \<Rightarrow>
                      if \<not> ok then (1, (last states, st, R, S))
                      else (case Builder.Run (env_of (site_of (advisor_New (bs_advisor_url b)) (bs_advisor_token b)) (last states)) (bs_config b) pub st R S of
                          (err, st', R', S') \<Rightarrow>
                            ((case err of None \<Rightarrow> 0 | Some ErrSanityGate \<Rightarrow> 2 | Some _ \<Rightarrow> 1), (last states, st', R', S'))))))"

section \<open>The other processes\<close>

definition migrate_settings :: "boot_env \<Rightarrow> (Source, string \<times> string \<times> int) state" where
  "migrate_settings B =
     (let V = bo_conf B in do {
        dsn \<leftarrow> get_required V ''DB_DSN'';
        dir \<leftarrow> get_string V ''MIGRATIONS_DIR'' ''migrations'';
        wait \<leftarrow> get_duration V ''DB_WAIT'' (60 * second);
        State_Monad.return (dsn, dir, wait)
      })"

text \<open>\<open>files\<close> lists the directory of the migrations.\<close>

definition migrate_main ::
  "boot_env \<Rightarrow> faults \<Rightarrow> (bytes \<Rightarrow> 'd \<Rightarrow> 'd option) \<Rightarrow> (string \<Rightarrow> migration_file list) \<Rightarrow> 'd migrated \<Rightarrow> nat \<times> 'd migrated" where
  "migrate_main B F run files s =
     (case run_state (migrate_settings B) Source_New of ((dsn, dir, wait), src) \<Rightarrow>
        if src_Err src \<noteq> None \<or> \<not> connected B dsn wait then (1, s)
        else case migrate_Apply F run (files dir) s of (ok, s') \<Rightarrow> (if ok then 0 else 1, s'))"

definition mock_settings :: "boot_env \<Rightarrow> (Source, string \<times> string \<times> string) state" where
  "mock_settings B =
     (let V = bo_conf B in do {
        addr \<leftarrow> get_string V ''HTTP_ADDR'' '':8081'';
        token \<leftarrow> get_string V ''ADVISOR_TOKEN'' ''dev-advisor-token'';
        fixtures \<leftarrow> get_string V ''MOCK_FIXTURES'' [];
        State_Monad.return (addr, token, fixtures)
      })"

definition mock_main :: "boot_env \<Rightarrow> faults \<Rightarrow> (bytes \<Rightarrow> Fixtures option) \<Rightarrow> bytes \<Rightarrow> filesystem \<Rightarrow> (string \<times> string \<times> Fixtures) boot" where
  "mock_main B F decode builtin fs =
     (case run_state (mock_settings B) Source_New of ((addr, token, path), src) \<Rightarrow>
        if src_Err src \<noteq> None then ExitCode 1
        else case (if path = [] then Some None else case read_file F path fs of FileBytes raw \<Rightarrow> Some (Some raw) | _ \<Rightarrow> None) of
          None \<Rightarrow> ExitCode 1
        | Some given \<Rightarrow> (case LoadFixtures decode builtin given of None \<Rightarrow> ExitCode 1 | Some fx \<Rightarrow> Started (addr, token, fx)))"

definition worker_settings :: "boot_env \<Rightarrow> (Source, AgentConfig \<times> int \<times> string) state" where
  "worker_settings B =
     (let V = bo_conf B in do {
        url \<leftarrow> get_required V ''COORDINATOR_URL'';
        token \<leftarrow> get_string V ''ENROLLMENT_TOKEN'' [];
        name \<leftarrow> get_string V ''WORKER_NAME'' [];
        dir \<leftarrow> get_string V ''STATE_DIR'' ''/state'';
        interval \<leftarrow> get_duration V ''HEARTBEAT_INTERVAL'' (30 * second);
        pub \<leftarrow> get_required V ''SNAPSHOT_PUBLIC_KEY'';
        State_Monad.return (\<lparr>ac_url = url, ac_token = token, ac_name = name, ac_dir = dir, ac_pub = []\<rparr>, interval, pub)
      })"

text \<open>\<open>x\<close> is what the start and the registration meet, \<open>xs\<close> what every later tick meets.\<close>

definition worker_main ::
  "boot_env \<Rightarrow> worker_env \<Rightarrow> 'w net \<Rightarrow> weather \<Rightarrow> weather list \<Rightarrow> string list \<Rightarrow> filesystem \<Rightarrow> 'w \<Rightarrow> nat \<times> filesystem \<times> 'w" where
  "worker_main B E net x xs args fs w =
     (case run_state (worker_settings B) Source_New of ((cfg0, interval, pubB64), src) \<Rightarrow>
        if src_Err src \<noteq> None then (1, fs, w)
        else case ParsePublicKey pubB64 of
          None \<Rightarrow> (1, fs, w)
        | Some pub \<Rightarrow>
            (let cfg = cfg0\<lparr>ac_pub := pub\<rparr> in
             case NewAgent E (wx_faults x) (wx_seed x 0) cfg fs of
               (None, fs') \<Rightarrow> (1, fs', w)
             | (Some k, fs') \<Rightarrow>
                 if args \<noteq> [] \<and> hd args = ''doctor'' then
                   (case Doctor E net x cfg k w of (bad, k', w') \<Rightarrow> (if bad > 0 then 1 else 0, wk_fs k', w'))
                 else (case agent_Run E net x xs cfg k w of (ok, k', w') \<Rightarrow> (if ok then 0 else 1, wk_fs k', w'))))"

text \<open>The seed of a fresh key pair, \<^const>\<open>None\<close> when the random source fails.\<close>

definition keygen_main :: "('a) crypto_scheme \<Rightarrow> (bytes \<Rightarrow> bytes) \<Rightarrow> bytes option \<Rightarrow> nat \<times> string list" where
  "keygen_main C from_seed rnd =
     (case rnd of
        None \<Rightarrow> (1, [])
      | Some seed \<Rightarrow> (0, [''VAPN_SNAPSHOT_SIGNING_KEY='' @ b64_encode seed,
          ''VAPN_SNAPSHOT_PUBLIC_KEY='' @ b64_encode (ed_public C (from_seed seed))]))"

section \<open>Gauges\<close>

text \<open>A gauge has a name, its labels and a value; each of the three queries can fail on its own.\<close>

type_synonym gauge = "string \<times> string list \<times> rat"

definition Collect_gauges :: "faults \<Rightarrow> time \<Rightarrow> db \<Rightarrow> gauge list" where
  "Collect_gauges F now D =
     (if F ''metrics.states'' then []
      else map (\<lambda>st. (''vapn_workers'', [st], of_nat (count_where (\<lambda>w. w_state w = st) (workers (registry_of D)))))
        (remdups (map w_state (workers (registry_of D))))) @
     (if F ''metrics.counts'' then []
      else [(''vapn_assignments_active'', [], of_nat (count_where (\<lambda>a. a_status a \<in> {''open'', ''leased''}) (assignments (scheduling_of D)))),
            (''vapn_leases_live'', [], of_nat (count_where live (leases (scheduling_of D)))),
            (''vapn_outbox_queued'', [], of_nat (count_where (\<lambda>r. ob_acked_at r = None) (publication_outbox (aggregation_of D))))]) @
     (if F ''metrics.snapshot'' then []
      else case published_snapshot (routing_of D) of
        None \<Rightarrow> []
      | Some s \<Rightarrow>
          [(''vapn_snapshot_age_seconds'', [], of_int (now - (case sn_published_at s of None \<Rightarrow> 0 | Some t \<Rightarrow> t)) / of_int second),
           (''vapn_snapshot_targets'', [], of_nat (count_where (\<lambda>t. tg_snapshot_id t = sn_id s) (probe_targets (routing_of D))))])"

section \<open>The load test\<close>

record load_stats =
  ls_ok :: "string \<Rightarrow> nat"
  ls_errors :: "string \<Rightarrow> nat"
  ls_latencies :: "string \<Rightarrow> int list"

definition newStats :: load_stats where
  "newStats = \<lparr>ls_ok = (\<lambda>_. 0), ls_errors = (\<lambda>_. 0), ls_latencies = (\<lambda>_. [])\<rparr>"

definition load_record :: "string \<Rightarrow> int \<Rightarrow> bool \<Rightarrow> load_stats \<Rightarrow> load_stats" where
  "load_record oper d failed s =
     (if failed then s\<lparr>ls_errors := (ls_errors s)(oper := ls_errors s oper + 1)\<rparr>
      else s\<lparr>ls_ok := (ls_ok s)(oper := ls_ok s oper + 1), ls_latencies := (ls_latencies s)(oper := ls_latencies s oper @ [d])\<rparr>)"

text \<open>The index is the product of the last index and \<open>p\<close>, rounded towards zero.\<close>

definition pct :: "int list \<Rightarrow> rat \<Rightarrow> int" where
  "pct ds p = (if ds = [] then 0 else sort ds ! nat \<lfloor>of_nat (length ds - 1) * p\<rfloor>)"

text \<open>A simulated worker: its client, the assignments it holds, the world and the counters. Every event takes the time \<open>d\<close>.\<close>

datatype load_event = LoadLease | LoadHeartbeat | LoadUpload

definition load_observation :: "time \<Rightarrow> rat \<Rightarrow> Assignment \<Rightarrow> Observation" where
  "load_observation now rtt a =
     \<lparr>AssignmentID = as_id a, Target = as_target a, ProbeType = ''icmp'', MeasuredAt = now, OK = True, RTTMillis = Some rtt,
      PacketsSent = 3, PacketsLost = 0, Metrics = [], Signature = []\<rparr>"

fun load_step ::
  "worker_env \<Rightarrow> 'w net \<Rightarrow> call \<Rightarrow> string \<Rightarrow> int \<Rightarrow> time \<Rightarrow> (Assignment \<Rightarrow> rat) \<Rightarrow> int \<Rightarrow> load_event \<Rightarrow> client \<Rightarrow>
     Assignment list \<times> 'w \<times> load_stats \<Rightarrow> Assignment list \<times> 'w \<times> load_stats" where
  "load_step E net cal batch capacity now rtt d LoadLease c (held, w, s) =
     (case client_LeaseAssignments E net cal c capacity w of
        (Inl e, w') \<Rightarrow> (held, w', load_record ''lease'' d True s)
      | (Inr got, w') \<Rightarrow> (got, w', load_record ''lease'' d False s))"
| "load_step E net cal batch capacity now rtt d LoadHeartbeat c (held, w, s) =
     (case client_Heartbeat E net cal c w of
        (r, w') \<Rightarrow> (held, w', load_record ''heartbeat'' d (\<not> is_ok r) s))"
| "load_step E net cal batch capacity now rtt d LoadUpload c (held, w, s) =
     (if held = [] then (held, w, s)
      else (let obs = List.map_filter (\<lambda>a. obs_Sign (we_env E) (we_marshal E) (cl_key c) (load_observation now (rtt a) a)) held in
        case client_UploadObservations E net cal c batch obs w of
          (r, w') \<Rightarrow> (held, w', load_record ''upload'' d (\<not> is_ok r) s)))"

definition load_exit :: "load_stats \<Rightarrow> nat" where
  "load_exit s = (if ls_errors s ''register'' > 0 \<or> ls_errors s ''upload'' > 0 then 1 else 0)"

section \<open>The settings of the coordinator\<close>

definition int_value :: "conf_env \<Rightarrow> string \<Rightarrow> int \<Rightarrow> int" where
  "int_value V k d = (case Atoi (value_of V (GetInt k d)) of None \<Rightarrow> d | Some n \<Rightarrow> n)"

definition bool_value :: "conf_env \<Rightarrow> string \<Rightarrow> bool \<Rightarrow> bool" where
  "bool_value V k d = (case ParseBool (value_of V (GetBool k d)) of None \<Rightarrow> d | Some b \<Rightarrow> b)"

definition duration_value :: "conf_env \<Rightarrow> string \<Rightarrow> int \<Rightarrow> int" where
  "duration_value V k d = (case ev_parse_duration V (value_of V (GetDuration k d)) of None \<Rightarrow> d | Some t \<Rightarrow> t)"

lemma read_values:
  "src_String V k d s = (value_of V (GetString k d), read_setting V (GetString k d) s)"
  "src_Require V k s = (value_of V (GetRequired k), read_setting V (GetRequired k) s)"
  "src_Int V k i s = (int_value V k i, read_setting V (GetInt k i) s)"
  "src_Bool V k b s = (bool_value V k b, read_setting V (GetBool k b) s)"
  "src_Duration V k i s = (duration_value V k i, read_setting V (GetDuration k i) s)"
  by (auto simp: src_String_def src_Require_def src_Int_def src_Bool_def src_Duration_def src_lookup_def value_of_def
      int_value_def bool_value_def duration_value_def Let_def split: option.split)

definition store_keys :: "setting list" where
  "store_keys = [GetString ''ARTIFACT_S3_ENDPOINT'' [], GetString ''ARTIFACT_DIR'' [], GetString ''ARTIFACT_S3_ACCESS_KEY'' [],
     GetString ''ARTIFACT_S3_SECRET_KEY'' [], GetString ''ARTIFACT_S3_BUCKET'' ''vapn-artifacts'', GetString ''ARTIFACT_S3_REGION'' [],
     GetBool ''ARTIFACT_S3_USE_SSL'' True]"

definition coordinator_keys :: "setting list" where
  "coordinator_keys = [GetString ''HTTP_ADDR'' '':8080'', GetRequired ''DB_DSN'', GetDuration ''DB_WAIT'' (60 * second), GetRequired ''ADMIN_TOKEN'',
     GetString ''DEV_ENROLLMENT_TOKEN'' [], GetDuration ''SCHEDULER_INTERVAL'' (30 * second), GetInt ''REDUNDANCY'' 3,
     GetInt ''MAX_ASSIGNMENTS_PER_WORKER'' 64, GetString ''GEOIP_ASN_MMDB'' [], GetString ''ADVISOR_URL'' [], GetString ''ADVISOR_TOKEN'' [],
     GetDuration ''ADVISOR_SYNC_INTERVAL'' (2 * minute)] @ store_keys"

definition store_value :: "conf_env \<Rightarrow> (S3Config \<Rightarrow> bool) \<Rightarrow> store_error + store_choice option" where
  "store_value V client = fst (StoreFromConfig V client Source_New)"

lemma StoreFromConfig_keys: "StoreFromConfig V client s = (store_value V client, foldl (\<lambda>s k. read_setting V k s) s store_keys)"
  by (simp only: StoreFromConfig_def store_value_def read_values prod.case fst_conv snd_conv store_keys_def foldl.simps)

lemma coordinator_settings_keys:
  assumes "run_state (coordinator_settings B) Source_New = (cs, src)"
  shows "src = read_settings (bo_conf B) coordinator_keys" "cs_admin_token cs = value_of (bo_conf B) (GetRequired ''ADMIN_TOKEN'')"
    "cs_max_per_worker cs = int_value (bo_conf B) ''MAX_ASSIGNMENTS_PER_WORKER'' 64" "cs_redundancy cs = int_value (bo_conf B) ''REDUNDANCY'' 3"
    "cs_store cs = store_value (bo_conf B) (bo_s3 B)" "cs_asn_mmdb cs = value_of (bo_conf B) (GetString ''GEOIP_ASN_MMDB'' [])"
  using assms unfolding coordinator_settings_def Let_def read_settings_def coordinator_keys_def
  by (auto simp: read_values StoreFromConfig_keys State_Monad.return_def simp del: read_setting.simps)

definition admin_endpoints :: "endpoint set" where
  "admin_endpoints = {ACreate, AList, ASetState, ARequestRotation, APause, AResume, AOverview, ADetail, ASnapshots, ARollback, AAudit}"

lemma coordinator_started:
  assumes "coordinator_main B args = Started parts"
  obtains cs where "run_state (coordinator_settings B) Source_New = (cs, read_settings (bo_conf B) coordinator_keys)"
    "src_Err (read_settings (bo_conf B) coordinator_keys) = None" "connected B (cs_dsn cs) (cs_db_wait cs)" "cs_store cs = Inr (Some (cp_store parts))"
    "cf_admin_token (cp_config parts) = cs_admin_token cs" "cp_dump parts = src_Dump (read_settings (bo_conf B) coordinator_keys)"
proof -
  obtain cs src where r: "run_state (coordinator_settings B) Source_New = (cs, src)" by (metis surj_pair)
  note src = coordinator_settings_keys(1) [OF r]
  show ?thesis
    using assms r that unfolding coordinator_main_def src
    by (auto split: if_split_asm sum.split_asm option.split_asm)
qed

text \<open>
  C13. The coordinator never runs with an open admin interface: it starts only when the admin token is set and not empty, every
  setting parses, the database is connected and exactly one object store is configured; and then every admin request
  whose credential is not that token is refused with status 401 and changes nothing.
\<close>

theorem coordinator_admin_guarded:
  assumes "coordinator_main B args = Started parts"
  shows "(\<forall>k \<in> set coordinator_keys. \<not> setting_bad (bo_conf B) k) \<and>
    (\<exists>t. ev_lookup (bo_conf B) ''VAPN_ADMIN_TOKEN'' = Some t \<and> t \<noteq> [] \<and>
      (\<forall>dp tx tk req sv e vs. dp_cfg dp = cp_config parts \<longrightarrow> route_of (req_method req) (req_path req) = Some (e, vs) \<longrightarrow> e \<in> admin_endpoints \<longrightarrow>
         header_get (req_header req) ''Authorization'' \<noteq> ''Bearer '' @ t \<longrightarrow> serve dp tx tk req sv = (problem 401 ''invalid admin credential'', sv)))"
proof -
  obtain cs where r: "run_state (coordinator_settings B) Source_New = (cs, read_settings (bo_conf B) coordinator_keys)"
    and ok: "src_Err (read_settings (bo_conf B) coordinator_keys) = None" and tok: "cf_admin_token (cp_config parts) = cs_admin_token cs"
    using coordinator_started [OF assms] by blast
  have good: "\<forall>k \<in> set coordinator_keys. \<not> setting_bad (bo_conf B) k" using ok src_Err_iff by blast
  define t where "t = value_of (bo_conf B) (GetRequired ''ADMIN_TOKEN'')"
  have "GetRequired ''ADMIN_TOKEN'' \<in> set coordinator_keys" by (simp add: coordinator_keys_def)
  then have "t \<noteq> []" using good by (fastforce simp: setting_bad_def t_def)
  then have set_: "ev_lookup (bo_conf B) ''VAPN_ADMIN_TOKEN'' = Some t"
    unfolding t_def by (simp add: value_of_def conf_prefix_def split: option.split_asm option.split)
  have cfg: "cf_admin_token (cp_config parts) = t" using coordinator_settings_keys(2) [OF r] tok by (simp add: t_def)
  have "serve dp tx tk req sv = (problem 401 ''invalid admin credential'', sv)"
    if "dp_cfg dp = cp_config parts" "route_of (req_method req) (req_path req) = Some (e, vs)" "e \<in> admin_endpoints"
      "header_get (req_header req) ''Authorization'' \<noteq> ''Bearer '' @ t" for dp tx tk req sv e vs
    using that cfg by (cases e) (simp_all add: serve_def endpoint_handler_def admin_def admin_endpoints_def)
  then show ?thesis using good \<open>t \<noteq> []\<close> set_ by blast
qed

section \<open>Keys, gauges and exit codes\<close>

text \<open>The two lines the key generator prints fit together: what the builder signs with the one verifies under the other.\<close>

theorem keygen_pair_works:
  assumes "ed25519_ok C" and "length seed = seed_size" and "length (ed_public C (from_seed seed)) = public_key_size"
    and "man_Sign C J (from_seed seed) m = Some m'"
  shows "\<exists>sk pk. keygen_main C from_seed (Some seed) = (0, [''VAPN_SNAPSHOT_SIGNING_KEY='' @ sk, ''VAPN_SNAPSHOT_PUBLIC_KEY='' @ pk]) \<and>
    ParseSigningKey from_seed sk = Some (from_seed seed) \<and> (\<exists>pub. ParsePublicKey pk = Some pub \<and> man_Verify C J m' pub)"
  using assms man_Sign_Verify [OF assms(1,4)]
  by (simp add: keygen_main_def ParseSigningKey_def ParsePublicKey_def)

text \<open>The gauges and the overview of the admin interface count the same rows.\<close>

theorem gauges_agree_with_overview:
  assumes "adminOverview dp et tk req sv = (JsonBody 200 (JObj fs), sv')" and "tk_faults tk = no_faults"
  shows "(''vapn_assignments_active'', [], r) \<in> set (Collect_gauges no_faults now (sv_db sv)) \<longleftrightarrow> map_of fs ''open_assignments'' = Some (JNum r)"
    and "(''vapn_leases_live'', [], r) \<in> set (Collect_gauges no_faults now (sv_db sv)) \<longleftrightarrow> map_of fs ''live_leases'' = Some (JNum r)"
    and "(''vapn_outbox_queued'', [], r) \<in> set (Collect_gauges no_faults now (sv_db sv)) \<longleftrightarrow> map_of fs ''outbox_queued'' = Some (JNum r)"
  using assms by (auto simp: adminOverview_def Collect_gauges_def Let_def writeJSON_def split: option.split)

lemma load_counts:
  "ls_ok (load_record x d b s) x + ls_errors (load_record x d b s) x = ls_ok s x + ls_errors s x + 1"
  "length (ls_latencies s x) = ls_ok s x \<Longrightarrow> length (ls_latencies (load_record y d b s) x) = ls_ok (load_record y d b s) x"
  by (auto simp: load_record_def)

theorem pct_bounds:
  assumes "ds \<noteq> []" and "0 \<le> p" and "p \<le> 1"
  shows "pct ds p \<in> set ds" and "pct ds 1 = Max (set ds)"
proof -
  have idx: "nat \<lfloor>of_nat (length ds - 1) * p\<rfloor> < length ds"
  proof -
    have "of_nat (length ds - 1) * p \<le> of_nat (length ds - 1)" using assms(3) by (simp add: mult_left_le)
    then have "\<lfloor>of_nat (length ds - 1) * p\<rfloor> \<le> int (length ds - 1)" by (metis floor_mono floor_of_nat)
    then show ?thesis using assms(1) by (simp add: nat_less_iff Suc_diff_le flip: length_greater_0_conv)
  qed
  then show "pct ds p \<in> set ds" using assms(1) by (metis length_sort nth_mem pct_def set_sort)
  have "x \<le> sort ds ! (length ds - 1)" if "x \<in> set ds" for x
  proof -
    have "x \<in> set (sort ds)" using that by simp
    then obtain i where "i < length ds" "x = sort ds ! i" unfolding in_set_conv_nth length_sort by blast
    then show ?thesis using sorted_nth_mono [of "sort ds" i "length ds - 1"] by simp
  qed
  moreover have "sort ds ! (length ds - 1) \<in> set ds" using assms(1) nth_mem [of "length ds - 1" "sort ds"] by simp
  ultimately have "sort ds ! (length ds - 1) = Max (set ds)" by (intro Max_eqI [symmetric]) auto
  then show "pct ds 1 = Max (set ds)" using assms(1) by (simp add: pct_def)
qed

section \<open>Witnesses\<close>

definition demo_boot :: boot_env where
  "demo_boot = \<lparr>bo_conf = \<lparr>ev_lookup = (\<lambda>k. if k = ''VAPN_ADMIN_TOKEN'' then Some ''adm'' else if k = ''VAPN_DB_DSN'' then Some ''d''
         else if k = ''VAPN_ARTIFACT_DIR'' then Some ''/s'' else None), ev_parse_duration = (\<lambda>_. Some second), ev_duration_text = (\<lambda>_. ''1s''), ev_quote = id\<rparr>,
     bo_s3 = (\<lambda>_. True), bo_attempt = (\<lambda>_ t. (True, t)), bo_now = 0, bo_open_asn = (\<lambda>_. None), bo_health = (\<lambda>_. Some 200)\<rparr>"

lemma demo_connected: "connected demo_boot dsn wait"
  using connect_loop.simps [of "Pair True" wait 0] by (simp add: connected_def WaitAndConnect_def demo_boot_def)

lemma demo_settings:
  "src_Err (read_settings (bo_conf demo_boot) coordinator_keys) = None"
  "store_value (bo_conf demo_boot) (bo_s3 demo_boot) = Inr (Some (UseDirectory ''/s''))"
  "value_of (bo_conf demo_boot) (GetString ''GEOIP_ASN_MMDB'' []) = []"
proof -
  have "Atoi (int_text 3) = Some 3" "Atoi (int_text 64) = Some 64" "ParseBool (bool_text True) = Some True" by code_simp+
  then show "src_Err (read_settings (bo_conf demo_boot) coordinator_keys) = None"
    unfolding src_Err_iff by (simp add: coordinator_keys_def store_keys_def setting_bad_def value_of_def conf_prefix_def demo_boot_def)
qed (simp_all add: store_value_def StoreFromConfig_def read_values value_of_def conf_prefix_def demo_boot_def del: read_setting.simps)

lemma demo_coordinator_runs: "\<exists>parts. coordinator_main demo_boot [] = Started parts"
proof -
  obtain cs src where r: "run_state (coordinator_settings demo_boot) Source_New = (cs, src)" by (metis surj_pair)
  show ?thesis
    using demo_settings demo_connected [of "cs_dsn cs" "cs_db_wait cs"] coordinator_settings_keys [OF r] by (simp add: coordinator_main_def r)
qed

theorem coordinator_admin_guarded_witness:
  "\<exists>parts. coordinator_main demo_boot [] = Started parts \<and>
     serve (demo_dp\<lparr>dp_cfg := cp_config parts\<rparr>) demo_texts (demo_tick 20) (demo_request ''POST'' ''/admin/v1/scheduler/pause'') demo_server =
       (problem 401 ''invalid admin credential'', demo_server)"
proof -
  obtain parts where p: "coordinator_main demo_boot [] = Started parts" using demo_coordinator_runs by blast
  have "header_get (req_header (demo_request m q)) ''Authorization'' = []" for m q
    by (simp add: demo_request_def Sign_def Let_def header_get_def header_set_def obj_set_def)
  moreover have "ev_lookup (bo_conf demo_boot) ''VAPN_ADMIN_TOKEN'' = Some ''adm''" by (simp add: demo_boot_def)
  moreover obtain t where t: "ev_lookup (bo_conf demo_boot) ''VAPN_ADMIN_TOKEN'' = Some t" and g: "\<forall>(dp :: filesystem deployment) tx tk req sv e vs. dp_cfg dp = cp_config parts \<longrightarrow>
      route_of (req_method req) (req_path req) = Some (e, vs) \<longrightarrow> e \<in> admin_endpoints \<longrightarrow>
      header_get (req_header req) ''Authorization'' \<noteq> ''Bearer '' @ t \<longrightarrow> serve dp tx tk req sv = (problem 401 ''invalid admin credential'', sv)"
    using coordinator_admin_guarded [OF p] by blast
  ultimately have "serve (demo_dp\<lparr>dp_cfg := cp_config parts\<rparr>) demo_texts (demo_tick 20) (demo_request ''POST'' ''/admin/v1/scheduler/pause'') demo_server =
      (problem 401 ''invalid admin credential'', demo_server)"
    using pause_route(1) by (intro g [rule_format, where e = APause and vs = "[]"]) (simp_all add: demo_request_simps admin_endpoints_def)
  then show ?thesis using p by blast
qed

end
