(* ===== verification/Spec2Isabelle.thy ===== *)
theory Spec2Isabelle
  imports Services
begin

text \<open>
  The VPS Advisor probing network: a fleet of volunteer workers probes addresses of hosting
  providers, a coordinator hands out the work and collects signed measurements, and background
  services turn them into public status documents. The program is the Go code under \<^verbatim>\<open>src/\<close>.

  \<^bold>\<open>Parts and theories.\<close> All services share one PostgreSQL database; \<^verbatim>\<open>Schema\<close> has a record per table and
  per schema. SQL embedded in the Go code is translated statement by statement into list operations
  (\<^verbatim>\<open>Prelude\<close>), a statement or a common table expression a definition.
  \<^item> \<^verbatim>\<open>Registry\<close>: \<^verbatim>\<open>internal/registry\<close>, identity, keys, tokens, lifecycle, replay nonces.
  \<^item> \<^verbatim>\<open>Scheduling\<close>: \<^verbatim>\<open>internal/scheduler\<close>, the reconciliation pass over the work pool.
  \<^item> \<^verbatim>\<open>Leasing\<close>, \<^verbatim>\<open>Upload\<close>: \<^verbatim>\<open>internal/coordinator/measurement.go\<close>, work out and measurements in.
  \<^item> \<^verbatim>\<open>WireAuth\<close>: \<^verbatim>\<open>internal/wireauth\<close>, \<^verbatim>\<open>internal/observation\<close>, signed requests and observations.
  \<^item> \<^verbatim>\<open>Artifact\<close>: \<^verbatim>\<open>internal/artifact\<close>, signed snapshots, the object store, rollback and pruning.
  \<^item> \<^verbatim>\<open>Advisor\<close>, \<^verbatim>\<open>AdvisorSync\<close>: \<^verbatim>\<open>internal/advisor\<close>, \<^verbatim>\<open>internal/coordinator/advisorsync.go\<close>, the website.
  \<^item> \<^verbatim>\<open>Coordinator\<close>, \<^verbatim>\<open>Access\<close>: \<^verbatim>\<open>internal/coordinator/server.go\<close>, \<^verbatim>\<open>rotation.go\<close>, \<^verbatim>\<open>admin.go\<close>, the HTTP
    service and what its endpoints guarantee together.
  \<^item> \<^verbatim>\<open>Trust\<close>, \<^verbatim>\<open>Consensus\<close>, \<^verbatim>\<open>Status\<close>: \<^verbatim>\<open>internal/trust\<close>, \<^verbatim>\<open>internal/aggregate\<close>, scores, verdicts, documents.
  \<^item> \<^verbatim>\<open>Outbox\<close>: \<^verbatim>\<open>internal/publisher\<close>, delivery of the documents to the website.
  \<^item> \<^verbatim>\<open>Mrt\<close>, \<^verbatim>\<open>Bogon\<close>, \<^verbatim>\<open>Geo\<close>: \<^verbatim>\<open>internal/routing\<close>, routing table dumps, reserved space, GeoIP.
  \<^item> \<^verbatim>\<open>Distribution\<close>, \<^verbatim>\<open>Targets\<close>, \<^verbatim>\<open>Builder\<close>: \<^verbatim>\<open>internal/builder\<close>, the address space of a provider per country, the
    choice of probe targets, the pipeline from a dump to a published snapshot.
  \<^item> \<^verbatim>\<open>Probe\<close>, \<^verbatim>\<open>WorkerClient\<close>, \<^verbatim>\<open>Worker\<close>: \<^verbatim>\<open>internal/probe\<close>, \<^verbatim>\<open>internal/worker\<close>, the probe engine, the state directory and
    client of a worker, its agent and executor as events.
  \<^item> \<^verbatim>\<open>Fleet\<close>: a worker whose network is the coordinator, with lost answers.
  \<^item> \<^verbatim>\<open>HostConfig\<close>, \<^verbatim>\<open>HostTool\<close>: \<^verbatim>\<open>cmd/vapn\<close>, the tool a volunteer runs: configuration file, installation, update with
    health gate and roll back, removal.
  \<^item> \<^verbatim>\<open>AdminTool\<close>: \<^verbatim>\<open>cmd/vapnctl\<close>, the tool of the platform operator, against the coordinator.
  \<^item> \<^verbatim>\<open>Platform\<close>: \<^verbatim>\<open>internal/platform\<close>, \<^verbatim>\<open>internal/builder/download.go\<close>, \<^verbatim>\<open>internal/artifact/storeconfig.go\<close>, configuration, migrations,
    waiting for the database, the download of a dump, readiness.
  \<^item> \<^verbatim>\<open>Website\<close>: the address check of the website client and \<^verbatim>\<open>internal/mockadvisor\<close>, the stand-in for the website.
  \<^item> \<^verbatim>\<open>Services\<close>: \<^verbatim>\<open>cmd/*/main.go\<close>, \<^verbatim>\<open>internal/coordinator/metrics.go\<close>: settings, refusals to start, wiring, exit codes.
  \<^item> \<^verbatim>\<open>Encoding\<close>, \<^verbatim>\<open>Netip\<close>, \<^verbatim>\<open>Http\<close>, \<^verbatim>\<open>Statistics\<close>: what the code uses of the Go library and of SQL.

  \<^bold>\<open>Conventions.\<close> An operation takes the state it reads and returns the new one. Database failures are
  a parameter, the fault plan, a predicate on the names of the statements: every theorem that
  takes it holds for every pattern of failures. A failing transaction leaves the tables alone; a
  sequence of separate statements keeps the effect of those before the failing one. The clock is an
  argument. Cryptography, \<^verbatim>\<open>encoding/json\<close> decoders, the RFC 3339 codec, the SQLite file format and
  the website are parameters with their documented laws as hypotheses, and so are \<^verbatim>\<open>gobgp\<close>, the GeoIP
  reader, docker and the network of a worker. Files are a map from paths to contents whose operations may fail. Double precision and numeric
  columns are rationals.

  \<^bold>\<open>What is shown.\<close> Invariants along every run: the registry tables, the work pool under any
  interleaving of lease calls, releases and scheduler statements, the open anomalies. Safety of the
  endpoints: a signed request is accepted once, admission needs a live key of a worker in good
  standing, tokens are redeemed once, retirement is final, stored measurements were signed and
  leased. Functional behaviour: scheduling passes settle and are idempotent, leases respect capacity
  and are work conserving, publication verifies what the store serves, pruning retains, windows are
  bounded and rest on evidence, rollups publish, the outbox delivers at least once. The builder counts each announced address once
  per country, extracts exactly the routable announcements of monitored networks, and a build that fails keeps what is published. A
  worker probes only addresses a verified snapshot lists and keeps a usable key whatever fails; together with the coordinator its
  measurements arrive in order and at least once, and heartbeats and snapshots get through. The host tool keeps the
  identity of a worker and leaves no unproven image behind a success; the tool of the operator makes exactly the transition it
  names; services log no secret, refuse to start without their settings, and run each migration once. Theorems on
  concrete states show where the code does not do what its comments say.

  \<^bold>\<open>Loops and fuel.\<close> The cursor walk of the website client has the fuel the code gives it,
  \<^verbatim>\<open>maxPages\<close>; registration makes the thirty attempts of the code, and waiting for a reply reads at most 64 packets
  before the deadline. Waiting for a status report has fuel for one poll every two seconds up to its deadline, which is shown to
  be enough. Flushing the upload buffer, waiting for the database and parsing flags recur under a measure. Service loops are folds
  over the list of their ticks. Every other function recurs on its data.

  \<^bold>\<open>Not modelled.\<close> Requests are served one after the other: the interleaving inside a handler is
  modelled only for scheduler passes and row locks. Log lines, progress messages, the alignment of printed tables and
  metrics counters have no state in the model; the gauges that are read from the database do. The raw socket of the ICMP probe, the S3 client, timers,
  signals and the shutdown of the HTTP server are input and output. Of the load test the report and its timers are left out.
\<close>

end
